(* ===== verification/Prelude.thy ===== *)
theory Prelude
  imports Main "HOL-Library.AList" "HOL-Library.Sublist"
begin

text \<open>
  Shared vocabulary of the development: the result type of code that may raise, the
  insertion-ordered dictionaries of Python, and the generic machine whose invariants the
  stateful components instantiate.
\<close>

section \<open>Collections of facts\<close>

named_theorems res_simps \<open>evaluation of the result monad\<close>
named_theorems dict_simps \<open>lookups in updated dictionaries\<close>

section \<open>Results of code that may raise\<close>

text \<open>
  A Python call either returns a value (\<open>Inr\<close>) or raises (\<open>Inl\<close>).  Sequencing two calls
  stops at the first that raises.
\<close>

definition bind_res :: "'e + 'a \<Rightarrow> ('a \<Rightarrow> 'e + 'b) \<Rightarrow> 'e + 'b" where
  "bind_res m f = (case m of Inl e \<Rightarrow> Inl e | Inr x \<Rightarrow> f x)"

definition require :: "bool \<Rightarrow> 'e \<Rightarrow> 'e + unit" where
  "require b e = (if b then Inr () else Inl e)"

lemma bind_res_simps [simp, res_simps]:
  "bind_res (Inl e) f = Inl e"
  "bind_res (Inr x) f = f x"
  by (simp_all add: bind_res_def)

lemma require_simps [simp, res_simps]:
  "require True e = Inr ()"
  "require False e = Inl e"
  by (simp_all add: require_def)

lemma require_eq_Inr [simp]: "require b e = Inr u \<longleftrightarrow> b"
  by (simp add: require_def)

lemma require_eq_Inl [simp]: "require b e = Inl e' \<longleftrightarrow> \<not> b \<and> e' = e"
  by (auto simp: require_def)

lemma bind_res_eq_Inr: "bind_res m f = Inr y \<longleftrightarrow> (\<exists>x. m = Inr x \<and> f x = Inr y)"
  by (cases m) simp_all

lemma bind_res_eq_Inl:
  "bind_res m f = Inl e \<longleftrightarrow> m = Inl e \<or> (\<exists>x. m = Inr x \<and> f x = Inl e)"
  by (cases m) simp_all

lemma case_prod_eq_Inr:
  "(case p of (a, b) \<Rightarrow> f a b) = Inr y \<longleftrightarrow> (\<exists>a b. p = (a, b) \<and> f a b = Inr y)"
  by (cases p) simp

lemma case_prod_eq_Inl:
  "(case p of (a, b) \<Rightarrow> f a b) = Inl e \<longleftrightarrow> (\<exists>a b. p = (a, b) \<and> f a b = Inl e)"
  by (cases p) simp

lemmas res_Inr = bind_res_eq_Inr case_prod_eq_Inr
lemmas res_Inl = bind_res_eq_Inl case_prod_eq_Inl

lemma bind_res_InrE:
  assumes "bind_res m f = Inr y"
  obtains x where "m = Inr x" "f x = Inr y"
  using assms by (auto simp: bind_res_eq_Inr)

lemma bind_res_assoc: "bind_res (bind_res m f) g = bind_res m (\<lambda>x. bind_res (f x) g)"
  by (cases m) simp_all

lemma bind_res_cong [fundef_cong]:
  "m = m' \<Longrightarrow> (\<And>x. m' = Inr x \<Longrightarrow> f x = g x) \<Longrightarrow> bind_res m f = bind_res m' g"
  by (cases m') simp_all

lemma bind_res_split:
  "P (bind_res m f) \<longleftrightarrow> (\<forall>e. m = Inl e \<longrightarrow> P (Inl e)) \<and> (\<forall>x. m = Inr x \<longrightarrow> P (f x))"
  by (cases m) simp_all

text \<open>A loop over a list that stops at the first element whose body raises.\<close>

fun map_res :: "('a \<Rightarrow> 'e + 'b) \<Rightarrow> 'a list \<Rightarrow> 'e + 'b list" where
  "map_res f [] = Inr []"
| "map_res f (x # xs) = bind_res (f x) (\<lambda>y. bind_res (map_res f xs) (\<lambda>ys. Inr (y # ys)))"

lemma map_res_cong [fundef_cong]:
  "xs = ys \<Longrightarrow> (\<And>x. x \<in> set ys \<Longrightarrow> f x = g x) \<Longrightarrow> map_res f xs = map_res g ys"
  by (induction xs arbitrary: ys) auto

lemma map_res_length: "map_res f xs = Inr ys \<Longrightarrow> length ys = length xs"
  by (induction xs arbitrary: ys) (auto simp: bind_res_eq_Inr)

lemma map_res_Inr_nth:
  "map_res f xs = Inr ys \<Longrightarrow> i < length xs \<Longrightarrow> f (xs ! i) = Inr (ys ! i)"
  by (induction xs arbitrary: ys i) (auto simp: bind_res_eq_Inr nth_Cons split: nat.splits)

lemma map_res_eq_Inr_iff: "map_res f xs = Inr ys \<longleftrightarrow> list_all2 (\<lambda>x y. f x = Inr y) xs ys"
  by (induction xs arbitrary: ys) (auto simp: bind_res_eq_Inr list_all2_Cons1)

lemma map_res_arg: "map_res f xs = Inr ys \<Longrightarrow> x \<in> set xs \<Longrightarrow> \<exists>y \<in> set ys. f x = Inr y"
  by (induction xs arbitrary: ys) (auto simp: bind_res_eq_Inr)

lemma map_res_result: "map_res f xs = Inr ys \<Longrightarrow> y \<in> set ys \<Longrightarrow> \<exists>x \<in> set xs. f x = Inr y"
  by (induction xs arbitrary: ys) (auto simp: bind_res_eq_Inr)

section \<open>Dictionaries\<close>

text \<open>
  A Python \<open>dict\<close> keeps the order in which its keys were first inserted: an association
  list with distinct keys.  \<open>d[k] = v\<close> is \<open>AList.update k v d\<close> (an existing key keeps its
  place), \<open>d.pop(k, None)\<close> is \<open>AList.delete k d\<close>, \<open>d.get(k)\<close> is \<open>map_of d k\<close> and iteration
  follows the list.
\<close>

type_synonym ('k, 'v) dict = "('k \<times> 'v) list"

abbreviation dict_get :: "('k, 'v) dict \<Rightarrow> 'k \<Rightarrow> 'v option" where
  "dict_get d k \<equiv> map_of d k"

abbreviation dict_set :: "'k \<Rightarrow> 'v \<Rightarrow> ('k, 'v) dict \<Rightarrow> ('k, 'v) dict" where
  "dict_set k v d \<equiv> AList.update k v d"

abbreviation dict_pop :: "'k \<Rightarrow> ('k, 'v) dict \<Rightarrow> ('k, 'v) dict" where
  "dict_pop k d \<equiv> AList.delete k d"

abbreviation dict_keys :: "('k, 'v) dict \<Rightarrow> 'k list" where
  "dict_keys d \<equiv> map fst d"

definition dict_setdefault :: "'k \<Rightarrow> 'v \<Rightarrow> ('k, 'v) dict \<Rightarrow> ('k, 'v) dict" where
  "dict_setdefault k v d = (case map_of d k of None \<Rightarrow> AList.update k v d | Some _ \<Rightarrow> d)"

definition wf_dict :: "('k, 'v) dict \<Rightarrow> bool" where
  "wf_dict d \<longleftrightarrow> distinct (map fst d)"

lemma dict_get_set [dict_simps]: "map_of (AList.update k v d) k' = (if k' = k then Some v else map_of d k')"
  by (simp add: update_conv')

lemma dict_get_pop [dict_simps]: "map_of (AList.delete k d) k' = (if k' = k then None else map_of d k')"
  by (simp add: delete_conv')

lemma dict_set_eq_map_upd: "map_of (AList.update k v d) = (map_of d)(k \<mapsto> v)"
  by (simp add: update_conv')

lemma wf_dict_Nil [simp]: "wf_dict []"
  by (simp add: wf_dict_def)

lemma wf_dict_set [simp]: "wf_dict d \<Longrightarrow> wf_dict (AList.update k v d)"
  unfolding wf_dict_def by (rule distinct_update)

lemma wf_dict_pop [simp]: "wf_dict d \<Longrightarrow> wf_dict (AList.delete k d)"
  unfolding wf_dict_def by (rule distinct_delete)

lemma dict_keys_set:
  "map fst (AList.update k v d) = (if k \<in> fst ` set d then map fst d else map fst d @ [k])"
  by (induction d) auto

lemma dict_keys_set_Some: "map_of d k = Some r \<Longrightarrow> map fst (AList.update k v d) = map fst d"
  by (simp add: dict_keys_set image_iff) (metis map_of_SomeD fst_conv)

lemma set_dict_set_subset: "set (AList.update k v d) \<subseteq> insert (k, v) (set d)"
  by (induction d) auto

lemma dict_ex_iff: "wf_dict d \<Longrightarrow> (\<exists>x \<in> set d. P (fst x) (snd x)) \<longleftrightarrow> (\<exists>k v. map_of d k = Some v \<and> P k v)"
  unfolding wf_dict_def by (metis map_of_SomeD map_of_is_SomeI fst_conv snd_conv prod.collapse)

lemma dict_all_iff: "wf_dict d \<Longrightarrow> (\<forall>x \<in> set d. P (snd x)) \<longleftrightarrow> (\<forall>k v. map_of d k = Some v \<longrightarrow> P v)"
  unfolding wf_dict_def by (metis map_of_SomeD map_of_is_SomeI snd_conv prod.collapse)

lemma dict_empty_iff: "d = [] \<longleftrightarrow> (\<forall>k. map_of d k = None)"
  by (cases d) auto

lemma map_of_rev_distinct: "distinct (map fst xs) \<Longrightarrow> map_of (rev xs) = map_of xs"
  by (metis distinct_rev map_of_eqI map_of_inject_set rev_map set_map set_rev)

text \<open>A dictionary comprehension over a list: a later pair overwrites an earlier one.\<close>

definition dict_of :: "('k \<times> 'v) list \<Rightarrow> ('k, 'v) dict" where
  "dict_of kvs = foldl (\<lambda>d kv. AList.update (fst kv) (snd kv) d) [] kvs"

lemma dict_of_Nil [simp]: "dict_of [] = []"
  by (simp add: dict_of_def)

lemma dict_of_snoc [simp]: "dict_of (kvs @ [kv]) = AList.update (fst kv) (snd kv) (dict_of kvs)"
  by (simp add: dict_of_def)

lemma wf_dict_of [simp]: "wf_dict (dict_of kvs)"
  by (induction kvs rule: rev_induct) auto

lemma dict_get_of: "map_of (dict_of kvs) k = map_of (rev kvs) k"
  by (induction kvs rule: rev_induct) (auto simp: dict_get_set)

lemma dict_get_of_distinct: "distinct (map fst kvs) \<Longrightarrow> map_of (dict_of kvs) k = map_of kvs k"
  by (simp add: dict_get_of map_of_rev_distinct)

lemma dict_get_of_None: "map_of (dict_of kvs) k = None \<longleftrightarrow> k \<notin> fst ` set kvs"
  by (simp add: dict_get_of map_of_eq_None_iff)

text \<open>\<open>{**a, **b}\<close>\<close>

definition dict_merge :: "('k, 'v) dict \<Rightarrow> ('k, 'v) dict \<Rightarrow> ('k, 'v) dict" where
  "dict_merge a b = foldl (\<lambda>d kv. AList.update (fst kv) (snd kv) d) a b"

lemma dict_merge_get:
  "map_of (dict_merge a b) k = (case map_of (rev b) k of None \<Rightarrow> map_of a k | Some v \<Rightarrow> Some v)"
  unfolding dict_merge_def
proof (induction b arbitrary: a)
  case (Cons kv b)
  then show ?case by (auto simp: dict_get_set map_add_def split: option.splits)
qed simp

lemma dict_merge_get_wf:
  "wf_dict b \<Longrightarrow> map_of (dict_merge a b) k = (case map_of b k of None \<Rightarrow> map_of a k | Some v \<Rightarrow> Some v)"
  by (simp add: dict_merge_get wf_dict_def map_of_rev_distinct)

lemma dict_merge_wf [simp]: "wf_dict a \<Longrightarrow> wf_dict (dict_merge a b)"
  unfolding dict_merge_def by (induction b arbitrary: a) auto

lemma dict_merge_fresh:
  "wf_dict (a @ b) \<Longrightarrow> dict_merge a b = a @ b"
proof (induction b arbitrary: a)
  case (Cons kv b)
  obtain k v where kv: "kv = (k, v)" by (cases kv)
  have "k \<notin> fst ` set a" using Cons.prems kv by (auto simp: wf_dict_def)
  then have "AList.update k v a = a @ [(k, v)]" by (induction a) auto
  with Cons.IH [of "a @ [(k, v)]"] Cons.prems kv show ?case
    by (simp add: dict_merge_def)
qed (simp add: dict_merge_def)

lemma dict_merge_Nil [simp]: "wf_dict b \<Longrightarrow> dict_merge [] b = b"
  using dict_merge_fresh [of "[]" b] by simp

section \<open>Machines and their invariants\<close>

text \<open>
  A component with state is a function from a state and an operation to either an error or
  the next state with the values handed out.  \<open>run_ops\<close> runs a sequence of operations and
  collects what they hand out; an operation that raises leaves the state as it was (the
  guards of the modelled components raise before they write).
\<close>

fun run_ops :: "('s \<Rightarrow> 'op \<Rightarrow> 'e + 's \<times> 'o list) \<Rightarrow> 's \<Rightarrow> 'op list \<Rightarrow> 's \<times> 'o list" where
  "run_ops step s [] = (s, [])"
| "run_ops step s (x # xs) =
     (case step s x of
        Inl e \<Rightarrow> run_ops step s xs
      | Inr (s', out) \<Rightarrow> (case run_ops step s' xs of (t, outs) \<Rightarrow> (t, out @ outs)))"

text \<open>
  The contract of such a component: an invariant over its state and everything it has handed
  out so far, which holds at the start and which every operation that returns preserves.
\<close>

locale invariant_machine =
  fixes step :: "'s \<Rightarrow> 'op \<Rightarrow> 'e + 's \<times> 'o list"
    and start :: "'s \<Rightarrow> bool"
    and inv :: "'s \<Rightarrow> 'o list \<Rightarrow> bool"
  assumes inv_start: "start s \<Longrightarrow> inv s []"
    and inv_step: "inv s outs \<Longrightarrow> step s x = Inr (s', out) \<Longrightarrow> inv s' (outs @ out)"
begin

lemma run_from: "inv s outs \<Longrightarrow> run_ops step s xs = (t, out) \<Longrightarrow> inv t (outs @ out)"
proof (induction xs arbitrary: s outs out)
  case Nil
  then show ?case by simp
next
  case (Cons x xs)
  show ?case
  proof (cases "step s x")
    case (Inl e)
    with Cons.prems show ?thesis using Cons.IH by auto
  next
    case (Inr r)
    obtain s' o1 where r: "r = (s', o1)" by (cases r)
    obtain o2 where o2: "run_ops step s' xs = (t, o2)" "out = o1 @ o2"
      using Cons.prems(2) Inr r by (auto split: prod.splits)
    have "inv s' (outs @ o1)"
      using inv_step Cons.prems(1) Inr r by blast
    from Cons.IH [OF this o2(1)] show ?thesis
      using o2(2) by simp
  qed
qed

lemma run_inv: "start s \<Longrightarrow> run_ops step s xs = (t, out) \<Longrightarrow> inv t out"
  using run_from [OF inv_start, of s xs t out] by simp

end

end
