(* ===== verification/Validation.thy ===== *)
theory Validation
  imports Json
begin

text \<open>
  \<open>validation/models.py\<close>, \<open>validation/contracts.py\<close>, \<open>validation/references.py\<close> and the
  message keys of \<open>localization.py\<close>: issues, reports, the translation of the errors of the
  model library (Pydantic, whose error records are the input) and the issues of
  configuration references.
\<close>

section \<open>Issues and reports\<close>

datatype message_arg = ArgStr string | ArgInt int | ArgFloat real | ArgBool bool | ArgNone

datatype severity = Sev_error | Sev_warning

record validation_issue =
  vi_code :: string
  vi_scope :: string
  vi_path :: string
  vi_message :: string
  vi_message_key :: string
  vi_message_args :: "(string, message_arg) dict"
  vi_owner_id :: string
  vi_owner_name :: string
  vi_owner_type :: string
  vi_severity :: severity

record validation_report =
  vr_stage :: string
  vr_issues :: "validation_issue list"

definition report_valid :: "validation_report \<Rightarrow> bool" where
  "report_valid r \<longleftrightarrow> \<not> (\<exists>i \<in> set (vr_issues r). vi_severity i = Sev_error)"

text \<open>
  A message key is a dotted path of two or more camel case names.  Constructing an issue with
  another key raises; the theorems on the components show that theirs are always keys.
\<close>

abbreviation char_nat :: "char \<Rightarrow> nat" where
  "char_nat c \<equiv> of_char c"

definition lower_char :: "char \<Rightarrow> bool" where
  "lower_char c \<longleftrightarrow> 97 \<le> char_nat c \<and> char_nat c \<le> 122"

definition upper_char :: "char \<Rightarrow> bool" where
  "upper_char c \<longleftrightarrow> 65 \<le> char_nat c \<and> char_nat c \<le> 90"

definition digit_class :: "char \<Rightarrow> bool" where
  "digit_class c \<longleftrightarrow> 48 \<le> char_nat c \<and> char_nat c \<le> 57"

definition alnum_char :: "char \<Rightarrow> bool" where
  "alnum_char c \<longleftrightarrow> lower_char c \<or> upper_char c \<or> digit_class c"

text \<open>\<open>str.split(sep)\<close> for a one-character separator: always at least one part.\<close>

fun split_on :: "char \<Rightarrow> string \<Rightarrow> string list" where
  "split_on sep [] = [[]]"
| "split_on sep (c # cs) =
     (if c = sep then [] # split_on sep cs
      else (case split_on sep cs of [] \<Rightarrow> [[c]] | w # ws \<Rightarrow> (c # w) # ws))"

lemma split_on_nonempty [simp]: "split_on sep s \<noteq> []"
  by (induction s) (auto split: list.splits)

text \<open>The order of Python strings, on the code points (here bytes) of the text.\<close>

fun str_less_eq :: "string \<Rightarrow> string \<Rightarrow> bool" where
  "str_less_eq [] _ = True"
| "str_less_eq (_ # _) [] = False"
| "str_less_eq (a # as) (b # bs) =
     (char_nat a < char_nat b \<or> a = b \<and> str_less_eq as bs)"

definition message_key_ok :: "string \<Rightarrow> bool" where
  "message_key_ok k \<longleftrightarrow>
     (let parts = split_on (CHR ''.'') k in
      length parts \<ge> 2 \<and>
      (\<forall>p \<in> set parts. p \<noteq> [] \<and> lower_char (hd p) \<and> (\<forall>c \<in> set (tl p). alnum_char c)))"

section \<open>Errors of the model library\<close>

datatype loc_part = LocIndex int | LocKey string

record model_error =
  me_type :: string
  me_loc :: "loc_part list"
  me_msg :: string
  me_ctx :: "(string, json) dict option"

definition error_codes :: "(string \<times> string) list" where
  "error_codes =
    [(''extra_forbidden'', ''contract.unknown_field''),
     (''missing'', ''contract.field_required''),
     (''string_too_short'', ''contract.text_too_short''),
     (''string_too_long'', ''contract.text_too_long''),
     (''string_pattern_mismatch'', ''contract.invalid_format''),
     (''value_error'', ''contract.invalid_value''),
     (''too_short'', ''contract.collection_too_short''),
     (''too_long'', ''contract.collection_too_long''),
     (''literal_error'', ''contract.invalid_choice''),
     (''enum'', ''contract.invalid_choice''),
     (''finite_number'', ''contract.number_not_finite''),
     (''greater_than'', ''contract.number_greater_than''),
     (''greater_than_equal'', ''contract.number_at_least''),
     (''less_than'', ''contract.number_less_than''),
     (''less_than_equal'', ''contract.number_at_most''),
     (''int_type'', ''contract.integer_required''),
     (''int_parsing'', ''contract.integer_required''),
     (''float_type'', ''contract.number_required''),
     (''float_parsing'', ''contract.number_required''),
     (''bool_type'', ''contract.boolean_required''),
     (''bool_parsing'', ''contract.boolean_required''),
     (''string_type'', ''contract.text_required''),
     (''list_type'', ''contract.collection_required''),
     (''tuple_type'', ''contract.collection_required''),
     (''set_type'', ''contract.collection_required''),
     (''dict_type'', ''contract.object_required''),
     (''mapping_type'', ''contract.object_required''),
     (''model_type'', ''contract.object_required''),
     (''model_attributes_type'', ''contract.object_required'')]"

definition error_message_keys :: "(string \<times> string) list" where
  "error_message_keys =
    [(''extra_forbidden'', ''validation.issue.contract.unknownField''),
     (''missing'', ''validation.issue.contract.fieldRequired''),
     (''string_too_short'', ''validation.issue.contract.textTooShort''),
     (''string_too_long'', ''validation.issue.contract.textTooLong''),
     (''string_pattern_mismatch'', ''validation.issue.contract.invalidFormat''),
     (''value_error'', ''validation.issue.contract.invalidValue''),
     (''too_short'', ''validation.issue.contract.collectionTooShort''),
     (''too_long'', ''validation.issue.contract.collectionTooLong''),
     (''literal_error'', ''validation.issue.contract.invalidChoice''),
     (''enum'', ''validation.issue.contract.invalidChoice''),
     (''finite_number'', ''validation.issue.contract.numberNotFinite''),
     (''greater_than'', ''validation.issue.contract.numberGreaterThan''),
     (''greater_than_equal'', ''validation.issue.contract.numberAtLeast''),
     (''less_than'', ''validation.issue.contract.numberLessThan''),
     (''less_than_equal'', ''validation.issue.contract.numberAtMost''),
     (''int_type'', ''validation.issue.contract.integerRequired''),
     (''int_parsing'', ''validation.issue.contract.integerRequired''),
     (''float_type'', ''validation.issue.contract.numberRequired''),
     (''float_parsing'', ''validation.issue.contract.numberRequired''),
     (''bool_type'', ''validation.issue.contract.booleanRequired''),
     (''bool_parsing'', ''validation.issue.contract.booleanRequired''),
     (''string_type'', ''validation.issue.contract.textRequired''),
     (''list_type'', ''validation.issue.contract.collectionRequired''),
     (''tuple_type'', ''validation.issue.contract.collectionRequired''),
     (''set_type'', ''validation.issue.contract.collectionRequired''),
     (''dict_type'', ''validation.issue.contract.objectRequired''),
     (''mapping_type'', ''validation.issue.contract.objectRequired''),
     (''model_type'', ''validation.issue.contract.objectRequired''),
     (''model_attributes_type'', ''validation.issue.contract.objectRequired'')]"

definition error_arg_keys :: "(string \<times> string list) list" where
  "error_arg_keys =
    [(''string_too_short'', [''min_length'']),
     (''string_too_long'', [''max_length'']),
     (''too_short'', [''min_length'']),
     (''too_long'', [''max_length'']),
     (''greater_than'', [''gt'']),
     (''greater_than_equal'', [''ge'']),
     (''less_than'', [''lt'']),
     (''less_than_equal'', [''le'']),
     (''literal_error'', [''expected'']),
     (''enum'', [''expected''])]"

definition specific_contract_identity ::
  "string \<Rightarrow> string \<Rightarrow> string \<Rightarrow> string \<Rightarrow> (string \<times> string) option" where
  "specific_contract_identity error_type path scope owner_type =
     (if error_type = ''string_pattern_mismatch'' \<and> scope = ''subagent'' \<and> path = ''name''
      then Some (''contract.subagent_name_format_invalid'',
                 ''validation.issue.contract.subagentNameFormatInvalid'')
      else if error_type \<in> {''string_pattern_mismatch'', ''value_error''} \<and>
        owner_type \<in> {''custom-middleware'', ''command'', ''agent-event-output'',
                       ''workflow-event-output''} \<and>
        path = ''python_package.folder''
      then Some (''contract.python_package_folder_format_invalid'',
                 ''validation.issue.contract.pythonPackageFolderFormatInvalid'')
      else if error_type = ''value_error'' \<and> scope = ''external_agent'' \<and> path = ''env''
      then Some (''contract.external_agent_env_reserved'',
                 ''validation.issue.contract.externalAgentEnvReserved'')
      else None)"

definition loc_path :: "loc_part list \<Rightarrow> string" where
  "loc_path loc = foldl (\<lambda>result part.
     case part of
       LocIndex i \<Rightarrow> result @ ''['' @ int_str i @ '']''
     | LocKey k \<Rightarrow> result @ (if result \<noteq> [] then ''.'' else []) @ k) [] loc"

definition value_error_prefix :: string where
  "value_error_prefix = ''Value error, ''"

definition removeprefix :: "string \<Rightarrow> string \<Rightarrow> string" where
  "removeprefix p s = (if prefix p s then drop (length p) s else s)"

definition error_message :: "model_error \<Rightarrow> string" where
  "error_message e =
     removeprefix value_error_prefix
       (if me_msg e \<noteq> [] then me_msg e else ''The value does not satisfy the contract.'')"

fun json_message_arg :: "json \<Rightarrow> message_arg option" where
  "json_message_arg JNull = Some ArgNone"
| "json_message_arg (JBool b) = Some (ArgBool b)"
| "json_message_arg (JInt i) = Some (ArgInt i)"
| "json_message_arg (JFloat r) = Some (ArgFloat r)"
| "json_message_arg (JStr s) = Some (ArgStr s)"
| "json_message_arg _ = None"

definition error_message_args :: "model_error \<Rightarrow> (string, message_arg) dict" where
  "error_message_args e =
     (case me_ctx e of
        None \<Rightarrow> []
      | Some ctx \<Rightarrow>
          foldl (\<lambda>result key.
            case json_message_arg (case map_of ctx key of None \<Rightarrow> JNull | Some v \<Rightarrow> v) of
              None \<Rightarrow> result
            | Some a \<Rightarrow> AList.update key a result)
          [] (case map_of error_arg_keys (me_type e) of None \<Rightarrow> [] | Some ks \<Rightarrow> ks))"

definition issue_from_error ::
  "string \<Rightarrow> string \<Rightarrow> string \<Rightarrow> string \<Rightarrow> model_error \<Rightarrow> validation_issue" where
  "issue_from_error scope owner_id owner_name owner_type e =
     (let path = loc_path (me_loc e);
          specific = specific_contract_identity (me_type e) path scope owner_type in
      \<lparr>vi_code = (case specific of Some x \<Rightarrow> fst x
          | None \<Rightarrow> (case map_of error_codes (me_type e) of
                       None \<Rightarrow> ''contract.invalid_value'' | Some c \<Rightarrow> c)),
       vi_scope = scope, vi_path = path, vi_message = error_message e,
       vi_message_key = (case specific of Some x \<Rightarrow> snd x
          | None \<Rightarrow> (case map_of error_message_keys (me_type e) of
                       None \<Rightarrow> ''validation.issue.contract.invalidValue'' | Some c \<Rightarrow> c)),
       vi_message_args = error_message_args e,
       vi_owner_id = owner_id, vi_owner_name = owner_name, vi_owner_type = owner_type,
       vi_severity = Sev_error\<rparr>)"

definition report_from_validation_error ::
  "model_error list \<Rightarrow> string \<Rightarrow> string \<Rightarrow> string \<Rightarrow> string \<Rightarrow> string \<Rightarrow> validation_report" where
  "report_from_validation_error errors stage scope owner_id owner_name owner_type =
     \<lparr>vr_stage = stage,
      vr_issues = map (issue_from_error scope owner_id owner_name owner_type) errors\<rparr>"

lemma issue_from_error_severity [simp]: "vi_severity (issue_from_error a b c d e) = Sev_error"
  by (simp add: issue_from_error_def Let_def)

text \<open>A report of one or more errors is never valid.\<close>

lemma report_from_errors_invalid:
  "report_valid (report_from_validation_error errs st sc oi nm ot) \<longleftrightarrow> errs = []"
  by (cases errs) (auto simp: report_valid_def report_from_validation_error_def)

lemma map_of_values: "map_of d k = Some v \<Longrightarrow> \<forall>x \<in> set (map snd d). P x \<Longrightarrow> P v"
  by (auto dest!: map_of_SomeD)

section \<open>Issues of configuration references\<close>

definition reference_not_found_issue ::
  "string \<Rightarrow> string \<Rightarrow> string \<Rightarrow> string \<Rightarrow> string \<Rightarrow> string \<Rightarrow> string \<Rightarrow> validation_issue" where
  "reference_not_found_issue scope owner_id owner_name owner_type path reference_id expected_type =
     \<lparr>vi_code = ''configuration.reference_not_found'', vi_scope = scope, vi_path = path,
      vi_message = ''The referenced '' @ expected_type @ '' configuration does not exist.'',
      vi_message_key = ''validation.issue.configuration.referenceNotFound'',
      vi_message_args = [(''expected_type'', ArgStr expected_type),
                         (''reference_id'', ArgStr reference_id)],
      vi_owner_id = owner_id, vi_owner_name = owner_name, vi_owner_type = owner_type,
      vi_severity = Sev_error\<rparr>"

definition reference_type_mismatch_issue ::
  "string \<Rightarrow> string \<Rightarrow> string \<Rightarrow> string \<Rightarrow> string \<Rightarrow> string \<Rightarrow> string \<Rightarrow> string \<Rightarrow> validation_issue" where
  "reference_type_mismatch_issue scope owner_id owner_name owner_type path reference_id
      expected_type actual_type =
     \<lparr>vi_code = ''configuration.reference_type_mismatch'', vi_scope = scope, vi_path = path,
      vi_message = ''The referenced UUID belongs to '' @ actual_type @ '', not '' @
                   expected_type @ ''.'',
      vi_message_key = ''validation.issue.configuration.referenceTypeMismatch'',
      vi_message_args = [(''actual_type'', ArgStr actual_type),
                         (''expected_type'', ArgStr expected_type),
                         (''reference_id'', ArgStr reference_id)],
      vi_owner_id = owner_id, vi_owner_name = owner_name, vi_owner_type = owner_type,
      vi_severity = Sev_error\<rparr>"

end
