(* ===== verification/Text_Ops.thy ===== *)
theory Text_Ops
  imports Validation
begin

text \<open>
  The methods of Python's \<open>str\<close> and \<open>bytes\<close> the parsers use, on texts whose characters are
  code points below 256 (headers are bytes, decoded as ASCII before they are parsed).
\<close>

definition is_ascii :: "string \<Rightarrow> bool" where
  "is_ascii s \<longleftrightarrow> (\<forall>c \<in> set s. char_nat c < 128)"

definition lower_ascii :: "char \<Rightarrow> char" where
  "lower_ascii c = (if upper_char c then char_of (char_nat c + 32) else c)"

definition str_lower :: "string \<Rightarrow> string" where
  "str_lower s = map lower_ascii s"

text \<open>\<open>str.isspace\<close>: tab to carriage return, the separators 28 to 31, space, NEL and NBSP.\<close>

definition space_char :: "char \<Rightarrow> bool" where
  "space_char c \<longleftrightarrow> 9 \<le> char_nat c \<and> char_nat c \<le> 13 \<or> 28 \<le> char_nat c \<and> char_nat c \<le> 32 \<or>
     char_nat c = 133 \<or> char_nat c = 160"

definition str_strip :: "string \<Rightarrow> string" where
  "str_strip s = rev (dropWhile space_char (rev (dropWhile space_char s)))"

definition str_rstrip :: "string \<Rightarrow> string" where
  "str_rstrip s = rev (dropWhile space_char (rev s))"

text \<open>\<open>s[:n]\<close>, where a negative bound counts from the end, and \<open>sep.join(xs)\<close>.\<close>

definition slice_to :: "int \<Rightarrow> string \<Rightarrow> string" where
  "slice_to n s = (if 0 \<le> n then take (nat n) s else take (length s - nat (- n)) s)"

fun join :: "string \<Rightarrow> string list \<Rightarrow> string" where
  "join sep [] = []"
| "join sep [x] = x"
| "join sep (x # y # ys) = x @ sep @ join sep (y # ys)"

definition starts_with :: "string \<Rightarrow> string \<Rightarrow> bool" where
  "starts_with p s \<longleftrightarrow> prefix p s"

definition ends_with :: "string \<Rightarrow> string \<Rightarrow> bool" where
  "ends_with p s \<longleftrightarrow> suffix p s"

definition all_digits :: "string \<Rightarrow> bool" where
  "all_digits s \<longleftrightarrow> s \<noteq> [] \<and> (\<forall>c \<in> set s. digit_class c)"

definition char_count :: "char \<Rightarrow> string \<Rightarrow> nat" where
  "char_count c s = length (filter (\<lambda>x. x = c) s)"

text \<open>\<open>str.partition(sep)\<close> for one character: what is before and after its first occurrence.\<close>

fun cut_at :: "char \<Rightarrow> string \<Rightarrow> (string \<times> string) option" where
  "cut_at sep [] = None"
| "cut_at sep (c # cs) =
     (if c = sep then Some ([], cs)
      else map_option (\<lambda>(a, b). (c # a, b)) (cut_at sep cs))"

lemma cut_at_Some: "cut_at sep s = Some (a, b) \<longleftrightarrow> s = a @ sep # b \<and> sep \<notin> set a"
proof (induction s arbitrary: a)
  case (Cons c cs)
  show ?case
  proof (cases a)
    case Nil
    then show ?thesis by (cases "c = sep") auto
  next
    case (Cons x xs)
    then show ?thesis using Cons.IH [of xs] by (cases "c = sep") auto
  qed
qed simp

lemma cut_at_None [simp]: "cut_at sep s = None \<longleftrightarrow> sep \<notin> set s"
  by (induction s) auto

definition control_char :: "char \<Rightarrow> bool" where
  "control_char c \<longleftrightarrow> char_nat c < 33 \<or> char_nat c = 127"

lemma is_ascii_append [simp]: "is_ascii (a @ b) \<longleftrightarrow> is_ascii a \<and> is_ascii b"
  by (auto simp: is_ascii_def)

lemma is_ascii_Cons [simp]: "is_ascii (c # b) \<longleftrightarrow> char_nat c < 128 \<and> is_ascii b"
  by (auto simp: is_ascii_def)

lemma split_on_Cons:
  "split_on sep (c # cs) =
     (if c = sep then [] # split_on sep cs else (c # hd (split_on sep cs)) # tl (split_on sep cs))"
  by (cases "split_on sep cs") auto

lemma split_on_single: "split_on sep s = [b] \<longleftrightarrow> s = b \<and> sep \<notin> set b"
proof (induction s arbitrary: b)
  case (Cons c cs)
  obtain w ws where w: "split_on sep cs = w # ws" by (cases "split_on sep cs") auto
  with Cons.IH [of "tl b"] show ?case by (cases b; cases "c = sep") auto
qed auto

lemma split_on_pair: "split_on sep s = [a, b] \<longleftrightarrow> s = a @ sep # b \<and> sep \<notin> set a \<and> sep \<notin> set b"
proof (induction s arbitrary: a)
  case (Cons c cs)
  obtain w ws where w: "split_on sep cs = w # ws" by (cases "split_on sep cs") auto
  show ?case
  proof (cases a)
    case Nil
    with w split_on_single [of sep cs b] show ?thesis by (cases "c = sep") auto
  next
    case (Cons x xs)
    with w Cons.IH [of xs] show ?thesis by (cases "c = sep") auto
  qed
qed simp

end
