(* ===== verification/Event_Origin.thy ===== *)
theory Event_Origin
  imports Text_Ops
begin

text \<open>
  \<open>runtime/event_origin.py\<close> and \<open>runtime/run_identity.py\<close>: the raw events of the streaming
  protocol, the identity of a Run, and the resolver that attributes an event to its Run and, for
  the graph of an agent, to a synchronous subagent.  The resolver remembers in which namespaces a
  subagent is at work; an event belongs to the innermost of them.

  The text of a JSON value that is neither a text, a number, a truth value nor \<open>None\<close> is the
  parameter \<open>repr\<close>.
\<close>

section \<open>Text of a value\<close>

fun py_text :: "(json \<Rightarrow> string) \<Rightarrow> json \<Rightarrow> string" where
  "py_text repr (JStr s) = s"
| "py_text repr (JInt i) = int_str i"
| "py_text repr (JBool b) = (if b then ''True'' else ''False'')"
| "py_text repr JNull = ''None''"
| "py_text repr j = repr j"

text \<open>\<open>d.get(k)\<close> and \<open>str(d.get(k) or d)\<close>.\<close>

definition mapping_get :: "(string, json) dict \<Rightarrow> string \<Rightarrow> json" where
  "mapping_get d k = (case map_of d k of None \<Rightarrow> JNull | Some v \<Rightarrow> v)"

definition text_or :: "(json \<Rightarrow> string) \<Rightarrow> json \<Rightarrow> string \<Rightarrow> string" where
  "text_or repr v dflt = (if json_truthy v then py_text repr v else dflt)"

definition mapping_or_empty :: "json \<Rightarrow> (string, json) dict" where
  "mapping_or_empty v = (case json_obj v of None \<Rightarrow> [] | Some d \<Rightarrow> d)"

section \<open>Protocol events\<close>

text \<open>
  The data of an event is a mapping, or a pair (as a list or tuple) whose first member may be a
  message object of the framework, or something else.
\<close>

record ai_message =
  am_id :: json
  am_usage_metadata :: json
  am_content_blocks :: json

datatype event_part =
    P_value json
  | P_message ai_message
  | P_object

datatype event_data =
    D_mapping "(string, json) dict"
  | D_sequence "event_part list"
  | D_other

record event_params =
  ep_data :: event_data
  ep_namespace :: json

record protocol_event =
  ev_method :: json
  ev_params :: "event_params option"

fun part_mapping :: "event_part \<Rightarrow> (string, json) dict option" where
  "part_mapping (P_value v) = json_obj v"
| "part_mapping _ = None"

definition part_or_empty :: "event_part \<Rightarrow> (string, json) dict" where
  "part_or_empty p = (case part_mapping p of None \<Rightarrow> [] | Some d \<Rightarrow> d)"

section \<open>Identities\<close>

record run_identity =
  ri_request_id :: string
  ri_lifecycle_id :: string
  ri_run_id :: string
  ri_subject_id :: string
  ri_subject_name :: string
  ri_thread_id :: string
  ri_assistant_id :: string
  ri_caller_run_id :: string
  ri_operation_id :: string

datatype graph_run_identity =
    Agent_run run_identity
  | Workflow_run run_identity

fun identity_fields :: "graph_run_identity \<Rightarrow> run_identity" where
  "identity_fields (Agent_run r) = r"
| "identity_fields (Workflow_run r) = r"

fun identity_graph_kind :: "graph_run_identity \<Rightarrow> string" where
  "identity_graph_kind (Agent_run r) = ''agent''"
| "identity_graph_kind (Workflow_run r) = ''workflow''"

record event_output_origin =
  eo_lifecycle_id :: string
  eo_graph_kind :: string
  eo_run_id :: string
  eo_thread_id :: string
  eo_assistant_id :: string
  eo_caller_run_id :: string
  eo_operation_id :: string
  eo_workflow_id :: string
  eo_workflow_name :: string
  eo_main_agent_id :: string
  eo_main_agent_name :: string
  eo_agent_profile_id :: string
  eo_subagent_profile_id :: string
  eo_subagent_name :: string

datatype source_kind = Src_agent | Src_subagent | Src_workflow

record resolved_origin =
  ro_output :: event_output_origin
  ro_namespace :: string
  ro_source_type :: source_kind
  ro_subagent_profile_id :: string

definition is_public_agent :: "resolved_origin \<Rightarrow> bool" where
  "is_public_agent r \<longleftrightarrow> ro_source_type r \<in> {Src_agent, Src_subagent}"

definition is_main_agent :: "resolved_origin \<Rightarrow> bool" where
  "is_main_agent r \<longleftrightarrow> ro_source_type r = Src_agent"

section \<open>Namespaces\<close>

definition namespace_parts :: "(json \<Rightarrow> string) \<Rightarrow> json \<Rightarrow> string list" where
  "namespace_parts repr v =
     (case json_list v of None \<Rightarrow> [] | Some xs \<Rightarrow> filter (\<lambda>p. p \<noteq> []) (map (py_text repr) xs))"

definition text_or_root :: "string \<Rightarrow> string" where
  "text_or_root s = (if s = [] then ''root'' else s)"

definition namespace_text :: "string list \<Rightarrow> string" where
  "namespace_text parts = text_or_root (join ''/'' parts)"

text \<open>The innermost parts that belong to a model call or a tool node are dropped.\<close>

definition transient_part :: "string \<Rightarrow> bool" where
  "transient_part p \<longleftrightarrow> takeWhile (\<lambda>c. c \<noteq> CHR '':'') p \<in> {''model'', ''tools''}"

definition scope_parts :: "string list \<Rightarrow> string list" where
  "scope_parts parts = rev (dropWhile transient_part (rev parts))"

definition namespace_scope :: "string \<Rightarrow> string" where
  "namespace_scope v =
     text_or_root (join ''/'' (scope_parts (filter (\<lambda>p. p \<noteq> []) (split_on (CHR ''/'') v))))"

definition message_metadata :: "event_data \<Rightarrow> (string, json) dict" where
  "message_metadata data =
     (case data of
        D_mapping d \<Rightarrow> mapping_or_empty (mapping_get d ''metadata'')
      | D_sequence [_, m] \<Rightarrow> part_or_empty m
      | _ \<Rightarrow> [])"

section \<open>The resolver\<close>

record origin_resolver =
  or_identity :: "graph_run_identity option"
  or_main_agent_names :: "string list"
  or_root_agent_profile_id :: string
  or_root_subagent_profile_ids :: "(string, string) dict"
  or_active_subagents :: "(string, string) dict"

definition new_resolver ::
  "graph_run_identity option \<Rightarrow> string list \<Rightarrow> string \<Rightarrow> (string, string) dict \<Rightarrow> origin_resolver" where
  "new_resolver idy names rt subs =
     \<lparr>or_identity = idy, or_main_agent_names = filter (\<lambda>n. n \<noteq> []) names,
      or_root_agent_profile_id = rt, or_root_subagent_profile_ids = dict_of subs,
      or_active_subagents = []\<rparr>"

definition agent_identity :: "graph_run_identity option \<Rightarrow> run_identity option" where
  "agent_identity i = (case i of Some (Agent_run r) \<Rightarrow> Some r | _ \<Rightarrow> None)"

definition workflow_identity :: "graph_run_identity option \<Rightarrow> run_identity option" where
  "workflow_identity i = (case i of Some (Workflow_run r) \<Rightarrow> Some r | _ \<Rightarrow> None)"

definition identity_text :: "(run_identity \<Rightarrow> string) \<Rightarrow> run_identity option \<Rightarrow> string" where
  "identity_text f i = (case i of None \<Rightarrow> [] | Some r \<Rightarrow> f r)"

definition main_agent_id :: "origin_resolver \<Rightarrow> string" where
  "main_agent_id rs =
     (case agent_identity (or_identity rs) of
        Some r \<Rightarrow> ri_subject_id r
      | None \<Rightarrow> or_root_agent_profile_id rs)"

definition main_agent_name :: "origin_resolver \<Rightarrow> string" where
  "main_agent_name rs =
     (case agent_identity (or_identity rs) of
        Some r \<Rightarrow> ri_subject_name r
      | None \<Rightarrow>
          (case or_main_agent_names rs of
             [n] \<Rightarrow> if main_agent_id rs \<noteq> [] then n else []
           | _ \<Rightarrow> []))"

definition output_origin :: "origin_resolver \<Rightarrow> string \<Rightarrow> string \<Rightarrow> event_output_origin" where
  "output_origin rs sub_id sub_name =
     (let i = map_option identity_fields (or_identity rs); w = workflow_identity (or_identity rs);
          mid = main_agent_id rs in
      \<lparr>eo_lifecycle_id = identity_text ri_lifecycle_id i,
       eo_graph_kind =
         (case or_identity rs of
            Some k \<Rightarrow> identity_graph_kind k
          | None \<Rightarrow> if mid \<noteq> [] then ''agent'' else []),
       eo_run_id = identity_text ri_run_id i,
       eo_thread_id = identity_text ri_thread_id i,
       eo_assistant_id = identity_text ri_assistant_id i,
       eo_caller_run_id = identity_text ri_caller_run_id i,
       eo_operation_id = identity_text ri_operation_id i,
       eo_workflow_id = identity_text ri_subject_id w,
       eo_workflow_name = identity_text ri_subject_name w,
       eo_main_agent_id = mid,
       eo_main_agent_name = main_agent_name rs,
       eo_agent_profile_id = mid,
       eo_subagent_profile_id = sub_id,
       eo_subagent_name = sub_name\<rparr>)"

definition run_origin :: "origin_resolver \<Rightarrow> event_output_origin" where
  "run_origin rs = output_origin rs [] []"

text \<open>The subagent of the longest active scope around a namespace, the first one of a length.\<close>

definition in_scope :: "string \<Rightarrow> string \<Rightarrow> bool" where
  "in_scope active scope \<longleftrightarrow> scope = active \<or> starts_with (active @ ''/'') scope"

fun best_scope :: "string \<Rightarrow> (string, string) dict \<Rightarrow> (nat \<times> string) option \<Rightarrow> (nat \<times> string) option" where
  "best_scope scope [] best = best"
| "best_scope scope ((active, name) # rest) best =
     best_scope scope rest
       (if in_scope active scope \<and> (case best of None \<Rightarrow> True | Some b \<Rightarrow> length active > fst b)
        then Some (length active, name) else best)"

definition active_subagent :: "string \<Rightarrow> (string, string) dict \<Rightarrow> string" where
  "active_subagent namespace actives =
     (case best_scope (namespace_scope namespace) actives None of None \<Rightarrow> [] | Some b \<Rightarrow> snd b)"

definition is_agent_graph :: "origin_resolver \<Rightarrow> bool" where
  "is_agent_graph rs \<longleftrightarrow> agent_identity (or_identity rs) \<noteq> None \<or> or_root_agent_profile_id rs \<noteq> []"

definition event_data_of :: "protocol_event \<Rightarrow> event_data" where
  "event_data_of ev = (case ev_params ev of None \<Rightarrow> D_other | Some p \<Rightarrow> ep_data p)"

definition lifecycle_data :: "(json \<Rightarrow> string) \<Rightarrow> protocol_event \<Rightarrow> (string, json) dict option" where
  "lifecycle_data repr ev =
     (case event_data_of ev of
        D_mapping d \<Rightarrow> if text_or repr (ev_method ev) [] = ''lifecycle'' then Some d else None
      | _ \<Rightarrow> None)"

definition event_namespace :: "(json \<Rightarrow> string) \<Rightarrow> protocol_event \<Rightarrow> string" where
  "event_namespace repr ev =
     (let parts = namespace_parts repr (case ev_params ev of None \<Rightarrow> JNull | Some p \<Rightarrow> ep_namespace p);
          own = (case lifecycle_data repr ev of
                   None \<Rightarrow> [] | Some d \<Rightarrow> namespace_parts repr (mapping_get d ''namespace''))
      in namespace_text (if own \<noteq> [] then own else parts))"

text \<open>The name of the agent an event of an agent's graph carries, or that its namespace implies.\<close>

definition event_agent_name :: "(json \<Rightarrow> string) \<Rightarrow> origin_resolver \<Rightarrow> protocol_event \<Rightarrow> string" where
  "event_agent_name repr rs ev =
     (let metadata = (if text_or repr (ev_method ev) [] = ''messages''
                      then message_metadata (event_data_of ev) else []);
          active = active_subagent (event_namespace repr ev) (or_active_subagents rs);
          graph_name = (case lifecycle_data repr ev of
                          None \<Rightarrow> [] | Some d \<Rightarrow> text_or repr (mapping_get d ''graph_name'') []);
          own = text_or repr (mapping_get metadata ''lc_agent_name'') []
      in if own \<noteq> [] then own else if active \<noteq> [] then active else graph_name)"

definition event_subagent :: "(json \<Rightarrow> string) \<Rightarrow> origin_resolver \<Rightarrow> protocol_event \<Rightarrow> string \<times> string" where
  "event_subagent repr rs ev =
     (let name = event_agent_name repr rs ev in
      if is_agent_graph rs \<and> name \<noteq> [] \<and> name \<notin> set (or_main_agent_names rs)
      then (case map_of (or_root_subagent_profile_ids rs) name of
              None \<Rightarrow> ([], [])
            | Some pid \<Rightarrow> if pid \<noteq> [] then (pid, name) else ([], []))
      else ([], []))"

definition resolve_event ::
  "(json \<Rightarrow> string) \<Rightarrow> protocol_event \<Rightarrow> origin_resolver \<Rightarrow> resolved_origin \<times> origin_resolver" where
  "resolve_event repr ev rs =
     (let namespace = event_namespace repr ev; scope = namespace_scope namespace;
          sub = event_subagent repr rs ev;
          actives =
            (case lifecycle_data repr ev of
               None \<Rightarrow> or_active_subagents rs
             | Some d \<Rightarrow>
                 if \<not> is_agent_graph rs then or_active_subagents rs
                 else if text_or repr (mapping_get d ''event'') [] = ''started''
                 then (if fst sub \<noteq> [] then dict_set scope (event_agent_name repr rs ev) (or_active_subagents rs)
                       else or_active_subagents rs)
                 else dict_pop scope (or_active_subagents rs))
      in (\<lparr>ro_output = output_origin rs (fst sub) (snd sub), ro_namespace = namespace,
            ro_source_type = (if \<not> is_agent_graph rs then Src_workflow
                              else if fst sub \<noteq> [] then Src_subagent else Src_agent),
            ro_subagent_profile_id = fst sub\<rparr>,
          rs\<lparr>or_active_subagents := actives\<rparr>))"

definition close_resolver :: "origin_resolver \<Rightarrow> origin_resolver" where
  "close_resolver rs = rs\<lparr>or_active_subagents := []\<rparr>"

section \<open>What an event can change\<close>

lemma resolve_event_state:
  "\<exists>actives. snd (resolve_event repr ev rs) = rs\<lparr>or_active_subagents := actives\<rparr>"
  unfolding resolve_event_def Let_def by auto

lemma main_agent_actives [simp]:
  "main_agent_id (rs\<lparr>or_active_subagents := x\<rparr>) = main_agent_id rs"
  "main_agent_name (rs\<lparr>or_active_subagents := x\<rparr>) = main_agent_name rs"
proof -
  show id: "main_agent_id (rs\<lparr>or_active_subagents := x\<rparr>) = main_agent_id rs"
    by (cases "agent_identity (or_identity rs)") (simp_all add: main_agent_id_def)
  show "main_agent_name (rs\<lparr>or_active_subagents := x\<rparr>) = main_agent_name rs"
    by (cases "agent_identity (or_identity rs)")
       (simp_all add: main_agent_name_def id split: list.split)
qed

lemma actives_irrelevant [simp]:
  "output_origin (rs\<lparr>or_active_subagents := x\<rparr>) = output_origin rs"
  "is_agent_graph (rs\<lparr>or_active_subagents := x\<rparr>) = is_agent_graph rs"
  by (simp_all add: fun_eq_iff output_origin_def Let_def is_agent_graph_def)

lemma event_subagent_cases:
  obtains "event_subagent repr rs ev = ([], [])"
  | name pid where "event_subagent repr rs ev = (pid, name)" "pid \<noteq> []" "is_agent_graph rs"
      "name \<notin> set (or_main_agent_names rs)" "map_of (or_root_subagent_profile_ids rs) name = Some pid"
proof (cases "event_subagent repr rs ev = ([], [])")
  case False
  let ?n = "event_agent_name repr rs ev"
  from False obtain pid where "is_agent_graph rs" "?n \<notin> set (or_main_agent_names rs)"
    "map_of (or_root_subagent_profile_ids rs) ?n = Some pid" "pid \<noteq> []" "event_subagent repr rs ev = (pid, ?n)"
    by (auto simp: event_subagent_def Let_def split: if_splits option.splits)
  with that(2) show ?thesis by blast
qed (use that in blast)

fun resolve_all ::
  "(json \<Rightarrow> string) \<Rightarrow> protocol_event list \<Rightarrow> origin_resolver \<Rightarrow> resolved_origin list \<times> origin_resolver" where
  "resolve_all repr [] rs = ([], rs)"
| "resolve_all repr (ev # evs) rs =
     (case resolve_event repr ev rs of
        (r, rs1) \<Rightarrow> (case resolve_all repr evs rs1 of (out, rs2) \<Rightarrow> (r # out, rs2)))"

definition origin_typed :: "origin_resolver \<Rightarrow> resolved_origin \<Rightarrow> bool" where
  "origin_typed rs r \<longleftrightarrow>
     ro_output r = (run_origin rs)\<lparr>eo_subagent_profile_id := ro_subagent_profile_id r,
                                   eo_subagent_name := eo_subagent_name (ro_output r)\<rparr> \<and>
     (case ro_source_type r of
        Src_workflow \<Rightarrow> \<not> is_agent_graph rs \<and> eo_subagent_name (ro_output r) = []
      | Src_agent \<Rightarrow> is_agent_graph rs \<and> ro_subagent_profile_id r = [] \<and> eo_subagent_name (ro_output r) = []
      | Src_subagent \<Rightarrow> is_agent_graph rs \<and> ro_subagent_profile_id r \<noteq> [] \<and>
          eo_subagent_name (ro_output r) \<notin> set (or_main_agent_names rs) \<and>
          map_of (or_root_subagent_profile_ids rs) (eo_subagent_name (ro_output r)) =
            Some (ro_subagent_profile_id r))"

lemma resolve_event_typed: "origin_typed rs (fst (resolve_event repr ev rs))"
proof (cases rule: event_subagent_cases [of repr rs ev])
  case 1
  then show ?thesis
    by (simp add: origin_typed_def resolve_event_def run_origin_def output_origin_def Let_def)
next
  case (2 name pid)
  then show ?thesis
    by (simp add: origin_typed_def resolve_event_def run_origin_def output_origin_def Let_def)
qed

lemma origin_typed_actives [simp]: "origin_typed (rs\<lparr>or_active_subagents := x\<rparr>) = origin_typed rs"
  by (intro ext) (simp add: origin_typed_def run_origin_def cong: source_kind.case_cong)


end
