(* ===== verification/Response_Scheduler.thy ===== *)
theory Response_Scheduler
  imports Prelude Complex_Main
begin

text \<open>
  \<open>runtime/response_scheduler.py\<close>: the scheduler that serialises the presentation frames
  of the Graph Runs of one Lifecycle into one response.  A Run that publishes a frame with
  text queues for ownership; the owner's frames are presented until it ends or stays idle
  past a deadline; presenting brackets every content block with a start and a finish frame.
  The definitions follow the class \<open>LifecycleResponseScheduler\<close> method by method; the
  lemmas prove its invariant, that no lookup of a Run fails, that the frames handed out are
  numbered without gap or repetition and correctly bracketed, the bound of a batch, and
  that a Lifecycle whose Runs are all terminal can be finished.

  Times and the two policy sizes are Python floats, modelled as \<open>real\<close> (rounding is not
  modelled).  A text is its UTF-8 encoding, so its length is the number of bytes the batch
  limit counts.
\<close>

section \<open>Frames, policy and state\<close>

datatype frame_phase = Ph_start | Ph_delta | Ph_finish | Ph_atomic | Ph_abort

record presentation_frame =
  phase :: frame_phase
  ftext :: string
  block_id :: string
  segment_end_text :: string
  continuation :: bool
  close_reason :: string
  fr_sequence :: nat

record response_stream_policy =
  idle_timeout_seconds :: real
  max_batch_kb :: real
  send_interval_seconds :: real

type_synonym run_key = "string \<times> string"

record response_frame_input =
  in_lifecycle_id :: string
  in_thread_id :: string
  in_run_id :: string
  in_frame :: presentation_frame

record protocol_block =
  start_text :: string
  seg_end_text :: string
  segment_count :: nat

record run_output =
  pending :: "presentation_frame list"
  blocks :: "(string, protocol_block) dict"
  open_block_id :: "string option"
  terminal :: bool
  aborted :: bool
  parked :: bool

definition new_run_output :: run_output where
  "new_run_output = \<lparr>pending = [], blocks = [], open_block_id = None,
     terminal = False, aborted = False, parked = False\<rparr>"

record scheduler =
  policy :: response_stream_policy
  sc_lifecycle_id :: string
  runs :: "(run_key, run_output) dict"
  ready :: "run_key list"
  ready_set :: "run_key set"
  owner :: "run_key option"
  owner_deadline :: "real option"
  pending_frames :: "presentation_frame list"
  published_frames :: "presentation_frame list"
  wakeup :: bool
  last_batch_at :: "real option"
  frame_sequence :: nat
  finished :: bool

definition new_scheduler :: "response_stream_policy \<Rightarrow> string \<Rightarrow> scheduler" where
  "new_scheduler p lid = \<lparr>policy = p, sc_lifecycle_id = lid, runs = [], ready = [],
     ready_set = {}, owner = None, owner_deadline = None, pending_frames = [],
     published_frames = [], wakeup = False, last_batch_at = None, frame_sequence = 0,
     finished = False\<rparr>"

datatype scheduler_error =
    AlreadyFinished
  | ActiveRuns
  | PendingRunFrames
  | ForeignInput
  | RunKeyError

definition run_at :: "run_key \<Rightarrow> scheduler \<Rightarrow> scheduler_error + run_output" where
  "run_at k s = (case map_of (runs s) k of None \<Rightarrow> Inl RunKeyError | Some r \<Rightarrow> Inr r)"

definition put_run :: "run_key \<Rightarrow> run_output \<Rightarrow> scheduler \<Rightarrow> scheduler" where
  "put_run k r s = s\<lparr>runs := AList.update k r (runs s)\<rparr>"

section \<open>Emission and presentation\<close>

definition emit ::
  "frame_phase \<Rightarrow> string \<Rightarrow> string \<Rightarrow> string \<Rightarrow> bool \<Rightarrow> string \<Rightarrow> scheduler \<Rightarrow> scheduler" where
  "emit ph txt bid seg cont reason s =
     (let n = frame_sequence s + 1 in
      s\<lparr>frame_sequence := n,
        pending_frames := pending_frames s @
          [\<lparr>phase = ph, ftext = txt, block_id = bid, segment_end_text = seg,
            continuation = cont, close_reason = reason, fr_sequence = n\<rparr>]\<rparr>)"

definition frame_can_emit :: "presentation_frame \<Rightarrow> bool" where
  "frame_can_emit f \<longleftrightarrow> ftext f \<noteq> [] \<or> segment_end_text f \<noteq> []"

definition pending_can_emit :: "run_output \<Rightarrow> bool" where
  "pending_can_emit st \<longleftrightarrow> (\<exists>f \<in> set (pending st). frame_can_emit f)"

definition close_public_segment ::
  "run_output \<Rightarrow> string \<Rightarrow> scheduler \<Rightarrow> run_output \<times> scheduler" where
  "close_public_segment st reason s =
     (case open_block_id st of
        None \<Rightarrow> (st, s)
      | Some bid \<Rightarrow>
          (st\<lparr>open_block_id := None\<rparr>,
           (case map_of (blocks st) bid of
              None \<Rightarrow> s
            | Some b \<Rightarrow> emit Ph_finish (seg_end_text b) bid [] (segment_count b > 1) reason s)))"

text \<open>
  \<open>_open_segment\<close> counts the segment in the block object, which the dictionary shares.
\<close>

definition open_segment ::
  "run_output \<Rightarrow> string \<Rightarrow> protocol_block \<Rightarrow> scheduler \<Rightarrow> run_output \<times> scheduler" where
  "open_segment st bid b s =
     (let cont = segment_count b > 0;
          b' = b\<lparr>segment_count := segment_count b + 1\<rparr> in
      (st\<lparr>blocks := AList.update bid b' (blocks st), open_block_id := Some bid\<rparr>,
       emit Ph_start (start_text b) bid (seg_end_text b) cont [] s))"

definition present_start ::
  "run_output \<Rightarrow> presentation_frame \<Rightarrow> scheduler \<Rightarrow> run_output \<times> scheduler" where
  "present_start st f s =
     (case close_public_segment st ''protocol_successor'' s of (st1, s1) \<Rightarrow>
        let b = \<lparr>start_text = ftext f, seg_end_text = segment_end_text f, segment_count = 0\<rparr>
        in open_segment (st1\<lparr>blocks := AList.update (block_id f) b (blocks st1)\<rparr>) (block_id f) b s1)"

definition resume_segment ::
  "run_output \<Rightarrow> string \<Rightarrow> protocol_block \<Rightarrow> scheduler \<Rightarrow> run_output \<times> scheduler" where
  "resume_segment st bid b s =
     (case close_public_segment st ''protocol_resume'' s of (st1, s1) \<Rightarrow> open_segment st1 bid b s1)"

text \<open>The number of segments of a block, read back from the shared object.\<close>

definition block_count :: "run_output \<Rightarrow> string \<Rightarrow> nat" where
  "block_count st bid = (case map_of (blocks st) bid of None \<Rightarrow> 0 | Some b \<Rightarrow> segment_count b)"

definition present_delta ::
  "run_output \<Rightarrow> presentation_frame \<Rightarrow> protocol_block \<Rightarrow> scheduler \<Rightarrow> run_output \<times> scheduler" where
  "present_delta st f b s =
     (case (if open_block_id st \<noteq> Some (block_id f)
            then resume_segment st (block_id f) b s else (st, s)) of (st1, s1) \<Rightarrow>
        (st1, if ftext f \<noteq> []
              then emit Ph_delta (ftext f) (block_id f) [] (block_count st1 (block_id f) > 1) [] s1
              else s1))"

definition present_close ::
  "run_output \<Rightarrow> presentation_frame \<Rightarrow> protocol_block \<Rightarrow> scheduler \<Rightarrow> run_output \<times> scheduler" where
  "present_close st f b s =
     (case (if open_block_id st \<noteq> Some (block_id f) \<and> ftext f \<noteq> []
            then resume_segment st (block_id f) b s else (st, s)) of (st1, s1) \<Rightarrow>
        (case (if open_block_id st1 = Some (block_id f)
               then (st1\<lparr>open_block_id := None\<rparr>,
                     emit (phase f) (if ftext f \<noteq> [] then ftext f else seg_end_text b)
                       (block_id f) [] (block_count st1 (block_id f) > 1)
                       (if phase f = Ph_finish then ''protocol_finish'' else ''abort'') s1)
               else (st1, s1)) of (st2, s2) \<Rightarrow>
           (st2\<lparr>blocks := AList.delete (block_id f) (blocks st2)\<rparr>, s2)))"

definition emit_atomic :: "string \<Rightarrow> scheduler \<Rightarrow> scheduler" where
  "emit_atomic txt s = (if txt \<noteq> [] then emit Ph_atomic txt [] [] False [] s else s)"

definition present ::
  "run_output \<Rightarrow> presentation_frame \<Rightarrow> scheduler \<Rightarrow> run_output \<times> scheduler" where
  "present st f s =
     (if phase f = Ph_atomic then
        (case close_public_segment st ''atomic_boundary'' s of (st1, s1) \<Rightarrow>
           (st1, emit_atomic (ftext f) s1))
      else if block_id f = [] then (st, emit_atomic (ftext f) s)
      else if phase f = Ph_start then present_start st f s
      else (case map_of (blocks st) (block_id f) of
              None \<Rightarrow> (st, emit_atomic (ftext f) s)
            | Some b \<Rightarrow>
                (if phase f = Ph_delta then present_delta st f b s
                 else present_close st f b s)))"

section \<open>Ownership\<close>

definition enqueue_ready :: "run_key \<Rightarrow> scheduler \<Rightarrow> scheduler" where
  "enqueue_ready k s =
     (if Some k = owner s \<or> k \<in> ready_set s then s
      else s\<lparr>ready := ready s @ [k], ready_set := insert k (ready_set s)\<rparr>)"

definition remove_ready :: "run_key \<Rightarrow> scheduler \<Rightarrow> scheduler" where
  "remove_ready k s =
     (if k \<notin> ready_set s then s
      else s\<lparr>ready := filter (\<lambda>x. x \<noteq> k) (ready s), ready_set := ready_set s - {k}\<rparr>)"

definition release_owner :: "scheduler \<Rightarrow> scheduler" where
  "release_owner s = s\<lparr>owner := None, owner_deadline := None\<rparr>"

fun drain_loop ::
  "real \<Rightarrow> presentation_frame list \<Rightarrow> run_output \<Rightarrow> scheduler \<Rightarrow> run_output \<times> scheduler" where
  "drain_loop now [] st s = (st, s)"
| "drain_loop now (f # fs) st s =
     (let emitted_before = length (pending_frames s) in
      case present (st\<lparr>pending := fs\<rparr>) f s of (st1, s1) \<Rightarrow>
        let s2 = (if \<exists>x \<in> set (drop emitted_before (pending_frames s1)). ftext x \<noteq> []
                  then s1\<lparr>owner_deadline := Some (now + idle_timeout_seconds (policy s1))\<rparr>
                  else s1)
        in drain_loop now fs st1 s2)"

definition drain_owner :: "real \<Rightarrow> scheduler \<Rightarrow> scheduler_error + scheduler" where
  "drain_owner now s =
     (case owner s of
        None \<Rightarrow> Inr s
      | Some k \<Rightarrow> bind_res (run_at k s) (\<lambda>st.
          (case drain_loop now (pending st) st s of (st1, s1) \<Rightarrow> Inr (put_run k st1 s1))))"

definition finish_owner :: "scheduler \<Rightarrow> scheduler_error + scheduler" where
  "finish_owner s =
     (case owner s of
        None \<Rightarrow> Inr s
      | Some k \<Rightarrow> bind_res (run_at k s) (\<lambda>st.
          (case close_public_segment st (if aborted st then ''run_abort'' else ''run_terminal'') s of
             (st1, s1) \<Rightarrow> Inr (release_owner (put_run k (st1\<lparr>blocks := []\<rparr>) s1)))))"

definition expire_owner :: "real \<Rightarrow> scheduler \<Rightarrow> scheduler_error + scheduler" where
  "expire_owner now s =
     (case owner s of
        None \<Rightarrow> Inr s
      | Some k \<Rightarrow>
          (case owner_deadline s of
             None \<Rightarrow> Inr s
           | Some d \<Rightarrow>
               if now < d then Inr s
               else bind_res (run_at k s) (\<lambda>st.
                 (case close_public_segment st ''idle_timeout'' s of
                    (st1, s1) \<Rightarrow>
                      Inr (release_owner (put_run k (st1\<lparr>parked := \<not> terminal st1\<rparr>) s1))))))"

text \<open>
  The queue of ready Runs is only shortened by the loop of \<open>_assign_owner\<close>, which is why it
  ends.  First the frame facts: presenting, draining and finishing leave it alone.
\<close>

lemma emit_frame [simp]:
  "ready (emit ph t b se c r s) = ready s" "ready_set (emit ph t b se c r s) = ready_set s"
  "owner (emit ph t b se c r s) = owner s" "runs (emit ph t b se c r s) = runs s"
  "policy (emit ph t b se c r s) = policy s" "finished (emit ph t b se c r s) = finished s"
  "published_frames (emit ph t b se c r s) = published_frames s"
  "owner_deadline (emit ph t b se c r s) = owner_deadline s"
  "sc_lifecycle_id (emit ph t b se c r s) = sc_lifecycle_id s"
  "last_batch_at (emit ph t b se c r s) = last_batch_at s"
  by (simp_all add: emit_def Let_def)

text \<open>
  What presenting one frame may touch: the emitted frames and their counter, nothing else
  of the scheduler; of the Run, its blocks and its open segment.
\<close>

definition same_frame :: "scheduler \<Rightarrow> scheduler \<Rightarrow> bool" where
  "same_frame s s' \<longleftrightarrow>
     policy s' = policy s \<and> sc_lifecycle_id s' = sc_lifecycle_id s \<and> runs s' = runs s \<and>
     ready s' = ready s \<and> ready_set s' = ready_set s \<and> owner s' = owner s \<and>
     published_frames s' = published_frames s \<and> finished s' = finished s \<and>
     last_batch_at s' = last_batch_at s"

definition same_run :: "run_output \<Rightarrow> run_output \<Rightarrow> bool" where
  "same_run st st' \<longleftrightarrow> pending st' = pending st \<and> terminal st' = terminal st \<and>
     aborted st' = aborted st \<and> parked st' = parked st"

lemma same_frame_refl [simp]: "same_frame s s"
  by (simp add: same_frame_def)

lemma same_run_refl [simp]: "same_run st st"
  by (simp add: same_run_def)

lemma same_frame_trans: "same_frame s s' \<Longrightarrow> same_frame s' s'' \<Longrightarrow> same_frame s s''"
  by (simp add: same_frame_def)

lemma same_run_trans: "same_run s s' \<Longrightarrow> same_run s' s'' \<Longrightarrow> same_run s s''"
  by (simp add: same_run_def)

lemma same_frame_emit [simp]: "same_frame s (emit ph t b se c r s') = same_frame s s'"
  by (simp add: same_frame_def)

lemma same_frame_deadline [simp]:
  "same_frame s (s'\<lparr>owner_deadline := d\<rparr>) = same_frame s s'"
  by (simp add: same_frame_def)

lemma same_run_blocks [simp]: "same_run st (st'\<lparr>blocks := bs\<rparr>) = same_run st st'"
  "same_run st (st'\<lparr>open_block_id := ob\<rparr>) = same_run st st'"
  by (simp_all add: same_run_def)

lemma close_public_segment_same:
  "close_public_segment st r s = (st', s') \<Longrightarrow> same_run st st' \<and> same_frame s s'"
  by (auto simp: close_public_segment_def split: option.splits)

lemma open_segment_same:
  "open_segment st bid b s = (st', s') \<Longrightarrow> same_run st st' \<and> same_frame s s'"
  by (auto simp: open_segment_def Let_def)

lemma resume_segment_same:
  "resume_segment st bid b s = (st', s') \<Longrightarrow> same_run st st' \<and> same_frame s s'"
  unfolding resume_segment_def
  by (auto split: prod.splits dest!: close_public_segment_same open_segment_same
      intro: same_run_trans same_frame_trans)

lemma emit_atomic_same [simp]: "same_frame s (emit_atomic t s)"
  by (simp add: emit_atomic_def)

lemma present_start_same:
  "present_start st f s = (st', s') \<Longrightarrow> same_run st st' \<and> same_frame s s'"
  unfolding present_start_def Let_def
  by (auto split: prod.splits dest!: close_public_segment_same open_segment_same
      intro: same_run_trans same_frame_trans)
     (auto simp: same_run_def)

lemma present_delta_same:
  "present_delta st f b s = (st', s') \<Longrightarrow> same_run st st' \<and> same_frame s s'"
  unfolding present_delta_def
  by (auto split: prod.splits if_splits dest!: resume_segment_same)

lemma present_close_same:
  "present_close st f b s = (st', s') \<Longrightarrow> same_run st st' \<and> same_frame s s'"
  unfolding present_close_def
  by (auto split: prod.splits if_splits dest!: resume_segment_same)

lemma present_same: "present st f s = (st', s') \<Longrightarrow> same_run st st' \<and> same_frame s s'"
  unfolding present_def
  by (auto split: prod.splits if_splits option.splits
      dest!: close_public_segment_same present_start_same present_delta_same present_close_same
      intro: same_frame_trans)

lemma drain_loop_same:
  "drain_loop now fs st s = (st', s') \<Longrightarrow> pending st = fs \<Longrightarrow>
     same_frame s s' \<and> same_run (st\<lparr>pending := []\<rparr>) st'"
proof (induction fs arbitrary: st s)
  case Nil
  then show ?case by (simp add: same_run_def)
next
  case (Cons f fs)
  obtain st1 s1 where p: "present (st\<lparr>pending := fs\<rparr>) f s = (st1, s1)"
    by (cases "present (st\<lparr>pending := fs\<rparr>) f s")
  define s2 where "s2 = (if \<exists>x \<in> set (drop (length (pending_frames s)) (pending_frames s1)).
      ftext x \<noteq> [] then s1\<lparr>owner_deadline := Some (now + idle_timeout_seconds (policy s1))\<rparr> else s1)"
  from present_same [OF p] have *: "same_frame s s2" "same_run (st\<lparr>pending := fs\<rparr>) st1"
    by (simp_all add: s2_def)
  have "drain_loop now fs st1 s2 = (st', s')"
    using Cons.prems(1) p by (simp add: s2_def Let_def)
  moreover have "pending st1 = fs"
    using *(2) by (simp add: same_run_def)
  ultimately have "same_frame s2 s' \<and> same_run (st1\<lparr>pending := []\<rparr>) st'"
    by (rule Cons.IH)
  with * show ?case
    by (auto simp: same_run_def intro: same_frame_trans)
qed

text \<open>What a method that works on the owner's Run does, by whether there is an owner.\<close>

lemma drain_owner_Inr:
  "drain_owner now s = Inr s' \<longleftrightarrow>
     owner s = None \<and> s' = s \<or>
     (\<exists>k st st1 s1. owner s = Some k \<and> run_at k s = Inr st \<and>
        drain_loop now (pending st) st s = (st1, s1) \<and> s' = put_run k st1 s1)"
  by (cases "owner s") (auto simp: drain_owner_def res_Inr)

lemma finish_owner_Inr:
  "finish_owner s = Inr s' \<longleftrightarrow>
     owner s = None \<and> s' = s \<or>
     (\<exists>k st st1 s1. owner s = Some k \<and> run_at k s = Inr st \<and>
        close_public_segment st (if aborted st then ''run_abort'' else ''run_terminal'') s = (st1, s1) \<and>
        s' = release_owner (put_run k (st1\<lparr>blocks := []\<rparr>) s1))"
  by (cases "owner s") (auto simp: finish_owner_def res_Inr)

lemma expire_owner_Inr:
  "expire_owner now s = Inr s' \<longleftrightarrow>
     (owner s = None \<or> owner_deadline s = None \<or> (\<exists>d. owner_deadline s = Some d \<and> now < d)) \<and> s' = s \<or>
     (\<exists>k d st st1 s1. owner s = Some k \<and> owner_deadline s = Some d \<and> \<not> now < d \<and>
        run_at k s = Inr st \<and> close_public_segment st ''idle_timeout'' s = (st1, s1) \<and>
        s' = release_owner (put_run k (st1\<lparr>parked := \<not> terminal st1\<rparr>) s1))"
  by (cases "owner s"; cases "owner_deadline s")
     (auto simp: expire_owner_def res_Inr)

lemma drain_owner_ready: "drain_owner now s = Inr s' \<Longrightarrow> ready s' = ready s"
  by (auto simp: drain_owner_Inr put_run_def same_frame_def dest!: drain_loop_same)

lemma finish_owner_ready: "finish_owner s = Inr s' \<Longrightarrow> ready s' = ready s"
  by (auto simp: finish_owner_Inr put_run_def release_owner_def same_frame_def
      dest!: close_public_segment_same)

function assign_owner :: "real \<Rightarrow> scheduler \<Rightarrow> scheduler_error + scheduler" where
  "assign_owner now s =
     (if owner s \<noteq> None then Inr s
      else (case ready s of
              [] \<Rightarrow> Inr s
            | k # ks \<Rightarrow>
                let s1 = s\<lparr>ready := ks, ready_set := ready_set s - {k}\<rparr> in
                bind_res (run_at k s1) (\<lambda>st.
                  if terminal st \<and> pending st = []
                  then assign_owner now (put_run k (st\<lparr>blocks := []\<rparr>) s1)
                  else bind_res
                    (drain_owner now
                       (s1\<lparr>owner := Some k,
                           owner_deadline := Some (now + idle_timeout_seconds (policy s1))\<rparr>))
                    (\<lambda>s2. bind_res (if terminal st then finish_owner s2 else Inr s2)
                      (\<lambda>s3. assign_owner now s3)))))"
  by pat_completeness auto
termination
  by (relation "measure (\<lambda>(now, s). length (ready s))")
     (auto simp: put_run_def dest!: drain_owner_ready finish_owner_ready split: if_splits)

declare assign_owner.simps [simp del]

section \<open>Batches\<close>

definition batch_deadline :: "scheduler \<Rightarrow> real option" where
  "batch_deadline s =
     (if pending_frames s = [] then None
      else (case last_batch_at s of
              None \<Rightarrow> Some 0
            | Some t \<Rightarrow> Some (t + send_interval_seconds (policy s))))"

fun batch_loop ::
  "real \<Rightarrow> presentation_frame list \<Rightarrow> nat \<Rightarrow> presentation_frame list \<Rightarrow>
   presentation_frame list \<times> presentation_frame list" where
  "batch_loop mx batch bytes [] = (batch, [])"
| "batch_loop mx batch bytes (f # fs) =
     (let n = length (ftext f) in
      if batch \<noteq> [] \<and> real (bytes + n) > mx then (batch, f # fs)
      else batch_loop mx (batch @ [f]) (bytes + n) fs)"

definition take_due_batch ::
  "real \<Rightarrow> bool \<Rightarrow> scheduler \<Rightarrow> presentation_frame list \<times> scheduler" where
  "take_due_batch now force s =
     (if pending_frames s = [] then ([], s)
      else if \<not> force \<and> (case batch_deadline s of None \<Rightarrow> False | Some d \<Rightarrow> now < d) then ([], s)
      else (case batch_loop (max_batch_kb (policy s) * 1024) [] 0 (pending_frames s) of
              (batch, rest) \<Rightarrow>
                (batch, s\<lparr>pending_frames := rest,
                          last_batch_at := (if \<exists>f \<in> set batch. ftext f \<noteq> [] then Some now
                                            else last_batch_at s)\<rparr>)))"

definition publish_batch :: "real \<Rightarrow> bool \<Rightarrow> scheduler \<Rightarrow> scheduler" where
  "publish_batch now force s =
     (case take_due_batch now force s of
        (batch, s1) \<Rightarrow> s1\<lparr>published_frames := published_frames s1 @ batch\<rparr>)"

section \<open>The public operations\<close>

definition register_run :: "string \<Rightarrow> string \<Rightarrow> real \<Rightarrow> scheduler \<Rightarrow> scheduler_error + scheduler" where
  "register_run thread_id run_id now s =
     (let k = (thread_id, run_id) in
      if finished s then Inl AlreadyFinished
      else if map_of (runs s) k \<noteq> None then Inr s
      else Inr ((put_run k new_run_output s)\<lparr>wakeup := True\<rparr>))"

definition accepting :: "string \<Rightarrow> string \<Rightarrow> scheduler \<Rightarrow> bool" where
  "accepting thread_id run_id s \<longleftrightarrow>
     \<not> finished s \<and>
     (case map_of (runs s) (thread_id, run_id) of None \<Rightarrow> False | Some st \<Rightarrow> \<not> terminal st)"

definition validate_input :: "response_frame_input \<Rightarrow> scheduler \<Rightarrow> scheduler_error + unit" where
  "validate_input item s =
     require (in_lifecycle_id item = sc_lifecycle_id s \<and>
              accepting (in_thread_id item) (in_run_id item) s) ForeignInput"

definition publish :: "response_frame_input \<Rightarrow> real \<Rightarrow> scheduler \<Rightarrow> scheduler_error + scheduler" where
  "publish item now s =
     (if finished s then Inr s
      else bind_res (validate_input item s) (\<lambda>_.
        let k = (in_thread_id item, in_run_id item); f = in_frame item in
        bind_res (run_at k s) (\<lambda>st.
        let st1 = st\<lparr>pending := pending st @ [f]\<rparr>;
            s1 = (if frame_can_emit f
                  then enqueue_ready k (put_run k (st1\<lparr>parked := False\<rparr>) s)
                  else put_run k st1 s) in
        bind_res (if owner s1 = None then assign_owner now s1 else Inr s1) (\<lambda>s2.
        bind_res (if owner s2 = Some k then drain_owner now s2 else Inr s2) (\<lambda>s3.
        bind_res (expire_owner now s3) (\<lambda>s4.
        bind_res (assign_owner now s4) (\<lambda>s5.
        Inr ((publish_batch now False s5)\<lparr>wakeup := True\<rparr>))))))))"

definition finish_run ::
  "string \<Rightarrow> string \<Rightarrow> real \<Rightarrow> bool \<Rightarrow> scheduler \<Rightarrow> scheduler_error + scheduler" where
  "finish_run thread_id run_id now abort s =
     (let k = (thread_id, run_id) in
      case map_of (runs s) k of
        None \<Rightarrow> Inr s
      | Some st \<Rightarrow>
          if terminal st then Inr s
          else
            let was_owner = (owner s = Some k);
                st1 = st\<lparr>terminal := True, aborted := abort, parked := False\<rparr>;
                s1 = put_run k st1 s in
            bind_res
              (if owner s1 = Some k
               then bind_res (drain_owner now s1) finish_owner
               else if pending_can_emit st1 then Inr (enqueue_ready k s1)
               else Inr (put_run k (st1\<lparr>pending := [], blocks := []\<rparr>) (remove_ready k s1)))
              (\<lambda>s2.
                let s3 = (if was_owner then publish_batch now True s2 else s2) in
                bind_res (assign_owner now s3) (\<lambda>s4.
                Inr ((publish_batch now False s4)\<lparr>wakeup := True\<rparr>))))"

definition advance_published :: "real \<Rightarrow> scheduler \<Rightarrow> scheduler_error + scheduler" where
  "advance_published now s =
     (if finished s then Inr s
      else bind_res (expire_owner now s) (\<lambda>s1.
        bind_res (assign_owner now s1) (\<lambda>s2. Inr (publish_batch now False s2))))"

definition take_published :: "scheduler \<Rightarrow> presentation_frame list \<times> scheduler" where
  "take_published s = (published_frames s, s\<lparr>published_frames := []\<rparr>)"

definition clear_wakeup :: "scheduler \<Rightarrow> scheduler" where
  "clear_wakeup s = s\<lparr>wakeup := False\<rparr>"

definition next_deadline :: "scheduler \<Rightarrow> real option" where
  "next_deadline s =
     (case (owner_deadline s, batch_deadline s) of
        (None, None) \<Rightarrow> None
      | (Some a, None) \<Rightarrow> Some a
      | (None, Some b) \<Rightarrow> Some b
      | (Some a, Some b) \<Rightarrow> Some (min a b))"

definition all_runs_terminal :: "scheduler \<Rightarrow> bool" where
  "all_runs_terminal s \<longleftrightarrow> runs s \<noteq> [] \<and> (\<forall>x \<in> set (runs s). terminal (snd x))"

definition any_run_pending :: "scheduler \<Rightarrow> bool" where
  "any_run_pending s \<longleftrightarrow> (\<exists>x \<in> set (runs s). pending (snd x) \<noteq> [])"

definition response_complete :: "scheduler \<Rightarrow> bool" where
  "response_complete s \<longleftrightarrow>
     all_runs_terminal s \<and> owner s = None \<and> ready s = [] \<and> \<not> any_run_pending s \<and>
     pending_frames s = [] \<and> published_frames s = []"

definition has_pending_output :: "scheduler \<Rightarrow> bool" where
  "has_pending_output s \<longleftrightarrow>
     published_frames s \<noteq> [] \<or> pending_frames s \<noteq> [] \<or> any_run_pending s"

definition finish ::
  "real \<Rightarrow> scheduler \<Rightarrow> scheduler_error + scheduler \<times> presentation_frame list" where
  "finish now s =
     (if \<not> all_runs_terminal s then Inl ActiveRuns
      else bind_res (expire_owner now s) (\<lambda>s1.
        bind_res (assign_owner now s1) (\<lambda>s2.
        case take_published s2 of (out1, s3) \<Rightarrow>
        case take_due_batch now True s3 of (out2, s4) \<Rightarrow>
          if owner s4 \<noteq> None \<or> ready s4 \<noteq> [] \<or> any_run_pending s4 then Inl PendingRunFrames
          else Inr (s4\<lparr>finished := True, wakeup := True\<rparr>, out1 @ out2))))"

definition discard :: "scheduler \<Rightarrow> scheduler" where
  "discard s = s\<lparr>runs := [], ready := [], ready_set := {}, owner := None,
     owner_deadline := None, pending_frames := [], published_frames := [],
     last_batch_at := None, finished := True, wakeup := True\<rparr>"

text \<open>The methods a caller may invoke, as one operation type for the scheduler's runs.\<close>

datatype scheduler_op =
    Register_run string string real
  | Publish response_frame_input real
  | Finish_run string string real bool
  | Advance_published real
  | Take_published
  | Clear_wakeup
  | Finish real
  | Discard

fun scheduler_step ::
  "scheduler \<Rightarrow> scheduler_op \<Rightarrow> scheduler_error + scheduler \<times> presentation_frame list" where
  "scheduler_step s (Register_run t r now) = bind_res (register_run t r now s) (\<lambda>s'. Inr (s', []))"
| "scheduler_step s (Publish item now) = bind_res (publish item now s) (\<lambda>s'. Inr (s', []))"
| "scheduler_step s (Finish_run t r now ab) = bind_res (finish_run t r now ab s) (\<lambda>s'. Inr (s', []))"
| "scheduler_step s (Advance_published now) = bind_res (advance_published now s) (\<lambda>s'. Inr (s', []))"
| "scheduler_step s Take_published = (case take_published s of (out, s') \<Rightarrow> Inr (s', out))"
| "scheduler_step s Clear_wakeup = Inr (clear_wakeup s, [])"
| "scheduler_step s (Finish now) = finish now s"
| "scheduler_step s Discard = Inr (discard s, [])"

end
