(* ===== verification/Event_Stream.thy ===== *)
theory Event_Stream
  imports Event_Origin Response_Scheduler
begin

text \<open>
  \<open>runtime/event_stream.py\<close> with \<open>message_state.py\<close> and \<open>usage.py\<close>: the raw events of one Run as
  presentation frames.  An event of a streamed content block becomes a start, delta or finish
  frame of that block, any other event with a text becomes an atomic frame; the usage of the
  model calls is added up without counting a report twice; a message that was streamed is not
  presented again when it arrives as a whole.

  An index that is a truth value is taken as the number it equals.  Python's sets are lists
  without duplicates.
\<close>

section \<open>Usage\<close>

record usage_accumulator =
  usage_by_run :: "(string, (string, int) dict) dict"
  usage_totals :: "(string, int) dict"

definition new_usage :: usage_accumulator where
  "new_usage = \<lparr>usage_by_run = [],
     usage_totals = [(''input_tokens'', 0), (''output_tokens'', 0), (''total_tokens'', 0)]\<rparr>"

fun json_int :: "json \<Rightarrow> int option" where
  "json_int (JInt i) = Some i"
| "json_int (JBool b) = Some (if b then 1 else 0)"
| "json_int _ = None"

definition usage_value :: "(string, json) dict \<Rightarrow> string \<Rightarrow> int option" where
  "usage_value u k =
     (case json_int (mapping_get u k) of None \<Rightarrow> None | Some v \<Rightarrow> if v \<ge> 0 then Some v else None)"

definition usage_entry :: "string \<Rightarrow> int option \<Rightarrow> (string \<times> int) list" where
  "usage_entry k v = (case v of None \<Rightarrow> [] | Some i \<Rightarrow> [(k, i)])"

definition usage_current :: "(string, json) dict \<Rightarrow> (string, int) dict" where
  "usage_current u =
     concat (map (\<lambda>k. usage_entry k (usage_value u k)) [''input_tokens'', ''output_tokens'', ''total_tokens'']) @
     usage_entry ''reasoning_tokens''
       (case json_obj (mapping_get u ''output_token_details'') of
          None \<Rightarrow> None | Some d \<Rightarrow> usage_value d ''reasoning'')"

definition count_of :: "(string, int) dict \<Rightarrow> string \<Rightarrow> int" where
  "count_of d k = (case map_of d k of None \<Rightarrow> 0 | Some v \<Rightarrow> v)"

fun merge_counts ::
  "(string, int) dict \<Rightarrow> (string, int) dict \<Rightarrow> (string, int) dict \<Rightarrow> (string, int) dict \<times> (string, int) dict" where
  "merge_counts [] previous totals = (previous, totals)"
| "merge_counts ((k, v) # kvs) previous totals =
     (if v > count_of previous k
      then merge_counts kvs (dict_set k v previous)
             (dict_set k (count_of totals k + v - count_of previous k) totals)
      else merge_counts kvs previous totals)"

definition merge_usage :: "string \<Rightarrow> json \<Rightarrow> usage_accumulator \<Rightarrow> usage_accumulator" where
  "merge_usage run_key usage a =
     (case json_obj usage of
        None \<Rightarrow> a
      | Some u \<Rightarrow>
          (let previous = (case map_of (usage_by_run a) run_key of None \<Rightarrow> [] | Some p \<Rightarrow> p) in
           case merge_counts (usage_current u) previous (usage_totals a) of
             (p, t) \<Rightarrow> \<lparr>usage_by_run = dict_set run_key p (usage_by_run a), usage_totals = t\<rparr>))"

section \<open>Messages\<close>

record message_run =
  mr_message_id :: string
  mr_main_agent_ai :: bool
  mr_public_ai :: bool

record message_registry =
  mg_runs :: "(string, message_run) dict"
  mg_active_main_runs :: "string list"
  mg_streamed_run_keys :: "string list"

definition new_registry :: message_registry where
  "new_registry = \<lparr>mg_runs = [], mg_active_main_runs = [], mg_streamed_run_keys = []\<rparr>"

definition set_add :: "'a \<Rightarrow> 'a list \<Rightarrow> 'a list" where
  "set_add x xs = (if x \<in> set xs then xs else xs @ [x])"

definition begin_message :: "string \<Rightarrow> message_run \<Rightarrow> message_registry \<Rightarrow> message_registry" where
  "begin_message run_key m g =
     g\<lparr>mg_runs := dict_set run_key m (mg_runs g),
       mg_streamed_run_keys := set_add run_key (mg_streamed_run_keys g),
       mg_active_main_runs :=
         (if mr_main_agent_ai m then set_add run_key (mg_active_main_runs g)
          else mg_active_main_runs g)\<rparr>"

definition get_message :: "string \<Rightarrow> message_registry \<Rightarrow> message_run option" where
  "get_message run_key g = map_of (mg_runs g) run_key"

definition was_streamed :: "string \<Rightarrow> message_registry \<Rightarrow> bool" where
  "was_streamed run_key g \<longleftrightarrow> run_key \<in> set (mg_streamed_run_keys g)"

definition discard_message :: "string \<Rightarrow> message_registry \<Rightarrow> message_registry" where
  "discard_message run_key g =
     g\<lparr>mg_runs := dict_pop run_key (mg_runs g),
       mg_active_main_runs := removeAll run_key (mg_active_main_runs g)\<rparr>"

section \<open>The stream\<close>

record message_block =
  mb_message_id :: string
  mb_block_type :: string
  mb_segment_end_text :: string

type_synonym block_key = "string \<times> int"

record media_block =
  md_message_id :: string
  md_block_index :: int
  md_content :: "(string, json) dict"
  md_stream_id :: string

record stream_projection =
  sp_frames :: "presentation_frame list"
  sp_media :: "media_block list"

record run_event_stream =
  es_usage :: usage_accumulator
  es_messages :: message_registry
  es_blocks :: "(block_key, message_block) dict"
  es_frame_sequence :: nat

definition new_stream :: "usage_accumulator \<Rightarrow> run_event_stream" where
  "new_stream u = \<lparr>es_usage = u, es_messages = new_registry, es_blocks = [], es_frame_sequence = 0\<rparr>"

text \<open>Membership of a value in a set of texts raises \<open>TypeError\<close> for a list or mapping.\<close>

datatype stream_error = Unhashable_type

fun json_hashable :: "json \<Rightarrow> bool" where
  "json_hashable (JList xs) = False"
| "json_hashable (JObj d) = False"
| "json_hashable _ = True"

definition json_in :: "json \<Rightarrow> string list \<Rightarrow> stream_error + bool" where
  "json_in v texts =
     (if json_hashable v then Inr (v \<in> JStr ` set texts) else Inl Unhashable_type)"

definition media_types :: "string list" where
  "media_types = [''image'', ''audio'', ''video'', ''file'']"

definition block_name :: "block_key \<Rightarrow> string" where
  "block_name k = fst k @ '':'' @ int_str (snd k)"

definition message_parts :: "event_data \<Rightarrow> (event_part \<times> (string, json) dict) option" where
  "message_parts data =
     (case data of
        D_mapping d \<Rightarrow> Some (P_value (JObj d), mapping_or_empty (mapping_get d ''metadata''))
      | D_sequence [p, m] \<Rightarrow> Some (p, part_or_empty m)
      | _ \<Rightarrow> None)"

definition is_streaming_start :: "(json \<Rightarrow> string) \<Rightarrow> protocol_event \<Rightarrow> stream_error + bool" where
  "is_streaming_start repr ev =
     (case ev_params ev of
        None \<Rightarrow> Inr False
      | Some params \<Rightarrow>
          if text_or repr (ev_method ev) [] \<noteq> ''messages'' then Inr False
          else (case message_parts (ep_data params) of
                  None \<Rightarrow> Inr False
                | Some (part, _) \<Rightarrow>
                    (case part_mapping part of
                       None \<Rightarrow> Inr False
                     | Some payload \<Rightarrow>
                         if mapping_get payload ''event'' \<noteq> JStr ''content-block-start'' then Inr False
                         else (case json_obj (mapping_get payload ''content'') of
                                 None \<Rightarrow> Inr False
                               | Some content \<Rightarrow> json_in (mapping_get content ''type'') [''text'', ''reasoning'']))))"

definition stream_frame ::
  "frame_phase \<Rightarrow> string \<Rightarrow> string \<Rightarrow> string \<Rightarrow> run_event_stream \<Rightarrow> presentation_frame \<times> run_event_stream" where
  "stream_frame ph txt bid seg st =
     (let n = es_frame_sequence st + 1 in
      (\<lparr>phase = ph, ftext = txt, block_id = bid, segment_end_text = seg,
        continuation = False, close_reason = [], fr_sequence = n\<rparr>,
       st\<lparr>es_frame_sequence := n\<rparr>))"

definition atomic_frames :: "string \<Rightarrow> run_event_stream \<Rightarrow> presentation_frame list \<times> run_event_stream" where
  "atomic_frames txt st =
     (if txt \<noteq> [] then (case stream_frame Ph_atomic txt [] [] st of (f, st1) \<Rightarrow> ([f], st1)) else ([], st))"

definition projected ::
  "presentation_frame list \<times> run_event_stream \<Rightarrow> media_block list \<Rightarrow> run_event_stream \<times> stream_projection" where
  "projected r media = (snd r, \<lparr>sp_frames = fst r, sp_media = media\<rparr>)"

definition atomic_projection :: "string \<Rightarrow> run_event_stream \<Rightarrow> run_event_stream \<times> stream_projection" where
  "atomic_projection txt st = projected (atomic_frames txt st) []"

definition block_frame ::
  "frame_phase \<Rightarrow> string \<Rightarrow> block_key \<Rightarrow> string \<Rightarrow> run_event_stream \<Rightarrow> run_event_stream \<times> stream_projection" where
  "block_frame ph txt key seg st =
     (case stream_frame ph txt (block_name key) seg st of (f, st1) \<Rightarrow> projected ([f], st1) [])"

fun source_text :: "source_kind \<Rightarrow> string" where
  "source_text Src_agent = ''agent''"
| "source_text Src_subagent = ''subagent''"
| "source_text Src_workflow = ''workflow''"

definition fallback_run_key :: "resolved_origin \<Rightarrow> string" where
  "fallback_run_key r =
     source_text (ro_source_type r) @ ''|'' @ ro_subagent_profile_id r @ ''|'' @ ro_namespace r"

text \<open>\<open>_close_message_blocks\<close>: the keys of the message are those of the state at the start.\<close>

definition message_keys :: "string \<Rightarrow> run_event_stream \<Rightarrow> block_key list" where
  "message_keys run_key st = filter (\<lambda>k. fst k = run_key) (dict_keys (es_blocks st))"

fun close_blocks :: "block_key list \<Rightarrow> run_event_stream \<Rightarrow> presentation_frame list \<times> run_event_stream" where
  "close_blocks [] st = ([], st)"
| "close_blocks (k # ks) st =
     (case map_of (es_blocks st) k of
        None \<Rightarrow> close_blocks ks st
      | Some b \<Rightarrow>
          (case stream_frame Ph_finish (mb_segment_end_text b) (block_name k) []
                  (st\<lparr>es_blocks := dict_pop k (es_blocks st)\<rparr>) of
             (f, st1) \<Rightarrow> (case close_blocks ks st1 of (fs, st2) \<Rightarrow> (f # fs, st2))))"

definition close_message_blocks ::
  "string \<Rightarrow> run_event_stream \<Rightarrow> presentation_frame list \<times> run_event_stream" where
  "close_message_blocks run_key st = close_blocks (message_keys run_key st) st"

definition discard_stream_message :: "string \<Rightarrow> run_event_stream \<Rightarrow> run_event_stream" where
  "discard_stream_message run_key st =
     st\<lparr>es_blocks := filter (\<lambda>kb. fst (fst kb) \<noteq> run_key) (es_blocks st),
        es_messages := discard_message run_key (es_messages st)\<rparr>"

definition indexed :: "'a list \<Rightarrow> (nat \<times> 'a) list" where
  "indexed xs = zip [0..<length xs] xs"

fun whole_message_media ::
  "(json \<Rightarrow> string) \<Rightarrow> string \<Rightarrow> ai_message \<Rightarrow> (nat \<times> json) list \<Rightarrow> stream_error + media_block list" where
  "whole_message_media repr run_key m [] = Inr []"
| "whole_message_media repr run_key m ((i, c) # cs) =
     (case json_obj c of
        None \<Rightarrow> whole_message_media repr run_key m cs
      | Some content \<Rightarrow>
          bind_res (json_in (mapping_get content ''type'') media_types) (\<lambda>hit.
          bind_res (whole_message_media repr run_key m cs) (\<lambda>rest.
          Inr (if hit
               then \<lparr>md_message_id = text_or repr (am_id m) [], md_block_index = int i,
                     md_content = content, md_stream_id = block_name (run_key, int i)\<rparr> # rest
               else rest))))"

section \<open>One event\<close>

text \<open>A whole message object: its usage counts, and it is presented unless it was streamed.\<close>

definition consume_whole ::
  "(json \<Rightarrow> string) \<Rightarrow> string \<Rightarrow> ai_message \<Rightarrow> string \<Rightarrow> run_event_stream \<Rightarrow>
   stream_error + run_event_stream \<times> stream_projection" where
  "consume_whole repr run_key m txt st =
     (let usage = JObj (mapping_or_empty (am_usage_metadata m));
          st1 = st\<lparr>es_usage := merge_usage run_key usage (es_usage st)\<rparr> in
      if was_streamed run_key (es_messages st1) then Inr (projected ([], st1) [])
      else bind_res
        (case json_list (am_content_blocks m) of
           None \<Rightarrow> Inr []
         | Some parts \<Rightarrow> whole_message_media repr run_key m (indexed parts))
        (\<lambda>media. Inr (projected (atomic_frames txt st1) media)))"

definition message_start ::
  "(json \<Rightarrow> string) \<Rightarrow> string \<Rightarrow> (string, json) dict \<Rightarrow> resolved_origin \<Rightarrow> run_event_stream \<Rightarrow> run_event_stream" where
  "message_start repr run_key payload origin st =
     (let message_id = text_or repr (if json_truthy (mapping_get payload ''id'') then mapping_get payload ''id''
                                     else mapping_get payload ''message_id'') [];
          is_ai = text_or repr (mapping_get payload ''role'') ''ai'' \<in> {''ai'', ''assistant''} in
      st\<lparr>es_messages := begin_message run_key
           \<lparr>mr_message_id = message_id, mr_main_agent_ai = is_main_agent origin \<and> is_ai,
            mr_public_ai = is_public_agent origin \<and> is_ai\<rparr> (es_messages st)\<rparr>)"

definition message_finish ::
  "string \<Rightarrow> (string, json) dict \<Rightarrow> string \<Rightarrow> run_event_stream \<Rightarrow> run_event_stream \<times> stream_projection" where
  "message_finish run_key payload txt st =
     (let usage = JObj (mapping_or_empty (mapping_get payload ''usage'')) in
      case close_message_blocks run_key (st\<lparr>es_usage := merge_usage run_key usage (es_usage st)\<rparr>) of
        (closing, st1) \<Rightarrow>
          (case atomic_frames txt st1 of
             (own, st2) \<Rightarrow>
               projected (closing @ own, st2\<lparr>es_messages := discard_message run_key (es_messages st2)\<rparr>) []))"

definition block_start ::
  "(json \<Rightarrow> string) \<Rightarrow> block_key \<Rightarrow> string \<Rightarrow> (string, json) dict \<Rightarrow> string \<Rightarrow> string \<Rightarrow> run_event_stream \<Rightarrow>
   run_event_stream \<times> stream_projection" where
  "block_start repr key message_id payload txt seg st =
     (case json_obj (mapping_get payload ''content'') of
        None \<Rightarrow> atomic_projection txt st
      | Some content \<Rightarrow>
          (let block_type = text_or repr (mapping_get content ''type'') [] in
           if block_type \<notin> {''text'', ''reasoning''} then atomic_projection txt st
           else block_frame Ph_start txt key seg
             (st\<lparr>es_blocks := dict_set key
                  \<lparr>mb_message_id = message_id, mb_block_type = block_type, mb_segment_end_text = seg\<rparr>
                  (es_blocks st)\<rparr>)))"

definition block_delta ::
  "block_key \<Rightarrow> (string, json) dict \<Rightarrow> string \<Rightarrow> run_event_stream \<Rightarrow> run_event_stream \<times> stream_projection" where
  "block_delta key payload txt st =
     (case (map_of (es_blocks st) key, json_obj (mapping_get payload ''delta'')) of
        (Some block, Some delta) \<Rightarrow>
          if mb_block_type block \<notin> {''text'', ''reasoning''} then atomic_projection txt st
          else if txt \<noteq> [] then block_frame Ph_delta txt key [] st
          else projected ([], st) []
      | _ \<Rightarrow> atomic_projection txt st)"

definition block_finish ::
  "(json \<Rightarrow> string) \<Rightarrow> block_key \<Rightarrow> string \<Rightarrow> (string, json) dict \<Rightarrow> string \<Rightarrow> run_event_stream \<Rightarrow>
   run_event_stream \<times> stream_projection" where
  "block_finish repr key message_id payload txt st =
     (case json_obj (mapping_get payload ''content'') of
        None \<Rightarrow> atomic_projection txt st
      | Some content \<Rightarrow>
          (let block = map_of (es_blocks st) key;
               st1 = st\<lparr>es_blocks := dict_pop key (es_blocks st)\<rparr>;
               content_type = text_or repr (mapping_get content ''type'') [] in
           case (case block of
                   None \<Rightarrow> None
                 | Some b \<Rightarrow> if mb_block_type b \<in> {''text'', ''reasoning''} then Some b else None) of
             Some b \<Rightarrow> block_frame Ph_finish (if txt \<noteq> [] then txt else mb_segment_end_text b) key [] st1
           | None \<Rightarrow>
               if content_type \<in> set media_types
               then projected (atomic_frames txt st1)
                 [\<lparr>md_message_id = message_id, md_block_index = snd key, md_content = content,
                   md_stream_id = block_name key\<rparr>]
               else atomic_projection txt st1))"

text \<open>The events of a content block of a public message; any other event is presented as a whole.\<close>

definition consume_block ::
  "(json \<Rightarrow> string) \<Rightarrow> string \<Rightarrow> (string, json) dict \<Rightarrow> resolved_origin \<Rightarrow> string \<Rightarrow> string \<Rightarrow>
   run_event_stream \<Rightarrow> run_event_stream \<times> stream_projection" where
  "consume_block repr run_key payload origin txt seg st =
     (let event_name = text_or repr (mapping_get payload ''event'') [];
          message = get_message run_key (es_messages st);
          public_ai = (case message of None \<Rightarrow> is_public_agent origin | Some m \<Rightarrow> mr_public_ai m);
          message_id = (case message of None \<Rightarrow> [] | Some m \<Rightarrow> mr_message_id m) in
      case (if public_ai then json_int (mapping_get payload ''index'') else None) of
        None \<Rightarrow> atomic_projection txt st
      | Some index \<Rightarrow>
          (if event_name = ''content-block-start''
           then block_start repr (run_key, index) message_id payload txt seg st
           else if event_name = ''content-block-delta''
           then block_delta (run_key, index) payload txt st
           else if event_name = ''content-block-finish''
           then block_finish repr (run_key, index) message_id payload txt st
           else atomic_projection txt st))"

definition event_run_key :: "(json \<Rightarrow> string) \<Rightarrow> (string, json) dict \<Rightarrow> resolved_origin \<Rightarrow> string" where
  "event_run_key repr metadata origin =
     (let run_id = text_or repr (mapping_get metadata ''run_id'') [] in
      if run_id \<noteq> [] then run_id else fallback_run_key origin)"

definition consume_payload ::
  "(json \<Rightarrow> string) \<Rightarrow> string \<Rightarrow> (string, json) dict \<Rightarrow> resolved_origin \<Rightarrow> string \<Rightarrow> string \<Rightarrow>
   run_event_stream \<Rightarrow> run_event_stream \<times> stream_projection" where
  "consume_payload repr run_key payload origin txt seg st =
     (let event_name = text_or repr (mapping_get payload ''event'') [] in
      if event_name = ''message-start''
      then atomic_projection txt (message_start repr run_key payload origin st)
      else if event_name = ''message-finish'' then message_finish run_key payload txt st
      else if event_name = ''error'' then atomic_projection txt (discard_stream_message run_key st)
      else consume_block repr run_key payload origin txt seg st)"

definition message_projection ::
  "(json \<Rightarrow> string) \<Rightarrow> event_data \<Rightarrow> resolved_origin \<Rightarrow> string \<Rightarrow> string \<Rightarrow> run_event_stream \<Rightarrow>
   stream_error + run_event_stream \<times> stream_projection" where
  "message_projection repr data origin txt seg st =
     (case message_parts data of
        None \<Rightarrow> Inr (atomic_projection txt st)
      | Some (part, metadata) \<Rightarrow>
          (let run_key = event_run_key repr metadata origin in
           case part of
             P_message m \<Rightarrow> consume_whole repr run_key m txt st
           | P_object \<Rightarrow> Inr (atomic_projection txt st)
           | P_value v \<Rightarrow>
               (case json_obj v of
                  None \<Rightarrow> Inr (atomic_projection txt st)
                | Some payload \<Rightarrow> Inr (consume_payload repr run_key payload origin txt seg st))))"

definition consume ::
  "(json \<Rightarrow> string) \<Rightarrow> protocol_event \<Rightarrow> resolved_origin \<Rightarrow> string \<Rightarrow> string \<Rightarrow> run_event_stream \<Rightarrow>
   stream_error + run_event_stream \<times> stream_projection" where
  "consume repr ev origin txt seg st =
     (case ev_params ev of
        None \<Rightarrow> Inr (atomic_projection txt st)
      | Some params \<Rightarrow>
          if text_or repr (ev_method ev) [] \<noteq> ''messages'' then Inr (atomic_projection txt st)
          else message_projection repr (ep_data params) origin txt seg st)"

definition close_stream :: "run_event_stream \<Rightarrow> run_event_stream" where
  "close_stream st =
     st\<lparr>es_blocks := [],
        es_messages := foldl (\<lambda>g k. discard_message k g) (es_messages st) (mg_active_main_runs (es_messages st))\<rparr>"

text \<open>The methods of the class, as one operation type.\<close>

datatype stream_op =
    Consume protocol_event resolved_origin string string
  | Atomic string
  | Close_stream

fun stream_step ::
  "(json \<Rightarrow> string) \<Rightarrow> run_event_stream \<Rightarrow> stream_op \<Rightarrow>
   stream_error + run_event_stream \<times> presentation_frame list" where
  "stream_step repr st (Consume ev origin txt seg) =
     bind_res (consume repr ev origin txt seg st) (\<lambda>(st', p). Inr (st', sp_frames p))"
| "stream_step repr st (Atomic txt) =
     (case stream_frame Ph_atomic txt [] [] st of (f, st') \<Rightarrow> Inr (st', [f]))"
| "stream_step repr st Close_stream = Inr (close_stream st, [])"

end
