(* ===== verification/Event_Stream_Frames.thy ===== *)
theory Event_Stream_Frames
  imports Event_Stream
begin

text \<open>
  The frames of one Run's event stream: their numbering and bracketing as an invariant of every
  operation, and that a block is recognised by its name.
\<close>

section \<open>Names of blocks\<close>

lemma digit_char_not_colon: "d < 10 \<Longrightarrow> digit_char d \<noteq> CHR '':''"
proof
  assume d: "d < 10" and eq: "digit_char d = CHR '':''"
  from d have "(of_char (digit_char d) :: nat) = 48 + d" by (simp add: digit_char_def)
  moreover have "(of_char (CHR '':'') :: nat) = 58" by simp
  ultimately show False using eq d by simp
qed

lemma nat_str_no_colon: "CHR '':'' \<notin> set (nat_str n)"
proof (induction n rule: nat_str.induct)
  case (1 n)
  show ?case
  proof (cases "n < 10")
    case True
    then show ?thesis
      using digit_char_not_colon [of n] by (subst nat_str.simps) (auto dest: sym)
  next
    case False
    moreover have "digit_char (n mod 10) \<noteq> CHR '':''" by (rule digit_char_not_colon) simp
    ultimately show ?thesis
      using 1 by (subst nat_str.simps) (auto dest: sym)
  qed
qed

lemma int_str_no_colon: "CHR '':'' \<notin> set (int_str i)"
  using nat_str_no_colon [of "nat i"] nat_str_no_colon [of "nat (- i)"] by (simp add: int_str_def)

lemma nat_str_no_minus: "nat_str n \<noteq> CHR ''-'' # s"
proof
  assume eq: "nat_str n = CHR ''-'' # s"
  have "\<forall>c \<in> set (nat_str n). (of_char c :: nat) \<ge> 48"
  proof (induction n rule: nat_str.induct)
    case (1 n)
    then show ?case
      by (subst nat_str.simps) (auto simp: digit_char_def)
  qed
  then show False unfolding eq by simp
qed

lemma int_str_inject: "int_str i = int_str j \<Longrightarrow> i = j"
  using nat_str_no_minus nat_str_no_minus [symmetric] by (auto simp: int_str_def split: if_splits)

lemma append_sep_inject:
  "r @ c # a = r' @ c # b \<Longrightarrow> c \<notin> set a \<Longrightarrow> c \<notin> set b \<Longrightarrow> r = r' \<and> a = b"
proof (induction r arbitrary: r')
  case Nil
  then show ?case by (cases r') auto
next
  case (Cons x r)
  then show ?case by (cases r') auto
qed

lemma block_name_inject: "block_name k = block_name k' \<longleftrightarrow> k = k'"
proof
  assume "block_name k = block_name k'"
  then have "fst k @ CHR '':'' # int_str (snd k) = fst k' @ CHR '':'' # int_str (snd k')"
    by (simp add: block_name_def)
  from append_sep_inject [OF this int_str_no_colon int_str_no_colon]
  show "k = k'" using int_str_inject by (auto intro: prod_eqI)
qed simp

section \<open>Bracketed frames\<close>

text \<open>
  The blocks that are open after a frame, or nothing when the frame does not fit: a delta or a
  finish belongs to an open block, an atomic frame to none, and every block has a name.
\<close>

definition block_step :: "string set \<Rightarrow> presentation_frame \<Rightarrow> string set option" where
  "block_step opn f =
     (if phase f = Ph_atomic then (if block_id f = [] then Some opn else None)
      else if block_id f = [] then None
      else if phase f = Ph_start then Some (insert (block_id f) opn)
      else if block_id f \<notin> opn then None
      else if phase f = Ph_delta then Some opn
      else if phase f = Ph_finish then Some (opn - {block_id f})
      else None)"

fun block_run :: "string set \<Rightarrow> presentation_frame list \<Rightarrow> string set option" where
  "block_run opn [] = Some opn"
| "block_run opn (f # fs) = (case block_step opn f of None \<Rightarrow> None | Some o' \<Rightarrow> block_run o' fs)"

lemma block_name_nonempty [simp]: "block_name k \<noteq> []"
  by (simp add: block_name_def)

lemma block_run_append:
  "block_run opn (fs @ gs) = (case block_run opn fs of None \<Rightarrow> None | Some o' \<Rightarrow> block_run o' gs)"
  by (induction fs arbitrary: opn) (auto split: option.splits)

definition numbered :: "nat \<Rightarrow> presentation_frame list \<Rightarrow> bool" where
  "numbered n fs \<longleftrightarrow> map fr_sequence fs = [Suc 0..<Suc (length fs)] \<and> n = length fs"

lemma numbered_snoc: "numbered n fs \<Longrightarrow> fr_sequence f = Suc n \<Longrightarrow> numbered (Suc n) (fs @ [f])"
  by (simp add: numbered_def)

definition block_names :: "(block_key, message_block) dict \<Rightarrow> string set" where
  "block_names bs = block_name ` fst ` set bs"

definition stream_inv :: "run_event_stream \<Rightarrow> presentation_frame list \<Rightarrow> bool" where
  "stream_inv st outs \<longleftrightarrow>
     wf_dict (es_blocks st) \<and> numbered (es_frame_sequence st) outs \<and>
     (\<exists>opn. block_run {} outs = Some opn \<and> block_names (es_blocks st) \<subseteq> opn)"

lemma stream_inv_cong [simp]:
  "stream_inv (st\<lparr>es_usage := u\<rparr>) outs = stream_inv st outs"
  "stream_inv (st\<lparr>es_messages := g\<rparr>) outs = stream_inv st outs"
  by (simp_all add: stream_inv_def)

lemma block_names_get: "map_of bs k = Some b \<Longrightarrow> block_name k \<in> block_names bs"
  unfolding block_names_def by (metis map_of_SomeD fst_conv imageI)

lemma block_names_set: "block_names (dict_set k b bs) \<subseteq> insert (block_name k) (block_names bs)"
proof -
  have "fst ` set (dict_set k b bs) \<subseteq> insert k (fst ` set bs)"
    using set_dict_set_subset [of k b bs] by (metis fst_conv image_insert image_mono)
  then show ?thesis unfolding block_names_def by (metis image_insert image_mono)
qed

lemma block_names_pop: "block_names (dict_pop k bs) = block_names bs - {block_name k}"
proof -
  have "fst ` set (dict_pop k bs) = fst ` set bs - {k}" by (induction bs) auto
  then show ?thesis
    unfolding block_names_def by (auto simp: block_name_inject)
qed

lemma block_names_filter: "block_names (filter P bs) \<subseteq> block_names bs"
  unfolding block_names_def by auto

lemma stream_inv_smaller:
  assumes "stream_inv st outs" "wf_dict bs" "block_names bs \<subseteq> block_names (es_blocks st)"
  shows "stream_inv (st\<lparr>es_blocks := bs\<rparr>) outs"
proof -
  from assms(1) obtain opn where "block_run {} outs = Some opn" "block_names (es_blocks st) \<subseteq> opn"
    unfolding stream_inv_def by blast
  moreover from this(2) assms(3) have "block_names bs \<subseteq> opn" by (rule subset_trans [rotated])
  ultimately show ?thesis using assms(1,2) by (simp add: stream_inv_def)
qed

lemma stream_inv_pop:
  "stream_inv st outs \<Longrightarrow> stream_inv (st\<lparr>es_blocks := dict_pop k (es_blocks st)\<rparr>) outs"
  by (rule stream_inv_smaller) (auto simp: stream_inv_def block_names_pop)

lemma stream_inv_filter:
  assumes "stream_inv st outs"
  shows "stream_inv (st\<lparr>es_blocks := filter Q (es_blocks st)\<rparr>) outs"
proof (rule stream_inv_smaller [OF assms])
  show "wf_dict (filter Q (es_blocks st))"
    using assms by (auto simp: stream_inv_def wf_dict_def intro: distinct_map_filter)
  show "block_names (filter Q (es_blocks st)) \<subseteq> block_names (es_blocks st)" by (rule block_names_filter)
qed

section \<open>Every operation\<close>

text \<open>One frame, with the blocks as they are after it.\<close>

lemma stream_frame_inv:
  assumes inv: "stream_inv st outs" and f: "stream_frame ph txt bid seg (st\<lparr>es_blocks := bs\<rparr>) = (f, st')"
    and wf: "wf_dict bs"
    and step: "\<And>opn. block_names (es_blocks st) \<subseteq> opn \<Longrightarrow> \<exists>opn'. block_step opn f = Some opn' \<and> block_names bs \<subseteq> opn'"
  shows "stream_inv st' (outs @ [f])"
proof -
  from inv obtain opn where opn: "block_run {} outs = Some opn" "block_names (es_blocks st) \<subseteq> opn"
    unfolding stream_inv_def by blast
  from step [OF opn(2)] obtain opn' where opn': "block_step opn f = Some opn'" "block_names bs \<subseteq> opn'"
    by blast
  have "block_run {} (outs @ [f]) = Some opn'"
    by (simp add: block_run_append opn(1) opn'(1))
  moreover have "numbered (es_frame_sequence st') (outs @ [f])" "es_blocks st' = bs"
    using inv f by (auto simp: stream_frame_def Let_def stream_inv_def numbered_snoc)
  ultimately show ?thesis using opn'(2) wf by (simp add: stream_inv_def)
qed

lemma stream_frame_parts:
  "stream_frame ph txt bid seg st = (f, st') \<Longrightarrow> phase f = ph \<and> block_id f = bid \<and> ftext f = txt"
  by (auto simp: stream_frame_def)

lemma stream_frame_atomic:
  assumes "stream_inv st outs" "stream_frame Ph_atomic txt [] [] st = (f, st')"
  shows "stream_inv st' (outs @ [f])"
  using stream_frame_inv [OF assms(1), of Ph_atomic "txt" "[]" "[]" "es_blocks st" f st'] assms
    stream_frame_parts [OF assms(2)]
  by (simp add: block_step_def stream_inv_def)

lemma atomic_frames_inv:
  "stream_inv st outs \<Longrightarrow> atomic_frames txt st = (fs, st') \<Longrightarrow> stream_inv st' (outs @ fs)"
  unfolding atomic_frames_def by (auto split: if_splits prod.splits dest: stream_frame_atomic)

lemma projected_simps [simp]:
  "projected (fs, st) media = (st, \<lparr>sp_frames = fs, sp_media = media\<rparr>)"
  by (simp add: projected_def)

lemma atomic_projected_inv:
  "stream_inv st outs \<Longrightarrow> projected (atomic_frames txt st) media = (st', p) \<Longrightarrow>
   stream_inv st' (outs @ sp_frames p)"
  by (cases "atomic_frames txt st") (auto dest: atomic_frames_inv)

lemma atomic_projection_inv:
  "stream_inv st outs \<Longrightarrow> atomic_projection txt st = (st', p) \<Longrightarrow> stream_inv st' (outs @ sp_frames p)"
  unfolding atomic_projection_def by (rule atomic_projected_inv)

lemma start_inv:
  assumes "stream_inv st outs"
    and "block_frame Ph_start txt key seg (st\<lparr>es_blocks := dict_set key b (es_blocks st)\<rparr>) = (st', p)"
  shows "stream_inv st' (outs @ sp_frames p)"
proof -
  obtain f where f: "stream_frame Ph_start txt (block_name key) seg
      (st\<lparr>es_blocks := dict_set key b (es_blocks st)\<rparr>) = (f, st')" "sp_frames p = [f]"
    using assms(2) by (auto simp: block_frame_def split: prod.splits)
  have "stream_inv st' (outs @ [f])"
  proof (rule stream_frame_inv [OF assms(1) f(1)])
    show "wf_dict (dict_set key b (es_blocks st))" using assms(1) by (simp add: stream_inv_def)
    fix opn assume "block_names (es_blocks st) \<subseteq> opn"
    then have "block_names (dict_set key b (es_blocks st)) \<subseteq> insert (block_name key) opn"
      using block_names_set [of key b "es_blocks st"] by blast
    then show "\<exists>opn'. block_step opn f = Some opn' \<and> block_names (dict_set key b (es_blocks st)) \<subseteq> opn'"
      using stream_frame_parts [OF f(1)] by (simp add: block_step_def)
  qed
  then show ?thesis using f(2) by simp
qed

lemma delta_inv:
  assumes "stream_inv st outs" "map_of (es_blocks st) key = Some b"
    and "block_frame Ph_delta txt key [] st = (st', p)"
  shows "stream_inv st' (outs @ sp_frames p)"
proof -
  obtain f where f: "stream_frame Ph_delta txt (block_name key) []
      (st\<lparr>es_blocks := es_blocks st\<rparr>) = (f, st')" "sp_frames p = [f]"
    using assms(3) by (auto simp: block_frame_def split: prod.splits)
  have "stream_inv st' (outs @ [f])"
  proof (rule stream_frame_inv [OF assms(1) f(1)])
    show "wf_dict (es_blocks st)" using assms(1) by (simp add: stream_inv_def)
    fix opn assume "block_names (es_blocks st) \<subseteq> opn"
    then show "\<exists>opn'. block_step opn f = Some opn' \<and> block_names (es_blocks st) \<subseteq> opn'"
      using stream_frame_parts [OF f(1)] block_names_get [OF assms(2)] by (auto simp: block_step_def)
  qed
  then show ?thesis using f(2) by simp
qed

lemma finish_frame_inv:
  assumes "stream_inv st outs" "map_of (es_blocks st) key = Some b"
    and f: "stream_frame Ph_finish txt (block_name key) [] (st\<lparr>es_blocks := dict_pop key (es_blocks st)\<rparr>) = (f, st')"
  shows "stream_inv st' (outs @ [f])"
proof (rule stream_frame_inv [OF assms(1) f])
  show "wf_dict (dict_pop key (es_blocks st))" using assms(1) by (simp add: stream_inv_def)
  fix opn assume "block_names (es_blocks st) \<subseteq> opn"
  then show "\<exists>opn'. block_step opn f = Some opn' \<and> block_names (dict_pop key (es_blocks st)) \<subseteq> opn'"
    using stream_frame_parts [OF f] block_names_get [OF assms(2)]
    by (auto simp: block_step_def block_names_pop)
qed

lemma finish_inv:
  assumes "stream_inv st outs" "map_of (es_blocks st) key = Some b"
    and "block_frame Ph_finish txt key [] (st\<lparr>es_blocks := dict_pop key (es_blocks st)\<rparr>) = (st', p)"
  shows "stream_inv st' (outs @ sp_frames p)"
  using assms(3) unfolding block_frame_def
  by (auto split: prod.splits dest: finish_frame_inv [OF assms(1,2)])

lemma close_blocks_inv:
  "stream_inv st outs \<Longrightarrow> close_blocks ks st = (fs, st') \<Longrightarrow> stream_inv st' (outs @ fs)"
proof (induction ks arbitrary: st outs fs)
  case (Cons k ks)
  show ?case
  proof (cases "map_of (es_blocks st) k")
    case None
    with Cons show ?thesis by simp
  next
    case (Some b)
    obtain f st1 where f: "stream_frame Ph_finish (mb_segment_end_text b) (block_name k) []
        (st\<lparr>es_blocks := dict_pop k (es_blocks st)\<rparr>) = (f, st1)" by fastforce
    obtain gs where gs: "close_blocks ks st1 = (gs, st')" "fs = f # gs"
      using Cons.prems(2) Some f by (auto split: prod.splits)
    show ?thesis
      using Cons.IH [OF finish_frame_inv [OF Cons.prems(1) Some f] gs(1)] gs(2) by simp
  qed
qed simp

lemma message_finish_inv:
  assumes "stream_inv st outs" "message_finish run_key payload txt st = (st', p)"
  shows "stream_inv st' (outs @ sp_frames p)"
proof -
  let ?st = "st\<lparr>es_usage := merge_usage run_key (JObj (mapping_or_empty (mapping_get payload ''usage''))) (es_usage st)\<rparr>"
  obtain fs st1 where 1: "close_message_blocks run_key ?st = (fs, st1)" by fastforce
  obtain gs st2 where 2: "atomic_frames txt st1 = (gs, st2)" by fastforce
  have "stream_inv ?st outs" using assms(1) by simp
  from close_blocks_inv [OF this 1 [unfolded close_message_blocks_def]] have "stream_inv st1 (outs @ fs)" .
  from atomic_frames_inv [OF this 2] show ?thesis
    using assms(2) 1 2 unfolding message_finish_def Let_def by auto
qed

lemma block_start_inv:
  assumes "stream_inv st outs" "block_start repr key mid payload txt seg st = (st', p)"
  shows "stream_inv st' (outs @ sp_frames p)"
  using assms(2) unfolding block_start_def Let_def
  by (auto split: option.splits if_splits
      dest: atomic_projection_inv [OF assms(1)] start_inv [OF assms(1)])

lemma block_delta_inv:
  assumes "stream_inv st outs" "block_delta key payload txt st = (st', p)"
  shows "stream_inv st' (outs @ sp_frames p)"
  using assms unfolding block_delta_def
  by (auto split: option.splits if_splits
      dest: atomic_projection_inv [OF assms(1)] delta_inv [OF assms(1)])

lemma block_finish_inv:
  assumes "stream_inv st outs" "block_finish repr key mid payload txt st = (st', p)"
  shows "stream_inv st' (outs @ sp_frames p)"
  using assms(2) unfolding block_finish_def Let_def
  by (auto split: option.splits if_splits
      dest: atomic_projection_inv [OF assms(1)] atomic_projection_inv [OF stream_inv_pop [OF assms(1)]]
        atomic_projected_inv [OF stream_inv_pop [OF assms(1)]] finish_inv [OF assms(1)])

lemma consume_block_inv:
  assumes "stream_inv st outs" "consume_block repr run_key payload origin txt seg st = (st', p)"
  shows "stream_inv st' (outs @ sp_frames p)"
proof (cases "if case get_message run_key (es_messages st) of None \<Rightarrow> is_public_agent origin | Some m \<Rightarrow> mr_public_ai m
    then json_int (mapping_get payload ''index'') else None")
  case None
  with assms(2) have "atomic_projection txt st = (st', p)" by (simp only: consume_block_def Let_def option.case)
  then show ?thesis by (rule atomic_projection_inv [OF assms(1)])
next
  case (Some i)
  with assms(2) show ?thesis
    unfolding consume_block_def Let_def
    by (auto split: if_splits dest: block_start_inv [OF assms(1)] block_delta_inv [OF assms(1)]
        block_finish_inv [OF assms(1)] atomic_projection_inv [OF assms(1)])
qed

lemma discard_stream_message_inv:
  assumes "stream_inv st outs"
  shows "stream_inv (discard_stream_message run_key st) outs"
proof -
  have "stream_inv ((st\<lparr>es_blocks := filter (\<lambda>kb. fst (fst kb) \<noteq> run_key) (es_blocks st)\<rparr>)
    \<lparr>es_messages := discard_message run_key (es_messages st)\<rparr>) outs"
    unfolding stream_inv_cong by (rule stream_inv_filter [OF assms])
  then show ?thesis by (simp add: discard_stream_message_def)
qed

lemma consume_payload_inv:
  assumes "stream_inv st outs" "consume_payload repr run_key payload origin txt seg st = (st', p)"
  shows "stream_inv st' (outs @ sp_frames p)"
proof -
  have "stream_inv (message_start repr run_key payload origin st) outs"
    using assms(1) by (simp add: message_start_def Let_def)
  with assms show ?thesis
    unfolding consume_payload_def Let_def
    by (auto split: if_splits dest: atomic_projection_inv message_finish_inv [OF assms(1)]
        atomic_projection_inv [OF discard_stream_message_inv [OF assms(1)]] consume_block_inv [OF assms(1)])
qed

lemma consume_whole_inv:
  assumes "stream_inv st outs" "consume_whole repr run_key m txt st = Inr (st', p)"
  shows "stream_inv st' (outs @ sp_frames p)"
proof -
  let ?st = "st\<lparr>es_usage := merge_usage run_key (JObj (mapping_or_empty (am_usage_metadata m))) (es_usage st)\<rparr>"
  have inv: "stream_inv ?st outs" using assms(1) by simp
  show ?thesis
    using assms(2) inv unfolding consume_whole_def Let_def
    by (auto simp: bind_res_eq_Inr split: if_splits dest: atomic_projected_inv [OF inv])
qed

lemma consume_inv:
  assumes "stream_inv st outs" "consume repr ev origin txt seg st = Inr (st', p)"
  shows "stream_inv st' (outs @ sp_frames p)"
  using assms(2) unfolding consume_def message_projection_def Let_def
  by (auto split: option.splits if_splits event_part.splits
      dest: atomic_projection_inv [OF assms(1)] consume_whole_inv [OF assms(1)] consume_payload_inv [OF assms(1)])

lemma close_stream_inv: "stream_inv st outs \<Longrightarrow> stream_inv (close_stream st) outs"
  unfolding close_stream_def
  using stream_inv_smaller [of st outs "[]"] by (simp add: block_names_def)

lemma stream_step_inv:
  assumes "stream_inv st outs" "stream_step repr st x = Inr (st', fs)"
  shows "stream_inv st' (outs @ fs)"
proof (cases x)
  case (Consume ev origin t seg)
  with assms show ?thesis by (auto simp: bind_res_eq_Inr dest: consume_inv [OF assms(1)])
next
  case (Atomic t)
  with assms show ?thesis
    by (auto split: prod.splits dest: stream_frame_atomic [OF assms(1)])
next
  case Close_stream
  with assms(2) close_stream_inv [OF assms(1)] show ?thesis by auto
qed

interpretation stream: invariant_machine "stream_step repr" "\<lambda>st. \<exists>u. st = new_stream u" stream_inv
proof unfold_locales
  fix st assume "\<exists>u. st = new_stream u"
  then show "stream_inv st []"
    by (auto simp: new_stream_def stream_inv_def numbered_def block_names_def)
qed (rule stream_step_inv)

lemma stream_run_inv: "run_ops (stream_step repr) (new_stream u) ops = (st, outs) \<Longrightarrow> stream_inv st outs"
  by (rule stream.run_inv) blast

end
