(* ===== verification/Stream_Presentation.thy ===== *)
theory Stream_Presentation
  imports Event_Stream_Frames
begin

text \<open>
  The event stream of a Run meets the response scheduler: while a Run owns the response its
  frames are presented one by one, and between two of them the scheduler may close the open
  segment (an idle owner hands the response over and is resumed later).  Whatever the closings,
  the deltas and atomic frames of the stream reach the response unchanged and in order.
\<close>

section \<open>An owner that is served\<close>

datatype serve_op =
    Serve presentation_frame
  | Hand_over string

fun serve_step :: "run_output \<times> scheduler \<Rightarrow> serve_op \<Rightarrow> run_output \<times> scheduler" where
  "serve_step (st, s) (Serve f) = present st f s"
| "serve_step (st, s) (Hand_over reason) = close_public_segment st reason s"

definition serve :: "serve_op list \<Rightarrow> run_output \<times> scheduler \<Rightarrow> run_output \<times> scheduler" where
  "serve xs r = foldl serve_step r xs"

fun served_frames :: "serve_op list \<Rightarrow> presentation_frame list" where
  "served_frames [] = []"
| "served_frames (Serve f # xs) = f # served_frames xs"
| "served_frames (Hand_over reason # xs) = served_frames xs"

section \<open>Content\<close>

definition content :: "presentation_frame list \<Rightarrow> (frame_phase \<times> string \<times> string) list" where
  "content fs =
     map (\<lambda>f. (phase f, block_id f, ftext f))
       (filter (\<lambda>f. (phase f = Ph_delta \<or> phase f = Ph_atomic) \<and> ftext f \<noteq> []) fs)"

lemma content_append [simp]: "content (fs @ gs) = content fs @ content gs"
  by (simp add: content_def)

lemma content_Nil [simp]: "content [] = []"
  by (simp add: content_def)

lemma content_single:
  "content [f] = (if (phase f = Ph_delta \<or> phase f = Ph_atomic) \<and> ftext f \<noteq> []
                  then [(phase f, block_id f, ftext f)] else [])"
  by (simp add: content_def)

definition shown :: "scheduler \<Rightarrow> (frame_phase \<times> string \<times> string) list" where
  "shown s = content (pending_frames s)"

lemma shown_emit:
  "shown (emit ph t bid seg c r s) =
     shown s @ (if (ph = Ph_delta \<or> ph = Ph_atomic) \<and> t \<noteq> [] then [(ph, bid, t)] else [])"
  by (simp add: shown_def emit_def Let_def content_single)

lemma shown_emit_atomic:
  "shown (emit_atomic t s) = shown s @ (if t \<noteq> [] then [(Ph_atomic, [], t)] else [])"
  by (simp add: emit_atomic_def shown_emit)

text \<open>The content blocks a Run has begun and not ended.\<close>

definition run_blocks :: "run_output \<Rightarrow> string set" where
  "run_blocks st = fst ` set (blocks st)"

lemma run_blocks_set: "run_blocks (st\<lparr>blocks := dict_set k b bs\<rparr>) = insert k (fst ` set bs)"
proof -
  have "fst ` set (dict_set k b bs) = insert k (fst ` set bs)" by (induction bs) auto
  then show ?thesis by (simp add: run_blocks_def)
qed

lemma run_blocks_pop: "run_blocks (st\<lparr>blocks := dict_pop k bs\<rparr>) = fst ` set bs - {k}"
proof -
  have "fst ` set (dict_pop k bs) = fst ` set bs - {k}" by (induction bs) auto
  then show ?thesis by (simp add: run_blocks_def)
qed

lemma run_blocks_open [simp]: "run_blocks (st\<lparr>open_block_id := ob\<rparr>) = run_blocks st"
  by (simp add: run_blocks_def)

lemma run_blocks_get: "map_of (blocks st) k = None \<longleftrightarrow> k \<notin> run_blocks st"
  by (simp add: run_blocks_def map_of_eq_None_iff)

lemma close_public_segment_shown:
  "close_public_segment st r s = (st', s') \<Longrightarrow> shown s' = shown s \<and> run_blocks st' = run_blocks st"
  by (auto simp: close_public_segment_def shown_emit split: option.splits)

lemma open_segment_shown:
  assumes "open_segment st bid b s = (st', s')"
  shows "shown s' = shown s" "run_blocks st' = insert bid (run_blocks st)"
proof -
  obtain b' where st': "st' = (st\<lparr>blocks := dict_set bid b' (blocks st)\<rparr>)\<lparr>open_block_id := Some bid\<rparr>"
    using assms by (auto simp: open_segment_def Let_def)
  show "run_blocks st' = insert bid (run_blocks st)"
    unfolding st' run_blocks_open run_blocks_set by (simp add: run_blocks_def)
  show "shown s' = shown s"
    using assms by (auto simp: open_segment_def Let_def shown_emit)
qed

lemma resume_segment_shown:
  assumes "resume_segment st bid b s = (st', s')"
  shows "shown s' = shown s" "run_blocks st' = insert bid (run_blocks st)"
proof -
  obtain st1 s1 where 1: "close_public_segment st ''protocol_resume'' s = (st1, s1)"
    "open_segment st1 bid b s1 = (st', s')"
    using assms by (auto simp: resume_segment_def split: prod.splits)
  show "shown s' = shown s" "run_blocks st' = insert bid (run_blocks st)"
    using close_public_segment_shown [OF 1(1)] open_segment_shown [OF 1(2)] by simp_all
qed

section \<open>Presenting one frame\<close>

lemma present_start_shown:
  assumes "present_start st f s = (st', s')"
  shows "shown s' = shown s" "run_blocks st' = insert (block_id f) (run_blocks st)"
proof -
  obtain st1 s1 b where 1: "close_public_segment st ''protocol_successor'' s = (st1, s1)"
    "open_segment (st1\<lparr>blocks := dict_set (block_id f) b (blocks st1)\<rparr>) (block_id f) b s1 = (st', s')"
    using assms by (auto simp: present_start_def Let_def split: prod.splits)
  show "shown s' = shown s"
    using close_public_segment_shown [OF 1(1)] open_segment_shown(1) [OF 1(2)] by simp
  have "run_blocks st' = insert (block_id f) (insert (block_id f) (fst ` set (blocks st1)))"
    using open_segment_shown(2) [OF 1(2)] by (simp only: run_blocks_set)
  then show "run_blocks st' = insert (block_id f) (run_blocks st)"
    using close_public_segment_shown [OF 1(1)] by (simp add: run_blocks_def)
qed

lemma present_delta_shown:
  assumes "present_delta st f b s = (st', s')" "block_id f \<in> run_blocks st"
  shows "shown s' = shown s @ (if ftext f \<noteq> [] then [(Ph_delta, block_id f, ftext f)] else [])"
    and "run_blocks st' = run_blocks st"
proof -
  obtain s1 where r: "(if open_block_id st \<noteq> Some (block_id f)
      then resume_segment st (block_id f) b s else (st, s)) = (st', s1)"
    and s': "s' = (if ftext f \<noteq> [] then emit Ph_delta (ftext f) (block_id f) [] (block_count st' (block_id f) > 1) [] s1 else s1)"
    using assms(1) by (auto simp: present_delta_def split: prod.splits)
  have 1: "shown s1 = shown s \<and> run_blocks st' = run_blocks st"
    using r assms(2) by (auto split: if_splits dest: resume_segment_shown)
  from 1 show "run_blocks st' = run_blocks st" by blast
  from 1 show "shown s' = shown s @ (if ftext f \<noteq> [] then [(Ph_delta, block_id f, ftext f)] else [])"
    unfolding s' by (simp add: shown_emit)
qed

lemma present_close_shown:
  assumes "present_close st f b s = (st', s')" "block_id f \<in> run_blocks st" "phase f = Ph_finish"
  shows "shown s' = shown s" "run_blocks st' = run_blocks st - {block_id f}"
proof -
  obtain st1 s1 st2 s2 where r: "(if open_block_id st \<noteq> Some (block_id f) \<and> ftext f \<noteq> []
      then resume_segment st (block_id f) b s else (st, s)) = (st1, s1)"
    and c: "(if open_block_id st1 = Some (block_id f)
               then (st1\<lparr>open_block_id := None\<rparr>,
                     emit (phase f) (if ftext f \<noteq> [] then ftext f else seg_end_text b)
                       (block_id f) [] (block_count st1 (block_id f) > 1)
                       (if phase f = Ph_finish then ''protocol_finish'' else ''abort'') s1)
               else (st1, s1)) = (st2, s2)"
    and e: "st' = st2\<lparr>blocks := dict_pop (block_id f) (blocks st2)\<rparr>" "s' = s2"
    using assms(1) by (auto simp: present_close_def split: prod.splits)
  have 1: "shown s1 = shown s \<and> run_blocks st1 = run_blocks st"
    using r assms(2) by (auto split: if_splits dest: resume_segment_shown)
  have 2: "shown s2 = shown s1 \<and> run_blocks st2 = run_blocks st1"
    using c assms(3) by (auto simp: shown_emit split: if_splits)
  show "shown s' = shown s" using 1 2 e by simp
  show "run_blocks st' = run_blocks st - {block_id f}"
    using 1 2 e by (simp add: run_blocks_pop run_blocks_def [symmetric])
qed

text \<open>A frame that fits the open blocks is presented in its own phase.\<close>

lemma present_shown:
  assumes "present st f s = (st', s')" "block_step (run_blocks st) f = Some opn"
  shows "shown s' = shown s @ content [f] \<and> run_blocks st' = opn"
proof (cases "phase f")
  case Ph_start
  with assms have "block_id f \<noteq> []" "opn = insert (block_id f) (run_blocks st)"
    by (auto simp: block_step_def split: if_splits)
  with Ph_start assms(1) show ?thesis
    by (auto simp: present_def content_single dest: present_start_shown)
next
  case Ph_delta
  with assms have o: "block_id f \<in> run_blocks st" "opn = run_blocks st" "block_id f \<noteq> []"
    by (auto simp: block_step_def split: if_splits)
  then obtain b where b: "map_of (blocks st) (block_id f) = Some b"
    using run_blocks_get [of st "block_id f"] by auto
  then show ?thesis
    using Ph_delta assms(1) o by (auto simp: present_def content_single present_delta_shown)
next
  case Ph_finish
  with assms have o: "block_id f \<in> run_blocks st" "opn = run_blocks st - {block_id f}" "block_id f \<noteq> []"
    by (auto simp: block_step_def split: if_splits)
  then obtain b where b: "map_of (blocks st) (block_id f) = Some b"
    using run_blocks_get [of st "block_id f"] by auto
  then show ?thesis
    using Ph_finish assms(1) o by (auto simp: present_def content_single dest: present_close_shown)
next
  case Ph_atomic
  with assms show ?thesis
    by (auto simp: present_def block_step_def content_single shown_emit_atomic split: if_splits prod.splits
        dest!: close_public_segment_shown)
next
  case Ph_abort
  with assms show ?thesis by (simp add: block_step_def split: if_splits)
qed

lemma serve_shown:
  "block_run (run_blocks st) (served_frames xs) = Some opn \<Longrightarrow> serve xs (st, s) = (st', s') \<Longrightarrow>
   shown s' = shown s @ content (served_frames xs) \<and> run_blocks st' = opn"
proof (induction xs arbitrary: st s)
  case Nil
  then show ?case by (simp add: serve_def)
next
  case (Cons x xs)
  obtain st1 s1 where 1: "serve_step (st, s) x = (st1, s1)" by fastforce
  have rest: "serve xs (st1, s1) = (st', s')" using Cons.prems(2) 1 by (simp add: serve_def)
  show ?case
  proof (cases x)
    case (Serve f)
    obtain o1 where o1: "block_step (run_blocks st) f = Some o1" "block_run o1 (served_frames xs) = Some opn"
      using Cons.prems(1) Serve by (auto split: option.splits)
    have p: "shown s1 = shown s @ content [f] \<and> run_blocks st1 = o1"
      using 1 Serve o1(1) by (auto dest: present_shown)
    have "shown s' = shown s1 @ content (served_frames xs) \<and> run_blocks st' = opn"
      by (rule Cons.IH) (use p o1(2) rest in auto)
    moreover have "content (f # served_frames xs) = content [f] @ content (served_frames xs)"
      using content_append [of "[f]" "served_frames xs"] by simp
    ultimately show ?thesis using p Serve by simp
  next
    case (Hand_over r)
    have "shown s1 = shown s \<and> run_blocks st1 = run_blocks st"
      using 1 Hand_over by (auto dest: close_public_segment_shown)
    moreover have "shown s' = shown s1 @ content (served_frames xs) \<and> run_blocks st' = opn"
      by (rule Cons.IH) (use calculation Cons.prems(1) Hand_over rest in auto)
    ultimately show ?thesis using Hand_over by simp
  qed
qed

end
