(* ===== verification/Scheduler_Safety.thy ===== *)
theory Scheduler_Safety
  imports Response_Scheduler
begin

text \<open>
  The invariant of the response scheduler and what follows from it: every method returns
  where its guard allows it (no lookup of a Run fails), frames leave in the order of their
  numbers, segments are bracketed, at most the owner has an open segment, a Run with text
  to show is never forgotten, and a fully terminal Lifecycle can be finished.
\<close>

text \<open>A Run is named by a pair; quantifiers over names are not split into components.\<close>

declare split_paired_All [simp del] split_paired_Ex [simp del]

section \<open>The public frame log\<close>

text \<open>
  The bracket automaton of a response: at most one segment is open, a delta or an end names
  the open one.  \<open>seg_run\<close> is \<open>None\<close> when a frame has no place.
\<close>

definition seg_step :: "string option \<Rightarrow> presentation_frame \<Rightarrow> string option option" where
  "seg_step cur f =
     (case phase f of
        Ph_start \<Rightarrow> (if cur = None then Some (Some (block_id f)) else None)
      | Ph_delta \<Rightarrow> (if cur = Some (block_id f) then Some cur else None)
      | Ph_finish \<Rightarrow> (if cur = Some (block_id f) then Some None else None)
      | Ph_abort \<Rightarrow> (if cur = Some (block_id f) then Some None else None)
      | Ph_atomic \<Rightarrow> Some cur)"

fun seg_run :: "string option \<Rightarrow> presentation_frame list \<Rightarrow> string option option" where
  "seg_run cur [] = Some cur"
| "seg_run cur (f # fs) = (case seg_step cur f of None \<Rightarrow> None | Some cur' \<Rightarrow> seg_run cur' fs)"

lemma seg_run_append:
  "seg_run cur (xs @ ys) = (case seg_run cur xs of None \<Rightarrow> None | Some c \<Rightarrow> seg_run c ys)"
  by (induction xs arbitrary: cur) (auto split: option.splits)

lemma seg_run_prefix: "seg_run cur (xs @ ys) \<noteq> None \<Longrightarrow> seg_run cur xs \<noteq> None"
  by (auto simp: seg_run_append split: option.splits)

text \<open>A log is well formed when its frames are numbered from 1 and bracketed.\<close>

definition log_numbered :: "presentation_frame list \<Rightarrow> bool" where
  "log_numbered fs \<longleftrightarrow> map fr_sequence fs = [1..<Suc (length fs)]"

lemma log_numbered_Nil [simp]: "log_numbered []"
  by (simp add: log_numbered_def)

lemma log_numbered_snoc [simp]:
  "log_numbered (fs @ [f]) \<longleftrightarrow> log_numbered fs \<and> fr_sequence f = Suc (length fs)"
  by (auto simp: log_numbered_def)

lemma log_numbered_prefix: "log_numbered (xs @ ys) \<Longrightarrow> log_numbered xs"
  by (induction ys rule: rev_induct) (auto simp flip: append_assoc)

abbreviation full_log :: "presentation_frame list \<Rightarrow> scheduler \<Rightarrow> presentation_frame list" where
  "full_log outs s \<equiv> outs @ published_frames s @ pending_frames s"

definition log_ok :: "presentation_frame list \<Rightarrow> scheduler \<Rightarrow> string option \<Rightarrow> bool" where
  "log_ok outs s cur \<longleftrightarrow>
     log_numbered (full_log outs s) \<and> length (full_log outs s) = frame_sequence s \<and>
     seg_run None (full_log outs s) = Some cur"

lemma log_ok_emit:
  assumes "log_ok outs s cur"
    and "seg_step cur \<lparr>phase = ph, ftext = t, block_id = b, segment_end_text = se,
           continuation = c, close_reason = r, fr_sequence = Suc (frame_sequence s)\<rparr> = Some cur'"
  shows "log_ok outs (emit ph t b se c r s) cur'"
proof -
  let ?f = "\<lparr>phase = ph, ftext = t, block_id = b, segment_end_text = se,
           continuation = c, close_reason = r, fr_sequence = Suc (frame_sequence s)\<rparr>"
  have "full_log outs (emit ph t b se c r s) = full_log outs s @ [?f]"
    by (simp add: emit_def)
  moreover have "frame_sequence (emit ph t b se c r s) = Suc (frame_sequence s)"
    by (simp add: emit_def)
  ultimately show ?thesis
    using assms by (simp add: log_ok_def seg_run_append flip: append_assoc)
qed

lemma log_ok_atomic: "log_ok outs s cur \<Longrightarrow> log_ok outs (emit_atomic t s) cur"
  by (simp add: emit_atomic_def log_ok_emit seg_step_def)

lemma log_ok_deadline [simp]: "log_ok outs (s\<lparr>owner_deadline := d\<rparr>) cur = log_ok outs s cur"
  by (simp add: log_ok_def)

text \<open>The open block of a Run is one of its blocks; presenting keeps that and the brackets.\<close>

definition blocks_ok :: "run_output \<Rightarrow> bool" where
  "blocks_ok st \<longleftrightarrow> (\<forall>b. open_block_id st = Some b \<longrightarrow> map_of (blocks st) b \<noteq> None)"

lemma blocks_ok_closed [simp]: "open_block_id st = None \<Longrightarrow> blocks_ok st"
  by (simp add: blocks_ok_def)

lemma close_public_segment_log:
  assumes "close_public_segment st r s = (st', s')"
    and "log_ok outs s (open_block_id st)" and "blocks_ok st"
  shows "log_ok outs s' None \<and> st' = st\<lparr>open_block_id := None\<rparr>"
proof (cases "open_block_id st")
  case None
  with assms show ?thesis by (auto simp: close_public_segment_def)
next
  case (Some bid)
  with assms(3) obtain b where "map_of (blocks st) bid = Some b"
    by (auto simp: blocks_ok_def)
  with Some assms(1,2) show ?thesis
    by (auto simp: close_public_segment_def seg_step_def intro!: log_ok_emit)
qed

lemma open_segment_log:
  assumes "open_segment st bid b s = (st', s')" and "log_ok outs s None"
  shows "log_ok outs s' (Some bid) \<and> blocks_ok st' \<and> open_block_id st' = Some bid"
proof -
  have s': "s' = emit Ph_start (start_text b) bid (seg_end_text b) (segment_count b > 0) [] s"
    and st': "open_block_id st' = Some bid" "map_of (blocks st') bid \<noteq> None"
    using assms(1) by (auto simp: open_segment_def Let_def dict_simps)
  have "log_ok outs s' (Some bid)"
    unfolding s' by (rule log_ok_emit [OF assms(2)]) (simp add: seg_step_def)
  with st' show ?thesis by (simp add: blocks_ok_def)
qed

lemma resume_segment_log:
  assumes "resume_segment st bid b s = (st', s')"
    and "log_ok outs s (open_block_id st)" and "blocks_ok st"
  shows "log_ok outs s' (Some bid) \<and> blocks_ok st' \<and> open_block_id st' = Some bid"
  using assms close_public_segment_log open_segment_log
  unfolding resume_segment_def by (fastforce split: prod.splits)

lemma present_start_log:
  assumes "present_start st f s = (st', s')"
    and "log_ok outs s (open_block_id st)" and "blocks_ok st"
  shows "log_ok outs s' (open_block_id st') \<and> blocks_ok st'"
proof -
  obtain st1 s1 where c: "close_public_segment st ''protocol_successor'' s = (st1, s1)"
    by (cases "close_public_segment st ''protocol_successor'' s")
  have "log_ok outs s1 None"
    using close_public_segment_log [OF c assms(2,3)] by simp
  then show ?thesis
    using assms(1) c by (auto simp: present_start_def Let_def dest: open_segment_log)
qed

lemma present_delta_log:
  assumes "present_delta st f b s = (st', s')"
    and "log_ok outs s (open_block_id st)" and "blocks_ok st"
  shows "log_ok outs s' (open_block_id st') \<and> blocks_ok st'"
proof -
  obtain st1 s1 where r: "(if open_block_id st \<noteq> Some (block_id f)
      then resume_segment st (block_id f) b s else (st, s)) = (st1, s1)" by fastforce
  have "log_ok outs s1 (Some (block_id f)) \<and> blocks_ok st1 \<and> open_block_id st1 = Some (block_id f)"
    using r assms by (auto split: if_splits dest: resume_segment_log)
  then show ?thesis
    using assms(1) unfolding present_delta_def r
    by (auto simp: seg_step_def intro!: log_ok_emit split: if_splits)
qed

lemma present_close_log:
  assumes "present_close st f b s = (st', s')"
    and "log_ok outs s (open_block_id st)" and "blocks_ok st"
    and "phase f = Ph_finish \<or> phase f = Ph_abort"
  shows "log_ok outs s' (open_block_id st') \<and> blocks_ok st'"
proof -
  obtain st1 s1 where r: "(if open_block_id st \<noteq> Some (block_id f) \<and> ftext f \<noteq> []
      then resume_segment st (block_id f) b s else (st, s)) = (st1, s1)" by fastforce
  have 1: "log_ok outs s1 (open_block_id st1)" "blocks_ok st1"
    using r assms(2,3) by (auto split: if_splits dest: resume_segment_log)
  show ?thesis
  proof (cases "open_block_id st1 = Some (block_id f)")
    case True
    with assms(1,4) 1 show ?thesis unfolding present_close_def r
      by (auto simp: seg_step_def intro!: log_ok_emit)
  next
    case False
    with assms(1) 1 show ?thesis unfolding present_close_def r
      by (auto simp: blocks_ok_def dict_simps)
  qed
qed

lemma present_log:
  assumes "present st f s = (st', s')"
    and "log_ok outs s (open_block_id st)" and "blocks_ok st"
  shows "log_ok outs s' (open_block_id st') \<and> blocks_ok st'"
proof (cases "phase f = Ph_atomic")
  case True
  obtain st1 s1 where c: "close_public_segment st ''atomic_boundary'' s = (st1, s1)"
    by (cases "close_public_segment st ''atomic_boundary'' s")
  with close_public_segment_log [OF c assms(2,3)] True assms(1) show ?thesis
    by (auto simp: present_def log_ok_atomic)
next
  case False
  have *: "phase f = Ph_finish \<or> phase f = Ph_abort"
    if "phase f \<noteq> Ph_start" "phase f \<noteq> Ph_delta"
    using False that by (cases "phase f") auto
  from False assms show ?thesis
    unfolding present_def
    by (auto simp: log_ok_atomic split: if_splits option.splits
        dest: present_start_log present_delta_log present_close_log [OF _ _ _ *])
qed

lemma drain_loop_log:
  "drain_loop now fs st s = (st', s') \<Longrightarrow> log_ok outs s (open_block_id st) \<Longrightarrow> blocks_ok st \<Longrightarrow>
     log_ok outs s' (open_block_id st') \<and> blocks_ok st'"
proof (induction fs arbitrary: st s)
  case Nil
  then show ?case by simp
next
  case (Cons f fs)
  obtain st1 s1 where p: "present (st\<lparr>pending := fs\<rparr>) f s = (st1, s1)"
    by (cases "present (st\<lparr>pending := fs\<rparr>) f s")
  have "log_ok outs s1 (open_block_id st1) \<and> blocks_ok st1"
    using present_log [OF p] Cons.prems(2,3) by (simp add: blocks_ok_def)
  with Cons.prems(1) p Cons.IH [of st1] show ?case
    by (auto simp: Let_def split: if_splits)
qed

section \<open>The invariant of the scheduler\<close>

definition owner_segment :: "scheduler \<Rightarrow> string option" where
  "owner_segment s = Option.bind (owner s) (\<lambda>k. Option.bind (map_of (runs s) k) open_block_id)"

lemma owner_segment_cong:
  "owner s' = owner s \<Longrightarrow> runs s' = runs s \<Longrightarrow> owner_segment s' = owner_segment s"
  by (simp add: owner_segment_def)

text \<open>
  \<open>core\<close> holds between any two internal steps: the tables agree with each other, only the
  owner has an open segment, and the log is numbered and bracketed up to that segment.
\<close>

definition queue_wf :: "scheduler \<Rightarrow> bool" where
  "queue_wf s \<longleftrightarrow>
     wf_dict (runs s) \<and> distinct (ready s) \<and> set (ready s) = ready_set s \<and>
     (\<forall>k \<in> ready_set s. map_of (runs s) k \<noteq> None) \<and>
     (\<forall>k. owner s = Some k \<longrightarrow> map_of (runs s) k \<noteq> None \<and> k \<notin> ready_set s)"

definition segments_wf :: "scheduler \<Rightarrow> bool" where
  "segments_wf s \<longleftrightarrow>
     (\<forall>k st. map_of (runs s) k = Some st \<longrightarrow>
        blocks_ok st \<and> (owner s \<noteq> Some k \<longrightarrow> open_block_id st = None))"

definition core :: "presentation_frame list \<Rightarrow> scheduler \<Rightarrow> bool" where
  "core outs s \<longleftrightarrow> queue_wf s \<and> segments_wf s \<and> log_ok outs s (owner_segment s)"

text \<open>
  Three facts about progress hold between public operations: the owner is alive and has
  nothing left to present, without an owner nobody waits, and a Run that still has text to
  show (or any frame, once it is terminal) waits in the queue.
\<close>

definition owner_idle :: "scheduler \<Rightarrow> bool" where
  "owner_idle s \<longleftrightarrow> (\<forall>k st. owner s = Some k \<longrightarrow> map_of (runs s) k = Some st \<longrightarrow>
     \<not> terminal st \<and> pending st = [])"

definition queue_served :: "scheduler \<Rightarrow> bool" where
  "queue_served s \<longleftrightarrow> (owner s = None \<longrightarrow> ready s = [])"

definition must_wait :: "run_output \<Rightarrow> bool" where
  "must_wait st \<longleftrightarrow> pending_can_emit st \<or> terminal st \<and> pending st \<noteq> []"

definition none_forgotten :: "scheduler \<Rightarrow> bool" where
  "none_forgotten s \<longleftrightarrow> (\<forall>k st. map_of (runs s) k = Some st \<longrightarrow> owner s \<noteq> Some k \<longrightarrow>
     must_wait st \<longrightarrow> k \<in> ready_set s)"

lemma must_wait_pending: "must_wait st \<Longrightarrow> pending st \<noteq> []"
  by (auto simp: must_wait_def pending_can_emit_def)

text \<open>The owner's Run is presented: its entry changes, and with it the log.\<close>

lemma core_present:
  assumes "core outs s" and "owner s = Some k" and "same_frame s s1"
    and "blocks_ok st'" and "log_ok outs s1 (open_block_id st')"
  shows "core outs (put_run k st' s1)"
proof -
  have "owner s1 = Some k" "runs s1 = runs s" "ready s1 = ready s" "ready_set s1 = ready_set s"
    "published_frames s1 = published_frames s"
    using assms(2,3) by (auto simp: same_frame_def)
  then show ?thesis
    using assms(1,2,4,5)
    by (auto simp: core_def queue_wf_def segments_wf_def put_run_def dict_simps owner_segment_def
        log_ok_def split: if_splits)
qed

text \<open>The owner's Run is closed and released.\<close>

lemma core_release:
  assumes "core outs s" and "owner s = Some k" and "same_frame s s1"
    and "open_block_id st' = None" and "log_ok outs s1 None"
  shows "core outs (release_owner (put_run k st' s1))"
proof -
  have "owner s1 = Some k" "runs s1 = runs s" "ready s1 = ready s" "ready_set s1 = ready_set s"
    using assms(2,3) by (auto simp: same_frame_def)
  then show ?thesis
    using assms(1,2,4,5)
    by (auto simp: core_def queue_wf_def segments_wf_def put_run_def release_owner_def dict_simps
        owner_segment_def log_ok_def split: if_splits)
qed

text \<open>An entry of a Run that is not the owner's changes, with no segment open.\<close>

lemma core_put_other:
  assumes "core outs s" and "owner s \<noteq> Some k" and "open_block_id st' = None"
  shows "core outs (put_run k st' s)"
  using assms
  by (cases "owner s")
     (auto simp: core_def queue_wf_def segments_wf_def put_run_def dict_simps owner_segment_def
      log_ok_def split: if_splits)

lemma core_owner_run:
  assumes "core outs s" and "owner s = Some k"
  obtains st where "map_of (runs s) k = Some st" "run_at k s = Inr st" "blocks_ok st"
    "log_ok outs s (open_block_id st)"
proof -
  obtain st where st: "map_of (runs s) k = Some st"
    using assms by (auto simp: core_def queue_wf_def)
  have "blocks_ok st"
    using assms(1) st unfolding core_def segments_wf_def by blast
  moreover have "log_ok outs s (open_block_id st)"
    using assms st by (simp add: core_def owner_segment_def)
  ultimately show ?thesis using st that by (simp add: run_at_def)
qed

subsection \<open>The internal steps\<close>

lemma drain_owner_total:
  assumes "core outs s" and "owner s = Some k" and "map_of (runs s) k = Some st"
  obtains s' st' where "drain_owner now s = Inr s'" "core outs s'" "owner s' = Some k"
    "runs s' = AList.update k st' (runs s)" "pending st' = []" "terminal st' = terminal st"
    "aborted st' = aborted st" "ready s' = ready s" "ready_set s' = ready_set s"
    "finished s' = finished s" "policy s' = policy s"
proof -
  obtain st1 s1 where d: "drain_loop now (pending st) st s = (st1, s1)"
    by (cases "drain_loop now (pending st) st s")
  from core_owner_run [OF assms(1,2)] assms(3)
  have st: "run_at k s = Inr st" "blocks_ok st" "log_ok outs s (open_block_id st)"
    by (auto simp: run_at_def)
  note same = drain_loop_same [OF d refl] and log = drain_loop_log [OF d st(3,2)]
  show ?thesis
  proof (rule that)
    show "drain_owner now s = Inr (put_run k st1 s1)"
      using assms(2) st(1) d by (auto simp: drain_owner_Inr)
    show "core outs (put_run k st1 s1)"
      using core_present [OF assms(1,2)] same log by blast
    show "owner (put_run k st1 s1) = Some k" "runs (put_run k st1 s1) = AList.update k st1 (runs s)"
      "ready (put_run k st1 s1) = ready s" "ready_set (put_run k st1 s1) = ready_set s"
      "finished (put_run k st1 s1) = finished s" "policy (put_run k st1 s1) = policy s"
      using same assms(2) by (auto simp: same_frame_def put_run_def)
    show "pending st1 = []" "terminal st1 = terminal st" "aborted st1 = aborted st"
      using same by (auto simp: same_run_def)
  qed
qed

lemma finish_owner_total:
  assumes "core outs s" and "owner s = Some k" and "map_of (runs s) k = Some st"
  obtains s' st' where "finish_owner s = Inr s'" "core outs s'" "owner s' = None"
    "runs s' = AList.update k st' (runs s)" "pending st' = pending st" "terminal st' = terminal st"
    "open_block_id st' = None" "ready s' = ready s" "ready_set s' = ready_set s"
    "finished s' = finished s" "policy s' = policy s"
proof -
  let ?r = "if aborted st then ''run_abort'' else ''run_terminal''"
  obtain st1 s1 where d: "close_public_segment st ?r s = (st1, s1)"
    by (cases "close_public_segment st ?r s")
  from core_owner_run [OF assms(1,2)] assms(3)
  have st: "run_at k s = Inr st" "blocks_ok st" "log_ok outs s (open_block_id st)"
    by (auto simp: run_at_def)
  note same = close_public_segment_same [OF d] and log = close_public_segment_log [OF d st(3,2)]
  let ?t = "release_owner (put_run k (st1\<lparr>blocks := []\<rparr>) s1)"
  show ?thesis
  proof (rule that)
    show "finish_owner s = Inr ?t"
      using assms(2) st(1) d by (auto simp: finish_owner_Inr)
    show "core outs ?t"
      using core_release [OF assms(1,2)] same log by simp
    show "owner ?t = None" "runs ?t = AList.update k (st1\<lparr>blocks := []\<rparr>) (runs s)"
      "ready ?t = ready s" "ready_set ?t = ready_set s"
      "finished ?t = finished s" "policy ?t = policy s"
      using same assms(2) by (auto simp: same_frame_def put_run_def release_owner_def)
    show "pending (st1\<lparr>blocks := []\<rparr>) = pending st" "terminal (st1\<lparr>blocks := []\<rparr>) = terminal st"
      "open_block_id (st1\<lparr>blocks := []\<rparr>) = None"
      using log by auto
  qed
qed

text \<open>Expiry either leaves the state alone or closes and parks the owner's Run.\<close>

lemma expire_owner_total:
  assumes "core outs s"
  obtains s' where "expire_owner now s = Inr s'" "core outs s'" "finished s' = finished s"
    "ready s' = ready s" "ready_set s' = ready_set s" "policy s' = policy s"
    "s' = s \<or> (\<exists>k st st'. owner s = Some k \<and> owner s' = None \<and> map_of (runs s) k = Some st \<and>
        runs s' = AList.update k st' (runs s) \<and> pending st' = pending st \<and> terminal st' = terminal st)"
proof (cases "\<exists>k d. owner s = Some k \<and> owner_deadline s = Some d \<and> \<not> now < d")
  case False
  then have "expire_owner now s = Inr s"
    by (auto simp: expire_owner_Inr)
  with assms that show ?thesis by blast
next
  case True
  then obtain k d where k: "owner s = Some k" "owner_deadline s = Some d" "\<not> now < d" by blast
  obtain st where st: "map_of (runs s) k = Some st" "run_at k s = Inr st" "blocks_ok st"
    "log_ok outs s (open_block_id st)"
    using core_owner_run [OF assms k(1)] by blast
  obtain st1 s1 where d: "close_public_segment st ''idle_timeout'' s = (st1, s1)"
    by (cases "close_public_segment st ''idle_timeout'' s")
  note same = close_public_segment_same [OF d] and log = close_public_segment_log [OF d st(4,3)]
  let ?st' = "st1\<lparr>parked := \<not> terminal st1\<rparr>"
  let ?t = "release_owner (put_run k ?st' s1)"
  have core: "core outs ?t"
    using core_release [OF assms k(1)] same log by simp
  show ?thesis
  proof (rule that [OF _ core])
    show "expire_owner now s = Inr ?t"
      using k st(2) d by (auto simp: expire_owner_Inr)
    show "finished ?t = finished s" "ready ?t = ready s" "ready_set ?t = ready_set s"
      "policy ?t = policy s"
      using same by (auto simp: same_frame_def release_owner_def put_run_def)
    have "owner ?t = None" "runs ?t = AList.update k ?st' (runs s)" "pending ?st' = pending st"
      "terminal ?st' = terminal st"
      using same log by (auto simp: same_frame_def release_owner_def put_run_def)
    with k(1) st(1) show "?t = s \<or> (\<exists>k st st'. owner s = Some k \<and> owner ?t = None \<and>
        map_of (runs s) k = Some st \<and> runs ?t = AList.update k st' (runs s) \<and>
        pending st' = pending st \<and> terminal st' = terminal st)" by blast
  qed
qed

subsection \<open>Choosing the next owner\<close>

definition live :: "scheduler \<Rightarrow> run_key \<Rightarrow> bool" where
  "live s k \<longleftrightarrow> (case map_of (runs s) k of None \<Rightarrow> False | Some st \<Rightarrow> \<not> terminal st)"

definition same_terminal :: "scheduler \<Rightarrow> scheduler \<Rightarrow> bool" where
  "same_terminal s s' \<longleftrightarrow>
     (\<forall>k. map_option terminal (map_of (runs s') k) = map_option terminal (map_of (runs s) k))"

lemma same_terminal_refl [simp]: "same_terminal s s"
  by (simp add: same_terminal_def)

lemma same_terminal_trans: "same_terminal s s' \<Longrightarrow> same_terminal s' s'' \<Longrightarrow> same_terminal s s''"
  by (simp add: same_terminal_def)

lemma same_terminal_live: "same_terminal s s' \<Longrightarrow> live s' = live s"
proof
  fix k
  assume "same_terminal s s'"
  then have "map_option terminal (map_of (runs s') k) = map_option terminal (map_of (runs s) k)"
    by (simp only: same_terminal_def)
  then show "live s' k = live s k"
    by (auto simp: live_def split: option.splits)
qed

lemma same_terminal_put:
  assumes "map_of (runs s) k = Some st" and "runs s' = AList.update k st' (runs s)"
    and "terminal st' = terminal st"
  shows "same_terminal s s'"
  using assms by (simp add: same_terminal_def dict_get_set)

lemma none_forgotten_put:
  assumes "none_forgotten s" and runs: "runs s' = AList.update k st' (runs s)"
    and ready: "\<And>k'. k' \<noteq> k \<Longrightarrow> k' \<in> ready_set s \<Longrightarrow> k' \<in> ready_set s'"
    and own: "\<And>k'. k' \<noteq> k \<Longrightarrow> owner s = Some k' \<Longrightarrow> owner s' = Some k'"
    and self: "must_wait st' \<Longrightarrow> owner s' \<noteq> Some k \<Longrightarrow> k \<in> ready_set s'"
  shows "none_forgotten s'"
  unfolding none_forgotten_def
proof (intro allI impI)
  fix k' x
  assume x: "map_of (runs s') k' = Some x" and o: "owner s' \<noteq> Some k'" and m: "must_wait x"
  show "k' \<in> ready_set s'"
  proof (cases "k' = k")
    case True
    with x runs have "x = st'" by (simp add: dict_get_set)
    with True o m self show ?thesis by simp
  next
    case False
    with x runs have "map_of (runs s) k' = Some x" by (simp add: dict_get_set)
    moreover have "owner s \<noteq> Some k'" using own [OF False] o by blast
    ultimately have "k' \<in> ready_set s"
      using assms(1) m unfolding none_forgotten_def by blast
    with ready False show ?thesis by simp
  qed
qed

lemma pop_ready_core:
  assumes "core outs s" and "owner s = None" and "ready s = k # ks"
  shows "core outs (s\<lparr>ready := ks, ready_set := ready_set s - {k}\<rparr>)"
  using assms by (auto simp: core_def queue_wf_def segments_wf_def owner_segment_def log_ok_def)

lemma take_ownership_core:
  assumes "core outs s" and "owner s = None" and "map_of (runs s) k = Some st" and "k \<notin> ready_set s"
  shows "core outs (s\<lparr>owner := Some k, owner_deadline := d\<rparr>)"
proof -
  have "open_block_id st = None"
    using assms(1-3) by (simp add: core_def segments_wf_def)
  with assms show ?thesis
    by (auto simp: core_def queue_wf_def segments_wf_def owner_segment_def log_ok_def)
qed

lemma assign_owner_total:
  assumes "core outs s" and "none_forgotten s" and "owner_idle s"
  shows "\<exists>s'. assign_owner now s = Inr s' \<and> core outs s' \<and> none_forgotten s' \<and> owner_idle s' \<and>
     queue_served s' \<and> same_terminal s s' \<and> finished s' = finished s \<and> policy s' = policy s \<and>
     owner s' = (if owner s = None then find (live s) (ready s) else owner s)"
  using assms
proof (induction "ready s" arbitrary: s)
  case Nil
  then have "assign_owner now s = Inr s"
    by (simp add: assign_owner.simps split: list.split)
  with Nil show ?case by (simp add: queue_served_def)
next
  case (Cons k ks)
  note ready = Cons.hyps(2) [symmetric]
  show ?case
  proof (cases "owner s = None")
    case False
    then have "assign_owner now s = Inr s" by (simp add: assign_owner.simps)
    with Cons.prems False show ?thesis by (auto simp: queue_served_def)
  next
    case True
    define s1 where "s1 = s\<lparr>ready := ks, ready_set := ready_set s - {k}\<rparr>"
    have s1: "owner s1 = None" "runs s1 = runs s" "ready s1 = ks" "finished s1 = finished s"
      "policy s1 = policy s" "k \<notin> ready_set s1" "same_terminal s s1"
      using True by (simp_all add: s1_def same_terminal_def)
    have core1: "core outs s1"
      unfolding s1_def by (rule pop_ready_core [OF Cons.prems(1) True ready])
    have "k \<in> ready_set s"
      using Cons.prems(1) ready by (auto simp: core_def queue_wf_def)
    then obtain st where st: "map_of (runs s) k = Some st"
      using Cons.prems(1) by (auto simp: core_def queue_wf_def)
    have closed: "open_block_id st = None"
      using Cons.prems(1) True st by (simp add: core_def segments_wf_def)
    have others: "none_forgotten s'"
      if "runs s' = AList.update k st' (runs s)" "ready_set s' = ready_set s1"
        "must_wait st' \<Longrightarrow> owner s' = Some k" for s' st'
      by (rule none_forgotten_put [OF Cons.prems(2) that(1)])
         (use True that(2,3) in \<open>auto simp: s1_def\<close>)
    show ?thesis
    proof (cases "terminal st \<and> pending st = []")
      case idle: True
      define s2 where "s2 = put_run k (st\<lparr>blocks := []\<rparr>) s1"
      have eq: "assign_owner now s = assign_owner now s2"
        using True ready st idle
        by (subst assign_owner.simps) (simp add: run_at_def s1_def s2_def)
      have s2: "ready s2 = ks" "owner s2 = None" "runs s2 = AList.update k (st\<lparr>blocks := []\<rparr>) (runs s)"
        "finished s2 = finished s" "policy s2 = policy s" "ready_set s2 = ready_set s1"
        using s1 by (simp_all add: s2_def put_run_def)
      have "core outs s2"
        unfolding s2_def by (rule core_put_other [OF core1]) (use s1 closed in auto)
      moreover have "none_forgotten s2"
        by (rule others [OF s2(3,6)])
           (use idle must_wait_pending in \<open>fastforce simp: must_wait_def pending_can_emit_def\<close>)
      moreover have "owner_idle s2"
        using s2(2) by (simp add: owner_idle_def)
      moreover have tm: "same_terminal s s2"
        by (rule same_terminal_put [OF st s2(3)]) simp
      ultimately show ?thesis
        using Cons.hyps(1) [of s2] s2 eq True ready same_terminal_live [OF tm] st idle
        by (auto simp: live_def intro: same_terminal_trans)
    next
      case busy: False
      define s2 where "s2 = s1\<lparr>owner := Some k, owner_deadline := Some (now + idle_timeout_seconds (policy s1))\<rparr>"
      have s2: "owner s2 = Some k" "runs s2 = runs s" "map_of (runs s2) k = Some st"
        using st s1 by (simp_all add: s2_def)
      have core2: "core outs s2"
        unfolding s2_def by (rule take_ownership_core [OF core1 s1(1)]) (use st s1 in auto)
      obtain s3 st3 where s3: "drain_owner now s2 = Inr s3" "core outs s3" "owner s3 = Some k"
        "runs s3 = AList.update k st3 (runs s2)" "pending st3 = []" "terminal st3 = terminal st"
        "ready s3 = ready s2" "ready_set s3 = ready_set s2" "finished s3 = finished s2"
        "policy s3 = policy s2"
        by (rule drain_owner_total [OF core2 s2(1,3)])
      have run3: "map_of (runs s3) k = Some st3"
        using s3(4) by (simp add: dict_get_set)
      show ?thesis
      proof (cases "terminal st")
        case False
        have eq: "assign_owner now s = Inr s3"
          using True ready st busy False s3(1,3) s2(1)
          by (subst assign_owner.simps)
             (simp add: run_at_def s1_def s2_def, subst assign_owner.simps, simp add: s3(3))
        have "none_forgotten s3"
          by (rule others [where s' = s3 and st' = st3]) (use s3 s2 in \<open>auto simp: s2_def\<close>)
        moreover have "same_terminal s s3"
          by (rule same_terminal_put [OF st, of s3 st3]) (use s3 s2 in auto)
        moreover have "owner_idle s3"
          using s3(3,5,6) run3 False by (simp add: owner_idle_def)
        moreover have "find (live s) (ready s) = Some k"
          using ready st False by (simp add: live_def)
        ultimately show ?thesis
          using eq s3 s1 s2 True by (auto simp: queue_served_def s2_def)
      next
        case tml: True
        obtain s4 st4 where s4: "finish_owner s3 = Inr s4" "core outs s4" "owner s4 = None"
          "runs s4 = AList.update k st4 (runs s3)" "pending st4 = pending st3"
          "terminal st4 = terminal st3" "ready s4 = ready s3" "ready_set s4 = ready_set s3"
          "finished s4 = finished s3" "policy s4 = policy s3"
          by (rule finish_owner_total [OF s3(2,3) run3])
        have eq: "assign_owner now s = assign_owner now s4"
          using True ready st busy tml s3(1) s4(1)
          by (subst assign_owner.simps) (simp add: run_at_def s1_def s2_def)
        have runs4: "map_of (runs s4) k = Some st4"
          using s4(4) by (simp add: dict_get_set)
        have r4: "ready s4 = ks" using s4 s3 s1 by (simp add: s2_def)
        have "none_forgotten s4"
        proof (rule none_forgotten_put [of s3 s4 k st4])
          show "none_forgotten s3"
            by (rule others [where s' = s3 and st' = st3]) (use s3 s2 in \<open>auto simp: s2_def\<close>)
          show "must_wait st4 \<Longrightarrow> owner s4 \<noteq> Some k \<Longrightarrow> k \<in> ready_set s4"
            using must_wait_pending [of st4] s4(5) s3(5) by auto
        qed (use s4 s3 in auto)
        moreover have tm4: "same_terminal s s4"
          by (rule same_terminal_trans [OF same_terminal_put [OF st, of s3 st3]
                same_terminal_put [OF run3 s4(4)]]) (use s3 s2 s4 in auto)
        moreover have "owner_idle s4"
          using s4(3) by (simp add: owner_idle_def)
        ultimately show ?thesis
          using Cons.hyps(1) [of s4] r4 s4(2,3) eq True ready same_terminal_live [OF tm4] st tml
            s4(9,10) s3(9,10) s1
          by (auto simp: live_def s2_def intro: same_terminal_trans)
      qed
    qed
  qed
qed

subsection \<open>Batches move frames, nothing else\<close>

lemma batch_loop_append: "batch_loop mx acc n fs = (b, rest) \<Longrightarrow> b @ rest = acc @ fs"
  by (induction mx acc n fs arbitrary: b rest rule: batch_loop.induct)
     (auto simp: Let_def split: if_splits)

lemma take_due_batch_eq:
  assumes "take_due_batch now force s = (b, s')"
  shows "b @ pending_frames s' = pending_frames s"
    and "s' = s\<lparr>pending_frames := pending_frames s', last_batch_at := last_batch_at s'\<rparr>"
  using assms batch_loop_append
  by (fastforce simp: take_due_batch_def split: if_splits prod.splits)+

lemma core_moved:
  assumes "core outs s" and "runs s' = runs s" "owner s' = owner s" "ready s' = ready s"
    "ready_set s' = ready_set s" "frame_sequence s' = frame_sequence s"
    and "full_log outs' s' = full_log outs s"
  shows "core outs' s'"
  using assms by (simp add: core_def queue_wf_def segments_wf_def owner_segment_def log_ok_def
     )

definition mid_inv :: "presentation_frame list \<Rightarrow> scheduler \<Rightarrow> bool" where
  "mid_inv outs s \<longleftrightarrow> core outs s \<and> owner_idle s \<and> none_forgotten s"

definition open_inv :: "presentation_frame list \<Rightarrow> scheduler \<Rightarrow> bool" where
  "open_inv outs s \<longleftrightarrow> mid_inv outs s \<and> queue_served s"

lemma mid_inv_moved:
  assumes "mid_inv outs s" and "runs s' = runs s" "owner s' = owner s" "ready s' = ready s"
    "ready_set s' = ready_set s" "frame_sequence s' = frame_sequence s"
    and "full_log outs' s' = full_log outs s"
  shows "mid_inv outs' s'"
  using assms core_moved [of outs s s' outs']
  by (simp add: mid_inv_def owner_idle_def none_forgotten_def)

lemma open_inv_moved:
  assumes "open_inv outs s" and "runs s' = runs s" "owner s' = owner s" "ready s' = ready s"
    "ready_set s' = ready_set s" "frame_sequence s' = frame_sequence s"
    and "full_log outs' s' = full_log outs s"
  shows "open_inv outs' s'"
  using assms mid_inv_moved [of outs s s' outs'] by (simp add: open_inv_def queue_served_def)

lemma publish_batch_same:
  "runs (publish_batch now force s) = runs s" "owner (publish_batch now force s) = owner s"
  "ready (publish_batch now force s) = ready s" "ready_set (publish_batch now force s) = ready_set s"
  "frame_sequence (publish_batch now force s) = frame_sequence s"
  "finished (publish_batch now force s) = finished s"
  "full_log outs (publish_batch now force s) = full_log outs s"
proof -
  obtain b s1 where b: "take_due_batch now force s = (b, s1)"
    by (cases "take_due_batch now force s")
  note eq = take_due_batch_eq [OF b]
  have same: "published_frames s1 = published_frames s" "runs s1 = runs s" "owner s1 = owner s"
    "ready s1 = ready s" "ready_set s1 = ready_set s" "frame_sequence s1 = frame_sequence s"
    "finished s1 = finished s"
    by (subst eq(2), simp)+
  have "publish_batch now force s = s1\<lparr>published_frames := published_frames s1 @ b\<rparr>"
    using b by (simp add: publish_batch_def)
  with same show
    "runs (publish_batch now force s) = runs s" "owner (publish_batch now force s) = owner s"
    "ready (publish_batch now force s) = ready s" "ready_set (publish_batch now force s) = ready_set s"
    "frame_sequence (publish_batch now force s) = frame_sequence s"
    "finished (publish_batch now force s) = finished s"
    "full_log outs (publish_batch now force s) = full_log outs s"
    using eq(1) by simp_all
qed

lemma mid_inv_batch: "mid_inv outs s \<Longrightarrow> mid_inv outs (publish_batch now force s)"
  by (erule mid_inv_moved) (simp_all only: publish_batch_same)

lemma open_inv_batch: "open_inv outs s \<Longrightarrow> open_inv outs ((publish_batch now force s)\<lparr>wakeup := w\<rparr>)"
  by (erule open_inv_moved) (simp_all add: publish_batch_same)

lemma open_inv_batch': "open_inv outs s \<Longrightarrow> open_inv outs (publish_batch now force s)"
  by (erule open_inv_moved) (simp_all add: publish_batch_same)

subsection \<open>The public operations keep the invariant and return\<close>

lemma assign_open:
  assumes "mid_inv outs s"
  obtains s' where "assign_owner now s = Inr s'" "open_inv outs s'" "same_terminal s s'"
    "finished s' = finished s" "owner s' = (if owner s = None then find (live s) (ready s) else owner s)"
  using assign_owner_total [of outs s now] assms that by (auto simp: mid_inv_def open_inv_def)

lemma expire_mid:
  assumes "mid_inv outs s"
  obtains s' where "expire_owner now s = Inr s'" "mid_inv outs s'" "same_terminal s s'"
    "finished s' = finished s" "ready s' = ready s" "s' = s \<or> owner s' = None"
proof -
  have inv: "core outs s" "owner_idle s" "none_forgotten s"
    using assms by (auto simp: mid_inv_def)
  obtain s' where s': "expire_owner now s = Inr s'" "core outs s'" "finished s' = finished s"
    "ready s' = ready s" "ready_set s' = ready_set s"
    "s' = s \<or> (\<exists>k st st'. owner s = Some k \<and> owner s' = None \<and> map_of (runs s) k = Some st \<and>
        runs s' = AList.update k st' (runs s) \<and> pending st' = pending st \<and> terminal st' = terminal st)"
    using expire_owner_total [OF inv(1), of now thesis] by metis
  from s'(6) show ?thesis
  proof
    assume "s' = s"
    with s' assms that show ?thesis by simp
  next
    assume "\<exists>k st st'. owner s = Some k \<and> owner s' = None \<and> map_of (runs s) k = Some st \<and>
        runs s' = AList.update k st' (runs s) \<and> pending st' = pending st \<and> terminal st' = terminal st"
    then obtain k st st' where k: "owner s = Some k" "owner s' = None" "map_of (runs s) k = Some st"
      "runs s' = AList.update k st' (runs s)" "pending st' = pending st" "terminal st' = terminal st"
      by blast
    have "pending st = []"
      using inv(2) k(1,3) unfolding owner_idle_def by blast
    then have "none_forgotten s'"
      using must_wait_pending [of st'] k(5)
      by (intro none_forgotten_put [OF inv(3) k(4)]) (use k s'(5) in auto)
    moreover have "owner_idle s'" using k(2) by (simp add: owner_idle_def)
    ultimately have "mid_inv outs s'" using s'(2) by (simp add: mid_inv_def)
    with s' k(2) same_terminal_put [OF k(3,4,6)] that show ?thesis by blast
  qed
qed

text \<open>The tail of \<open>publish\<close>, \<open>advance_published\<close> and \<open>finish\<close>: expire, then reassign.\<close>

lemma advance_open:
  assumes "mid_inv outs s"
  obtains s1 s2 where "expire_owner now s = Inr s1" "assign_owner now s1 = Inr s2"
    "open_inv outs s2" "same_terminal s s2" "finished s2 = finished s"
proof -
  obtain s1 where s1: "expire_owner now s = Inr s1" "mid_inv outs s1" "same_terminal s s1"
    "finished s1 = finished s"
    using expire_mid [OF assms, of now] by metis
  obtain s2 where "assign_owner now s1 = Inr s2" "open_inv outs s2" "same_terminal s1 s2"
    "finished s2 = finished s1"
    using assign_open [OF s1(2), of now] by metis
  with s1 that show ?thesis by (metis same_terminal_trans)
qed

lemma enqueue_core:
  assumes "core outs s" and "map_of (runs s) k \<noteq> None"
  shows "core outs (enqueue_ready k s)"
  using assms by (auto simp: core_def queue_wf_def segments_wf_def owner_segment_def log_ok_def
      enqueue_ready_def)

lemma enqueue_same [simp]:
  "runs (enqueue_ready k s) = runs s" "owner (enqueue_ready k s) = owner s"
  "finished (enqueue_ready k s) = finished s"
  "ready_set (enqueue_ready k s) = (if Some k = owner s then ready_set s else insert k (ready_set s))"
  by (auto simp: enqueue_ready_def)

lemma core_not_owner_closed:
  assumes "core outs s" and "map_of (runs s) k = Some st" and "owner s \<noteq> Some k"
  shows "open_block_id st = None"
  using assms unfolding core_def segments_wf_def by blast

lemma register_run_open:
  assumes "open_inv outs s" and "\<not> finished s"
  shows "\<exists>s'. register_run t r now s = Inr s' \<and> open_inv outs s'"
proof (cases "map_of (runs s) (t, r) = None")
  case False
  with assms show ?thesis by (auto simp: register_run_def)
next
  case True
  let ?k = "(t, r)"
  let ?s' = "(put_run ?k new_run_output s)\<lparr>wakeup := True\<rparr>"
  have inv: "core outs s" "owner_idle s" "none_forgotten s" "queue_served s"
    using assms(1) by (auto simp: open_inv_def mid_inv_def)
  have own: "owner s \<noteq> Some ?k"
    using inv(1) True by (auto simp: core_def queue_wf_def)
  have "core outs (put_run ?k new_run_output s)"
    by (rule core_put_other [OF inv(1) own]) (simp add: new_run_output_def)
  then have "core outs ?s'" by (rule core_moved) simp_all
  moreover have "none_forgotten ?s'"
    by (rule none_forgotten_put [OF inv(3)])
       (auto simp: put_run_def new_run_output_def must_wait_def pending_can_emit_def)
  moreover have "owner_idle ?s'"
    using inv(2) own by (simp add: owner_idle_def put_run_def dict_get_set)
  moreover have "queue_served ?s'"
    using inv(4) by (simp add: queue_served_def put_run_def)
  ultimately have "open_inv outs ?s'" by (simp add: open_inv_def mid_inv_def)
  with True assms(2) show ?thesis by (simp add: register_run_def Let_def)
qed

text \<open>The first half of \<open>publish\<close>: the frame is stored and, with text, the Run queues.\<close>

definition publish_store :: "run_key \<Rightarrow> presentation_frame \<Rightarrow> run_output \<Rightarrow> scheduler \<Rightarrow> scheduler" where
  "publish_store k f st s =
     (let st1 = st\<lparr>pending := pending st @ [f]\<rparr> in
      if frame_can_emit f then enqueue_ready k (put_run k (st1\<lparr>parked := False\<rparr>) s)
      else put_run k st1 s)"

lemma publish_eq:
  "publish item now s =
     (if finished s then Inr s
      else bind_res (validate_input item s) (\<lambda>_.
        let k = (in_thread_id item, in_run_id item) in
        bind_res (run_at k s) (\<lambda>st.
        let s1 = publish_store k (in_frame item) st s in
        bind_res (if owner s1 = None then assign_owner now s1 else Inr s1) (\<lambda>s2.
        bind_res (if owner s2 = Some k then drain_owner now s2 else Inr s2) (\<lambda>s3.
        bind_res (expire_owner now s3) (\<lambda>s4.
        bind_res (assign_owner now s4) (\<lambda>s5.
        Inr ((publish_batch now False s5)\<lparr>wakeup := True\<rparr>))))))))"
  unfolding publish_def publish_store_def Let_def by (rule refl)

lemma publish_store_spec:
  assumes inv: "open_inv outs s" and st: "map_of (runs s) k = Some st" and live: "\<not> terminal st"
  obtains st' where "publish_store k f st s =
      (if frame_can_emit f then enqueue_ready k (put_run k st' s) else put_run k st' s)"
    "pending st' = pending st @ [f]" "terminal st' = terminal st" "blocks st' = blocks st"
    "open_block_id st' = open_block_id st"
  using that [of "if frame_can_emit f then st\<lparr>pending := pending st @ [f], parked := False\<rparr>
     else st\<lparr>pending := pending st @ [f]\<rparr>"]
  by (auto simp: publish_store_def Let_def)

lemma publish_store_core:
  assumes inv: "open_inv outs s" and st: "map_of (runs s) k = Some st" and live: "\<not> terminal st"
  shows "core outs (publish_store k f st s)" and "none_forgotten (publish_store k f st s)"
    and "owner (publish_store k f st s) = owner s" and "finished (publish_store k f st s) = finished s"
    and "same_terminal s (publish_store k f st s)"
    and "owner s \<noteq> Some k \<Longrightarrow> owner_idle (publish_store k f st s)"
    and "map_of (runs (publish_store k f st s)) k \<noteq> None"
proof -
  obtain st' where eq: "publish_store k f st s =
      (if frame_can_emit f then enqueue_ready k (put_run k st' s) else put_run k st' s)"
    and st': "pending st' = pending st @ [f]" "terminal st' = terminal st" "blocks st' = blocks st"
    "open_block_id st' = open_block_id st"
    by (rule publish_store_spec [OF assms])
  have i: "core outs s" "owner_idle s" "none_forgotten s"
    using inv by (auto simp: open_inv_def mid_inv_def)
  have core1: "core outs (put_run k st' s)"
  proof (cases "owner s = Some k")
    case True
    obtain st0 where "map_of (runs s) k = Some st0" "blocks_ok st0" "log_ok outs s (open_block_id st0)"
      using core_owner_run [OF i(1) True] by metis
    with st st' show ?thesis
      by (intro core_present [OF i(1) True]) (auto simp: blocks_ok_def)
  next
    case False
    with core_not_owner_closed [OF i(1) st] st' show ?thesis
      by (intro core_put_other [OF i(1)]) auto
  qed
  have runs: "runs (publish_store k f st s) = AList.update k st' (runs s)"
    by (simp add: eq put_run_def)
  show "core outs (publish_store k f st s)"
    using core1 enqueue_core [OF core1, of k] by (simp add: eq put_run_def dict_get_set)
  show own: "owner (publish_store k f st s) = owner s"
    by (simp add: eq put_run_def)
  show "finished (publish_store k f st s) = finished s"
    by (simp add: eq put_run_def)
  show "same_terminal s (publish_store k f st s)"
    by (rule same_terminal_put [OF st runs st'(2)])
  show "map_of (runs (publish_store k f st s)) k \<noteq> None"
    by (simp add: runs dict_get_set)
  show "owner_idle (publish_store k f st s)" if "owner s \<noteq> Some k"
    using i(2) that unfolding owner_idle_def own runs dict_get_set by auto
  show "none_forgotten (publish_store k f st s)"
  proof (rule none_forgotten_put [OF i(3) runs])
    assume wait: "must_wait st'" and o: "owner (publish_store k f st s) \<noteq> Some k"
    show "k \<in> ready_set (publish_store k f st s)"
    proof (cases "frame_can_emit f")
      case True
      with o own show ?thesis by (auto simp: eq put_run_def)
    next
      case False
      with wait live st' have "must_wait st"
        by (auto simp: must_wait_def pending_can_emit_def)
      with i(3) st o own have "k \<in> ready_set s"
        unfolding none_forgotten_def by simp
      with False show ?thesis by (simp add: eq put_run_def)
    qed
  qed (use own in \<open>auto simp: eq put_run_def\<close>)
qed

lemma publish_open:
  assumes inv: "open_inv outs s" and "\<not> finished s" and "validate_input item s = Inr ()"
  shows "\<exists>s'. publish item now s = Inr s' \<and> open_inv outs s' \<and> same_terminal s s'"
proof -
  define k where "k = (in_thread_id item, in_run_id item)"
  obtain st where st: "map_of (runs s) k = Some st" "\<not> terminal st"
    using assms(3) by (auto simp: validate_input_def accepting_def k_def split: option.splits)
  define s1 where "s1 = publish_store k (in_frame item) st s"
  note store = publish_store_core [OF inv st, of "in_frame item", folded s1_def]
  obtain s2 where s2: "(if owner s1 = None then assign_owner now s1 else Inr s1) = Inr s2"
    "core outs s2" "none_forgotten s2" "same_terminal s s2" "finished s2 = finished s"
    "owner s2 \<noteq> Some k \<Longrightarrow> owner_idle s2"
  proof (cases "owner s1 = None")
    case True
    with store have "mid_inv outs s1" by (simp add: mid_inv_def)
    then obtain s2 where "assign_owner now s1 = Inr s2" "open_inv outs s2" "same_terminal s1 s2"
      "finished s2 = finished s1"
      using assign_open [of outs s1 now] by metis
    with True store that show ?thesis
      by (auto simp: open_inv_def mid_inv_def intro: same_terminal_trans)
  next
    case False
    then have "(if owner s1 = None then assign_owner now s1 else Inr s1) = Inr s1"
      by (rule if_not_P)
    show ?thesis
    proof (rule that [of s1])
      show "(if owner s1 = None then assign_owner now s1 else Inr s1) = Inr s1" by fact
      show "owner s1 \<noteq> Some k \<Longrightarrow> owner_idle s1" using store(3,6) by simp
    qed (use store in auto)
  qed
  obtain s3 where s3: "(if owner s2 = Some k then drain_owner now s2 else Inr s2) = Inr s3"
    "mid_inv outs s3" "same_terminal s s3" "finished s3 = finished s"
  proof (cases "owner s2 = Some k")
    case False
    with s2 that [of s2] show ?thesis by (simp add: mid_inv_def)
  next
    case True
    obtain st2 where st2: "map_of (runs s2) k = Some st2"
      using core_owner_run [OF s2(2) True] by blast
    have "map_option terminal (map_of (runs s2) k) = map_option terminal (map_of (runs s) k)"
      using s2(4) unfolding same_terminal_def by blast
    with st st2 have live2: "\<not> terminal st2" by simp
    obtain s3 st3 where s3: "drain_owner now s2 = Inr s3" "core outs s3" "owner s3 = Some k"
      "runs s3 = AList.update k st3 (runs s2)" "pending st3 = []" "terminal st3 = terminal st2"
      "ready_set s3 = ready_set s2" "finished s3 = finished s2"
      using drain_owner_total [OF s2(2) True st2, of now thesis] by metis
    have "none_forgotten s3"
      by (rule none_forgotten_put [OF s2(3) s3(4)]) (use s3 True in auto)
    moreover have "owner_idle s3"
      using s3 live2 by (simp add: owner_idle_def dict_get_set)
    ultimately show ?thesis
      using that [of s3] s3 True same_terminal_trans [OF s2(4) same_terminal_put [OF st2 s3(4,6)]] s2(5)
      by (simp add: mid_inv_def)
  qed
  obtain s4 s5 where s5: "expire_owner now s3 = Inr s4" "assign_owner now s4 = Inr s5"
    "open_inv outs s5" "same_terminal s3 s5"
    using advance_open [OF s3(2), of now] by metis
  have run: "run_at k s = Inr st" using st by (simp add: run_at_def)
  have "publish item now s = Inr ((publish_batch now False s5)\<lparr>wakeup := True\<rparr>)"
    by (simp only: publish_eq Let_def k_def [symmetric] s1_def [symmetric] assms(2,3) run s2(1) s3(1)
        s5(1,2) bind_res_simps if_False)
  moreover have "same_terminal s ((publish_batch now False s5)\<lparr>wakeup := True\<rparr>)"
    using same_terminal_trans [OF s3(3) s5(4)]
    by (simp add: same_terminal_def publish_batch_same)
  ultimately show ?thesis using open_inv_batch [OF s5(3)] by blast
qed

text \<open>\<open>finish_run\<close>: the owner is drained and closed, any other Run keeps its frames with
  text in the queue and drops the rest.\<close>

lemma remove_ready_core:
  assumes "core outs s" and "owner s \<noteq> Some k" and "open_block_id st' = None"
  shows "core outs (put_run k st' (remove_ready k s))"
  using assms
  by (cases "owner s")
     (auto simp: core_def queue_wf_def segments_wf_def put_run_def dict_simps owner_segment_def
      log_ok_def remove_ready_def split: if_splits)

lemma remove_ready_same [simp]:
  "runs (remove_ready k s) = runs s" "owner (remove_ready k s) = owner s"
  "finished (remove_ready k s) = finished s" "ready_set (remove_ready k s) = ready_set s - {k}"
  by (auto simp: remove_ready_def)

definition finish_mark :: "run_key \<Rightarrow> bool \<Rightarrow> run_output \<Rightarrow> scheduler \<Rightarrow> real \<Rightarrow> scheduler_error + scheduler" where
  "finish_mark k abort st s now =
     (let st1 = st\<lparr>terminal := True, aborted := abort, parked := False\<rparr>;
          s1 = put_run k st1 s in
      if owner s1 = Some k then bind_res (drain_owner now s1) finish_owner
      else if pending_can_emit st1 then Inr (enqueue_ready k s1)
      else Inr (put_run k (st1\<lparr>pending := [], blocks := []\<rparr>) (remove_ready k s1)))"

lemma finish_run_eq:
  "finish_run t r now abort s =
     (case map_of (runs s) (t, r) of
        None \<Rightarrow> Inr s
      | Some st \<Rightarrow>
          if terminal st then Inr s
          else bind_res (finish_mark (t, r) abort st s now)
              (\<lambda>s2.
                let s3 = (if owner s = Some (t, r) then publish_batch now True s2 else s2) in
                bind_res (assign_owner now s3) (\<lambda>s4.
                Inr ((publish_batch now False s4)\<lparr>wakeup := True\<rparr>))))"
  unfolding finish_run_def finish_mark_def Let_def by (rule refl)

lemma finish_mark_mid:
  assumes inv: "mid_inv outs s" and st: "map_of (runs s) k = Some st"
  shows "\<exists>s2. finish_mark k abort st s now = Inr s2 \<and> mid_inv outs s2"
proof -
  have i: "core outs s" "owner_idle s" "none_forgotten s"
    using inv by (auto simp: mid_inv_def)
  define st1 where "st1 = st\<lparr>terminal := True, aborted := abort, parked := False\<rparr>"
  define s1 where "s1 = put_run k st1 s"
  have s1: "owner s1 = owner s" "runs s1 = AList.update k st1 (runs s)" "ready_set s1 = ready_set s"
    "map_of (runs s1) k = Some st1"
    by (simp_all add: s1_def put_run_def dict_get_set)
  show ?thesis
  proof (cases "owner s = Some k")
    case True
    have core1: "core outs s1"
      unfolding s1_def
    proof (rule core_present [OF i(1) True same_frame_refl])
      obtain st0 where "map_of (runs s) k = Some st0" "blocks_ok st0" "log_ok outs s (open_block_id st0)"
        using core_owner_run [OF i(1) True] by metis
      with st show "blocks_ok st1" "log_ok outs s (open_block_id st1)"
        by (simp_all add: st1_def blocks_ok_def)
    qed
    have own1: "owner s1 = Some k" using s1(1) True by simp
    obtain s2 st2 where s2: "drain_owner now s1 = Inr s2" "core outs s2" "owner s2 = Some k"
      "runs s2 = AList.update k st2 (runs s1)" "pending st2 = []" "ready_set s2 = ready_set s1"
      using drain_owner_total [OF core1 own1 s1(4), of now thesis] by metis
    have run2: "map_of (runs s2) k = Some st2" using s2(4) by (simp add: dict_get_set)
    obtain s3 st3 where s3: "finish_owner s2 = Inr s3" "core outs s3" "owner s3 = None"
      "runs s3 = AList.update k st3 (runs s2)" "pending st3 = pending st2"
      "ready_set s3 = ready_set s2"
      using finish_owner_total [OF s2(2,3) run2, of thesis] by metis
    have "none_forgotten s1"
      by (rule none_forgotten_put [OF i(3) s1(2)]) (use own1 s1 in auto)
    then have "none_forgotten s2"
      by (rule none_forgotten_put [OF _ s2(4)]) (use own1 s2 in auto)
    then have "none_forgotten s3"
      by (rule none_forgotten_put [OF _ s3(4)]) (use s3 s2 must_wait_pending [of st3] in auto)
    moreover have "owner_idle s3" using s3(3) by (simp add: owner_idle_def)
    ultimately show ?thesis
      using s2(1) s3(1,2) own1 by (simp add: finish_mark_def mid_inv_def flip: st1_def s1_def)
  next
    case False
    then have own1: "owner s1 \<noteq> Some k" using s1(1) by simp
    have closed: "open_block_id st1 = None"
      using core_not_owner_closed [OF i(1) st False] by (simp add: st1_def)
    have core1: "core outs s1"
      unfolding s1_def by (rule core_put_other [OF i(1) False closed])
    have idle: "owner_idle s1"
      using i(2) False by (simp add: owner_idle_def s1 dict_get_set)
    show ?thesis
    proof (cases "pending_can_emit st1")
      case True
      let ?s2 = "enqueue_ready k s1"
      have "core outs ?s2" by (rule enqueue_core [OF core1]) (simp add: s1(4))
      moreover have "none_forgotten ?s2"
        by (rule none_forgotten_put [OF i(3), of _ k st1]) (use s1 own1 in auto)
      moreover have "owner_idle ?s2" using idle by (simp add: owner_idle_def)
      ultimately show ?thesis
        using True own1 by (simp add: finish_mark_def mid_inv_def flip: st1_def s1_def)
    next
      case quiet: False
      let ?st2 = "st1\<lparr>pending := [], blocks := []\<rparr>"
      let ?s2 = "put_run k ?st2 (remove_ready k s1)"
      have "core outs ?s2" by (rule remove_ready_core [OF core1 own1]) (simp add: closed)
      moreover have "none_forgotten ?s2"
        unfolding none_forgotten_def
      proof (intro allI impI)
        fix k' x
        assume x: "map_of (runs ?s2) k' = Some x" "owner ?s2 \<noteq> Some k'" "must_wait x"
        show "k' \<in> ready_set ?s2"
        proof (cases "k' = k")
          case True
          with x(1) have "x = ?st2" by (simp add: put_run_def dict_get_set)
          then have "pending x = []" by simp
          with must_wait_pending [OF x(3)] show ?thesis by contradiction
        next
          case False
          with x s1 have "map_of (runs s) k' = Some x" "owner s \<noteq> Some k'"
            by (simp_all add: put_run_def dict_get_set)
          with i(3) x(3) have "k' \<in> ready_set s" unfolding none_forgotten_def by blast
          with False s1 show ?thesis by (simp add: put_run_def)
        qed
      qed
      moreover have "owner_idle ?s2"
        using idle own1 by (simp add: owner_idle_def put_run_def dict_get_set)
      ultimately show ?thesis
        using quiet own1 by (simp add: finish_mark_def mid_inv_def flip: st1_def s1_def)
    qed
  qed
qed

lemma finish_run_open:
  assumes inv: "open_inv outs s"
  shows "\<exists>s'. finish_run t r now abort s = Inr s' \<and> open_inv outs s'"
proof (cases "live s (t, r)")
  case False
  with inv show ?thesis by (auto simp: finish_run_eq live_def split: option.splits)
next
  case True
  then obtain st where st: "map_of (runs s) (t, r) = Some st" "\<not> terminal st"
    by (auto simp: live_def split: option.splits)
  have mid: "mid_inv outs s" using inv by (simp add: open_inv_def)
  obtain s2 where s2: "finish_mark (t, r) abort st s now = Inr s2" "mid_inv outs s2"
    using finish_mark_mid [OF mid st(1), of abort now] by blast
  define s3 where "s3 = (if owner s = Some (t, r) then publish_batch now True s2 else s2)"
  have "mid_inv outs s3"
    using s2(2) mid_inv_batch by (simp add: s3_def)
  then obtain s4 where s4: "assign_owner now s3 = Inr s4" "open_inv outs s4"
    by (rule assign_open)
  have "finish_run t r now abort s = Inr ((publish_batch now False s4)\<lparr>wakeup := True\<rparr>)"
    using st s2(1) s4(1) by (simp add: finish_run_eq flip: s3_def)
  with open_inv_batch [OF s4(2)] show ?thesis by blast
qed

lemma advance_published_open:
  assumes "open_inv outs s"
  shows "\<exists>s'. advance_published now s = Inr s' \<and> open_inv outs s'"
proof (cases "finished s")
  case False
  have mid: "mid_inv outs s" using assms by (simp add: open_inv_def)
  obtain s1 s2 where "expire_owner now s = Inr s1" "assign_owner now s1 = Inr s2" "open_inv outs s2"
    by (rule advance_open [OF mid])
  with False open_inv_batch' show ?thesis by (auto simp: advance_published_def)
qed (use assms in \<open>simp add: advance_published_def\<close>)

lemma take_published_open:
  "open_inv outs s \<Longrightarrow> take_published s = (out, s') \<Longrightarrow> open_inv (outs @ out) s'"
  by (erule open_inv_moved) (auto simp: take_published_def)

lemma clear_wakeup_open: "open_inv outs s \<Longrightarrow> open_inv outs (clear_wakeup s)"
  by (erule open_inv_moved) (auto simp: clear_wakeup_def)

text \<open>With every Run terminal there is no owner, so nobody waits and nothing is pending.\<close>

lemma all_terminal_iff:
  "wf_dict (runs s) \<Longrightarrow> all_runs_terminal s \<longleftrightarrow>
     runs s \<noteq> [] \<and> (\<forall>k st. map_of (runs s) k = Some st \<longrightarrow> terminal st)"
  by (simp add: all_runs_terminal_def dict_all_iff)

lemma open_inv_wf: "open_inv outs s \<Longrightarrow> wf_dict (runs s)"
  by (simp add: open_inv_def mid_inv_def core_def queue_wf_def)

lemma same_terminal_terminal:
  assumes "same_terminal s s'" and "\<forall>k st. map_of (runs s) k = Some st \<longrightarrow> terminal st"
  shows "\<forall>k st. map_of (runs s') k = Some st \<longrightarrow> terminal st"
proof (intro allI impI)
  fix k st
  assume "map_of (runs s') k = Some st"
  moreover have "map_option terminal (map_of (runs s') k) = map_option terminal (map_of (runs s) k)"
    using assms(1) unfolding same_terminal_def by blast
  ultimately obtain st0 where "map_of (runs s) k = Some st0" "terminal st0 = terminal st"
    by (cases "map_of (runs s) k") auto
  with assms(2) show "terminal st" by blast
qed

lemma terminal_quiet:
  assumes inv: "open_inv outs s" and all: "\<forall>k st. map_of (runs s) k = Some st \<longrightarrow> terminal st"
  shows "owner s = None" and "ready s = []" and "\<not> any_run_pending s"
proof -
  have i: "core outs s" "owner_idle s" "none_forgotten s" "queue_served s"
    using inv by (auto simp: open_inv_def mid_inv_def)
  show own: "owner s = None"
  proof (rule ccontr)
    assume "owner s \<noteq> None"
    then obtain k where k: "owner s = Some k" by blast
    then obtain st where "map_of (runs s) k = Some st"
      using core_owner_run [OF i(1)] by blast
    with k i(2) all show False unfolding owner_idle_def by blast
  qed
  with i(4) show r: "ready s = []" by (simp add: queue_served_def)
  have "pending st = []" if "map_of (runs s) k = Some st" for k st
    using i(1,3) all that own r
    by (auto simp: none_forgotten_def must_wait_def core_def queue_wf_def)
  moreover have "wf_dict (runs s)" by (rule open_inv_wf [OF inv])
  ultimately show "\<not> any_run_pending s"
    by (auto simp: any_run_pending_def wf_dict_def)
qed

lemma finish_open:
  assumes inv: "open_inv outs s"
  shows "if all_runs_terminal s
     then \<exists>s' out. finish now s = Inr (s', out) \<and> open_inv (outs @ out) s' \<and> finished s'
     else finish now s = Inl ActiveRuns"
proof (cases "all_runs_terminal s")
  case True
  have mid: "mid_inv outs s" using inv by (simp add: open_inv_def)
  obtain s1 s2 where s: "expire_owner now s = Inr s1" "assign_owner now s1 = Inr s2" "open_inv outs s2"
    "same_terminal s s2"
    by (rule advance_open [OF mid])
  have "\<forall>k st. map_of (runs s) k = Some st \<longrightarrow> terminal st"
    using True all_terminal_iff [OF open_inv_wf [OF inv]] by blast
  from terminal_quiet [OF s(3) same_terminal_terminal [OF s(4) this]]
  have quiet: "owner s2 = None" "ready s2 = []" "\<not> any_run_pending s2" .
  obtain out1 s3 where t: "take_published s2 = (out1, s3)" by (cases "take_published s2")
  obtain out2 s4 where b: "take_due_batch now True s3 = (out2, s4)" by (cases "take_due_batch now True s3")
  have s3: "open_inv (outs @ out1) s3" "published_frames s3 = []"
    "owner s3 = owner s2" "ready s3 = ready s2" "runs s3 = runs s2"
    using take_published_open [OF s(3) t] t by (auto simp: take_published_def)
  note eq = take_due_batch_eq [OF b]
  have same: "published_frames s4 = published_frames s3" "runs s4 = runs s3" "owner s4 = owner s3"
    "ready s4 = ready s3" "ready_set s4 = ready_set s3" "frame_sequence s4 = frame_sequence s3"
    by (subst eq(2), simp)+
  let ?s' = "s4\<lparr>finished := True, wakeup := True\<rparr>"
  have "finish now s = Inr (?s', out1 @ out2)"
    using True s(1,2) t b quiet same s3 by (simp add: finish_def any_run_pending_def)
  moreover have "open_inv (outs @ out1 @ out2) ?s'"
    by (rule open_inv_moved [OF s3(1)]) (use same s3(2) eq(1) in auto)
  ultimately show ?thesis using True by simp
qed (simp add: finish_def)

section \<open>The scheduler as a machine\<close>

text \<open>
  After \<open>discard\<close> the tables are empty and only what was handed out remains.
\<close>

definition discarded :: "scheduler \<Rightarrow> presentation_frame list \<Rightarrow> bool" where
  "discarded s outs \<longleftrightarrow>
     finished s \<and> runs s = [] \<and> published_frames s = [] \<and>
     log_numbered outs \<and> seg_run None outs \<noteq> None"

definition sched_inv :: "scheduler \<Rightarrow> presentation_frame list \<Rightarrow> bool" where
  "sched_inv s outs \<longleftrightarrow> open_inv outs s \<or> discarded s outs"

lemma new_scheduler_open: "open_inv [] (new_scheduler p lid)"
  by (simp add: new_scheduler_def open_inv_def mid_inv_def core_def queue_wf_def segments_wf_def
      log_ok_def owner_segment_def owner_idle_def none_forgotten_def queue_served_def)

lemma open_inv_log:
  assumes "open_inv outs s"
  shows "log_numbered outs" and "seg_run None outs \<noteq> None"
proof -
  have "log_numbered (full_log outs s)" "seg_run None (full_log outs s) \<noteq> None"
    using assms by (auto simp: open_inv_def mid_inv_def core_def log_ok_def)
  then show "log_numbered outs" "seg_run None outs \<noteq> None"
    using log_numbered_prefix seg_run_prefix by blast+
qed

lemma open_inv_discard: "open_inv outs s \<Longrightarrow> discarded (discard s) outs"
  using open_inv_log by (simp add: discarded_def discard_def)

text \<open>Which guard lets an operation through; every operation that passes its guard returns.\<close>

fun op_guard :: "scheduler \<Rightarrow> scheduler_op \<Rightarrow> scheduler_error option" where
  "op_guard s (Register_run t r now) = (if finished s then Some AlreadyFinished else None)"
| "op_guard s (Publish item now) =
     (if finished s \<or> validate_input item s = Inr () then None else Some ForeignInput)"
| "op_guard s (Finish now) = (if all_runs_terminal s then None else Some ActiveRuns)"
| "op_guard s _ = None"

lemma step_open:
  assumes "open_inv outs s"
  shows "case op_guard s x of
       Some e \<Rightarrow> scheduler_step s x = Inl e
     | None \<Rightarrow> \<exists>s' out. scheduler_step s x = Inr (s', out) \<and> sched_inv s' (outs @ out)"
proof (cases x)
  case (Register_run t r now)
  with register_run_open [OF assms, of t r now] show ?thesis
    by (auto simp: sched_inv_def register_run_def Let_def)
next
  case (Publish item now)
  then show ?thesis
  proof (cases "finished s \<or> validate_input item s \<noteq> Inr ()")
    case True
    with Publish assms show ?thesis
      by (auto simp: publish_eq sched_inv_def validate_input_def require_def)
  next
    case False
    with publish_open [OF assms, of item now] Publish show ?thesis
      by (auto simp: sched_inv_def)
  qed
next
  case (Finish_run t r now ab)
  with finish_run_open [OF assms, of t r now ab] show ?thesis by (auto simp: sched_inv_def)
next
  case (Advance_published now)
  with advance_published_open [OF assms, of now] show ?thesis by (auto simp: sched_inv_def)
next
  case Take_published
  with take_published_open [OF assms] show ?thesis by (auto simp: sched_inv_def split: prod.splits)
next
  case Clear_wakeup
  with clear_wakeup_open [OF assms] show ?thesis by (auto simp: sched_inv_def)
next
  case (Finish now)
  with finish_open [OF assms, of now] show ?thesis by (auto simp: sched_inv_def split: if_splits)
next
  case Discard
  with open_inv_discard [OF assms] show ?thesis by (auto simp: sched_inv_def)
qed

lemma step_discarded:
  assumes "discarded s outs"
  shows "case op_guard s x of
       Some e \<Rightarrow> scheduler_step s x = Inl e
     | None \<Rightarrow> \<exists>s'. scheduler_step s x = Inr (s', []) \<and> discarded s' outs"
  using assms
  by (cases x) (auto simp: discarded_def register_run_def publish_def finish_run_def
      advance_published_def take_published_def clear_wakeup_def finish_def discard_def
      all_runs_terminal_def Let_def)

lemma step_guarded:
  assumes "sched_inv s outs"
  shows "case op_guard s x of
       Some e \<Rightarrow> scheduler_step s x = Inl e
     | None \<Rightarrow> \<exists>s' out. scheduler_step s x = Inr (s', out) \<and> sched_inv s' (outs @ out)"
  using assms step_open [of outs s x] step_discarded [of s outs x]
  by (auto simp: sched_inv_def split: option.splits)

interpretation sched: invariant_machine scheduler_step "\<lambda>s. \<exists>p lid. s = new_scheduler p lid" sched_inv
proof
  show "sched_inv s []" if "\<exists>p lid. s = new_scheduler p lid" for s
    using that new_scheduler_open by (auto simp: sched_inv_def)
  show "sched_inv s' (outs @ out)" if "sched_inv s outs" "scheduler_step s x = Inr (s', out)"
    for s outs x s' out
    using step_guarded [OF that(1), of x] that(2) by (auto split: option.splits)
qed

lemma scheduler_run_inv:
  "run_ops scheduler_step (new_scheduler p lid) ops = (s, outs) \<Longrightarrow> sched_inv s outs"
  by (rule sched.run_inv) auto

end
