(* ===== verification/Scheduler_Properties.thy ===== *)
theory Scheduler_Properties
  imports Scheduler_Safety
begin

text \<open>
  The properties of the response scheduler, each for every state that a sequence of its
  operations reaches from a new scheduler, and a concrete Lifecycle of two Runs on which
  they are evaluated.
\<close>

section \<open>A concrete Lifecycle\<close>

definition demo_policy :: response_stream_policy where
  "demo_policy = \<lparr>idle_timeout_seconds = 5, max_batch_kb = 1, send_interval_seconds = 1\<rparr>"

definition demo_frame :: "frame_phase \<Rightarrow> string \<Rightarrow> string \<Rightarrow> string \<Rightarrow> presentation_frame" where
  "demo_frame ph t b se = \<lparr>phase = ph, ftext = t, block_id = b, segment_end_text = se,
     continuation = False, close_reason = [], fr_sequence = 0\<rparr>"

definition demo_publish :: "string \<Rightarrow> presentation_frame \<Rightarrow> real \<Rightarrow> scheduler_op" where
  "demo_publish r f now = Publish \<lparr>in_lifecycle_id = ''L'', in_thread_id = ''t'', in_run_id = r,
     in_frame = f\<rparr> now"

definition demo_two_runs :: "scheduler_op list" where
  "demo_two_runs = [Register_run ''t'' ''a'' 0, Register_run ''t'' ''b'' 0,
     demo_publish ''a'' (demo_frame Ph_start ''<'' ''x'' ''>'') 1,
     demo_publish ''b'' (demo_frame Ph_start ''['' ''y'' '']'') 1,
     demo_publish ''a'' (demo_frame Ph_delta ''hi'' ''x'' []) 2,
     demo_publish ''b'' (demo_frame Ph_delta ''yo'' ''y'' []) 2,
     Take_published]"

definition demo_both_end :: "scheduler_op list" where
  "demo_both_end = demo_two_runs @ [Finish_run ''t'' ''a'' 3 False, Finish_run ''t'' ''b'' 4 False]"

definition demo_state :: "scheduler_op list \<Rightarrow> scheduler" where
  "demo_state ops = fst (run_ops scheduler_step (new_scheduler demo_policy ''L'') ops)"

definition demo_out :: "scheduler_op list \<Rightarrow> presentation_frame list" where
  "demo_out ops = snd (run_ops scheduler_step (new_scheduler demo_policy ''L'') ops)"

lemma demo_run:
  "run_ops scheduler_step (new_scheduler demo_policy ''L'') ops = (demo_state ops, demo_out ops)"
  by (simp add: demo_state_def demo_out_def)

section \<open>Only the documented guards raise\<close>

lemma op_guard_errors: "op_guard s x = Some e \<Longrightarrow> e \<in> {AlreadyFinished, ActiveRuns, ForeignInput}"
  by (cases x) (auto split: if_splits)

text \<open>
  C1: in every reachable state an operation of the scheduler either returns or raises one of
  the three guard errors (registering after the end, finishing with active Runs, a frame of a
  Run that is not accepted).  The dictionary lookups of the owner and of a queued Run never
  raise \<open>KeyError\<close>, and \<open>finish\<close> never ends with frames still pending.
\<close>

theorem scheduler_raises_only_guards:
  assumes "run_ops scheduler_step (new_scheduler p lid) ops = (s, outs)"
    and "scheduler_step s x = Inl e"
  shows "e \<in> {AlreadyFinished, ActiveRuns, ForeignInput}"
proof -
  have "sched_inv s outs" by (rule scheduler_run_inv [OF assms(1)])
  from step_guarded [OF this, of x] assms(2) have "op_guard s x = Some e"
    by (auto split: option.splits)
  then show ?thesis by (rule op_guard_errors)
qed

theorem scheduler_raises_only_guards_witness:
  "ActiveRuns \<in> {AlreadyFinished, ActiveRuns, ForeignInput}"
  by (rule scheduler_raises_only_guards [OF demo_run [of demo_two_runs], of "Finish 9"]) code_simp

section \<open>The frames that leave\<close>

text \<open>
  C2: the frames handed out over any sequence of operations carry the numbers 1, 2, 3, ...:
  batching, ownership changes, aborts and \<open>discard\<close> neither lose, repeat nor reorder one.
\<close>

theorem outputs_numbered:
  assumes "run_ops scheduler_step (new_scheduler p lid) ops = (s, outs)"
  shows "map fr_sequence outs = [1..<Suc (length outs)]"
  using scheduler_run_inv [OF assms] open_inv_log(1)
  unfolding sched_inv_def discarded_def log_numbered_def by blast

theorem outputs_numbered_witness:
  "length (demo_out demo_both_end) = 2 \<and> map fr_sequence (demo_out demo_both_end) = [1, 2]"
proof -
  have "length (demo_out demo_both_end) = 2" by code_simp
  with outputs_numbered [OF demo_run [of demo_both_end]] show ?thesis
    by (simp add: upt_rec)
qed

text \<open>
  C3: the frames handed out are correctly bracketed: at most one content segment is open at a
  time across all Runs, every delta and every end belongs to the open one; and once the
  response is complete every segment has been closed and every emitted frame handed out.
\<close>

theorem outputs_bracketed:
  assumes "run_ops scheduler_step (new_scheduler p lid) ops = (s, outs)"
  shows "seg_run None outs \<noteq> None \<and>
    (response_complete s \<longrightarrow> seg_run None outs = Some None \<and> length outs = frame_sequence s)"
proof -
  have inv: "sched_inv s outs" by (rule scheduler_run_inv [OF assms])
  then have 1: "seg_run None outs \<noteq> None"
    using open_inv_log(2) by (auto simp: sched_inv_def discarded_def)
  have "seg_run None outs = Some None \<and> length outs = frame_sequence s" if c: "response_complete s"
  proof -
    have "open_inv outs s"
      using inv c by (auto simp: sched_inv_def discarded_def response_complete_def all_runs_terminal_def)
    then have "log_ok outs s (owner_segment s)"
      by (simp add: open_inv_def mid_inv_def core_def)
    with c show ?thesis by (simp add: log_ok_def response_complete_def owner_segment_def)
  qed
  with 1 show ?thesis by blast
qed

definition demo_complete :: "scheduler_op list" where
  "demo_complete = demo_both_end @ [Advance_published 9, Take_published]"

theorem outputs_bracketed_witness:
  "seg_run None (demo_out demo_complete) = Some None \<and> length (demo_out demo_complete) = 6"
proof -
  have "response_complete (demo_state demo_complete)" by code_simp
  moreover have "frame_sequence (demo_state demo_complete) = 6" by code_simp
  ultimately show ?thesis
    using outputs_bracketed [OF demo_run [of demo_complete]] by simp
qed

section \<open>Progress\<close>

text \<open>
  C4: a Lifecycle whose Runs are all terminal can always be finished: in every reachable state
  with only terminal Runs \<open>finish\<close> returns, the scheduler is finished, and no Run keeps a frame.
\<close>

theorem finish_succeeds:
  assumes "run_ops scheduler_step (new_scheduler p lid) ops = (s, outs)" and "all_runs_terminal s"
  shows "\<exists>s' out. finish now s = Inr (s', out) \<and> finished s' \<and> owner s' = None \<and> ready s' = [] \<and>
    \<not> any_run_pending s'"
proof -
  have "open_inv outs s"
    using scheduler_run_inv [OF assms(1)] assms(2)
    by (auto simp: sched_inv_def discarded_def all_runs_terminal_def)
  from finish_open [OF this, of now] assms(2)
  obtain s' out where *: "finish now s = Inr (s', out)" "finished s'" by auto
  from *(1) have "owner s' = None \<and> ready s' = [] \<and> \<not> any_run_pending s'"
    by (auto simp: finish_def res_Inr any_run_pending_def split: if_splits prod.splits)
  with * show ?thesis by blast
qed

theorem finish_succeeds_witness:
  "\<exists>s' out. finish 9 (demo_state demo_both_end) = Inr (s', out) \<and> finished s' \<and> owner s' = None \<and>
     ready s' = [] \<and> \<not> any_run_pending s'"
  by (rule finish_succeeds [OF demo_run]) code_simp

text \<open>
  No Run with something to show is forgotten: in every reachable state a Run that holds a
  frame with text, or any frame once it is terminal, waits in the queue, and some other Run
  that is still live owns the response.
\<close>

theorem waiting_runs_queued:
  assumes "run_ops scheduler_step (new_scheduler p lid) ops = (s, outs)"
    and "map_of (runs s) k = Some st"
    and "pending_can_emit st \<or> terminal st \<and> pending st \<noteq> []"
  shows "k \<in> set (ready s) \<and> (\<exists>h. owner s = Some h \<and> h \<noteq> k \<and> live s h)"
proof -
  have "open_inv outs s"
    using scheduler_run_inv [OF assms(1)] assms(2) by (auto simp: sched_inv_def discarded_def)
  then have i: "core outs s" "owner_idle s" "none_forgotten s" "queue_served s"
    by (auto simp: open_inv_def mid_inv_def)
  have wait: "must_wait st" using assms(3) by (simp add: must_wait_def)
  have not_owner: "owner s \<noteq> Some k"
    using i(2) assms(2) must_wait_pending [OF wait] unfolding owner_idle_def by blast
  with i(3) assms(2) wait have "k \<in> ready_set s" unfolding none_forgotten_def by blast
  with i(1) have k: "k \<in> set (ready s)" by (simp add: core_def queue_wf_def)
  with i(4) obtain h where h: "owner s = Some h" by (auto simp: queue_served_def)
  then obtain sh where "map_of (runs s) h = Some sh" using core_owner_run [OF i(1)] by blast
  with h i(2) have "live s h" unfolding owner_idle_def live_def by simp
  with k h not_owner show ?thesis by auto
qed

theorem waiting_runs_queued_witness:
  "(''t'', ''b'') \<in> set (ready (demo_state demo_two_runs)) \<and>
     (\<exists>h. owner (demo_state demo_two_runs) = Some h \<and> h \<noteq> (''t'', ''b'') \<and>
        live (demo_state demo_two_runs) h)"
  by (rule waiting_runs_queued [OF demo_run,
        of _ _ "the (map_of (runs (demo_state demo_two_runs)) (''t'', ''b''))"]) code_simp+

text \<open>
  Ownership passes in queue order.  When \<open>advance_published\<close> finds the response without an
  owner, or the owner past its idle deadline, the next owner is the first Run of the queue that
  is still live (the terminal ones before it are presented whole); otherwise the owner stays.
\<close>

theorem advance_next_owner:
  assumes "run_ops scheduler_step (new_scheduler p lid) ops = (s, outs)" and "\<not> finished s"
  shows "\<exists>s'. advance_published now s = Inr s' \<and>
    owner s' = (if owner s = None \<or> (\<exists>d. owner_deadline s = Some d \<and> d \<le> now)
                then find (live s) (ready s) else owner s)"
proof -
  have "mid_inv outs s"
    using scheduler_run_inv [OF assms(1)] assms(2)
    by (auto simp: sched_inv_def discarded_def open_inv_def)
  then obtain s1 where s1: "expire_owner now s = Inr s1" "mid_inv outs s1" "same_terminal s s1"
    "ready s1 = ready s"
    using expire_mid [of outs s now] by metis
  obtain s2 where s2: "assign_owner now s1 = Inr s2"
    "owner s2 = (if owner s1 = None then find (live s1) (ready s1) else owner s1)"
    using assign_open [OF s1(2), of now] by metis
  have "owner s1 = (if \<exists>d. owner_deadline s = Some d \<and> d \<le> now then None else owner s)"
    if "owner s \<noteq> None"
    using s1(1) that by (auto simp: expire_owner_Inr release_owner_def)
  moreover have "s1 = s" if "owner s = None"
    using s1(1) that by (auto simp: expire_owner_Inr)
  ultimately have "owner s2 = (if owner s = None \<or> (\<exists>d. owner_deadline s = Some d \<and> d \<le> now)
      then find (live s) (ready s) else owner s)"
    using s2(2) s1(4) same_terminal_live [OF s1(3)]
    by (cases "owner s = None"; cases "\<exists>d. owner_deadline s = Some d \<and> d \<le> now")
       (simp_all only: if_True if_False simp_thms)
  moreover have "advance_published now s = Inr (publish_batch now False s2)"
    using assms(2) s1(1) s2(1) by (simp add: advance_published_def)
  ultimately show ?thesis by (simp add: publish_batch_same)
qed

theorem advance_next_owner_witness:
  "\<exists>s'. advance_published 7 (demo_state demo_two_runs) = Inr s' \<and> owner s' = Some (''t'', ''b'')"
proof -
  have "\<not> finished (demo_state demo_two_runs)" by code_simp
  moreover have "owner_deadline (demo_state demo_two_runs) = Some 7" by code_simp
  moreover have "find (live (demo_state demo_two_runs)) (ready (demo_state demo_two_runs))
      = Some (''t'', ''b'')" by code_simp
  ultimately show ?thesis
    using advance_next_owner [OF demo_run [of demo_two_runs], of 7] by simp
qed

section \<open>Batches\<close>

definition batch_bytes :: "presentation_frame list \<Rightarrow> nat" where
  "batch_bytes fs = sum_list (map (\<lambda>f. length (ftext f)) fs)"

lemma batch_loop_bound:
  assumes "batch_loop mx acc n fs = (b, rest)" and "n = batch_bytes acc"
    and "length acc \<le> 1 \<or> real n \<le> mx"
  shows "(length b \<le> 1 \<or> real (batch_bytes b) \<le> mx) \<and> (acc @ fs \<noteq> [] \<longrightarrow> b \<noteq> []) \<and>
     (\<forall>f fs'. rest = f # fs' \<longrightarrow> real (batch_bytes (b @ [f])) > mx)"
  using assms
proof (induction mx acc n fs arbitrary: b rest rule: batch_loop.induct)
  case (1 mx batch bytes)
  then show ?case by auto
next
  case (2 mx batch bytes f fs)
  show ?case
  proof (cases "batch \<noteq> [] \<and> real (bytes + length (ftext f)) > mx")
    case True
    with 2 show ?thesis by (auto simp: Let_def batch_bytes_def)
  next
    case False
    have "(length b \<le> 1 \<or> real (batch_bytes b) \<le> mx) \<and> ((batch @ [f]) @ fs \<noteq> [] \<longrightarrow> b \<noteq> []) \<and>
       (\<forall>f fs'. rest = f # fs' \<longrightarrow> real (batch_bytes (b @ [f])) > mx)"
    proof (rule "2.IH" [OF refl False])
      show "batch_loop mx (batch @ [f]) (bytes + length (ftext f)) fs = (b, rest)"
        using 2(2) False by (simp add: Let_def split: if_splits)
      show "bytes + length (ftext f) = batch_bytes (batch @ [f])"
        using 2(3) by (simp add: batch_bytes_def)
      show "length (batch @ [f]) \<le> 1 \<or> real (bytes + length (ftext f)) \<le> mx"
        using False by auto
    qed
    then show ?thesis by simp
  qed
qed

text \<open>
  A batch that is due is a non-empty prefix of the waiting frames; it exceeds the
  policy's size limit only when it is a single frame, and it is as long as the limit allows:
  with the first frame left behind it would exceed it.
\<close>

theorem due_batch_bounds:
  assumes "pending_frames s \<noteq> []" and "force \<or> (\<forall>d. batch_deadline s = Some d \<longrightarrow> d \<le> now)"
  shows "\<exists>b rest. fst (take_due_batch now force s) = b \<and>
    pending_frames (snd (take_due_batch now force s)) = rest \<and> pending_frames s = b @ rest \<and>
    b \<noteq> [] \<and> (length b > 1 \<longrightarrow> real (batch_bytes b) \<le> max_batch_kb (policy s) * 1024) \<and>
    (rest \<noteq> [] \<longrightarrow> real (batch_bytes (b @ [hd rest])) > max_batch_kb (policy s) * 1024)"
proof -
  let ?mx = "max_batch_kb (policy s) * 1024"
  obtain b rest where l: "batch_loop ?mx [] 0 (pending_frames s) = (b, rest)"
    by (cases "batch_loop ?mx [] 0 (pending_frames s)")
  have due: "\<not> (\<not> force \<and> (case batch_deadline s of None \<Rightarrow> False | Some d \<Rightarrow> now < d))"
    using assms(2) by (auto split: option.splits)
  have "fst (take_due_batch now force s) = b" "pending_frames (snd (take_due_batch now force s)) = rest"
    using assms(1) due l by (auto simp: take_due_batch_def)
  moreover have "pending_frames s = b @ rest"
    using batch_loop_append [OF l] by simp
  moreover have "(length b \<le> 1 \<or> real (batch_bytes b) \<le> ?mx) \<and> ([] @ pending_frames s \<noteq> [] \<longrightarrow> b \<noteq> []) \<and>
     (\<forall>f fs'. rest = f # fs' \<longrightarrow> real (batch_bytes (b @ [f])) > ?mx)"
    by (rule batch_loop_bound [OF l]) (simp_all add: batch_bytes_def)
  ultimately show ?thesis
    using assms(1) by (cases rest) auto
qed

definition demo_backlog :: scheduler where
  "demo_backlog = (new_scheduler (demo_policy\<lparr>max_batch_kb := 1 / 256\<rparr>) ''L'')
     \<lparr>pending_frames := [demo_frame Ph_atomic ''abc'' [] [], demo_frame Ph_atomic ''d'' [] [],
       demo_frame Ph_atomic ''e'' [] []]\<rparr>"

theorem due_batch_bounds_witness:
  "map ftext (fst (take_due_batch 0 False demo_backlog)) = [''abc'', ''d''] \<and>
   real (batch_bytes (fst (take_due_batch 0 False demo_backlog))) \<le> max_batch_kb (policy demo_backlog) * 1024"
proof -
  have 1: "map ftext (fst (take_due_batch 0 False demo_backlog)) = [''abc'', ''d'']" by code_simp
  then have "length (map ftext (fst (take_due_batch 0 False demo_backlog))) = 2" by simp
  then have 2: "length (fst (take_due_batch 0 False demo_backlog)) > 1" by simp
  have "pending_frames demo_backlog \<noteq> []" "batch_deadline demo_backlog = Some 0"
    by (simp_all add: demo_backlog_def batch_deadline_def new_scheduler_def)
  with 1 2 due_batch_bounds [of demo_backlog False 0] show ?thesis by auto
qed

end
