(* ===== verification/Event_Stream_Properties.thy ===== *)
theory Event_Stream_Properties
  imports Stream_Presentation Scheduler_Properties
begin

text \<open>
  The properties of a Run's event stream: its frames over any sequence of events, their way into
  the response, the suppression of messages that were streamed, and the usage totals.
\<close>

section \<open>A concrete message\<close>

definition demo_repr :: "json \<Rightarrow> string" where
  "demo_repr j = ''?''"

definition demo_origin :: resolved_origin where
  "demo_origin = \<lparr>ro_output = run_origin (new_resolver None [] ''A'' []), ro_namespace = ''root'',
     ro_source_type = Src_agent, ro_subagent_profile_id = []\<rparr>"

definition demo_event :: "(string, json) dict \<Rightarrow> protocol_event" where
  "demo_event payload = \<lparr>ev_method = JStr ''messages'', ev_params = Some
     \<lparr>ep_data = D_sequence [P_value (JObj payload), P_value (JObj [(''run_id'', JStr ''r'')])],
      ep_namespace = JNull\<rparr>\<rparr>"

definition demo_whole :: protocol_event where
  "demo_whole = \<lparr>ev_method = JStr ''messages'', ev_params = Some
     \<lparr>ep_data = D_sequence
        [P_message \<lparr>am_id = JStr ''m'', am_usage_metadata = JObj [(''output_tokens'', JInt 7)],
           am_content_blocks = JList [JObj [(''type'', JStr ''image'')]]\<rparr>,
         P_value (JObj [(''run_id'', JStr ''r'')])],
      ep_namespace = JNull\<rparr>\<rparr>"

definition demo_message :: "stream_op list" where
  "demo_message =
     [Consume (demo_event [(''event'', JStr ''message-start''), (''id'', JStr ''m'')]) demo_origin [] [],
      Consume (demo_event [(''event'', JStr ''content-block-start''), (''index'', JInt 0),
        (''content'', JObj [(''type'', JStr ''text'')])]) demo_origin ''<'' ''>'',
      Consume (demo_event [(''event'', JStr ''content-block-delta''), (''index'', JInt 0),
        (''delta'', JObj [])]) demo_origin ''hi'' [],
      Consume (demo_event [(''event'', JStr ''message-finish'')]) demo_origin [] [],
      Atomic ''!'']"

definition demo_stream_out :: "presentation_frame list" where
  "demo_stream_out = snd (run_ops (stream_step demo_repr) (new_stream new_usage) demo_message)"

definition demo_stream_state :: run_event_stream where
  "demo_stream_state = fst (run_ops (stream_step demo_repr) (new_stream new_usage) demo_message)"

lemma demo_stream_run:
  "run_ops (stream_step demo_repr) (new_stream new_usage) demo_message = (demo_stream_state, demo_stream_out)"
  by (simp add: demo_stream_state_def demo_stream_out_def)

section \<open>The frames of a stream\<close>

text \<open>
  Whatever events a Run emits, the frames its stream projects from them are numbered 1, 2, 3
  and so on, every delta and every finish belongs to a content block that was started and not
  finished yet, and atomic frames belong to no block.
\<close>

theorem stream_frames_bracketed:
  assumes "run_ops (stream_step repr) (new_stream u) ops = (st, outs)"
  shows "map fr_sequence outs = [1..<Suc (length outs)] \<and> block_run {} outs \<noteq> None"
  using stream_run_inv [OF assms] by (auto simp: stream_inv_def numbered_def)

theorem stream_frames_bracketed_witness:
  "map phase demo_stream_out = [Ph_start, Ph_delta, Ph_finish, Ph_atomic] \<and>
   map fr_sequence demo_stream_out = [1, 2, 3, 4]"
proof -
  have "map phase demo_stream_out = [Ph_start, Ph_delta, Ph_finish, Ph_atomic]" by code_simp
  moreover have "length demo_stream_out = 4" by code_simp
  ultimately show ?thesis
    using stream_frames_bracketed [OF demo_stream_run] by (simp add: upt_rec)
qed



section \<open>Messages that were streamed\<close>

text \<open>The Runs of a model whose message a stream has seen beginning; none is ever forgotten.\<close>

definition streamed :: "run_event_stream \<Rightarrow> string set" where
  "streamed st = set (mg_streamed_run_keys (es_messages st))"

lemma set_set_add [simp]: "set (set_add x xs) = insert x (set xs)"
  by (auto simp: set_add_def)

lemma streamed_updates [simp]:
  "streamed (st\<lparr>es_usage := u\<rparr>) = streamed st" "streamed (st\<lparr>es_blocks := bs\<rparr>) = streamed st"
  "streamed (st\<lparr>es_frame_sequence := n\<rparr>) = streamed st"
  by (simp_all add: streamed_def)

lemma streamed_discard [simp]:
  "streamed (st\<lparr>es_messages := discard_message r (es_messages st)\<rparr>) = streamed st"
  by (simp add: streamed_def discard_message_def)

lemma streamed_frame: "stream_frame ph t bid seg st = (f, st') \<Longrightarrow> streamed st' = streamed st"
  by (auto simp: stream_frame_def Let_def)

lemma streamed_atomic: "atomic_frames t st = (fs, st') \<Longrightarrow> streamed st' = streamed st"
  by (auto simp: atomic_frames_def split: if_splits prod.splits dest: streamed_frame)

lemma streamed_projection [simp]: "streamed (fst (atomic_projection t st)) = streamed st"
  by (cases "atomic_frames t st") (simp add: atomic_projection_def streamed_atomic)

lemma streamed_projected_atomic [simp]: "streamed (fst (projected (atomic_frames t st) m)) = streamed st"
  by (cases "atomic_frames t st") (simp add: streamed_atomic)

lemma streamed_block_frame [simp]: "streamed (fst (block_frame ph t k seg st)) = streamed st"
  by (auto simp: block_frame_def split: prod.splits dest: streamed_frame)

lemma streamed_close: "close_blocks ks st = (fs, st') \<Longrightarrow> streamed st' = streamed st"
proof (induction ks arbitrary: st fs)
  case (Cons k ks)
  then show ?case
    by (auto split: option.splits prod.splits dest: streamed_frame)
qed simp

lemma streamed_finish [simp]: "streamed (fst (message_finish r payload t st)) = streamed st"
  by (auto simp: message_finish_def Let_def close_message_blocks_def split: prod.splits
      dest!: streamed_close streamed_atomic)

lemma streamed_start [simp]: "streamed (message_start repr r payload origin st) = insert r (streamed st)"
  by (simp add: message_start_def Let_def streamed_def begin_message_def)

lemma streamed_discard_stream [simp]: "streamed (discard_stream_message r st) = streamed st"
  by (simp add: discard_stream_message_def streamed_def discard_message_def)

lemma streamed_block [simp]: "streamed (fst (consume_block repr r payload origin t seg st)) = streamed st"
  by (simp add: consume_block_def block_start_def block_delta_def block_finish_def Let_def
      split: option.splits)

lemma streamed_payload: "streamed st \<subseteq> streamed (fst (consume_payload repr r payload origin t seg st))"
  by (auto simp: consume_payload_def Let_def)

lemma streamed_whole: "consume_whole repr r m t st = Inr q \<Longrightarrow> streamed (fst q) = streamed st"
  by (auto simp: consume_whole_def Let_def bind_res_eq_Inr split: if_splits)

lemma streamed_result: "consume repr ev origin t seg st = Inr q \<Longrightarrow> streamed st \<subseteq> streamed (fst q)"
  unfolding consume_def message_projection_def Let_def
  by (auto split: option.splits if_splits event_part.splits dest!: streamed_whole
      intro!: subsetD [OF streamed_payload])

lemma streamed_consume: "consume repr ev origin t seg st = Inr (st', p) \<Longrightarrow> streamed st \<subseteq> streamed st'"
  using streamed_result [of repr ev origin t seg st "(st', p)"] by simp

lemma streamed_close_stream [simp]: "streamed (close_stream st) = streamed st"
proof -
  have "mg_streamed_run_keys (foldl (\<lambda>g k. discard_message k g) g ks) = mg_streamed_run_keys g" for g ks
    by (induction ks arbitrary: g) (simp_all add: discard_message_def)
  then show ?thesis by (simp add: streamed_def close_stream_def)
qed

lemma streamed_step: "stream_step repr st x = Inr (st', fs) \<Longrightarrow> streamed st \<subseteq> streamed st'"
  by (cases x) (auto simp: bind_res_eq_Inr split: prod.splits
      dest: streamed_consume streamed_frame)

lemma streamed_run: "run_ops (stream_step repr) st ops = (st', outs) \<Longrightarrow> streamed st \<subseteq> streamed st'"
proof (induction ops arbitrary: st outs)
  case (Cons x xs)
  show ?case
  proof (cases "stream_step repr st x")
    case (Inl e)
    with Cons show ?thesis by auto
  next
    case (Inr r)
    obtain st1 o1 where r: "r = (st1, o1)" by (cases r)
    obtain o2 where "run_ops (stream_step repr) st1 xs = (st', o2)"
      using Cons.prems Inr r by (auto split: prod.splits)
    from Cons.IH [OF this] streamed_step [of repr st x st1 o1] Inr r show ?thesis by auto
  qed
qed simp

text \<open>An event that begins the message of a model Run, and one that carries it as a whole.\<close>

definition begins_message :: "(json \<Rightarrow> string) \<Rightarrow> protocol_event \<Rightarrow> resolved_origin \<Rightarrow> string option" where
  "begins_message repr ev origin =
     (case ev_params ev of
        None \<Rightarrow> None
      | Some params \<Rightarrow>
          if text_or repr (ev_method ev) [] \<noteq> ''messages'' then None
          else (case message_parts (ep_data params) of
                  Some (P_value (JObj payload), metadata) \<Rightarrow>
                    if text_or repr (mapping_get payload ''event'') [] = ''message-start''
                    then Some (event_run_key repr metadata origin) else None
                | _ \<Rightarrow> None))"

definition carries_message ::
  "(json \<Rightarrow> string) \<Rightarrow> protocol_event \<Rightarrow> resolved_origin \<Rightarrow> (string \<times> ai_message) option" where
  "carries_message repr ev origin =
     (case ev_params ev of
        None \<Rightarrow> None
      | Some params \<Rightarrow>
          if text_or repr (ev_method ev) [] \<noteq> ''messages'' then None
          else (case message_parts (ep_data params) of
                  Some (P_message m, metadata) \<Rightarrow> Some (event_run_key repr metadata origin, m)
                | _ \<Rightarrow> None))"

lemma begins_message_streamed:
  assumes "begins_message repr ev origin = Some r"
  shows "\<exists>st' fs. stream_step repr st (Consume ev origin t seg) = Inr (st', fs) \<and> r \<in> streamed st'"
proof -
  obtain params payload metadata where p: "ev_params ev = Some params"
    "text_or repr (ev_method ev) [] = ''messages''"
    "message_parts (ep_data params) = Some (P_value (JObj payload), metadata)"
    "text_or repr (mapping_get payload ''event'') [] = ''message-start''" "event_run_key repr metadata origin = r"
    using assms by (auto simp: begins_message_def split: option.splits if_splits event_part.splits json.splits)
  obtain st' q where "atomic_projection t (message_start repr r payload origin st) = (st', q)" by fastforce
  moreover from this have "r \<in> streamed st'"
    using streamed_projection [of t "message_start repr r payload origin st"] by simp
  ultimately show ?thesis
    using p by (simp add: consume_def message_projection_def consume_payload_def Let_def)
qed

lemma run_begins_streamed:
  assumes "begins_message repr ev origin = Some r"
  shows "run_ops (stream_step repr) st ops = (st', outs) \<Longrightarrow> Consume ev origin t seg \<in> set ops \<Longrightarrow>
    r \<in> streamed st'"
proof (induction ops arbitrary: st outs)
  case (Cons x xs)
  show ?case
  proof (cases "stream_step repr st x")
    case (Inl e)
    then have "x \<noteq> Consume ev origin t seg"
      using begins_message_streamed [OF assms, of st t seg] by auto
    with Cons Inl show ?thesis by auto
  next
    case (Inr q)
    obtain st1 o1 where q: "q = (st1, o1)" by (cases q)
    obtain o2 where rest: "run_ops (stream_step repr) st1 xs = (st', o2)"
      using Cons.prems(1) Inr q by (auto split: prod.splits)
    show ?thesis
    proof (cases "x = Consume ev origin t seg")
      case True
      with begins_message_streamed [OF assms, of st t seg] Inr q have "r \<in> streamed st1" by auto
      then show ?thesis using streamed_run [OF rest] by blast
    next
      case False
      with Cons.IH [OF rest] Cons.prems(2) show ?thesis by auto
    qed
  qed
qed simp

text \<open>
  A message is presented once.  After an event that begins the message of a model Run, an
  event that carries the message of that Run as a whole, at whatever later time, is projected to
  no frame and no media; it only reports its usage.
\<close>

theorem streamed_message_not_repeated:
  assumes "run_ops (stream_step repr) (new_stream u) ops = (st, outs)"
    and "Consume ev origin t seg \<in> set ops" and "begins_message repr ev origin = Some r"
    and "carries_message repr ev' origin' = Some (r, m)"
  shows "consume repr ev' origin' t' seg' st =
    Inr (st\<lparr>es_usage := merge_usage r (JObj (mapping_or_empty (am_usage_metadata m))) (es_usage st)\<rparr>,
         \<lparr>sp_frames = [], sp_media = []\<rparr>)"
proof -
  have "was_streamed r (es_messages st)"
    using run_begins_streamed [OF assms(3,1,2)] by (simp add: streamed_def was_streamed_def)
  then show ?thesis
    using assms(4) unfolding carries_message_def
    by (auto simp: consume_def message_projection_def consume_whole_def Let_def
        split: option.splits if_splits event_part.splits)
qed

theorem streamed_message_not_repeated_witness:
  "\<exists>st'. consume demo_repr demo_whole demo_origin ''hi'' [] demo_stream_state =
    Inr (st', \<lparr>sp_frames = [], sp_media = []\<rparr>)"
proof -
  let ?ev = "demo_event [(''event'', JStr ''message-start''), (''id'', JStr ''m'')]"
  have "Consume ?ev demo_origin [] [] \<in> set demo_message" by (simp add: demo_message_def)
  moreover have "begins_message demo_repr ?ev demo_origin = Some ''r''" by code_simp
  moreover have "carries_message demo_repr demo_whole demo_origin = Some (''r'',
      \<lparr>am_id = JStr ''m'', am_usage_metadata = JObj [(''output_tokens'', JInt 7)],
       am_content_blocks = JList [JObj [(''type'', JStr ''image'')]]\<rparr>)" by code_simp
  ultimately show ?thesis
    using streamed_message_not_repeated [OF demo_stream_run] by blast
qed

section \<open>Usage\<close>

text \<open>What was reported for a field of a model Run, and the largest of it.\<close>

definition reported :: "(string \<times> json) list \<Rightarrow> string \<Rightarrow> string \<Rightarrow> int list" where
  "reported reports r k =
     concat (map (\<lambda>(r', u). if r' = r
       then map snd (filter (\<lambda>kv. fst kv = k) (usage_current (mapping_or_empty u))) else []) reports)"

definition peak :: "(string \<times> json) list \<Rightarrow> string \<Rightarrow> string \<Rightarrow> int" where
  "peak reports r k = foldl max 0 (reported reports r k)"

definition merge_all :: "(string \<times> json) list \<Rightarrow> usage_accumulator" where
  "merge_all reports = foldl (\<lambda>a (r, u). merge_usage r u a) new_usage reports"

lemma count_of_set [simp]: "count_of (dict_set k v d) k' = (if k' = k then v else count_of d k')"
  by (simp add: count_of_def update_conv')

lemma merge_counts_spec:
  "merge_counts kvs prev tot = (prev', tot') \<Longrightarrow>
   count_of prev' k = foldl max (count_of prev k) (map snd (filter (\<lambda>kv. fst kv = k) kvs)) \<and>
   count_of tot' k - count_of tot k = count_of prev' k - count_of prev k"
proof (induction kvs prev tot rule: merge_counts.induct)
  case (2 k' v kvs prev tot)
  show ?case
  proof (cases "v > count_of prev k'")
    case True
    then have "max (count_of prev k') v = v" by simp
    with 2 True show ?thesis by (auto simp: max_def)
  next
    case False
    then have "max (count_of prev k') v = count_of prev k'" by simp
    with 2 False show ?thesis by (auto simp: max_def)
  qed
qed simp

definition run_usage :: "usage_accumulator \<Rightarrow> string \<Rightarrow> (string, int) dict" where
  "run_usage a r = (case map_of (usage_by_run a) r of None \<Rightarrow> [] | Some p \<Rightarrow> p)"

lemma merge_usage_spec:
  "count_of (run_usage (merge_usage r u a) r') k =
     (if r' = r then foldl max (count_of (run_usage a r) k)
        (map snd (filter (\<lambda>kv. fst kv = k) (usage_current (mapping_or_empty u))))
      else count_of (run_usage a r') k) \<and>
   count_of (usage_totals (merge_usage r u a)) k - count_of (usage_totals a) k =
     count_of (run_usage (merge_usage r u a) r) k - count_of (run_usage a r) k"
proof (cases "json_obj u")
  case None
  then show ?thesis
    by (simp add: merge_usage_def mapping_or_empty_def usage_current_def usage_value_def mapping_get_def
        usage_entry_def)
next
  case (Some d)
  obtain p t where m: "merge_counts (usage_current d) (run_usage a r) (usage_totals a) = (p, t)" by fastforce
  from Some m have e: "merge_usage r u a = \<lparr>usage_by_run = dict_set r p (usage_by_run a), usage_totals = t\<rparr>"
    by (simp add: merge_usage_def run_usage_def Let_def)
  have "run_usage (merge_usage r u a) r' = (if r' = r then p else run_usage a r')" for r'
    by (simp add: e run_usage_def update_conv')
  with merge_counts_spec [OF m, of k] Some e show ?thesis
    by (simp add: mapping_or_empty_def)
qed

lemma merge_all_snoc: "merge_all (rs @ [(r, u)]) = merge_usage r u (merge_all rs)"
  by (simp add: merge_all_def)

lemma peak_snoc:
  "peak (rs @ [(r, u)]) r' k =
     (if r' = r then foldl max (peak rs r k)
        (map snd (filter (\<lambda>kv. fst kv = k) (usage_current (mapping_or_empty u))))
      else peak rs r' k)"
  by (simp add: peak_def reported_def)

lemma peak_unreported: "r \<notin> fst ` set rs \<Longrightarrow> peak rs r k = 0"
proof -
  assume "r \<notin> fst ` set rs"
  then have "reported rs r k = []" unfolding reported_def by (force simp: concat_eq_Nil_conv)
  then show ?thesis by (simp add: peak_def)
qed

lemma run_usage_peak: "count_of (run_usage (merge_all rs) r) k = peak rs r k"
proof (induction rs arbitrary: r rule: rev_induct)
  case Nil
  then show ?case by (simp add: merge_all_def new_usage_def run_usage_def count_of_def peak_def reported_def)
next
  case (snoc x rs)
  obtain r' u where x: "x = (r', u)" by (cases x)
  show ?case
    using merge_usage_spec [of r' u "merge_all rs" r k] snoc.IH
    by (simp add: x merge_all_snoc peak_snoc)
qed

lemma sum_update:
  fixes f :: "'a \<Rightarrow> int"
  assumes "finite A" "x \<notin> A \<Longrightarrow> f x = 0"
  shows "(\<Sum>y\<in>insert x A. if y = x then v else f y) = (\<Sum>y\<in>A. f y) + (v - f x)"
proof -
  have "(\<Sum>y\<in>insert x A. if y = x then v else f y) = v + (\<Sum>y\<in>A - {x}. f y)"
    using assms(1) by (subst sum.insert_remove) (auto intro!: sum.cong)
  moreover have "(\<Sum>y\<in>A. f y) = f x + (\<Sum>y\<in>A - {x}. f y)"
    using assms by (cases "x \<in> A") (simp_all add: sum.remove)
  ultimately show ?thesis by simp
qed

text \<open>
  C6: the usage totals count every model Run once: each total is the sum, over the model Runs
  that reported, of the largest value any report of that Run carried for the field, however often
  and in whatever order the reports arrive.
\<close>

theorem usage_totals_exact:
  "count_of (usage_totals (merge_all reports)) k = (\<Sum>r\<in>fst ` set reports. peak reports r k)"
proof (induction reports rule: rev_induct)
  case Nil
  then show ?case by (simp add: merge_all_def new_usage_def count_of_def)
next
  case (snoc x rs)
  obtain r u where x: "x = (r, u)" by (cases x)
  let ?p = "peak (rs @ [(r, u)]) r k"
  have "(\<Sum>y\<in>fst ` set (rs @ [x]). peak (rs @ [x]) y k) =
      (\<Sum>y\<in>insert r (fst ` set rs). if y = r then ?p else peak rs y k)"
    by (rule sum.cong) (auto simp: x peak_snoc)
  also have "\<dots> = (\<Sum>y\<in>fst ` set rs. peak rs y k) + (?p - peak rs r k)"
    by (rule sum_update) (simp_all add: peak_unreported)
  also have "\<dots> = count_of (usage_totals (merge_all (rs @ [x]))) k"
    using merge_usage_spec [of r u "merge_all rs" r k] snoc.IH run_usage_peak [of "rs @ [(r, u)]" r k]
      run_usage_peak [of rs r k]
    by (simp add: x merge_all_snoc)
  finally show ?case by simp
qed

end
