(* ===== verification/Run_Execution.thy ===== *)
theory Run_Execution
  imports Event_Stream Scheduler_Safety
begin

text \<open>
  \<open>RunExecution\<close> of \<open>runtime/agent_runtime.py\<close> with \<open>runtime/output_projection.py\<close>: one Run that
  consumes the events of its graph, projects them through its Event Output package and its event
  stream, publishes the frames to the scheduler of its Lifecycle and hands out the text of what
  the scheduler has published.

  The graph is a list of loop iterations (an event that is ready, whether a timer or a wake-up of
  the scheduler is due, the time) and the way it ends.  Between two steps other Runs of the
  Lifecycle may use the scheduler: each step names their operations.  The package, the
  media service and \<open>repr\<close> are parameters.  An action hands out texts and may raise after some of
  them, so its result has the state, the texts and the error.  The clock is read once per step.
\<close>

section \<open>The Event Output package\<close>

datatype exec_error =
    Event_output_failed
  | Resolver_unavailable
  | Scheduler_missing
  | Stream_raised stream_error
  | Scheduler_raised scheduler_error
  | Media_failed
  | Graph_failed string
  | Cancelled

record run_event =
  rv_phase :: string
  rv_status :: string
  rv_finish_reason :: string
  rv_error_code :: string

text \<open>A function of the package returns a value or raises (\<open>None\<close>).\<close>

record output_projector =
  op_output :: "(protocol_event \<Rightarrow> event_output_origin \<Rightarrow> json option) option"
  op_segment_end :: "(protocol_event \<Rightarrow> event_output_origin \<Rightarrow> json option) option"
  op_run_output :: "(run_event \<Rightarrow> event_output_origin option \<Rightarrow> json option) option"

definition call_text :: "json option \<Rightarrow> exec_error + string" where
  "call_text r = (case r of Some (JStr s) \<Rightarrow> Inr s | _ \<Rightarrow> Inl Event_output_failed)"

definition render ::
  "output_projector \<Rightarrow> protocol_event \<Rightarrow> event_output_origin \<Rightarrow> exec_error + string" where
  "render p ev origin = (case op_output p of None \<Rightarrow> Inr [] | Some f \<Rightarrow> call_text (f ev origin))"

definition render_segment_end ::
  "output_projector \<Rightarrow> protocol_event \<Rightarrow> event_output_origin \<Rightarrow> exec_error + string" where
  "render_segment_end p ev origin =
     (case op_segment_end p of None \<Rightarrow> Inr [] | Some f \<Rightarrow> call_text (f ev origin))"

definition render_run ::
  "output_projector \<Rightarrow> run_event \<Rightarrow> event_output_origin option \<Rightarrow> exec_error + string" where
  "render_run p ev origin =
     (case op_run_output p of None \<Rightarrow> Inr [] | Some f \<Rightarrow> call_text (f ev origin))"

section \<open>The execution and its actions\<close>

record run_execution =
  rx_scheduler :: "scheduler option"
  rx_stream :: run_event_stream
  rx_resolver :: "origin_resolver option"
  rx_projector :: "output_projector option"
  rx_identity :: "graph_run_identity option"
  rx_public_output :: bool
  rx_response_consumer :: bool
  rx_terminal_status :: string

type_synonym exec = "run_execution \<Rightarrow> run_execution \<times> string list \<times> exec_error option"

definition skip :: exec where
  "skip st = (st, [], None)"

definition raise_error :: "exec_error \<Rightarrow> exec" where
  "raise_error e st = (st, [], Some e)"

definition and_then :: "exec \<Rightarrow> exec \<Rightarrow> exec" where
  "and_then m n st =
     (case m st of
        (st1, out1, Some e) \<Rightarrow> (st1, out1, Some e)
      | (st1, out1, None) \<Rightarrow> (case n st1 of (st2, out2, r) \<Rightarrow> (st2, out1 @ out2, r)))"

fun each :: "('a \<Rightarrow> exec) \<Rightarrow> 'a list \<Rightarrow> exec" where
  "each f [] = skip"
| "each f (x # xs) = and_then (f x) (each f xs)"

definition with_result :: "exec_error + 'a \<Rightarrow> ('a \<Rightarrow> exec) \<Rightarrow> exec" where
  "with_result r f = (case r of Inl e \<Rightarrow> raise_error e | Inr x \<Rightarrow> f x)"

definition on_scheduler :: "(scheduler \<Rightarrow> scheduler_error + scheduler) \<Rightarrow> exec" where
  "on_scheduler f st =
     (case rx_scheduler st of
        None \<Rightarrow> raise_error Scheduler_missing st
      | Some s \<Rightarrow>
          (case f s of
             Inl e \<Rightarrow> raise_error (Scheduler_raised e) st
           | Inr s' \<Rightarrow> skip (st\<lparr>rx_scheduler := Some s'\<rparr>)))"

definition new_execution ::
  "scheduler option \<Rightarrow> origin_resolver option \<Rightarrow> output_projector option \<Rightarrow> graph_run_identity option \<Rightarrow>
   bool \<Rightarrow> bool \<Rightarrow> run_execution" where
  "new_execution s rs p i public consumer =
     \<lparr>rx_scheduler = s, rx_stream = new_stream new_usage, rx_resolver = rs, rx_projector = p,
      rx_identity = i, rx_public_output = public, rx_response_consumer = consumer,
      rx_terminal_status = []\<rparr>"

definition response_identity :: "run_execution \<Rightarrow> string \<times> string" where
  "response_identity st =
     (case rx_identity st of
        None \<Rightarrow> ([], [])
      | Some i \<Rightarrow> (ri_thread_id (identity_fields i), ri_run_id (identity_fields i)))"

text \<open>\<open>__post_init__\<close>: a public Run is registered with the scheduler.\<close>

definition post_init :: "real \<Rightarrow> exec" where
  "post_init now st =
     (if \<not> rx_public_output st \<or> rx_identity st = None \<or> rx_scheduler st = None then skip st
      else on_scheduler (register_run (fst (response_identity st)) (snd (response_identity st)) now) st)"

definition run_accepting :: "run_execution \<Rightarrow> scheduler \<Rightarrow> bool" where
  "run_accepting st s = accepting (fst (response_identity st)) (snd (response_identity st)) s"

definition response_accepting :: "run_execution \<Rightarrow> bool" where
  "response_accepting st \<longleftrightarrow>
     rx_public_output st \<and> (case rx_scheduler st of None \<Rightarrow> False | Some s \<Rightarrow> run_accepting st s)"

definition frame_texts :: "presentation_frame list \<Rightarrow> string list" where
  "frame_texts fs = (let t = concat (map ftext fs) in if t \<noteq> [] then [t] else [])"

definition take_response_output :: exec where
  "take_response_output st =
     (if \<not> rx_response_consumer st then skip st
      else (case rx_scheduler st of
              None \<Rightarrow> skip st
            | Some s \<Rightarrow>
                (case take_published s of
                   (out, s') \<Rightarrow> (st\<lparr>rx_scheduler := Some s'\<rparr>, frame_texts out, None))))"

definition publish_frame :: "presentation_frame \<Rightarrow> real \<Rightarrow> exec" where
  "publish_frame f now st =
     on_scheduler (\<lambda>s. publish
       \<lparr>in_lifecycle_id = sc_lifecycle_id s, in_thread_id = fst (response_identity st),
        in_run_id = snd (response_identity st), in_frame = f\<rparr> now s) st"

definition project_input :: "presentation_frame \<Rightarrow> real \<Rightarrow> exec" where
  "project_input f now st =
     (if \<not> rx_public_output st then skip st
      else (case rx_scheduler st of
              None \<Rightarrow> raise_error Scheduler_missing st
            | Some s \<Rightarrow>
                if \<not> run_accepting st s then skip st
                else and_then (publish_frame f now) take_response_output st))"

text \<open>\<open>self.event_stream.atomic(text)\<close>, published without looking at the scheduler again.\<close>

definition with_atomic :: "string \<Rightarrow> (presentation_frame \<Rightarrow> exec) \<Rightarrow> exec" where
  "with_atomic t k st =
     (case stream_frame Ph_atomic t [] [] (rx_stream st) of
        (f, es) \<Rightarrow> k f (st\<lparr>rx_stream := es\<rparr>))"

definition project_run_event :: "run_event \<Rightarrow> real \<Rightarrow> exec" where
  "project_run_event ev now st =
     (if \<not> rx_public_output st then skip st
      else (case rx_scheduler st of
              None \<Rightarrow> raise_error Scheduler_missing st
            | Some s \<Rightarrow>
                if \<not> run_accepting st s then skip st
                else with_result
                  (case rx_projector st of
                     None \<Rightarrow> Inr []
                   | Some p \<Rightarrow> render_run p ev (map_option run_origin (rx_resolver st)))
                  (\<lambda>t. and_then
                     (if t \<noteq> [] then with_atomic t (\<lambda>f. publish_frame f now) else skip)
                     take_response_output) st))"

definition project_deadline :: "real \<Rightarrow> exec" where
  "project_deadline now st =
     (if \<not> rx_public_output st \<or> \<not> rx_response_consumer st then skip st
      else and_then (on_scheduler (advance_published now)) take_response_output st)"

definition close_projection :: exec where
  "close_projection st =
     skip (st\<lparr>rx_stream := close_stream (rx_stream st),
              rx_resolver := map_option close_resolver (rx_resolver st)\<rparr>)"

definition finish_own_run :: "real \<Rightarrow> bool \<Rightarrow> exec" where
  "finish_own_run now abort st =
     on_scheduler (finish_run (fst (response_identity st)) (snd (response_identity st)) now abort) st"

text \<open>A broken Run projector must not replace the error that is being reported.\<close>

definition ignore_errors :: "exec \<Rightarrow> exec" where
  "ignore_errors m st = (case m st of (st1, out, r) \<Rightarrow> (st1, if r = None then out else [], None))"

definition failure_output :: "string \<Rightarrow> real \<Rightarrow> exec" where
  "failure_output code now =
     and_then close_projection
       (\<lambda>st. if \<not> rx_public_output st \<or> rx_scheduler st = None then skip st
             else and_then
               (ignore_errors (project_run_event
                  \<lparr>rv_phase = ''error'', rv_status = ''failed'', rv_finish_reason = ''error'',
                   rv_error_code = code\<rparr> now))
               (and_then (finish_own_run now True) take_response_output) st)"

section \<open>The loop over the events of the graph\<close>

text \<open>One event: attribute it, render it, project it, publish its frames and then its media.\<close>

definition project_media ::
  "(media_block \<Rightarrow> unit + string option) \<Rightarrow> real \<Rightarrow> media_block \<Rightarrow> exec" where
  "project_media note now m st =
     (if \<not> response_accepting st then skip st
      else with_result (case note m of Inl _ \<Rightarrow> Inl Media_failed | Inr n \<Rightarrow> Inr n)
        (\<lambda>n. case n of None \<Rightarrow> skip | Some t \<Rightarrow> with_atomic t (\<lambda>f. project_input f now)) st)"

definition stream_result :: "stream_error + 'a \<Rightarrow> exec_error + 'a" where
  "stream_result r = (case r of Inl e \<Rightarrow> Inl (Stream_raised e) | Inr x \<Rightarrow> Inr x)"

definition render_event ::
  "protocol_event \<Rightarrow> resolved_origin \<Rightarrow> run_execution \<Rightarrow> exec_error + string" where
  "render_event ev origin st =
     (case (if rx_public_output st then rx_projector st else None) of
        None \<Rightarrow> Inr [] | Some p \<Rightarrow> render p ev (ro_output origin))"

definition render_event_end ::
  "(json \<Rightarrow> string) \<Rightarrow> protocol_event \<Rightarrow> resolved_origin \<Rightarrow> run_execution \<Rightarrow> exec_error + string" where
  "render_event_end repr ev origin st =
     (if \<not> rx_public_output st then Inr []
      else bind_res (stream_result (is_streaming_start repr ev)) (\<lambda>starts.
        if \<not> starts then Inr []
        else (case rx_projector st of
                None \<Rightarrow> Inr [] | Some p \<Rightarrow> render_segment_end p ev (ro_output origin))))"

definition consume_event ::
  "(json \<Rightarrow> string) \<Rightarrow> (media_block \<Rightarrow> unit + string option) \<Rightarrow> protocol_event \<Rightarrow> resolved_origin \<Rightarrow>
   string \<Rightarrow> string \<Rightarrow> real \<Rightarrow> exec" where
  "consume_event repr note ev origin raw_text end_text now st =
     with_result (stream_result (consume repr ev origin raw_text end_text (rx_stream st)))
       (\<lambda>(es, projection) st1. and_then
          (each (\<lambda>f. project_input f now) (sp_frames projection))
          (each (project_media note now) (sp_media projection))
          (st1\<lparr>rx_stream := es\<rparr>)) st"

definition handle_event ::
  "(json \<Rightarrow> string) \<Rightarrow> (media_block \<Rightarrow> unit + string option) \<Rightarrow> protocol_event \<Rightarrow> real \<Rightarrow> exec" where
  "handle_event repr note ev now st =
     (case rx_resolver st of
        None \<Rightarrow> raise_error Resolver_unavailable st
      | Some rs \<Rightarrow>
          (case resolve_event repr ev rs of
             (origin, rs') \<Rightarrow>
               (let st1 = st\<lparr>rx_resolver := Some rs'\<rparr> in
                with_result (render_event ev origin st1) (\<lambda>raw_text.
                with_result (render_event_end repr ev origin st1) (\<lambda>end_text.
                consume_event repr note ev origin raw_text end_text now)) st1)))"

text \<open>
  One iteration: what other Runs did to the scheduler meanwhile, the wake-up is cleared and what
  is published handed out, then the event that is ready, then a timer or wake-up that is due.
\<close>

record loop_iteration =
  it_others :: "scheduler_op list"
  it_event :: "protocol_event option"
  it_due :: bool
  it_now :: real

definition interfere :: "scheduler_op list \<Rightarrow> exec" where
  "interfere others st =
     skip (st\<lparr>rx_scheduler := map_option (\<lambda>s. fst (run_ops scheduler_step s others)) (rx_scheduler st)\<rparr>)"

definition loop_top :: exec where
  "loop_top st =
     (if \<not> rx_public_output st \<or> \<not> rx_response_consumer st \<or> rx_scheduler st = None then skip st
      else and_then (on_scheduler (\<lambda>s. Inr (clear_wakeup s))) take_response_output st)"

definition loop_body ::
  "(json \<Rightarrow> string) \<Rightarrow> (media_block \<Rightarrow> unit + string option) \<Rightarrow> loop_iteration \<Rightarrow> exec" where
  "loop_body repr note it =
     and_then loop_top
      (and_then (interfere (it_others it))
      (and_then (case it_event it of None \<Rightarrow> skip | Some ev \<Rightarrow> handle_event repr note ev (it_now it))
                (if it_due it then project_deadline (it_now it) else skip)))"

section \<open>The end of a Run\<close>

text \<open>
  How the events end: with the official status of the graph (and whether the response was already
  stopped), with a failure that has a code, or cancelled (with the status of the graph by then).
\<close>

datatype graph_end =
    Graph_ended string bool
  | Graph_error string
  | Graph_cancelled string

definition adopt_terminal_status :: "string \<Rightarrow> exec" where
  "adopt_terminal_status status st =
     skip (if status \<noteq> [] \<and> status \<noteq> ''completed'' then st\<lparr>rx_terminal_status := status\<rparr> else st)"

definition stopped_early :: "run_execution \<Rightarrow> bool" where
  "stopped_early st \<longleftrightarrow> rx_terminal_status st \<in> {''interrupted'', ''cancelled''}"

definition end_status :: "run_execution \<Rightarrow> string" where
  "end_status st = (if stopped_early st then ''interrupted'' else ''completed'')"

definition finish_reason :: "run_execution \<Rightarrow> string" where
  "finish_reason st = (if stopped_early st then ''interrupted'' else ''stop'')"

text \<open>\<open>scheduler.finish(now)\<close> and the text of what it hands out.\<close>

definition finish_response :: "real \<Rightarrow> exec" where
  "finish_response now st =
     (case rx_scheduler st of
        None \<Rightarrow> raise_error Scheduler_missing st
      | Some s \<Rightarrow>
          (case finish now s of
             Inl e \<Rightarrow> raise_error (Scheduler_raised e) st
           | Inr (s', out) \<Rightarrow> (st\<lparr>rx_scheduler := Some s'\<rparr>, frame_texts out, None)))"

definition response_done :: "run_execution \<Rightarrow> bool" where
  "response_done st \<longleftrightarrow> (case rx_scheduler st of None \<Rightarrow> False | Some s \<Rightarrow> response_complete s)"

text \<open>
  The consumer waits until the response is complete.  Each wait names what other Runs did and
  when it ended; a wait that no entry ends is cancelled.
\<close>

fun await_complete :: "(scheduler_op list \<times> real) list \<Rightarrow> real \<Rightarrow> exec" where
  "await_complete [] now =
     and_then take_response_output (and_then (on_scheduler (\<lambda>s. Inr (clear_wakeup s)))
       (\<lambda>st. if response_done st then finish_response now st else raise_error Cancelled st))"
| "await_complete ((others, t) # waits) now =
     and_then take_response_output (and_then (on_scheduler (\<lambda>s. Inr (clear_wakeup s)))
       (\<lambda>st. if response_done st then finish_response now st
             else and_then (interfere others) (and_then (on_scheduler (advance_published t))
                    (await_complete waits t)) st))"

definition end_run :: "real \<Rightarrow> (scheduler_op list \<times> real) list \<Rightarrow> exec" where
  "end_run now waits =
     and_then (\<lambda>st. project_run_event
        \<lparr>rv_phase = ''end'', rv_status = end_status st, rv_finish_reason = finish_reason st,
         rv_error_code = []\<rparr> now st)
      (\<lambda>st. if \<not> rx_public_output st \<or> rx_scheduler st = None then skip st
            else and_then (finish_own_run now False)
              (\<lambda>st1. if rx_response_consumer st1 then await_complete waits now st1 else skip st1) st)"

definition graph_ended :: "graph_end \<Rightarrow> real \<Rightarrow> (scheduler_op list \<times> real) list \<Rightarrow> exec" where
  "graph_ended ge now waits =
     (case ge of
        Graph_error code \<Rightarrow> raise_error (Graph_failed code)
      | Graph_cancelled status \<Rightarrow> raise_error Cancelled
      | Graph_ended status terminated \<Rightarrow>
          and_then close_projection (and_then take_response_output (and_then (adopt_terminal_status status)
            (if terminated then skip else end_run now waits))))"

text \<open>The code a failure is reported with.\<close>

fun error_code :: "exec_error \<Rightarrow> string" where
  "error_code Event_output_failed = ''event_output.execution_failed''"
| "error_code (Graph_failed code) = code"
| "error_code _ = ''agent_execution_failed''"

definition graph_status :: "graph_end \<Rightarrow> string" where
  "graph_status ge = (case ge of Graph_ended status t \<Rightarrow> status | Graph_cancelled status \<Rightarrow> status | Graph_error code \<Rightarrow> [])"

definition cancelled_output :: "string \<Rightarrow> real \<Rightarrow> exec" where
  "cancelled_output status now =
     and_then (adopt_terminal_status status) (and_then close_projection
       (\<lambda>st. if rx_scheduler st \<noteq> None \<and> rx_public_output st then finish_own_run now True st else skip st))"

text \<open>What is raised in the end: an error without a code of its own gets one.\<close>

fun surfaced :: "exec_error \<Rightarrow> exec_error" where
  "surfaced Event_output_failed = Event_output_failed"
| "surfaced Cancelled = Cancelled"
| "surfaced e = Graph_failed (error_code e)"

text \<open>\<open>stream_text\<close>: the error of the body is raised again after it has been reported.\<close>

definition reported_error :: "exec_error \<Rightarrow> string \<Rightarrow> real \<Rightarrow> exec" where
  "reported_error e status now =
     and_then (if e = Cancelled then cancelled_output status now else failure_output (error_code e) now)
       (raise_error (surfaced e))"

definition stream_text ::
  "(json \<Rightarrow> string) \<Rightarrow> (media_block \<Rightarrow> unit + string option) \<Rightarrow> real \<Rightarrow> loop_iteration list \<Rightarrow>
   graph_end \<Rightarrow> real \<Rightarrow> (scheduler_op list \<times> real) list \<Rightarrow> exec" where
  "stream_text repr note start its ge now waits st =
     (case and_then (project_run_event
            \<lparr>rv_phase = ''start'', rv_status = ''running'', rv_finish_reason = [], rv_error_code = []\<rparr> start)
          (and_then (each (loop_body repr note) its) (graph_ended ge now waits)) st of
        (st1, out, None) \<Rightarrow> (st1, out, None)
      | (st1, out, Some e) \<Rightarrow>
          (case reported_error e (graph_status ge) now st1 of (st2, out2, r) \<Rightarrow> (st2, out @ out2, r)))"

end
