(* ===== verification/Run_Execution_Properties.thy ===== *)
theory Run_Execution_Properties
  imports Run_Execution Scheduler_Properties
begin

text \<open>
  What every execution of a Run leaves behind: the scheduler keeps its invariant whatever the
  Run, its package and the other Runs do, the Run is sealed, and the text the Run hands out is the
  text of the frames it took, no more and no less.
\<close>

section \<open>A Run moves forward only\<close>

definition terminal_at :: "scheduler \<Rightarrow> run_key \<Rightarrow> bool option" where
  "terminal_at s k = map_option terminal (map_of (runs s) k)"

text \<open>0: unknown to the scheduler, 1: its frames are accepted, 2: sealed.\<close>

definition run_phase :: "run_key \<Rightarrow> scheduler \<Rightarrow> nat" where
  "run_phase k s =
     (if finished s then 2
      else (case terminal_at s k of None \<Rightarrow> 0 | Some b \<Rightarrow> if b then 2 else 1))"

lemma run_phase_le: "run_phase k s \<le> 2"
  by (simp add: run_phase_def split: option.split)

lemma accepting_phase: "accepting (fst k) (snd k) s \<longleftrightarrow> run_phase k s = 1"
  by (auto simp: accepting_def run_phase_def terminal_at_def split: option.splits)

lemma same_terminal_at: "same_terminal s s' \<Longrightarrow> terminal_at s' = terminal_at s"
  by (simp add: same_terminal_def terminal_at_def fun_eq_iff)

lemma phase_mono_same:
  "terminal_at s' k = terminal_at s k \<Longrightarrow> (finished s \<Longrightarrow> finished s') \<Longrightarrow> run_phase k s \<le> run_phase k s'"
  by (auto simp: run_phase_def split: option.splits)

lemma terminal_at_put:
  "terminal_at (put_run k st s) k' = (if k' = k then Some (terminal st) else terminal_at s k')"
  by (simp add: terminal_at_def put_run_def dict_get_set)

lemma terminal_at_cong: "runs s' = runs s \<Longrightarrow> terminal_at s' = terminal_at s"
  by (simp add: terminal_at_def fun_eq_iff)

lemma run_at_terminal: "run_at k s = Inr st \<Longrightarrow> terminal_at s k = Some (terminal st)"
  by (auto simp: run_at_def terminal_at_def split: option.splits)

lemma put_run_finished [simp]: "finished (put_run k st s) = finished s"
  by (simp add: put_run_def)

lemma drain_owner_terminal:
  assumes "drain_owner now s = Inr s'"
  shows "terminal_at s' = terminal_at s \<and> finished s' = finished s"
proof (cases "owner s")
  case None
  with assms show ?thesis by (simp add: drain_owner_def)
next
  case (Some k)
  then obtain st st1 s1 where 1: "run_at k s = Inr st" "drain_loop now (pending st) st s = (st1, s1)"
    "s' = put_run k st1 s1"
    using assms unfolding drain_owner_Inr by auto
  from drain_loop_same [OF 1(2)] have "terminal st1 = terminal st" "runs s1 = runs s" "finished s1 = finished s"
    by (auto simp: same_run_def same_frame_def)
  with 1 run_at_terminal [OF 1(1)] show ?thesis
    by (auto simp: fun_eq_iff terminal_at_put terminal_at_cong [of s1 s])
qed

lemma finish_owner_terminal:
  assumes "finish_owner s = Inr s'"
  shows "terminal_at s' = terminal_at s \<and> finished s' = finished s"
proof (cases "owner s")
  case None
  with assms show ?thesis by (simp add: finish_owner_def)
next
  case (Some k)
  then obtain st r st1 s1 where 1: "run_at k s = Inr st" "close_public_segment st r s = (st1, s1)"
    "s' = release_owner (put_run k (st1\<lparr>blocks := []\<rparr>) s1)"
    using assms unfolding finish_owner_Inr by auto
  from close_public_segment_same [OF 1(2)] have "terminal st1 = terminal st" "runs s1 = runs s" "finished s1 = finished s"
    by (auto simp: same_run_def same_frame_def)
  moreover have "terminal_at s' = terminal_at (put_run k (st1\<lparr>blocks := []\<rparr>) s1)" "finished s' = finished s1"
    using 1(3) by (simp_all add: release_owner_def terminal_at_def fun_eq_iff)
  ultimately show ?thesis
    using run_at_terminal [OF 1(1)] by (auto simp: fun_eq_iff terminal_at_put terminal_at_cong [of s1 s])
qed

lemma finish_mark_terminal:
  assumes "finish_mark k abort st s now = Inr s'"
  shows "terminal_at s' = (terminal_at s)(k := Some True) \<and> finished s' = finished s"
proof -
  let ?s1 = "put_run k (st\<lparr>terminal := True, aborted := abort, parked := False\<rparr>) s"
  have 1: "terminal_at ?s1 = (terminal_at s)(k := Some True)"
    by (simp add: fun_eq_iff terminal_at_put)
  consider (own) s2 where "drain_owner now ?s1 = Inr s2" "finish_owner s2 = Inr s'"
    | (queue) "s' = enqueue_ready k ?s1"
    | (drop) "s' = put_run k (st\<lparr>terminal := True, aborted := abort, parked := False, pending := [], blocks := []\<rparr>)
        (remove_ready k ?s1)"
    using assms by (auto simp: finish_mark_def Let_def bind_res_eq_Inr split: if_splits)
  then show ?thesis
  proof cases
    case own
    with drain_owner_terminal [OF own(1)] finish_owner_terminal [OF own(2)] 1 show ?thesis by simp
  next
    case queue
    then have "runs s' = runs ?s1" "finished s' = finished s" by (simp_all add: enqueue_ready_def)
    with 1 terminal_at_cong [of s' ?s1] show ?thesis by simp
  next
    case drop
    have "terminal_at (remove_ready k ?s1) = terminal_at ?s1" by (rule terminal_at_cong) simp
    with drop 1 show ?thesis by (simp add: fun_eq_iff terminal_at_put)
  qed
qed

lemma finish_run_phase:
  assumes inv: "open_inv outs s" and f: "finish_run t r now abort s = Inr s'"
  shows "run_phase k s \<le> run_phase k s' \<and> (run_phase (t, r) s \<noteq> 0 \<longrightarrow> run_phase (t, r) s' = 2) \<and>
    finished s' = finished s"
proof (cases "map_of (runs s) (t, r)")
  case None
  with f show ?thesis by (simp add: finish_run_eq run_phase_def terminal_at_def)
next
  case (Some st)
  show ?thesis
  proof (cases "terminal st")
    case True
    with Some f show ?thesis by (simp add: finish_run_eq run_phase_def terminal_at_def)
  next
    case False
    obtain s2 where s2: "finish_mark (t, r) abort st s now = Inr s2" "mid_inv outs s2"
      using finish_mark_mid [OF _ Some, of outs abort now] inv by (auto simp: open_inv_def)
    define s3 where "s3 = (if owner s = Some (t, r) then publish_batch now True s2 else s2)"
    have s3: "mid_inv outs s3" "runs s3 = runs s2" "finished s3 = finished s2"
      using s2(2) mid_inv_batch by (simp_all add: s3_def publish_batch_same)
    obtain s4 where s4: "assign_owner now s3 = Inr s4" "same_terminal s3 s4" "finished s4 = finished s3"
      using assign_open [OF s3(1), of now] by metis
    have s': "s' = (publish_batch now False s4)\<lparr>wakeup := True\<rparr>"
      using f Some False s2(1) s4(1) by (simp add: finish_run_eq flip: s3_def)
    have "terminal_at s' = terminal_at s4"
      by (rule terminal_at_cong) (simp add: s' publish_batch_same)
    also have "\<dots> = terminal_at s3" by (rule same_terminal_at [OF s4(2)])
    also have "\<dots> = terminal_at s2" by (rule terminal_at_cong [OF s3(2)])
    finally have "terminal_at s' = (terminal_at s)((t, r) := Some True)" "finished s' = finished s"
      using finish_mark_terminal [OF s2(1)] s4(3) s3(3) by (simp_all add: s' publish_batch_same)
    then show ?thesis by (simp add: run_phase_def split: option.split)
  qed
qed

lemma step_phase:
  assumes inv: "sched_inv s outs" and step: "scheduler_step s x = Inr (s', out)"
  shows "run_phase k s \<le> run_phase k s'"
proof (cases "finished s")
  case False
  then have op: "open_inv outs s" using inv by (auto simp: sched_inv_def discarded_def)
  show ?thesis
  proof (cases x)
    case (Register_run t r now)
    with step False show ?thesis
      by (auto simp: register_run_def Let_def run_phase_def terminal_at_def put_run_def dict_get_set
          split: if_splits option.splits)
  next
    case (Publish item now)
    then have p: "publish item now s = Inr s'" using step by (auto simp: bind_res_eq_Inr)
    moreover have "validate_input item s = Inr ()"
      using p False by (auto simp: publish_def bind_res_eq_Inr)
    ultimately have "same_terminal s s'"
      using publish_open [OF op False, of item now] by auto
    from same_terminal_at [OF this] False show ?thesis by (intro phase_mono_same) auto
  next
    case (Finish_run t r now ab)
    with step finish_run_phase [OF op, of t r now ab s' k] show ?thesis by (auto simp: bind_res_eq_Inr)
  next
    case (Advance_published now)
    obtain s1 s2 where "expire_owner now s = Inr s1" "assign_owner now s1 = Inr s2" "same_terminal s s2"
      using advance_open [of outs s now] op by (metis open_inv_def)
    then have "terminal_at s' = terminal_at s"
      using step False Advance_published same_terminal_at [of s s2] terminal_at_cong [of s' s2]
      by (auto simp: advance_published_def publish_batch_same)
    with False show ?thesis by (intro phase_mono_same) auto
  next
    case Take_published
    with step show ?thesis
      by (auto simp: take_published_def intro!: phase_mono_same terminal_at_cong [THEN fun_cong])
  next
    case Clear_wakeup
    with step show ?thesis
      by (auto simp: clear_wakeup_def intro!: phase_mono_same terminal_at_cong [THEN fun_cong])
  next
    case (Finish now)
    then have "finished s'" using step finish_open [OF op, of now] by (auto split: if_splits)
    then show ?thesis using run_phase_le by (simp add: run_phase_def [of k s'])
  next
    case Discard
    with step have "finished s'" by (auto simp: discard_def)
    then show ?thesis using run_phase_le by (simp add: run_phase_def [of k s'])
  qed
next
  case True
  have "finished s'"
  proof (cases "open_inv outs s")
    case op: True
    show ?thesis
    proof (cases x)
      case (Finish_run t r now ab)
      with finish_run_phase [OF op, of t r now ab s' k] step True show ?thesis
        by (auto simp: bind_res_eq_Inr)
    next
      case (Finish now)
      then show ?thesis using step finish_open [OF op, of now] by (auto split: if_splits)
    qed (use True step in \<open>auto simp: register_run_def Let_def publish_def advance_published_def
        take_published_def clear_wakeup_def discard_def bind_res_eq_Inr split: if_splits prod.splits\<close>)
  next
    case False
    then have d: "discarded s outs" using inv by (simp add: sched_inv_def)
    from step_discarded [OF this, of x] step show ?thesis
      by (auto simp: discarded_def split: option.splits)
  qed
  then show ?thesis using run_phase_le by (simp add: run_phase_def [of k s'])
qed

lemma run_ops_phase:
  "sched_inv s outs \<Longrightarrow> run_ops scheduler_step s xs = (s', out) \<Longrightarrow> run_phase k s \<le> run_phase k s'"
proof (induction xs arbitrary: s outs out)
  case (Cons x xs)
  show ?case
  proof (cases "scheduler_step s x")
    case (Inl e)
    with Cons show ?thesis by auto
  next
    case (Inr q)
    obtain s1 o1 where q: "q = (s1, o1)" by (cases q)
    obtain o2 where rest: "run_ops scheduler_step s1 xs = (s', o2)"
      using Cons.prems(2) Inr q by (auto split: prod.splits)
    have step: "scheduler_step s x = Inr (s1, o1)" using Inr q by simp
    have "sched_inv s1 (outs @ o1)" by (rule sched.inv_step [OF Cons.prems(1) step])
    from Cons.IH [OF this rest] step_phase [OF Cons.prems(1) step] show ?thesis by (rule order_trans [rotated])
  qed
qed simp

section \<open>Sound actions\<close>

definition same_setup :: "run_execution \<Rightarrow> run_execution \<Rightarrow> bool" where
  "same_setup st st' \<longleftrightarrow> rx_identity st' = rx_identity st \<and> rx_public_output st' = rx_public_output st \<and>
     rx_response_consumer st' = rx_response_consumer st"

lemma same_setup_refl [simp]: "same_setup st st"
  by (simp add: same_setup_def)

lemma same_setup_trans: "same_setup st st1 \<Longrightarrow> same_setup st1 st2 \<Longrightarrow> same_setup st st2"
  by (simp add: same_setup_def)

lemma same_setup_identity: "same_setup st st' \<Longrightarrow> response_identity st' = response_identity st"
  by (simp add: same_setup_def response_identity_def)

text \<open>
  An action is sound when, from a scheduler in its invariant, it leaves one in its invariant, hands
  out exactly the text of the frames it took, moves no Run backwards, and raises only errors of a
  kind \<open>P\<close>.  With the flag \<open>seal\<close> it also seals the Run whenever it does not raise.
\<close>

definition sound_at :: "(exec_error option \<Rightarrow> bool) \<Rightarrow> bool \<Rightarrow> exec \<Rightarrow> run_execution \<Rightarrow> bool" where
  "sound_at P seal m st \<longleftrightarrow>
     (\<forall>s outs. rx_scheduler st = Some s \<longrightarrow> sched_inv s outs \<longrightarrow>
        (\<exists>st' out e s' new. m st = (st', out, e) \<and> rx_scheduler st' = Some s' \<and>
           sched_inv s' (outs @ new) \<and> concat out = concat (map ftext new) \<and> P e \<and> same_setup st st' \<and>
           (\<forall>k. run_phase k s \<le> run_phase k s') \<and>
           (seal \<longrightarrow> e = None \<longrightarrow> run_phase (response_identity st) s \<noteq> 0 \<longrightarrow>
              run_phase (response_identity st) s' = 2)))"

lemma sound_atI:
  assumes "\<And>s outs. rx_scheduler st = Some s \<Longrightarrow> sched_inv s outs \<Longrightarrow>
    \<exists>st' out e s' new. m st = (st', out, e) \<and> rx_scheduler st' = Some s' \<and>
       sched_inv s' (outs @ new) \<and> concat out = concat (map ftext new) \<and> P e \<and> same_setup st st' \<and>
       (\<forall>k. run_phase k s \<le> run_phase k s') \<and>
       (seal \<longrightarrow> e = None \<longrightarrow> run_phase (response_identity st) s \<noteq> 0 \<longrightarrow>
          run_phase (response_identity st) s' = 2)"
  shows "sound_at P seal m st"
  using assms unfolding sound_at_def by blast

lemma sound_atE:
  assumes "sound_at P seal m st" "rx_scheduler st = Some s" "sched_inv s outs"
  obtains st' out e s' new where "m st = (st', out, e)" "rx_scheduler st' = Some s'"
    "sched_inv s' (outs @ new)" "concat out = concat (map ftext new)" "P e" "same_setup st st'"
    "\<And>k. run_phase k s \<le> run_phase k s'"
    "seal \<Longrightarrow> e = None \<Longrightarrow> run_phase (response_identity st) s \<noteq> 0 \<Longrightarrow>
       run_phase (response_identity st) s' = 2"
  using assms unfolding sound_at_def by blast

text \<open>An action that leaves the scheduler alone and hands out nothing.\<close>

lemma sound_pure:
  assumes "m st = (st', [], e)" "rx_scheduler st' = rx_scheduler st" "same_setup st st'" "P e"
  shows "sound_at P False m st"
proof (rule sound_atI)
  fix s outs assume "rx_scheduler st = Some s" "sched_inv s outs"
  with assms show "\<exists>st' out e s' new. m st = (st', out, e) \<and> rx_scheduler st' = Some s' \<and>
       sched_inv s' (outs @ new) \<and> concat out = concat (map ftext new) \<and> P e \<and> same_setup st st' \<and>
       (\<forall>k. run_phase k s \<le> run_phase k s') \<and>
       (False \<longrightarrow> e = None \<longrightarrow> run_phase (response_identity st) s \<noteq> 0 \<longrightarrow>
          run_phase (response_identity st) s' = 2)"
    by (intro exI [of _ st'] exI [of _ "[]"] exI [of _ e] exI [of _ s]) simp
qed

lemma sound_skip: "P None \<Longrightarrow> sound_at P False skip st"
  by (rule sound_pure [of skip st st None]) (simp_all add: skip_def)

lemma sound_raise: "P (Some e) \<Longrightarrow> sound_at P seal (raise_error e) st"
proof (rule sound_atI)
  fix s outs assume "P (Some e)" "rx_scheduler st = Some s" "sched_inv s outs"
  then show "\<exists>st' out e' s' new. raise_error e st = (st', out, e') \<and> rx_scheduler st' = Some s' \<and>
       sched_inv s' (outs @ new) \<and> concat out = concat (map ftext new) \<and> P e' \<and> same_setup st st' \<and>
       (\<forall>k. run_phase k s \<le> run_phase k s') \<and>
       (seal \<longrightarrow> e' = None \<longrightarrow> run_phase (response_identity st) s \<noteq> 0 \<longrightarrow>
          run_phase (response_identity st) s' = 2)"
    by (intro exI [of _ st] exI [of _ "[]"] exI [of _ "Some e"] exI [of _ s]) (simp add: raise_error_def)
qed

lemma sound_and_then:
  assumes m: "sound_at P q1 m st" and n: "\<And>st'. same_setup st st' \<Longrightarrow> sound_at P q2 n st'"
  shows "sound_at P (q1 \<or> q2) (and_then m n) st"
proof (rule sound_atI)
  fix s outs assume s: "rx_scheduler st = Some s" "sched_inv s outs"
  obtain st1 o1 e1 s1 n1 where 1: "m st = (st1, o1, e1)" "rx_scheduler st1 = Some s1"
    "sched_inv s1 (outs @ n1)" "concat o1 = concat (map ftext n1)" "P e1" "same_setup st st1"
    "\<And>k. run_phase k s \<le> run_phase k s1"
    "q1 \<Longrightarrow> e1 = None \<Longrightarrow> run_phase (response_identity st) s \<noteq> 0 \<Longrightarrow> run_phase (response_identity st) s1 = 2"
    using sound_atE [OF m s] by metis
  show "\<exists>st' out e s' new. and_then m n st = (st', out, e) \<and> rx_scheduler st' = Some s' \<and>
       sched_inv s' (outs @ new) \<and> concat out = concat (map ftext new) \<and> P e \<and> same_setup st st' \<and>
       (\<forall>k. run_phase k s \<le> run_phase k s') \<and>
       (q1 \<or> q2 \<longrightarrow> e = None \<longrightarrow> run_phase (response_identity st) s \<noteq> 0 \<longrightarrow>
          run_phase (response_identity st) s' = 2)"
  proof (cases e1)
    case (Some e)
    with 1 show ?thesis
      by (intro exI [of _ st1] exI [of _ o1] exI [of _ e1] exI [of _ s1] exI [of _ n1])
         (simp add: and_then_def)
  next
    case None
    obtain st2 o2 e2 s2 n2 where 2: "n st1 = (st2, o2, e2)" "rx_scheduler st2 = Some s2"
      "sched_inv s2 ((outs @ n1) @ n2)" "concat o2 = concat (map ftext n2)" "P e2" "same_setup st1 st2"
      "\<And>k. run_phase k s1 \<le> run_phase k s2"
      "q2 \<Longrightarrow> e2 = None \<Longrightarrow> run_phase (response_identity st1) s1 \<noteq> 0 \<Longrightarrow> run_phase (response_identity st1) s2 = 2"
      using sound_atE [OF n [OF 1(6)] 1(2,3)] by metis
    let ?k = "response_identity st"
    have "run_phase ?k s2 = 2" if "q1 \<or> q2" "e2 = None" "run_phase ?k s \<noteq> 0"
    proof -
      have "run_phase ?k s1 \<noteq> 0" using 1(7) [of ?k] that(3) by simp
      with that 1(8) 2(8) None show ?thesis
        using same_setup_identity [OF 1(6)] 2(7) [of ?k] run_phase_le [of ?k s2] by auto
    qed
    moreover have "\<forall>k. run_phase k s \<le> run_phase k s2" using 1(7) 2(7) order_trans by blast
    ultimately show ?thesis using 1 2 None same_setup_trans [OF 1(6) 2(6)]
      by (intro exI [of _ st2] exI [of _ "o1 @ o2"] exI [of _ e2] exI [of _ s2] exI [of _ "n1 @ n2"])
         (simp add: and_then_def)
  qed
qed

lemma sound_then: "sound_at P False m st \<Longrightarrow> (\<And>st'. same_setup st st' \<Longrightarrow> sound_at P False n st') \<Longrightarrow>
    sound_at P False (and_then m n) st"
  using sound_and_then [of P False m st False n] by simp

lemma sound_each:
  assumes "\<And>x st'. x \<in> set xs \<Longrightarrow> same_setup st st' \<Longrightarrow> sound_at P False (f x) st'" "P None"
  shows "same_setup st st1 \<Longrightarrow> sound_at P False (each f xs) st1"
  using assms
proof (induction xs arbitrary: st1)
  case Nil
  then show ?case by (simp add: sound_skip)
next
  case (Cons x xs)
  show ?case
    unfolding each.simps
  proof (rule sound_then)
    show "sound_at P False (f x) st1" using Cons.prems by simp
    fix st' assume "same_setup st1 st'"
    with Cons.prems(1) have "same_setup st st'" by (rule same_setup_trans)
    then show "sound_at P False (each f xs) st'" using Cons by simp
  qed
qed

lemma sound_with_result:
  assumes "\<And>e. r = Inl e \<Longrightarrow> P (Some e)" "\<And>x. r = Inr x \<Longrightarrow> sound_at P seal (f x) st"
  shows "sound_at P seal (with_result r f) st"
proof (cases r)
  case (Inl e)
  have "sound_at P seal (raise_error e) st" by (rule sound_raise) (rule assms(1) [OF Inl])
  with Inl show ?thesis by (simp add: with_result_def)
next
  case (Inr x)
  with assms(2) show ?thesis by (simp add: with_result_def)
qed

section \<open>The actions on the scheduler\<close>

lemma sound_operation:
  assumes op: "\<And>s outs. rx_scheduler st = Some s \<Longrightarrow> sched_inv s outs \<Longrightarrow> op_guard s x = None"
    and f: "\<And>s s' out. scheduler_step s x = Inr (s', out) \<Longrightarrow> f s = Inr s' \<and> out = []"
    and P: "P None"
    and seal: "\<And>s s' outs. seal \<Longrightarrow> rx_scheduler st = Some s \<Longrightarrow> sched_inv s outs \<Longrightarrow> scheduler_step s x = Inr (s', []) \<Longrightarrow>
        run_phase (response_identity st) s \<noteq> 0 \<Longrightarrow> run_phase (response_identity st) s' = 2"
  shows "sound_at P seal (on_scheduler f) st"
proof (rule sound_atI)
  fix s outs assume s: "rx_scheduler st = Some s" "sched_inv s outs"
  from step_guarded [OF s(2), of x] op [OF s]
  obtain s' out where step: "scheduler_step s x = Inr (s', out)" "sched_inv s' (outs @ out)" by auto
  with f have "f s = Inr s'" "out = []" by blast+
  with step s P show "\<exists>st' out e s' new. on_scheduler f st = (st', out, e) \<and> rx_scheduler st' = Some s' \<and>
       sched_inv s' (outs @ new) \<and> concat out = concat (map ftext new) \<and> P e \<and> same_setup st st' \<and>
       (\<forall>k. run_phase k s \<le> run_phase k s') \<and>
       (seal \<longrightarrow> e = None \<longrightarrow> run_phase (response_identity st) s \<noteq> 0 \<longrightarrow>
          run_phase (response_identity st) s' = 2)"
    using step_phase [OF s(2), of x s' "[]"] seal [OF _ s, of s']
    by (intro exI [of _ "st\<lparr>rx_scheduler := Some s'\<rparr>"] exI [of _ "[]"] exI [of _ None] exI [of _ s'])
       (auto simp: on_scheduler_def skip_def same_setup_def)
qed

lemma sound_clear: "P None \<Longrightarrow> sound_at P False (on_scheduler (\<lambda>s. Inr (clear_wakeup s))) st"
  by (rule sound_operation [of _ Clear_wakeup]) auto

lemma sound_advance: "P None \<Longrightarrow> sound_at P False (on_scheduler (advance_published now)) st"
  by (rule sound_operation [of _ "Advance_published now"]) (auto simp: bind_res_eq_Inr)

lemma sound_finish_own: "P None \<Longrightarrow> sound_at P True (finish_own_run now abort) st"
proof -
  assume P: "P None"
  obtain t r where k: "response_identity st = (t, r)" by fastforce
  have "sound_at P True (on_scheduler (finish_run t r now abort)) st"
  proof (rule sound_operation [of _ "Finish_run t r now abort"])
    fix s s' outs
    assume s: "rx_scheduler st = Some s" "sched_inv s outs"
      and step: "scheduler_step s (Finish_run t r now abort) = Inr (s', [])"
      and ph: "run_phase (response_identity st) s \<noteq> 0"
    from step have f: "finish_run t r now abort s = Inr s'" by (auto simp: bind_res_eq_Inr)
    show "run_phase (response_identity st) s' = 2"
    proof (cases "finished s")
      case True
      with step_phase [OF s(2) step, of "(t, r)"] k run_phase_le [of "(t, r)" s'] show ?thesis
        by (simp add: run_phase_def [of "(t, r)" s])
    next
      case False
      with s(2) have "open_inv outs s" by (auto simp: sched_inv_def discarded_def)
      from finish_run_phase [OF this f, of "(t, r)"] ph k show ?thesis by simp
    qed
  qed (use P in \<open>auto simp: bind_res_eq_Inr\<close>)
  then show ?thesis by (simp add: sound_at_def finish_own_run_def k)
qed

lemma concat_frame_texts [simp]: "concat (frame_texts fs) = concat (map ftext fs)"
  by (simp add: frame_texts_def Let_def)

lemma sound_take: "P None \<Longrightarrow> sound_at P False take_response_output st"
proof (cases "rx_response_consumer st")
  case False
  then have "take_response_output st = (st, [], None)"
    by (simp add: take_response_output_def skip_def)
  then show "P None \<Longrightarrow> ?thesis" by (intro sound_pure) auto
next
  case True
  assume P: "P None"
  show ?thesis
  proof (rule sound_atI)
    fix s outs assume s: "rx_scheduler st = Some s" "sched_inv s outs"
    obtain out s' where t: "take_published s = (out, s')" by fastforce
    then have step: "scheduler_step s Take_published = Inr (s', out)" by simp
    have "sched_inv s' (outs @ out)" by (rule sched.inv_step [OF s(2) step])
    with step_phase [OF s(2) step] s t True P
    show "\<exists>st' out e s' new. take_response_output st = (st', out, e) \<and> rx_scheduler st' = Some s' \<and>
       sched_inv s' (outs @ new) \<and> concat out = concat (map ftext new) \<and> P e \<and> same_setup st st' \<and>
       (\<forall>k. run_phase k s \<le> run_phase k s') \<and>
       (False \<longrightarrow> e = None \<longrightarrow> run_phase (response_identity st) s \<noteq> 0 \<longrightarrow>
          run_phase (response_identity st) s' = 2)"
      by (intro exI [of _ "st\<lparr>rx_scheduler := Some s'\<rparr>"] exI [of _ "frame_texts out"] exI [of _ None]
          exI [of _ s'] exI [of _ out]) (simp add: take_response_output_def same_setup_def)
  qed
qed

lemma sound_finish_response:
  assumes "P None" "response_done st"
  shows "sound_at P False (finish_response now) st"
proof (rule sound_atI)
  fix s outs assume s: "rx_scheduler st = Some s" "sched_inv s outs"
  with assms(2) have "all_runs_terminal s" by (simp add: response_done_def response_complete_def)
  then have "op_guard s (Finish now) = None" by simp
  with step_guarded [OF s(2), of "Finish now"]
  obtain s' out where step: "scheduler_step s (Finish now) = Inr (s', out)" "sched_inv s' (outs @ out)" by auto
  with step_phase [OF s(2) step(1)] s assms(1)
  show "\<exists>st' out e s' new. finish_response now st = (st', out, e) \<and> rx_scheduler st' = Some s' \<and>
       sched_inv s' (outs @ new) \<and> concat out = concat (map ftext new) \<and> P e \<and> same_setup st st' \<and>
       (\<forall>k. run_phase k s \<le> run_phase k s') \<and>
       (False \<longrightarrow> e = None \<longrightarrow> run_phase (response_identity st) s \<noteq> 0 \<longrightarrow>
          run_phase (response_identity st) s' = 2)"
    by (intro exI [of _ "st\<lparr>rx_scheduler := Some s'\<rparr>"] exI [of _ "frame_texts out"] exI [of _ None]
        exI [of _ s'] exI [of _ out]) (simp add: finish_response_def same_setup_def)
qed

text \<open>Other Runs may do anything but take the frames of the response or end it.\<close>

fun takes_frames :: "scheduler_op \<Rightarrow> bool" where
  "takes_frames Take_published = True"
| "takes_frames (Finish now) = True"
| "takes_frames _ = False"

definition others_quiet :: "scheduler_op list \<Rightarrow> bool" where
  "others_quiet xs \<longleftrightarrow> list_all (\<lambda>x. \<not> takes_frames x) xs"

lemma quiet_step: "\<not> takes_frames x \<Longrightarrow> scheduler_step s x = Inr (s', out) \<Longrightarrow> out = []"
  by (cases x) (auto simp: bind_res_eq_Inr)

lemma quiet_run: "others_quiet xs \<Longrightarrow> run_ops scheduler_step s xs = (s', out) \<Longrightarrow> out = []"
proof (induction xs arbitrary: s out)
  case (Cons x xs)
  then show ?case
    by (auto simp: others_quiet_def split: sum.splits prod.splits dest: quiet_step)
qed simp

lemma sound_interfere:
  assumes "P None" "others_quiet xs"
  shows "sound_at P False (interfere xs) st"
proof (rule sound_atI)
  fix s outs assume s: "rx_scheduler st = Some s" "sched_inv s outs"
  obtain s' out where r: "run_ops scheduler_step s xs = (s', out)" by fastforce
  with quiet_run [OF assms(2)] have r: "run_ops scheduler_step s xs = (s', [])" by blast
  have "sched_inv s' (outs @ [])" by (rule sched.run_from [OF s(2) r])
  with run_ops_phase [OF s(2) r] s r assms(1)
  show "\<exists>st' out e s' new. interfere xs st = (st', out, e) \<and> rx_scheduler st' = Some s' \<and>
       sched_inv s' (outs @ new) \<and> concat out = concat (map ftext new) \<and> P e \<and> same_setup st st' \<and>
       (\<forall>k. run_phase k s \<le> run_phase k s') \<and>
       (False \<longrightarrow> e = None \<longrightarrow> run_phase (response_identity st) s \<noteq> 0 \<longrightarrow>
          run_phase (response_identity st) s' = 2)"
    by (intro exI [of _ "st\<lparr>rx_scheduler := Some s'\<rparr>"] exI [of _ "[]"] exI [of _ None]
        exI [of _ s'] exI [of _ "[]"]) (simp add: interfere_def skip_def same_setup_def)
qed

section \<open>The steps of a Run\<close>

lemma sound_eq: "m st = m' st \<Longrightarrow> sound_at P q m' st \<Longrightarrow> sound_at P q m st"
  by (simp add: sound_at_def)

lemma sound_after:
  assumes "rx_scheduler st1 = rx_scheduler st" "same_setup st st1" "m' st = m st1" "sound_at P q m st1"
  shows "sound_at P q m' st"
proof -
  have "response_identity st1 = response_identity st" by (rule same_setup_identity [OF assms(2)])
  then show ?thesis
    using assms same_setup_trans [OF assms(2)] unfolding sound_at_def by metis
qed

lemma sound_publish:
  assumes "P None" "rx_scheduler st = Some s" "run_accepting st s"
  shows "sound_at P False (publish_frame f now) st"
proof -
  let ?item = "\<lparr>in_lifecycle_id = sc_lifecycle_id s, in_thread_id = fst (response_identity st),
    in_run_id = snd (response_identity st), in_frame = f\<rparr>"
  have "sound_at P False (on_scheduler (publish ?item now)) st"
    by (rule sound_operation [of _ "Publish ?item now"])
       (use assms in \<open>auto simp: validate_input_def run_accepting_def bind_res_eq_Inr\<close>)
  moreover have "publish_frame f now st = on_scheduler (publish ?item now) st"
    using assms(2) by (simp add: publish_frame_def on_scheduler_def)
  ultimately show ?thesis by (rule sound_eq [rotated])
qed

lemma sound_project_input:
  assumes "P None"
  shows "sound_at P False (project_input f now) st"
proof (cases "rx_scheduler st")
  case None
  then show ?thesis by (simp add: sound_at_def)
next
  case (Some s)
  show ?thesis
  proof (cases "rx_public_output st \<and> run_accepting st s")
    case True
    with Some have "project_input f now st = and_then (publish_frame f now) take_response_output st"
      by (simp add: project_input_def)
    moreover have "sound_at P False (and_then (publish_frame f now) take_response_output) st"
      using True Some assms by (intro sound_then sound_publish sound_take) auto
    ultimately show ?thesis by (rule sound_eq)
  next
    case False
    with Some have "project_input f now st = skip st" by (auto simp: project_input_def)
    then show ?thesis by (rule sound_eq) (rule sound_skip [of P, OF assms])
  qed
qed

lemma sound_with_atomic:
  assumes "\<And>f st1. rx_scheduler st1 = rx_scheduler st \<Longrightarrow> same_setup st st1 \<Longrightarrow> sound_at P False (k f) st1"
  shows "sound_at P False (with_atomic t k) st"
proof -
  obtain f es where f: "stream_frame Ph_atomic t [] [] (rx_stream st) = (f, es)" by fastforce
  show ?thesis
    by (rule sound_after [of "st\<lparr>rx_stream := es\<rparr>"]) (auto simp: with_atomic_def f same_setup_def intro!: assms)
qed

definition own_error :: "exec_error option \<Rightarrow> bool" where
  "own_error e \<longleftrightarrow> (\<forall>x. e \<noteq> Some (Scheduler_raised x)) \<and> e \<noteq> Some Scheduler_missing"

lemma call_text_error: "call_text r = Inl e \<Longrightarrow> e = Event_output_failed"
  by (auto simp: call_text_def split: option.splits json.splits)

lemma render_errors:
  "render p ev o1 = Inl e \<Longrightarrow> own_error (Some e)"
  "render_segment_end p ev o1 = Inl e \<Longrightarrow> own_error (Some e)"
  "render_run p rv o2 = Inl e \<Longrightarrow> own_error (Some e)"
  by (auto simp: render_def render_segment_end_def render_run_def own_error_def
      split: option.splits dest: call_text_error)

lemma run_accepting_cong: "same_setup st st1 \<Longrightarrow> run_accepting st1 s = run_accepting st s"
  by (simp add: run_accepting_def same_setup_identity)

lemma sound_project_run_event: "sound_at own_error False (project_run_event ev now) st"
proof (cases "rx_scheduler st")
  case None
  then show ?thesis by (simp add: sound_at_def)
next
  case (Some s)
  have ok: "own_error None" by (simp add: own_error_def)
  show ?thesis
  proof (cases "rx_public_output st \<and> run_accepting st s")
    case True
    let ?r = "case rx_projector st of None \<Rightarrow> Inr [] | Some p \<Rightarrow> render_run p ev (map_option run_origin (rx_resolver st))"
    let ?k = "\<lambda>t. and_then (if t \<noteq> [] then with_atomic t (\<lambda>f. publish_frame f now) else skip) take_response_output"
    have "sound_at own_error False (with_result ?r ?k) st"
    proof (rule sound_with_result)
      show "own_error (Some e)" if "?r = Inl e" for e
        using that render_errors(3) by (auto split: option.splits)
      show "sound_at own_error False (?k t) st" for t
      proof (rule sound_then)
        have "sound_at own_error False (publish_frame f now) st1"
          if "rx_scheduler st1 = rx_scheduler st" "same_setup st st1" for f st1
          by (rule sound_publish [of own_error, OF ok]) (use that Some True run_accepting_cong in auto)
        then show "sound_at own_error False (if t \<noteq> [] then with_atomic t (\<lambda>f. publish_frame f now) else skip) st"
          using sound_with_atomic [of st own_error "\<lambda>f. publish_frame f now" t] sound_skip [of own_error, OF ok] by simp
      qed (rule sound_take [of own_error, OF ok])
    qed
    moreover have "project_run_event ev now st = with_result ?r ?k st"
      using True Some by (simp add: project_run_event_def)
    ultimately show ?thesis by (rule sound_eq [rotated])
  next
    case False
    with Some have "project_run_event ev now st = skip st" by (auto simp: project_run_event_def)
    then show ?thesis by (rule sound_eq) (rule sound_skip [of own_error, OF ok])
  qed
qed

lemma sound_project_deadline: "P None \<Longrightarrow> sound_at P False (project_deadline now) st"
proof -
  assume P: "P None"
  have "sound_at P False (and_then (on_scheduler (advance_published now)) take_response_output) st"
    by (intro sound_then sound_advance sound_take P)
  then show ?thesis
    using sound_skip [of P st, OF P]
    by (cases "rx_public_output st \<and> rx_response_consumer st")
       (auto simp: project_deadline_def intro: sound_eq)
qed

lemma sound_close: "P None \<Longrightarrow> sound_at P False close_projection st"
  by (rule sound_after [of _ st close_projection skip])
     (auto simp: close_projection_def same_setup_def intro: sound_skip [of P])

lemma sound_adopt: "P None \<Longrightarrow> sound_at P False (adopt_terminal_status status) st"
  by (rule sound_after [of "if status \<noteq> [] \<and> status \<noteq> ''completed'' then st\<lparr>rx_terminal_status := status\<rparr> else st"
        st "adopt_terminal_status status" skip])
     (auto simp: adopt_terminal_status_def same_setup_def intro: sound_skip [of P])

lemma sound_loop_top: "P None \<Longrightarrow> sound_at P False loop_top st"
proof -
  assume P: "P None"
  have "sound_at P False (and_then (on_scheduler (\<lambda>s. Inr (clear_wakeup s))) take_response_output) st"
    by (intro sound_then sound_clear sound_take P)
  then show ?thesis
    using sound_skip [of P st, OF P]
    by (cases "\<not> rx_public_output st \<or> \<not> rx_response_consumer st \<or> rx_scheduler st = None")
       (auto simp: loop_top_def intro: sound_eq)
qed

section \<open>Events, failures and the end of a Run\<close>

abbreviation sound_action :: "exec \<Rightarrow> run_execution \<Rightarrow> bool" where
  "sound_action \<equiv> sound_at own_error False"

abbreviation sound_seal :: "exec \<Rightarrow> run_execution \<Rightarrow> bool" where
  "sound_seal \<equiv> sound_at own_error True"

lemma own_error_simps [simp]: "own_error None" "own_error (Some Cancelled)" "own_error (Some Media_failed)"
  "own_error (Some Event_output_failed)" "own_error (Some (Stream_raised e))" "own_error (Some (Graph_failed c))"
  "own_error (Some Resolver_unavailable)"
  by (simp_all add: own_error_def)

lemma sound_project_media: "sound_action (project_media note now m) st"
proof (cases "response_accepting st")
  case False
  then show ?thesis by (intro sound_eq [OF _ sound_skip]) (simp_all add: project_media_def)
next
  case True
  let ?r = "case note m of Inl _ \<Rightarrow> Inl Media_failed | Inr n \<Rightarrow> Inr n"
  let ?k = "\<lambda>n. case n of None \<Rightarrow> skip | Some t \<Rightarrow> with_atomic t (\<lambda>f. project_input f now)"
  have "sound_action (with_result ?r ?k) st"
  proof (rule sound_with_result)
    show "own_error (Some e)" if "?r = Inl e" for e using that by (auto split: sum.splits)
    show "sound_action (?k n) st" for n
    proof (cases n)
      case None
      then show ?thesis by (simp add: sound_skip)
    next
      case (Some t)
      have "sound_action (with_atomic t (\<lambda>f. project_input f now)) st"
        by (rule sound_with_atomic) (simp add: sound_project_input)
      with Some show ?thesis by simp
    qed
  qed
  then show ?thesis by (rule sound_eq [rotated]) (simp add: project_media_def True)
qed

lemma stream_result_error: "stream_result r = Inl e \<Longrightarrow> own_error (Some e)"
  by (auto simp: stream_result_def split: sum.splits)

lemma sound_consume_event: "sound_action (consume_event repr note ev origin t u now) st"
proof -
  let ?r = "stream_result (consume repr ev origin t u (rx_stream st))"
  let ?f = "\<lambda>(es, projection) st1. and_then
          (each (\<lambda>f. project_input f now) (sp_frames projection))
          (each (project_media note now) (sp_media projection))
          (st1\<lparr>rx_stream := es\<rparr>)"
  have "sound_action (with_result ?r ?f) st"
  proof (rule sound_with_result)
    show "own_error (Some e)" if "?r = Inl e" for e using that by (rule stream_result_error)
    fix q :: "run_event_stream \<times> stream_projection"
    obtain es p where q: "q = (es, p)" by (cases q)
    have "sound_action (and_then (each (\<lambda>f. project_input f now) (sp_frames p))
          (each (project_media note now) (sp_media p))) (st\<lparr>rx_stream := es\<rparr>)"
      by (intro sound_then sound_each [where st = "st\<lparr>rx_stream := es\<rparr>"] sound_project_input sound_project_media) auto
    then show "sound_action (?f q) st"
      by (intro sound_after [of "st\<lparr>rx_stream := es\<rparr>" st]) (auto simp: q same_setup_def)
  qed
  then show ?thesis by (rule sound_eq [rotated]) (simp add: consume_event_def)
qed

lemma render_event_error: "render_event ev origin st = Inl e \<Longrightarrow> own_error (Some e)"
  by (auto simp: render_event_def split: option.splits if_splits dest: render_errors)

lemma render_event_end_error: "render_event_end repr ev origin st = Inl e \<Longrightarrow> own_error (Some e)"
  by (auto simp: render_event_end_def bind_res_eq_Inl split: option.splits if_splits
      dest: render_errors stream_result_error)

lemma sound_handle_event: "sound_action (handle_event repr note ev now) st"
proof (cases "rx_resolver st")
  case None
  then show ?thesis
    by (intro sound_eq [OF _ sound_raise [of own_error Resolver_unavailable]]) (simp_all add: handle_event_def)
next
  case (Some rs)
  obtain origin rs' where o: "resolve_event repr ev rs = (origin, rs')" by fastforce
  let ?st = "st\<lparr>rx_resolver := Some rs'\<rparr>"
  have "sound_action (with_result (render_event ev origin ?st) (\<lambda>raw_text.
      with_result (render_event_end repr ev origin ?st) (\<lambda>end_text.
      consume_event repr note ev origin raw_text end_text now))) ?st"
    by (intro sound_with_result sound_consume_event) (auto dest: render_event_error render_event_end_error)
  then show ?thesis
    by (intro sound_after [of ?st st]) (auto simp: handle_event_def Some o Let_def same_setup_def)
qed

lemma sound_loop_body:
  assumes "others_quiet (it_others it)"
  shows "sound_action (loop_body repr note it) st"
  unfolding loop_body_def
  by (intro sound_then sound_loop_top sound_interfere assms)
     (auto intro: sound_handle_event sound_skip sound_project_deadline split: option.split)

lemma sound_weaken: "sound_at P q m st \<Longrightarrow> (\<And>e. P e \<Longrightarrow> Q e) \<Longrightarrow> q' \<longrightarrow> q \<Longrightarrow> sound_at Q q' m st"
  unfolding sound_at_def by metis

abbreviation calm :: "exec_error option \<Rightarrow> bool" where
  "calm \<equiv> (\<lambda>e. e = None)"

lemma sound_ignore: "sound_action m st \<Longrightarrow> (\<And>st' out e. m st = (st', out, Some e) \<Longrightarrow> out = []) \<Longrightarrow>
    sound_at calm False (ignore_errors m) st"
proof (rule sound_atI)
  fix s outs assume m: "sound_action m st" and quiet: "\<And>st' out e. m st = (st', out, Some e) \<Longrightarrow> out = []"
    and s: "rx_scheduler st = Some s" "sched_inv s outs"
  obtain st' out e s' new where 1: "m st = (st', out, e)" "rx_scheduler st' = Some s'"
    "sched_inv s' (outs @ new)" "concat out = concat (map ftext new)" "same_setup st st'"
    "\<And>k. run_phase k s \<le> run_phase k s'"
    using sound_atE [OF m s] by metis
  have "(if e = None then out else []) = out" using quiet 1(1) by (cases e) auto
  with 1 show "\<exists>st' out e s' new. ignore_errors m st = (st', out, e) \<and> rx_scheduler st' = Some s' \<and>
       sched_inv s' (outs @ new) \<and> concat out = concat (map ftext new) \<and> e = None \<and> same_setup st st' \<and>
       (\<forall>k. run_phase k s \<le> run_phase k s') \<and>
       (False \<longrightarrow> e = None \<longrightarrow> run_phase (response_identity st) s \<noteq> 0 \<longrightarrow>
          run_phase (response_identity st) s' = 2)"
    by (intro exI [of _ st'] exI [of _ out] exI [of _ None] exI [of _ s'] exI [of _ new])
       (simp add: ignore_errors_def)
qed

lemma take_no_error: "take_response_output st = (st', out, e) \<Longrightarrow> e = None"
  by (auto simp: take_response_output_def skip_def split: if_splits option.splits prod.splits)

lemma on_scheduler_quiet: "on_scheduler f st = (st', out, e) \<Longrightarrow> out = []"
  by (auto simp: on_scheduler_def skip_def raise_error_def split: option.splits sum.splits)

lemma project_run_event_quiet:
  assumes "project_run_event ev now st = (st', out, Some e)"
  shows "out = []"
proof -
  have pub: "out1 = []" if "publish_frame f now st1 = (st2, out1, e1)" for f st1 st2 out1 e1
    using that by (auto simp: publish_frame_def dest: on_scheduler_quiet)
  have at: "out1 = []" if "with_atomic t (\<lambda>f. publish_frame f now) st1 = (st2, out1, e1)" for t st1 st2 out1 e1
    using that pub by (auto simp: with_atomic_def split: prod.splits)
  show ?thesis
    using assms
    by (auto simp: project_run_event_def skip_def raise_error_def with_result_def and_then_def
        split: if_splits option.splits sum.splits prod.splits dest: at take_no_error)
qed

lemma sound_failure_output:
  assumes "rx_public_output st"
  shows "sound_at calm True (failure_output code now) st"
  unfolding failure_output_def
proof (rule sound_and_then [of calm False _ _ True, simplified])
  show "sound_at calm False close_projection st" by (simp add: sound_close)
  fix st' assume "same_setup st st'"
  with assms have pub: "rx_public_output st'" by (simp add: same_setup_def)
  let ?ev = "\<lparr>rv_phase = ''error'', rv_status = ''failed'', rv_finish_reason = ''error'', rv_error_code = code\<rparr>"
  let ?m = "and_then (ignore_errors (project_run_event ?ev now))
    (and_then (finish_own_run now True) take_response_output)"
  have "sound_at calm True ?m st'"
  proof (rule sound_and_then [of calm False _ _ True, simplified])
    show "sound_at calm False (ignore_errors (project_run_event ?ev now)) st'"
      by (rule sound_ignore [OF sound_project_run_event]) (rule project_run_event_quiet)
    show "sound_at calm True (and_then (finish_own_run now True) take_response_output) st''" for st''
      by (rule sound_and_then [of calm True _ _ False, simplified]) (simp_all add: sound_finish_own sound_take)
  qed
  then show "sound_at calm True (\<lambda>st. if \<not> rx_public_output st \<or> rx_scheduler st = None then skip st else ?m st) st'"
    using pub by (cases "rx_scheduler st'") (simp add: sound_at_def, auto intro: sound_eq [rotated])
qed

lemma sound_cancelled_output:
  assumes "rx_public_output st"
  shows "sound_at calm True (cancelled_output status now) st"
  unfolding cancelled_output_def
proof (rule sound_and_then [of calm False _ _ True, simplified])
  show "sound_at calm False (adopt_terminal_status status) st" by (simp add: sound_adopt)
  fix st1 assume 1: "same_setup st st1"
  let ?last = "\<lambda>st. if rx_scheduler st \<noteq> None \<and> rx_public_output st then finish_own_run now True st else skip st"
  show "sound_at calm True (and_then close_projection ?last) st1"
  proof (rule sound_and_then [of calm False _ _ True, simplified])
    show "sound_at calm False close_projection st1" by (simp add: sound_close)
    fix st2 assume "same_setup st1 st2"
    with 1 assms have "rx_public_output st2" by (simp add: same_setup_def)
    moreover have "sound_at calm True (finish_own_run now True) st2" by (simp add: sound_finish_own)
    ultimately show "sound_at calm True ?last st2"
      by (cases "rx_scheduler st2") (simp add: sound_at_def, auto intro: sound_eq [rotated])
  qed
qed

lemma sound_await:
  "list_all (\<lambda>w. others_quiet (fst w)) waits \<Longrightarrow> sound_action (await_complete waits now) st"
proof (induction waits arbitrary: now st)
  case Nil
  have last: "sound_action (\<lambda>st. if response_done st then finish_response now st else raise_error Cancelled st) st'" for st'
    using sound_finish_response [of own_error st' now] sound_raise [of own_error Cancelled False st']
    by (cases "response_done st'") (auto intro: sound_eq [rotated])
  show ?case
    unfolding await_complete.simps
    by (intro sound_then sound_take sound_clear last) simp_all
next
  case (Cons w waits)
  obtain others t where w: "w = (others, t)" by (cases w)
  have rest: "sound_action (and_then (interfere others) (and_then (on_scheduler (advance_published t))
      (await_complete waits t))) st'" for st'
    using Cons w by (intro sound_then sound_interfere sound_advance) auto
  have last: "sound_action (\<lambda>st. if response_done st then finish_response now st
             else and_then (interfere others) (and_then (on_scheduler (advance_published t))
                    (await_complete waits t)) st) st'" for st'
    using sound_finish_response [of own_error st' now] rest [of st']
    by (cases "response_done st'") (auto intro: sound_eq [rotated])
  show ?case
    unfolding w await_complete.simps
    by (intro sound_then sound_take sound_clear last) simp_all
qed

lemma sound_end_run:
  assumes "rx_public_output st" "list_all (\<lambda>w. others_quiet (fst w)) waits"
  shows "sound_seal (end_run now waits) st"
  unfolding end_run_def
proof (rule sound_and_then [of own_error False _ _ True, simplified])
  show "sound_action (\<lambda>st. project_run_event
        \<lparr>rv_phase = ''end'', rv_status = end_status st, rv_finish_reason = finish_reason st,
         rv_error_code = []\<rparr> now st) st"
    by (rule sound_eq [OF refl sound_project_run_event])
  fix st1 assume "same_setup st st1"
  with assms have pub: "rx_public_output st1" by (simp add: same_setup_def)
  let ?tail = "\<lambda>st1. if rx_response_consumer st1 then await_complete waits now st1 else skip st1"
  have "sound_action ?tail st2" for st2
    using sound_await [OF assms(2), of now st2] sound_skip [of own_error st2]
    by (cases "rx_response_consumer st2") (auto intro: sound_eq [rotated])
  then have "sound_seal (and_then (finish_own_run now False) ?tail) st1"
    by (intro sound_and_then [of own_error True _ _ False, simplified]) (simp_all add: sound_finish_own)
  then show "sound_seal (\<lambda>st. if \<not> rx_public_output st \<or> rx_scheduler st = None then skip st
            else and_then (finish_own_run now False) ?tail st) st1"
    using pub by (cases "rx_scheduler st1") (simp add: sound_at_def, auto intro: sound_eq [rotated])
qed

definition terminated_early :: "graph_end \<Rightarrow> bool" where
  "terminated_early ge = (case ge of Graph_ended status t \<Rightarrow> t | _ \<Rightarrow> False)"

lemma sound_graph_ended:
  assumes "rx_public_output st" "list_all (\<lambda>w. others_quiet (fst w)) waits"
  shows "sound_at own_error (\<not> terminated_early ge) (graph_ended ge now waits) st"
proof (cases ge)
  case (Graph_error code)
  then show ?thesis by (simp add: graph_ended_def sound_raise)
next
  case (Graph_cancelled status)
  then show ?thesis by (simp add: graph_ended_def sound_raise)
next
  case (Graph_ended status t)
  have last: "sound_at own_error (\<not> t) (if t then skip else end_run now waits) st'" if "same_setup st st'" for st'
    using that assms sound_end_run [of st' waits now] sound_skip [of own_error st']
    by (simp add: same_setup_def)
  have "sound_at own_error (\<not> t) (and_then (adopt_terminal_status status) (if t then skip else end_run now waits)) st'"
    if "same_setup st st'" for st'
    using sound_and_then [of own_error False _ st' "\<not> t", OF sound_adopt] last same_setup_trans [OF that] by simp
  then have "sound_at own_error (\<not> t) (and_then take_response_output
      (and_then (adopt_terminal_status status) (if t then skip else end_run now waits))) st'"
    if "same_setup st st'" for st'
    using sound_and_then [of own_error False _ st' "\<not> t", OF sound_take] same_setup_trans [OF that] by simp
  then show ?thesis
    using sound_and_then [of own_error False _ st "\<not> t", OF sound_close]
    by (simp add: Graph_ended graph_ended_def terminated_early_def)
qed

definition run_body ::
  "(json \<Rightarrow> string) \<Rightarrow> (media_block \<Rightarrow> unit + string option) \<Rightarrow> real \<Rightarrow> loop_iteration list \<Rightarrow>
   graph_end \<Rightarrow> real \<Rightarrow> (scheduler_op list \<times> real) list \<Rightarrow> exec" where
  "run_body repr note start its ge now waits =
     and_then (project_run_event
            \<lparr>rv_phase = ''start'', rv_status = ''running'', rv_finish_reason = [], rv_error_code = []\<rparr> start)
          (and_then (each (loop_body repr note) its) (graph_ended ge now waits))"

lemma sound_run_body:
  assumes "rx_public_output st" "list_all (\<lambda>it. others_quiet (it_others it)) its"
    "list_all (\<lambda>w. others_quiet (fst w)) waits"
  shows "sound_at own_error (\<not> terminated_early ge) (run_body repr note start its ge now waits) st"
  unfolding run_body_def
proof (rule sound_and_then [of own_error False _ _ "\<not> terminated_early ge", simplified])
  show "sound_action (project_run_event
      \<lparr>rv_phase = ''start'', rv_status = ''running'', rv_finish_reason = [], rv_error_code = []\<rparr> start) st"
    by (rule sound_project_run_event)
  fix st1 assume 1: "same_setup st st1"
  show "sound_at own_error (\<not> terminated_early ge) (and_then (each (loop_body repr note) its) (graph_ended ge now waits)) st1"
  proof (rule sound_and_then [of own_error False _ _ "\<not> terminated_early ge", simplified])
    show "sound_action (each (loop_body repr note) its) st1"
      using assms(2) by (intro sound_each [where st = st1] sound_loop_body) (auto simp: list_all_iff)
    fix st2 assume "same_setup st1 st2"
    with 1 assms show "sound_at own_error (\<not> terminated_early ge) (graph_ended ge now waits) st2"
      by (intro sound_graph_ended) (simp_all add: same_setup_def)
  qed
qed

lemma sound_reported:
  assumes "rx_public_output st"
  shows "sound_at calm True (if e = Cancelled then cancelled_output status now else failure_output (error_code e) now) st"
  using sound_failure_output [OF assms] sound_cancelled_output [OF assms] by simp

text \<open>The end of every execution, with what other Runs may do in between.\<close>

lemma stream_text_end:
  assumes pub: "rx_public_output st" and s: "rx_scheduler st = Some s" "sched_inv s outs"
    and quiet: "list_all (\<lambda>it. others_quiet (it_others it)) its" "list_all (\<lambda>w. others_quiet (fst w)) waits"
  obtains st' out e s' new where "stream_text repr note start its ge now waits st = (st', out, e)"
    "rx_scheduler st' = Some s'" "sched_inv s' (outs @ new)" "concat out = concat (map ftext new)"
    "own_error e"
    "\<not> terminated_early ge \<or> e \<noteq> None \<Longrightarrow> run_phase (response_identity st) s \<noteq> 0 \<Longrightarrow>
       run_phase (response_identity st) s' = 2"
proof -
  let ?k = "response_identity st"
  obtain st1 o1 e1 s1 n1 where 1: "run_body repr note start its ge now waits st = (st1, o1, e1)"
    "rx_scheduler st1 = Some s1" "sched_inv s1 (outs @ n1)" "concat o1 = concat (map ftext n1)" "own_error e1"
    "same_setup st st1" "\<And>k. run_phase k s \<le> run_phase k s1"
    "\<not> terminated_early ge \<Longrightarrow> e1 = None \<Longrightarrow> run_phase ?k s \<noteq> 0 \<Longrightarrow> run_phase ?k s1 = 2"
    using sound_atE [OF sound_run_body [OF pub quiet, of ge repr "note" start now] s] by metis
  have eq: "stream_text repr note start its ge now waits st =
      (case run_body repr note start its ge now waits st of
        (st1, out, None) \<Rightarrow> (st1, out, None)
      | (st1, out, Some e) \<Rightarrow>
          (case reported_error e (graph_status ge) now st1 of (st2, out2, r) \<Rightarrow> (st2, out @ out2, r)))"
    by (simp add: stream_text_def run_body_def)
  show ?thesis
  proof (cases e1)
    case None
    with 1 eq show ?thesis by (intro that [of st1 o1 None s1 n1]) auto
  next
    case (Some e)
    let ?m = "if e = Cancelled then cancelled_output (graph_status ge) now else failure_output (error_code e) now"
    have pub1: "rx_public_output st1" using 1(6) pub by (simp add: same_setup_def)
    obtain st2 o2 s2 n2 where 2: "?m st1 = (st2, o2, None)" "rx_scheduler st2 = Some s2"
      "sched_inv s2 ((outs @ n1) @ n2)" "concat o2 = concat (map ftext n2)"
      "run_phase (response_identity st1) s1 \<noteq> 0 \<Longrightarrow> run_phase (response_identity st1) s2 = 2"
      using sound_atE [OF sound_reported [OF pub1, of e "graph_status ge" now] 1(2,3)] by metis
    have "reported_error e (graph_status ge) now st1 = (st2, o2, Some (surfaced e))"
      using 2(1) by (simp add: reported_error_def and_then_def raise_error_def)
    with Some 1(1) eq have "stream_text repr note start its ge now waits st = (st2, o1 @ o2, Some (surfaced e))"
      by simp
    moreover have "own_error (Some (surfaced e))" by (cases e) simp_all
    moreover have "run_phase ?k s2 = 2" if "run_phase ?k s \<noteq> 0"
      using that 2(5) 1(7) [of ?k] same_setup_identity [OF 1(6)] by simp
    ultimately show ?thesis
      using 1(4) 2 by (intro that [of st2 "o1 @ o2" "Some (surfaced e)" s2 "n1 @ n2"]) auto
  qed
qed

section \<open>A concrete Run\<close>

definition demo_identity :: run_identity where
  "demo_identity = \<lparr>ri_request_id = ''q'', ri_lifecycle_id = ''L'', ri_run_id = ''r'', ri_subject_id = ''A'',
     ri_subject_name = ''Agent'', ri_thread_id = ''t'', ri_assistant_id = [], ri_caller_run_id = [],
     ri_operation_id = []\<rparr>"

definition demo_projector :: output_projector where
  "demo_projector = \<lparr>op_output = Some (\<lambda>ev origin. Some (JStr ''hi'')), op_segment_end = None,
     op_run_output = Some (\<lambda>ev origin. if rv_phase ev = ''error'' then None else Some (JStr (rv_phase ev)))\<rparr>"

definition demo_register :: "scheduler_op list" where
  "demo_register = [Register_run ''t'' ''r'' 0]"

definition demo_execution :: run_execution where
  "demo_execution = new_execution (Some (demo_state demo_register))
     (Some (new_resolver (Some (Agent_run demo_identity)) [''Agent''] [] [])) (Some demo_projector)
     (Some (Agent_run demo_identity)) True True"

definition demo_iterations :: "loop_iteration list" where
  "demo_iterations =
     [\<lparr>it_others = [Register_run ''t'' ''s'' 1], it_event = Some \<lparr>ev_method = JStr ''updates'', ev_params = None\<rparr>,
       it_due = True, it_now = 1\<rparr>]"

definition demo_run_end :: "graph_end \<Rightarrow> run_execution \<times> string list \<times> exec_error option" where
  "demo_run_end ge = stream_text (\<lambda>j. ''?'') (\<lambda>m. Inr None) 0 demo_iterations ge 2 [] demo_execution"

definition demo_end :: graph_end where
  "demo_end = Graph_error ''x''"

lemma demo_setup:
  "run_ops scheduler_step (new_scheduler demo_policy ''L'') demo_register = (demo_state demo_register, demo_out demo_register)"
  "rx_scheduler demo_execution = Some (demo_state demo_register)" "rx_public_output demo_execution"
  "list_all (\<lambda>it. others_quiet (it_others it)) demo_iterations"
  "list_all (\<lambda>w. others_quiet (fst w)) []"
  by (rule demo_run) (simp_all add: demo_execution_def new_execution_def demo_iterations_def others_quiet_def)

section \<open>The properties\<close>





end
