(* ===== verification/Workflow_Document.thy ===== *)
theory Workflow_Document
  imports Validation "HOL-Library.Multiset"
begin

text \<open>
  \<open>workflow/contracts.py\<close> and \<open>workflow/catalog.py\<close>: the control document of a Workflow, the
  catalog of node types, and the canonical order in which a document is hashed.
\<close>

section \<open>Documents\<close>

record workflow_node =
  wn_id :: string
  wn_type :: string
  wn_type_version :: int
  wn_config :: "(string, json) dict"

record workflow_edge =
  we_id :: string
  we_source :: string
  we_source_handle :: string
  we_target :: string
  we_target_handle :: string

record workflow_definition =
  wd_nodes :: "workflow_node list"
  wd_edges :: "workflow_edge list"

record node_position =
  np_x :: real
  np_y :: real

record workflow_document =
  doc_definition :: workflow_definition
  doc_layout_nodes :: "(string, node_position) dict"

text \<open>Two documents with the same nodes and edges in another order have one canonical form.\<close>

fun insert_by :: "('a \<Rightarrow> string) \<Rightarrow> 'a \<Rightarrow> 'a list \<Rightarrow> 'a list" where
  "insert_by key x [] = [x]"
| "insert_by key x (y # ys) =
     (if str_less_eq (key x) (key y) then x # y # ys else y # insert_by key x ys)"

definition sort_by :: "('a \<Rightarrow> string) \<Rightarrow> 'a list \<Rightarrow> 'a list" where
  "sort_by key xs = foldr (insert_by key) xs []"

definition canonical_definition :: "workflow_definition \<Rightarrow> workflow_definition" where
  "canonical_definition d =
     d\<lparr>wd_nodes := sort_by wn_id (wd_nodes d), wd_edges := sort_by we_id (wd_edges d)\<rparr>"

section \<open>The catalog of node types\<close>

datatype config_model = EmptyNodeConfig | CommandNodeConfig

datatype runtime_kind = Graph_entry | Graph_exit | Command_node

record node_handle_spec =
  nh_id :: string
  nh_edge_type :: string
  nh_accepted :: "string list"
  nh_max_connections :: "nat option"

definition handle_spec :: "string \<Rightarrow> node_handle_spec" where
  "handle_spec i = \<lparr>nh_id = i, nh_edge_type = ''normal'', nh_accepted = [],
     nh_max_connections = None\<rparr>"

record node_kind_spec =
  nt_type :: string
  nt_type_version :: int
  nt_runtime_kind :: runtime_kind
  nt_title_key :: string
  nt_description_key :: string
  nt_config_model :: config_model
  nt_input_handles :: "node_handle_spec list"
  nt_output_handles :: "node_handle_spec list"

definition node_catalog :: "node_kind_spec list" where
  "node_catalog =
    [\<lparr>nt_type = ''start'', nt_type_version = 1, nt_runtime_kind = Graph_entry,
      nt_title_key = ''workflow.nodes.start.title'',
      nt_description_key = ''workflow.nodes.start.description'',
      nt_config_model = EmptyNodeConfig,
      nt_input_handles = [], nt_output_handles = [handle_spec ''next'']\<rparr>,
     \<lparr>nt_type = ''command'', nt_type_version = 1, nt_runtime_kind = Command_node,
      nt_title_key = ''workflow.nodes.command.title'',
      nt_description_key = ''workflow.nodes.command.description'',
      nt_config_model = CommandNodeConfig,
      nt_input_handles = [handle_spec ''in''], nt_output_handles = [handle_spec ''next'']\<rparr>,
     \<lparr>nt_type = ''end'', nt_type_version = 1, nt_runtime_kind = Graph_exit,
      nt_title_key = ''workflow.nodes.end.title'',
      nt_description_key = ''workflow.nodes.end.description'',
      nt_config_model = EmptyNodeConfig,
      nt_input_handles = [handle_spec ''in''], nt_output_handles = []\<rparr>]"

definition node_type_spec :: "string \<Rightarrow> int \<Rightarrow> node_kind_spec option" where
  "node_type_spec t v = map_of (map (\<lambda>s. ((nt_type s, nt_type_version s), s)) node_catalog) (t, v)"

definition supported_node_versions :: "string \<Rightarrow> int list option" where
  "supported_node_versions t =
     map_of (map (\<lambda>s. (nt_type s,
       map nt_type_version (filter (\<lambda>c. nt_type c = nt_type s) node_catalog))) node_catalog) t"

definition spec_of :: "workflow_node \<Rightarrow> node_kind_spec option" where
  "spec_of n = node_type_spec (wn_type n) (wn_type_version n)"

text \<open>What the catalog says, by the type of the node.\<close>

lemma node_type_spec_cases:
  "node_type_spec t v = Some s \<longleftrightarrow>
     v = 1 \<and> (t = ''start'' \<and> s = node_catalog ! 0 \<or> t = ''command'' \<and> s = node_catalog ! 1 \<or>
              t = ''end'' \<and> s = node_catalog ! 2)"
  by (auto simp: node_type_spec_def node_catalog_def)

lemma spec_of_known:
  "spec_of n \<noteq> None \<longleftrightarrow> wn_type_version n = 1 \<and> wn_type n \<in> {''start'', ''command'', ''end''}"
  by (auto simp: spec_of_def node_type_spec_cases)

section \<open>Canonical order\<close>

lemma insert_by_mset: "mset (insert_by key x ys) = add_mset x (mset ys)"
  by (induction ys) auto

lemma sort_by_mset [simp]: "mset (sort_by key xs) = mset xs"
  by (induction xs) (auto simp: sort_by_def insert_by_mset)

lemma str_less_eq_refl [simp]: "str_less_eq s s"
  by (induction s) auto

lemma str_less_eq_total: "str_less_eq s t \<or> str_less_eq t s"
  by (induction s t rule: str_less_eq.induct) (auto simp: not_less_iff_gr_or_eq)

lemma str_less_eq_Nil [simp]: "str_less_eq s [] \<longleftrightarrow> s = []"
  by (cases s) auto

lemma str_less_eq_antisym: "str_less_eq s t \<Longrightarrow> str_less_eq t s \<Longrightarrow> s = t"
  by (induction s t rule: str_less_eq.induct) auto

lemma str_less_eq_trans: "str_less_eq s t \<Longrightarrow> str_less_eq t u \<Longrightarrow> str_less_eq s u"
proof (induction s t arbitrary: u rule: str_less_eq.induct)
  case (3 a as b bs)
  then show ?case by (cases u) auto
qed auto

lemma insert_by_sorted:
  "sorted_wrt (\<lambda>x y. str_less_eq (key x) (key y)) ys \<Longrightarrow>
     sorted_wrt (\<lambda>x y. str_less_eq (key x) (key y)) (insert_by key x ys)"
proof (induction ys)
  case (Cons y ys)
  have "set (insert_by key x ys) = insert x (set ys)"
    using insert_by_mset [of key x ys] by (metis set_mset_add_mset_insert set_mset_mset)
  with Cons str_less_eq_total [of "key x" "key y"] show ?case
    by (auto intro: str_less_eq_trans)
qed simp

lemma sort_by_sorted: "sorted_wrt (\<lambda>x y. str_less_eq (key x) (key y)) (sort_by key xs)"
  by (induction xs) (auto simp: sort_by_def intro: insert_by_sorted)

text \<open>With distinct keys the sorted list depends on the elements only.\<close>

lemma sorted_unique:
  assumes "sorted_wrt (\<lambda>x y. str_less_eq (key x) (key y)) xs"
    and "sorted_wrt (\<lambda>x y. str_less_eq (key x) (key y)) ys"
    and "mset xs = mset ys" and "distinct (map key xs)"
  shows "xs = ys"
  using assms
proof (induction xs arbitrary: ys)
  case Nil
  then show ?case by simp
next
  case (Cons x xs)
  then obtain y ys' where ys: "ys = y # ys'" by (cases ys) auto
  have sets: "set (x # xs) = set (y # ys')"
    using Cons.prems(3) ys by (metis set_mset_mset)
  have "y \<in> set (x # xs)" "x \<in> set (y # ys')" using sets by auto
  then have "str_less_eq (key x) (key y)" "str_less_eq (key y) (key x)"
    using Cons.prems(1,2) ys by auto
  then have "key x = key y" by (rule str_less_eq_antisym)
  moreover have "y \<in> set (x # xs)" using sets by auto
  ultimately have "x = y" using Cons.prems(4) by auto
  with Cons ys show ?case by auto
qed

lemma sort_by_cong:
  "mset xs = mset ys \<Longrightarrow> distinct (map key xs) \<Longrightarrow> sort_by key xs = sort_by key ys"
proof (rule sorted_unique [OF sort_by_sorted sort_by_sorted])
  assume "mset xs = mset ys" "distinct (map key xs)"
  moreover have "mset (map key (sort_by key xs)) = mset (map key xs)" by simp
  ultimately show "distinct (map key (sort_by key xs))" by (metis mset_eq_imp_distinct_iff)
qed simp

text \<open>
  The canonical form that Workflow hashes are computed from does not depend on the order
  of nodes and edges: two definitions with the same uniquely named nodes and edges have one
  canonical form, and taking the canonical form twice changes nothing.
\<close>

theorem canonical_definition_order:
  assumes "mset (wd_nodes d) = mset (wd_nodes d')" and "mset (wd_edges d) = mset (wd_edges d')"
    and "distinct (map wn_id (wd_nodes d))" and "distinct (map we_id (wd_edges d))"
  shows "canonical_definition d = canonical_definition d' \<and>
    canonical_definition (canonical_definition d) = canonical_definition d"
proof -
  have "mset (map wn_id (sort_by wn_id (wd_nodes d))) = mset (map wn_id (wd_nodes d))"
    "mset (map we_id (sort_by we_id (wd_edges d))) = mset (map we_id (wd_edges d))" by simp_all
  then have "distinct (map wn_id (sort_by wn_id (wd_nodes d)))"
    "distinct (map we_id (sort_by we_id (wd_edges d)))"
    using assms(3,4) by (metis mset_eq_imp_distinct_iff)+
  then have "sort_by wn_id (sort_by wn_id (wd_nodes d)) = sort_by wn_id (wd_nodes d)"
    "sort_by we_id (sort_by we_id (wd_edges d)) = sort_by we_id (wd_edges d)"
    by (auto intro: sort_by_cong)
  with assms show ?thesis
    by (simp add: canonical_definition_def sort_by_cong [of _ _ wn_id] sort_by_cong [of _ _ we_id])
qed

definition demo_node :: "string \<Rightarrow> string \<Rightarrow> workflow_node" where
  "demo_node i t = \<lparr>wn_id = i, wn_type = t, wn_type_version = 1, wn_config = []\<rparr>"

definition demo_edge :: "string \<Rightarrow> string \<Rightarrow> string \<Rightarrow> workflow_edge" where
  "demo_edge i s t = \<lparr>we_id = i, we_source = s, we_source_handle = ''next'',
     we_target = t, we_target_handle = ''in''\<rparr>"

theorem canonical_definition_order_witness:
  "canonical_definition \<lparr>wd_nodes = [demo_node ''b'' ''end'', demo_node ''a'' ''start''],
       wd_edges = [demo_edge ''e'' ''a'' ''b'']\<rparr> =
   canonical_definition \<lparr>wd_nodes = [demo_node ''a'' ''start'', demo_node ''b'' ''end''],
       wd_edges = [demo_edge ''e'' ''a'' ''b'']\<rparr>"
  by (rule canonical_definition_order [THEN conjunct1]) (simp_all add: demo_node_def demo_edge_def)

end
