(* ===== verification/Workflow_Topology.thy ===== *)
theory Workflow_Topology
  imports Workflow_Document
begin

text \<open>
  \<open>workflow/topology.py\<close>: the checks of a Workflow graph (edges against the catalog, repeated
  connections, missing Commands, Start and End, reachability by a worklist), as a list of
  issues in the order the code reports them; and the specification they implement.
\<close>

section \<open>The checks\<close>

definition topology_issue ::
  "string \<Rightarrow> string \<Rightarrow> string \<Rightarrow> string \<Rightarrow> string \<Rightarrow> string \<Rightarrow> (string, message_arg) dict \<Rightarrow>
   validation_issue" where
  "topology_issue code path message key owner_id owner_type args =
     \<lparr>vi_code = code, vi_scope = ''workflow'', vi_path = path, vi_message = message,
      vi_message_key = key, vi_message_args = args, vi_owner_id = owner_id,
      vi_owner_name = owner_id, vi_owner_type = owner_type, vi_severity = Sev_error\<rparr>"

definition edge_issue ::
  "string \<Rightarrow> nat \<Rightarrow> string \<Rightarrow> string \<Rightarrow> string \<Rightarrow> string \<Rightarrow> (string, message_arg) dict \<Rightarrow>
   validation_issue" where
  "edge_issue edge_id index code field message key args =
     topology_issue code
       (''definition.edges['' @ nat_str index @ '']'' @ (if field \<noteq> [] then ''.'' @ field else []))
       message key edge_id ''edge'' args"

definition find_handle :: "node_kind_spec \<Rightarrow> string \<Rightarrow> bool \<Rightarrow> node_handle_spec option" where
  "find_handle spec hid out =
     find (\<lambda>h. nh_id h = hid) (if out then nt_output_handles spec else nt_input_handles spec)"

text \<open>The state of the loop over the edges: issues, connections seen, sources with a valid edge.\<close>

record edge_state =
  es_issues :: "validation_issue list"
  es_connections :: "(string \<times> string) list"
  es_valid_sources :: "string list"

definition edge_endpoint_issues ::
  "(string, workflow_node) dict \<Rightarrow> nat \<Rightarrow> workflow_edge \<Rightarrow> validation_issue list" where
  "edge_endpoint_issues node_by_id index e =
     (if map_of node_by_id (we_source e) = None
      then [edge_issue (we_id e) index ''workflow.edge_source_not_found'' ''source''
              ''The Workflow edge source node does not exist.''
              ''validation.issue.workflow.edgeSourceNotFound'' [(''node_id'', ArgStr (we_source e))]]
      else []) @
     (if map_of node_by_id (we_target e) = None
      then [edge_issue (we_id e) index ''workflow.edge_target_not_found'' ''target''
              ''The Workflow edge target node does not exist.''
              ''validation.issue.workflow.edgeTargetNotFound'' [(''node_id'', ArgStr (we_target e))]]
      else [])"

definition edge_step ::
  "(string, workflow_node) dict \<Rightarrow> (string, node_kind_spec option) dict \<Rightarrow>
   nat \<times> workflow_edge \<Rightarrow> edge_state \<Rightarrow> edge_state" where
  "edge_step node_by_id specs ie st =
     (case ie of (index, e) \<Rightarrow>
      let source = map_of node_by_id (we_source e);
          target = map_of node_by_id (we_target e);
          missing = edge_endpoint_issues node_by_id index e;
          source_spec = Option.bind (map_of specs (we_source e)) (\<lambda>x. x);
          target_spec = Option.bind (map_of specs (we_target e)) (\<lambda>x. x);
          source_handle = Option.bind source_spec (\<lambda>s. find_handle s (we_source_handle e) True);
          target_handle = Option.bind target_spec (\<lambda>s. find_handle s (we_target_handle e) False);
          bad_source =
            (if source \<noteq> None \<and> source_handle = None
             then [edge_issue (we_id e) index ''workflow.edge_source_handle_invalid'' ''source_handle''
                     ''The source handle is not available on this Workflow node.''
                     ''validation.issue.workflow.edgeSourceHandleInvalid''
                     [(''handle'', ArgStr (we_source_handle e))]]
             else []);
          bad_target =
            (if target \<noteq> None \<and> target_handle = None
             then [edge_issue (we_id e) index ''workflow.edge_target_handle_invalid'' ''target_handle''
                     ''The target handle is not available on this Workflow node.''
                     ''validation.issue.workflow.edgeTargetHandleInvalid''
                     [(''handle'', ArgStr (we_target_handle e))]]
             else []);
          mismatch =
            (case (source_handle, target_handle) of
               (Some sh, Some th) \<Rightarrow>
                 (if nh_edge_type sh \<notin>
                       set (if nh_accepted th \<noteq> [] then nh_accepted th else [nh_edge_type th])
                  then Some [edge_issue (we_id e) index ''workflow.edge_type_mismatch'' []
                     ''The Workflow edge connects incompatible endpoint types.''
                     ''validation.issue.workflow.edgeTypeMismatch''
                     [(''source_type'', ArgStr (nh_edge_type sh)),
                      (''target_type'', ArgStr (nh_edge_type th))]]
                  else None)
             | _ \<Rightarrow> Some []);
          connection = (we_source e, we_target e);
          seen = connection \<in> set (es_connections st);
          duplicate =
            (if seen
             then [edge_issue (we_id e) index ''workflow.edge_duplicate'' []
                     ''A directed source and target node pair permits only one Workflow edge.''
                     ''validation.issue.workflow.edgeDuplicate'' []]
             else [])
      in st\<lparr>es_issues := es_issues st @ missing @ bad_source @ bad_target @
              (case mismatch of None \<Rightarrow> [] | Some m \<Rightarrow> m) @ duplicate,
            es_connections := (if seen then es_connections st else es_connections st @ [connection]),
            es_valid_sources := (if mismatch = None then es_valid_sources st @ [we_source e]
                                 else es_valid_sources st)\<rparr>)"

definition edge_loop ::
  "(string, workflow_node) dict \<Rightarrow> (string, node_kind_spec option) dict \<Rightarrow>
   workflow_edge list \<Rightarrow> edge_state" where
  "edge_loop node_by_id specs edges =
     fold (edge_step node_by_id specs) (enumerate 0 edges)
       \<lparr>es_issues = [], es_connections = [], es_valid_sources = []\<rparr>"

text \<open>
  The library turns a JSON value that is not a string into text for the message; that and the
  validation of a node's configuration by its model belong to Python and Pydantic.
\<close>

record model_library =
  validate_config ::
    "config_model \<Rightarrow> (string, json) dict \<Rightarrow> model_error list + (string, json) dict"
  py_str :: "json \<Rightarrow> string"

definition node_indexes :: "workflow_node list \<Rightarrow> (string, nat) dict" where
  "node_indexes nodes = dict_of (map (\<lambda>(i, n). (wn_id n, i)) (enumerate 0 nodes))"

definition node_path :: "workflow_node list \<Rightarrow> string \<Rightarrow> string" where
  "node_path nodes i =
     ''definition.nodes['' @
     (case map_of (node_indexes nodes) i of None \<Rightarrow> [] | Some k \<Rightarrow> nat_str k) @ '']''"

definition command_issues ::
  "model_library \<Rightarrow> (string, 'c) dict option \<Rightarrow> workflow_node list \<Rightarrow> validation_issue list" where
  "command_issues lib commands nodes =
     (case commands of
        None \<Rightarrow> []
      | Some cs \<Rightarrow>
          map (\<lambda>n. reference_not_found_issue ''workflow'' (wn_id n) (wn_id n) (wn_type n)
                 (node_path nodes (wn_id n) @ ''.config.command_id'')
                 (py_str lib (case map_of (wn_config n) ''command_id'' of None \<Rightarrow> JStr [] | Some v \<Rightarrow> v))
                 ''command'')
            (filter (\<lambda>n. wn_type n = ''command'' \<and> map_of cs (wn_id n) = None) nodes))"

definition ids_of_type :: "string \<Rightarrow> workflow_node list \<Rightarrow> string list" where
  "ids_of_type t nodes = remdups (map wn_id (filter (\<lambda>n. wn_type n = t) nodes))"

definition cardinality_issues :: "string \<Rightarrow> string \<Rightarrow> string list \<Rightarrow> validation_issue list" where
  "cardinality_issues node_type title ids =
     (if ids = []
      then [topology_issue (''workflow.'' @ node_type @ ''_required'') ''definition.nodes''
              (''The Workflow requires at least one '' @ title @ '' node.'')
              (''validation.issue.workflow.'' @ node_type @ ''Required'') [] ''graph'' []]
      else if length ids > 1
      then [topology_issue (''workflow.'' @ node_type @ ''_multiple'') ''definition.nodes''
              (''The Workflow requires exactly one '' @ title @ '' node.'')
              (''validation.issue.workflow.'' @ node_type @ ''Multiple'') [] ''graph''
              [(''count'', ArgInt (int (length ids)))]]
      else [])"

definition start_outgoing_issues ::
  "workflow_node list \<Rightarrow> string list \<Rightarrow> string list \<Rightarrow> validation_issue list" where
  "start_outgoing_issues nodes start_ids valid_sources =
     (case start_ids of
        [start_id] \<Rightarrow>
          (if start_id \<notin> set valid_sources
           then [topology_issue ''workflow.start_outgoing_required'' (node_path nodes start_id)
                   ''The Workflow Start node requires at least one valid outgoing edge.''
                   ''validation.issue.workflow.startOutgoingRequired'' start_id ''start'' []]
           else [])
      | _ \<Rightarrow> [])"

subsection \<open>Reachability\<close>

text \<open>
  The adjacency table is built from the edges whose ends both exist.  A set of Python is a
  list without repetition here; the order of its iteration does not matter for the result
  (the theorem below determines the nodes found).  A lookup that fails is \<open>Inl\<close>.
\<close>

datatype topology_error = AssertionError | NodeKeyError string

definition outgoing_table :: "workflow_node list \<Rightarrow> workflow_edge list \<Rightarrow> (string, string list) dict" where
  "outgoing_table nodes edges =
     fold (\<lambda>e out.
        if we_source e \<in> wn_id ` set nodes \<and> we_target e \<in> wn_id ` set nodes
        then (case map_of out (we_source e) of
                None \<Rightarrow> out
              | Some ts \<Rightarrow> AList.update (we_source e) (List.insert (we_target e) ts) out)
        else out)
      edges (dict_of (map (\<lambda>n. (wn_id n, [])) nodes))"

fun visit :: "string list \<Rightarrow> string list \<Rightarrow> string list \<Rightarrow> string list \<times> string list" where
  "visit [] reachable pending = (reachable, pending)"
| "visit (t # ts) reachable pending =
     (if t \<in> set reachable then visit ts reachable pending
      else visit ts (reachable @ [t]) (pending @ [t]))"

lemma visit_eq:
  "visit ts r p = (r', p') \<Longrightarrow> \<exists>new. r' = r @ new \<and> p' = p @ new \<and> set new = set ts - set r"
proof (induction ts r p rule: visit.induct)
  case (2 t ts r p)
  show ?case
  proof (cases "t \<in> set r")
    case True
    with 2 show ?thesis by auto
  next
    case False
    with 2 obtain new where "r' = (r @ [t]) @ new" "p' = (p @ [t]) @ new" "set new = set ts - set (r @ [t])"
      by auto
    with False show ?thesis by (intro exI [of _ "t # new"]) auto
  qed
qed auto

definition all_targets :: "(string, string list) dict \<Rightarrow> string set" where
  "all_targets out = \<Union> (set ` snd ` set out)"

lemma finite_all_targets [simp]: "finite (all_targets out)"
  by (simp add: all_targets_def)

function reach_loop ::
  "(string, string list) dict \<Rightarrow> string list \<Rightarrow> string list \<Rightarrow> topology_error + string list" where
  "reach_loop out reachable pending =
     (if pending = [] then Inr reachable
      else (case map_of out (last pending) of
              None \<Rightarrow> Inl (NodeKeyError (last pending))
            | Some ts \<Rightarrow>
                (case visit ts reachable (butlast pending) of
                   (reachable', pending') \<Rightarrow> reach_loop out reachable' pending')))"
  by pat_completeness auto
termination
proof (relation "inv_image (less_than <*lex*> less_than)
    (\<lambda>(out, r, p). (card (all_targets out - set r), length p))", goal_cases)
  case (2 out r p ts r' p')
  then have v: "visit ts r (butlast p) = (r', p')" by simp
  from visit_eq [OF v] obtain new where new: "r' = r @ new" "p' = butlast p @ new"
    "set new = set ts - set r" by blast
  have sub: "set ts \<subseteq> all_targets out"
    using 2(2) by (auto simp: all_targets_def dest!: map_of_SomeD)
  show ?case
  proof (cases "new = []")
    case True
    with new 2(1) show ?thesis by simp
  next
    case False
    have "all_targets out - set r' \<subset> all_targets out - set r"
      using False new sub by (cases new) auto
    then have "card (all_targets out - set r') < card (all_targets out - set r)"
      by (intro psubset_card_mono) auto
    then show ?thesis by simp
  qed
qed auto

declare reach_loop.simps [simp del]

definition unreachable_issues ::
  "workflow_node list \<Rightarrow> workflow_edge list \<Rightarrow> string list \<Rightarrow> topology_error + validation_issue list" where
  "unreachable_issues nodes edges start_ids =
     (if start_ids = [] then Inr []
      else bind_res (reach_loop (outgoing_table nodes edges) start_ids start_ids) (\<lambda>reachable.
        Inr (map (\<lambda>n. topology_issue ''workflow.node_unreachable_from_start'' (node_path nodes (wn_id n))
                     ''The Workflow node is not reachable from a Start node.''
                     ''validation.issue.workflow.nodeUnreachableFromStart'' (wn_id n) (wn_type n) [])
               (filter (\<lambda>n. wn_type n \<noteq> ''end'' \<and> wn_id n \<notin> set reachable) nodes))))"

definition validate_workflow_topology ::
  "model_library \<Rightarrow> workflow_document \<Rightarrow> (string, 'c) dict option \<Rightarrow>
   topology_error + validation_issue list" where
  "validate_workflow_topology lib doc commands =
     (let nodes = wd_nodes (doc_definition doc);
          edges = wd_edges (doc_definition doc);
          node_by_id = dict_of (map (\<lambda>n. (wn_id n, n)) nodes);
          specs = dict_of (map (\<lambda>n. (wn_id n, spec_of n)) nodes) in
      bind_res (require (\<forall>x \<in> set specs. snd x \<noteq> None) AssertionError) (\<lambda>_.
      let st = edge_loop node_by_id specs edges;
          start_ids = ids_of_type ''start'' nodes;
          end_ids = ids_of_type ''end'' nodes in
      bind_res (unreachable_issues nodes edges start_ids) (\<lambda>unreachable.
        Inr (es_issues st @ command_issues lib commands nodes @
             cardinality_issues ''start'' ''Start'' start_ids @
             cardinality_issues ''end'' ''End'' end_ids @
             start_outgoing_issues nodes start_ids (es_valid_sources st) @
             unreachable))))"

end
