(* ===== verification/Topology_Correctness.thy ===== *)
theory Topology_Correctness
  imports Workflow_Topology
begin

text \<open>
  The Workflow checks against their specification: the worklist of \<open>topology.py\<close> finds the
  nodes reachable from Start, and no issue is reported exactly for the well-formed graphs.
\<close>

section \<open>Reachability\<close>

definition edge_rel :: "workflow_node list \<Rightarrow> workflow_edge list \<Rightarrow> (string \<times> string) set" where
  "edge_rel nodes edges = {(s, t). s \<in> wn_id ` set nodes \<and> t \<in> wn_id ` set nodes \<and>
     (\<exists>e \<in> set edges. we_source e = s \<and> we_target e = t)}"

lemma edge_rel_snoc:
  "edge_rel nodes (es @ [e]) = edge_rel nodes es \<union>
     (if we_source e \<in> wn_id ` set nodes \<and> we_target e \<in> wn_id ` set nodes
      then {(we_source e, we_target e)} else {})"
  by (auto simp: edge_rel_def)

lemma outgoing_table_get:
  "k \<in> wn_id ` set nodes \<Longrightarrow> \<exists>ts. map_of (outgoing_table nodes edges) k = Some ts \<and>
     set ts = {t. (k, t) \<in> edge_rel nodes edges}"
proof (induction edges arbitrary: k rule: rev_induct)
  case Nil
  then have "map_of (dict_of (map (\<lambda>n. (wn_id n, [] :: string list)) nodes)) k \<noteq> None"
    unfolding dict_get_of_None by (simp add: image_image)
  moreover have "map_of (dict_of (map (\<lambda>n. (wn_id n, [] :: string list)) nodes)) k = Some v \<Longrightarrow> v = []" for v
    by (auto simp: dict_get_of dest!: map_of_SomeD)
  ultimately show ?case by (fastforce simp: outgoing_table_def edge_rel_def)
next
  case (snoc e es)
  let ?in = "we_source e \<in> wn_id ` set nodes \<and> we_target e \<in> wn_id ` set nodes"
  show ?case
  proof (cases ?in)
    case False
    then have "outgoing_table nodes (es @ [e]) = outgoing_table nodes es"
      by (auto simp: outgoing_table_def)
    moreover have "edge_rel nodes (es @ [e]) = edge_rel nodes es"
      using False unfolding edge_rel_snoc by auto
    ultimately show ?thesis using snoc by simp
  next
    case True
    obtain ts where ts: "map_of (outgoing_table nodes es) (we_source e) = Some ts"
      "set ts = {t. (we_source e, t) \<in> edge_rel nodes es}"
      using snoc.IH True by blast
    have "outgoing_table nodes (es @ [e]) =
        AList.update (we_source e) (List.insert (we_target e) ts) (outgoing_table nodes es)"
      using True ts(1) by (simp add: outgoing_table_def)
    moreover have "edge_rel nodes (es @ [e]) = insert (we_source e, we_target e) (edge_rel nodes es)"
      using True by (simp add: edge_rel_snoc)
    ultimately show ?thesis
      using snoc.IH [OF snoc.prems] ts by (auto simp: dict_get_set)
  qed
qed

text \<open>The loop never looks up an unknown node and ends with the closure of what it began with.\<close>

lemma reach_loop_closure:
  assumes "\<And>k. k \<in> V \<Longrightarrow> \<exists>ts. map_of out k = Some ts \<and> set ts = {t. (k, t) \<in> E}"
    and "\<And>s t. (s, t) \<in> E \<Longrightarrow> t \<in> V"
    and "set S \<subseteq> set r" and "set p \<subseteq> set r" and "set r \<subseteq> V" and "set r \<subseteq> E\<^sup>* `` set S"
    and "\<And>x y. x \<in> set r \<Longrightarrow> x \<notin> set p \<Longrightarrow> (x, y) \<in> E \<Longrightarrow> y \<in> set r"
  shows "\<exists>r'. reach_loop out r p = Inr r' \<and> set r' = E\<^sup>* `` set S"
  using assms
proof (induction out r p rule: reach_loop.induct)
  case (1 out r p)
  show ?case
  proof (cases "p = []")
    case True
    have "E\<^sup>* `` set S \<subseteq> E\<^sup>* `` set r" using "1.prems"(3) by blast
    also have "\<dots> = set r"
      by (rule Image_closed_trancl) (use "1.prems"(7) True in auto)
    finally show ?thesis
      using "1.prems"(6) True by (auto simp: reach_loop.simps)
  next
    case False
    then have "set p = set (butlast p @ [last p])" by simp
    then have last: "last p \<in> set r" "set p = insert (last p) (set (butlast p))"
      using "1.prems"(4) by auto
    then obtain ts where ts: "map_of out (last p) = Some ts" "set ts = {t. (last p, t) \<in> E}"
      using "1.prems"(1,5) by blast
    obtain r' p' where v: "visit ts r (butlast p) = (r', p')" by (cases "visit ts r (butlast p)")
    from visit_eq [OF v] obtain new where new: "r' = r @ new" "p' = butlast p @ new"
      "set new = set ts - set r" by blast
    have "\<exists>r''. reach_loop out r' p' = Inr r'' \<and> set r'' = E\<^sup>* `` set S"
    proof (rule "1.IH" [OF False ts(1) v [symmetric] "1.prems"(1,2)])
      show "set S \<subseteq> set r'" using "1.prems"(3) new(1) by auto
      show "set p' \<subseteq> set r'" using "1.prems"(4) last(2) new by auto
      show "set r' \<subseteq> V" using "1.prems"(2,5) new ts(2) by auto
      have "set new \<subseteq> E\<^sup>* `` set S"
        using subsetD [OF "1.prems"(6) last(1)] new(3) ts(2) by (auto intro: rtrancl_into_rtrancl)
      then show "set r' \<subseteq> E\<^sup>* `` set S" using "1.prems"(6) new(1) by auto
      show "y \<in> set r'" if "x \<in> set r'" "x \<notin> set p'" "(x, y) \<in> E" for x y
        using that "1.prems"(7) new ts(2) last(2) by (cases "x = last p") auto
    qed
    then show ?thesis using False ts(1) v by (simp add: reach_loop.simps [of out r p])
  qed
qed

lemma reach_loop_reachable:
  assumes "set S \<subseteq> wn_id ` set nodes"
  shows "\<exists>r. reach_loop (outgoing_table nodes edges) S S = Inr r \<and>
    set r = (edge_rel nodes edges)\<^sup>* `` set S"
  by (rule reach_loop_closure [where V = "wn_id ` set nodes"])
     (use assms outgoing_table_get in \<open>auto simp: edge_rel_def\<close>)

section \<open>The loop over the edges\<close>

text \<open>What the catalog means for an edge: it leaves a Start or Command and enters a Command or End.\<close>

definition typed_edge :: "workflow_node list \<Rightarrow> workflow_edge \<Rightarrow> bool" where
  "typed_edge nodes e \<longleftrightarrow>
     (\<exists>n \<in> set nodes. wn_id n = we_source e \<and> wn_type n \<in> {''start'', ''command''}) \<and>
     we_source_handle e = ''next'' \<and>
     (\<exists>n \<in> set nodes. wn_id n = we_target e \<and> wn_type n \<in> {''command'', ''end''}) \<and>
     we_target_handle e = ''in''"

definition admitted_nodes :: "workflow_node list \<Rightarrow> bool" where
  "admitted_nodes nodes \<longleftrightarrow> distinct (map wn_id nodes) \<and> (\<forall>n \<in> set nodes. spec_of n \<noteq> None)"

lemma find_handle_catalog:
  assumes "spec_of n = Some s"
  shows "find_handle s h True \<noteq> None \<longleftrightarrow> wn_type n \<in> {''start'', ''command''} \<and> h = ''next''"
    and "find_handle s h False \<noteq> None \<longleftrightarrow> wn_type n \<in> {''command'', ''end''} \<and> h = ''in''"
    and "find_handle s h out = Some x \<Longrightarrow> nh_edge_type x = ''normal'' \<and> nh_accepted x = []"
  using assms
  by (cases out; auto simp: spec_of_def node_type_spec_cases find_handle_def node_catalog_def
      handle_spec_def split: if_splits)+

text \<open>One edge of an admitted graph: it adds no issue exactly if it is typed and new.\<close>

lemma specs_get:
  assumes "distinct (map wn_id nodes)"
  shows "map_of (dict_of (map (\<lambda>n. (wn_id n, n)) nodes)) i = find (\<lambda>n. wn_id n = i) nodes"
    and "map_of (dict_of (map (\<lambda>n. (wn_id n, spec_of n)) nodes)) i =
      map_option spec_of (find (\<lambda>n. wn_id n = i) nodes)"
proof -
  have "map_of (map (\<lambda>n. (wn_id n, f n)) nodes) i = map_option f (find (\<lambda>n. wn_id n = i) nodes)" for f :: "workflow_node \<Rightarrow> 'a"
    by (induction nodes) auto
  note * = this
  show "map_of (dict_of (map (\<lambda>n. (wn_id n, n)) nodes)) i = find (\<lambda>n. wn_id n = i) nodes"
    using assms by (simp add: dict_get_of_distinct comp_def * option.map_ident)
  have "map_of (map (\<lambda>n. (wn_id n, f n)) nodes) i = map_option f (find (\<lambda>n. wn_id n = i) nodes)" for f :: "workflow_node \<Rightarrow> node_kind_spec option"
    by (induction nodes) auto
  then show "map_of (dict_of (map (\<lambda>n. (wn_id n, spec_of n)) nodes)) i =
      map_option spec_of (find (\<lambda>n. wn_id n = i) nodes)"
    using assms by (simp add: dict_get_of_distinct comp_def)
qed

lemma find_node:
  assumes "distinct (map wn_id nodes)"
  shows "find (\<lambda>n. wn_id n = i) nodes = Some n \<longleftrightarrow> n \<in> set nodes \<and> wn_id n = i"
  using assms by (induction nodes) auto

lemma find_node_None: "find (\<lambda>n. wn_id n = i) nodes = None \<longleftrightarrow> i \<notin> wn_id ` set nodes"
  by (auto simp: find_None_iff)

abbreviation nodes_by_id :: "workflow_node list \<Rightarrow> (string, workflow_node) dict" where
  "nodes_by_id nodes \<equiv> dict_of (map (\<lambda>n. (wn_id n, n)) nodes)"

abbreviation specs_by_id :: "workflow_node list \<Rightarrow> (string, node_kind_spec option) dict" where
  "specs_by_id nodes \<equiv> dict_of (map (\<lambda>n. (wn_id n, spec_of n)) nodes)"

definition handle_at :: "workflow_node list \<Rightarrow> string \<Rightarrow> string \<Rightarrow> bool \<Rightarrow> node_handle_spec option" where
  "handle_at nodes i h out =
     Option.bind (Option.bind (map_option spec_of (find (\<lambda>n. wn_id n = i) nodes)) (\<lambda>x. x))
       (\<lambda>s. find_handle s h out)"

lemma handle_at_found:
  assumes adm: "admitted_nodes nodes"
  shows "handle_at nodes i h out \<noteq> None \<longleftrightarrow>
     (\<exists>n \<in> set nodes. wn_id n = i \<and> (if out then wn_type n \<in> {''start'', ''command''} \<and> h = ''next''
                                  else wn_type n \<in> {''command'', ''end''} \<and> h = ''in''))"
proof (cases "find (\<lambda>n. wn_id n = i) nodes")
  case None
  moreover from None have "i \<notin> wn_id ` set nodes" unfolding find_node_None .
  ultimately show ?thesis by (auto simp: handle_at_def)
next
  case (Some n)
  have dist: "distinct (map wn_id nodes)" using adm by (simp add: admitted_nodes_def)
  have n: "n \<in> set nodes" "wn_id n = i" using Some find_node [OF dist] by blast+
  then obtain s where s: "spec_of n = Some s" using adm by (auto simp: admitted_nodes_def)
  have unique: "n' = n" if "n' \<in> set nodes" "wn_id n' = i" for n'
    using that find_node [OF dist, of i n'] Some by simp
  have "handle_at nodes i h out = find_handle s h out"
    using Some s by (simp add: handle_at_def)
  moreover have "(\<exists>n' \<in> set nodes. wn_id n' = i \<and> P n') \<longleftrightarrow> P n" for P
    using n unique by blast
  ultimately show ?thesis
    using find_handle_catalog(1,2) [OF s, of h] by (cases out) simp_all
qed

lemma handle_at_normal:
  "handle_at nodes i h out = Some x \<Longrightarrow> nh_edge_type x = ''normal'' \<and> nh_accepted x = []"
  using find_handle_catalog(3) by (auto simp: handle_at_def Option.bind_eq_Some_conv)

lemma edge_step_spec:
  assumes adm: "admitted_nodes nodes"
    and st': "edge_step (nodes_by_id nodes) (specs_by_id nodes) (i, e) st = st'"
  shows "es_issues st' = [] \<longleftrightarrow> es_issues st = [] \<and> typed_edge nodes e \<and>
      (we_source e, we_target e) \<notin> set (es_connections st)"
    and "set (es_connections st') = insert (we_source e, we_target e) (set (es_connections st))"
    and "typed_edge nodes e \<Longrightarrow> es_valid_sources st' = es_valid_sources st @ [we_source e]"
proof -
  have dist: "distinct (map wn_id nodes)"
    using adm by (simp add: admitted_nodes_def)
  define src where "src = find (\<lambda>n. wn_id n = we_source e) nodes"
  define tgt where "tgt = find (\<lambda>n. wn_id n = we_target e) nodes"
  define sh where "sh = handle_at nodes (we_source e) (we_source_handle e) True"
  define th where "th = handle_at nodes (we_target e) (we_target_handle e) False"
  have normal: "nh_edge_type x = ''normal''" "nh_accepted x = []" if "sh = Some x \<or> th = Some x" for x
    using that handle_at_normal by (auto simp: sh_def th_def)
  have typed: "typed_edge nodes e \<longleftrightarrow> sh \<noteq> None \<and> th \<noteq> None"
    unfolding sh_def th_def handle_at_found [OF adm] by (auto simp: typed_edge_def)
  have missing: "src = None \<Longrightarrow> sh = None" "tgt = None \<Longrightarrow> th = None"
    by (auto simp: sh_def th_def handle_at_def src_def tgt_def)
  note step = st' [unfolded edge_step_def Let_def prod.case edge_endpoint_issues_def specs_get [OF dist],
      folded handle_at_def, folded src_def tgt_def sh_def th_def]
  show "es_issues st' = [] \<longleftrightarrow> es_issues st = [] \<and> typed_edge nodes e \<and>
      (we_source e, we_target e) \<notin> set (es_connections st)"
    unfolding typed
    using normal missing by (cases sh; cases th; cases src; cases tgt; simp add: step [symmetric])
  show "set (es_connections st') = insert (we_source e, we_target e) (set (es_connections st))"
    by (auto simp: step [symmetric])
  show "es_valid_sources st' = es_valid_sources st @ [we_source e]" if "typed_edge nodes e"
    using normal that unfolding typed by (cases sh; cases th; simp add: step [symmetric])
qed

lemma edge_loop_from:
  assumes adm: "admitted_nodes nodes"
  shows "fold (edge_step (nodes_by_id nodes) (specs_by_id nodes)) (enumerate i es) st = st' \<Longrightarrow>
    (es_issues st' = [] \<longleftrightarrow> es_issues st = [] \<and> (\<forall>e \<in> set es. typed_edge nodes e) \<and>
       distinct (map (\<lambda>e. (we_source e, we_target e)) es) \<and>
       (\<forall>e \<in> set es. (we_source e, we_target e) \<notin> set (es_connections st))) \<and>
    ((\<forall>e \<in> set es. typed_edge nodes e) \<longrightarrow>
       es_valid_sources st' = es_valid_sources st @ map we_source es)"
proof (induction es arbitrary: i st)
  case Nil
  then show ?case by simp
next
  case (Cons e es)
  define st1 where "st1 = edge_step (nodes_by_id nodes) (specs_by_id nodes) (i, e) st"
  have "fold (edge_step (nodes_by_id nodes) (specs_by_id nodes)) (enumerate (Suc i) es) st1 = st'"
    using Cons.prems by (simp add: st1_def)
  note IH = Cons.IH [OF this] and step = edge_step_spec [OF adm st1_def [symmetric]]
  have "(\<forall>x \<in> set es. (we_source x, we_target x) \<notin> set (es_connections st1)) \<longleftrightarrow>
      (we_source e, we_target e) \<notin> set (map (\<lambda>e. (we_source e, we_target e)) es) \<and>
      (\<forall>x \<in> set es. (we_source x, we_target x) \<notin> set (es_connections st))"
    unfolding step(2) by (fastforce simp: image_iff)
  then have "es_issues st' = [] \<longleftrightarrow> es_issues st = [] \<and> (\<forall>x \<in> set (e # es). typed_edge nodes x) \<and>
       distinct (map (\<lambda>e. (we_source e, we_target e)) (e # es)) \<and>
       (\<forall>x \<in> set (e # es). (we_source x, we_target x) \<notin> set (es_connections st))"
    using IH [THEN conjunct1] step(1)
    by (simp only: list.simps distinct.simps set_simps ball_simps) blast
  moreover have "es_valid_sources st' = es_valid_sources st @ map we_source (e # es)"
    if "\<forall>x \<in> set (e # es). typed_edge nodes x"
    using IH [THEN conjunct2] step(3) that by simp
  ultimately show ?case by blast
qed

lemma edge_loop_spec:
  assumes "admitted_nodes nodes"
  shows "es_issues (edge_loop (nodes_by_id nodes) (specs_by_id nodes) edges) = [] \<longleftrightarrow>
      (\<forall>e \<in> set edges. typed_edge nodes e) \<and> distinct (map (\<lambda>e. (we_source e, we_target e)) edges)"
    and "\<forall>e \<in> set edges. typed_edge nodes e \<Longrightarrow>
      es_valid_sources (edge_loop (nodes_by_id nodes) (specs_by_id nodes) edges) = map we_source edges"
  using edge_loop_from [OF assms refl, of 0 edges
      "\<lparr>es_issues = [], es_connections = [], es_valid_sources = []\<rparr>"]
  by (simp_all add: edge_loop_def)

section \<open>No issue means well formed\<close>

definition well_formed_graph ::
  "workflow_definition \<Rightarrow> (string, 'c) dict option \<Rightarrow> bool" where
  "well_formed_graph d commands \<longleftrightarrow>
     (\<forall>e \<in> set (wd_edges d). typed_edge (wd_nodes d) e) \<and>
     distinct (map (\<lambda>e. (we_source e, we_target e)) (wd_edges d)) \<and>
     (\<forall>cs. commands = Some cs \<longrightarrow> (\<forall>n \<in> set (wd_nodes d). wn_type n = ''command'' \<longrightarrow>
        map_of cs (wn_id n) \<noteq> None)) \<and>
     (\<exists>!n. n \<in> set (wd_nodes d) \<and> wn_type n = ''start'') \<and>
     (\<exists>!n. n \<in> set (wd_nodes d) \<and> wn_type n = ''end'') \<and>
     (\<forall>s \<in> set (wd_nodes d). wn_type s = ''start'' \<longrightarrow>
        (\<exists>e \<in> set (wd_edges d). we_source e = wn_id s) \<and>
        (\<forall>n \<in> set (wd_nodes d). wn_type n \<noteq> ''end'' \<longrightarrow>
           (wn_id s, wn_id n) \<in> (edge_rel (wd_nodes d) (wd_edges d))\<^sup>*))"

lemma ids_of_type_set [simp]: "set (ids_of_type t nodes) = {wn_id n | n. n \<in> set nodes \<and> wn_type n = t}"
  by (auto simp: ids_of_type_def)

lemma ids_of_type_single:
  assumes "distinct (map wn_id nodes)"
  shows "cardinality_issues a b (ids_of_type t nodes) = [] \<longleftrightarrow> (\<exists>!n. n \<in> set nodes \<and> wn_type n = t)"
proof -
  have d: "distinct (ids_of_type t nodes)" by (simp add: ids_of_type_def)
  have "cardinality_issues a b (ids_of_type t nodes) = [] \<longleftrightarrow> length (ids_of_type t nodes) = 1"
    by (cases "ids_of_type t nodes") (auto simp: cardinality_issues_def)
  also have "\<dots> \<longleftrightarrow> card (set (ids_of_type t nodes)) = 1"
    using distinct_card [OF d] by simp
  also have "\<dots> \<longleftrightarrow> (\<exists>i. {wn_id n | n. n \<in> set nodes \<and> wn_type n = t} = {i})"
    by (simp only: ids_of_type_set One_nat_def card_1_singleton_iff)
  also have "\<dots> \<longleftrightarrow> (\<exists>!n. n \<in> set nodes \<and> wn_type n = t)"
    using assms by (auto simp: set_eq_iff distinct_map inj_on_def) metis+
  finally show ?thesis .
qed

lemma command_issues_none:
  "command_issues lib commands nodes = [] \<longleftrightarrow>
     (\<forall>cs. commands = Some cs \<longrightarrow> (\<forall>n \<in> set nodes. wn_type n = ''command'' \<longrightarrow>
        map_of cs (wn_id n) \<noteq> None))"
  by (cases commands) (auto simp: command_issues_def filter_empty_conv)

lemma unreachable_issues_spec:
  "\<exists>us. unreachable_issues nodes edges (ids_of_type ''start'' nodes) = Inr us \<and>
     (us = [] \<longleftrightarrow> ids_of_type ''start'' nodes = [] \<or>
        (\<forall>n \<in> set nodes. wn_type n \<noteq> ''end'' \<longrightarrow>
           (\<exists>s \<in> set nodes. wn_type s = ''start'' \<and> (wn_id s, wn_id n) \<in> (edge_rel nodes edges)\<^sup>*)))"
proof (cases "ids_of_type ''start'' nodes = []")
  case True
  then show ?thesis by (simp add: unreachable_issues_def)
next
  case False
  have "set (ids_of_type ''start'' nodes) \<subseteq> wn_id ` set nodes" by auto
  from reach_loop_reachable [OF this, of edges]
  obtain r where r: "reach_loop (outgoing_table nodes edges) (ids_of_type ''start'' nodes)
      (ids_of_type ''start'' nodes) = Inr r"
    "set r = (edge_rel nodes edges)\<^sup>* `` set (ids_of_type ''start'' nodes)" by blast
  have "wn_id n \<in> set r \<longleftrightarrow> (\<exists>s \<in> set nodes. wn_type s = ''start'' \<and>
      (wn_id s, wn_id n) \<in> (edge_rel nodes edges)\<^sup>*)" for n
    unfolding r(2) by auto
  with False r(1) show ?thesis
    by (auto simp: unreachable_issues_def filter_empty_conv)
qed

lemma distinct_singleton: "set xs = {x} \<Longrightarrow> distinct xs \<Longrightarrow> xs = [x]"
  by (cases xs; cases "tl xs") auto

lemma start_outgoing_none:
  assumes "distinct (map wn_id nodes)" and "\<exists>!n. n \<in> set nodes \<and> wn_type n = ''start''"
  shows "start_outgoing_issues nodes (ids_of_type ''start'' nodes) vs = [] \<longleftrightarrow>
    (\<forall>s \<in> set nodes. wn_type s = ''start'' \<longrightarrow> wn_id s \<in> set vs)"
proof -
  obtain s where s: "s \<in> set nodes" "wn_type s = ''start''"
    and unique: "\<And>n. n \<in> set nodes \<Longrightarrow> wn_type n = ''start'' \<Longrightarrow> n = s"
    using assms(2) by blast
  have "set (ids_of_type ''start'' nodes) = {wn_id s}"
    unfolding ids_of_type_set using s unique by blast
  then have single: "ids_of_type ''start'' nodes = [wn_id s]"
    by (rule distinct_singleton) (simp add: ids_of_type_def)
  have "(\<forall>x \<in> set nodes. wn_type x = ''start'' \<longrightarrow> wn_id x \<in> set vs) \<longleftrightarrow> wn_id s \<in> set vs"
    using s unique by blast
  with single show ?thesis by (simp add: start_outgoing_issues_def)
qed

lemma validate_topology_spec:
  assumes adm: "admitted_nodes (wd_nodes (doc_definition doc))"
  shows "\<exists>issues. validate_workflow_topology lib doc commands = Inr issues \<and>
    (issues = [] \<longleftrightarrow> well_formed_graph (doc_definition doc) commands)"
proof -
  define nodes where "nodes = wd_nodes (doc_definition doc)"
  define edges where "edges = wd_edges (doc_definition doc)"
  define st where "st = edge_loop (nodes_by_id nodes) (specs_by_id nodes) edges"
  define starts where "starts = ids_of_type ''start'' nodes"
  have adm': "admitted_nodes nodes" and dist: "distinct (map wn_id nodes)"
    using adm by (auto simp: nodes_def admitted_nodes_def)
  have "\<forall>x \<in> set (specs_by_id nodes). snd x \<noteq> None"
  proof
    fix x
    assume "x \<in> set (specs_by_id nodes)"
    then have "map_of (specs_by_id nodes) (fst x) = Some (snd x)"
      using wf_dict_of [of "map (\<lambda>n. (wn_id n, spec_of n)) nodes"] by (simp add: wf_dict_def)
    then have "(fst x, snd x) \<in> set (map (\<lambda>n. (wn_id n, spec_of n)) nodes)"
      by (auto simp: dict_get_of dest!: map_of_SomeD)
    with adm' show "snd x \<noteq> None" by (auto simp: admitted_nodes_def)
  qed
  moreover obtain us where us: "unreachable_issues nodes edges starts = Inr us"
    "us = [] \<longleftrightarrow> starts = [] \<or> (\<forall>n \<in> set nodes. wn_type n \<noteq> ''end'' \<longrightarrow>
        (\<exists>s \<in> set nodes. wn_type s = ''start'' \<and> (wn_id s, wn_id n) \<in> (edge_rel nodes edges)\<^sup>*))"
    using unreachable_issues_spec [of nodes edges] unfolding starts_def by blast
  ultimately have eq: "validate_workflow_topology lib doc commands =
      Inr (es_issues st @ command_issues lib commands nodes @
           cardinality_issues ''start'' ''Start'' starts @
           cardinality_issues ''end'' ''End'' (ids_of_type ''end'' nodes) @
           start_outgoing_issues nodes starts (es_valid_sources st) @ us)"
    by (simp add: validate_workflow_topology_def Let_def st_def starts_def flip: nodes_def edges_def)
  have "(es_issues st @ command_issues lib commands nodes @
           cardinality_issues ''start'' ''Start'' starts @
           cardinality_issues ''end'' ''End'' (ids_of_type ''end'' nodes) @
           start_outgoing_issues nodes starts (es_valid_sources st) @ us) = [] \<longleftrightarrow>
      well_formed_graph (doc_definition doc) commands"
  proof (cases "(\<forall>e \<in> set edges. typed_edge nodes e) \<and> (\<exists>!n. n \<in> set nodes \<and> wn_type n = ''start'')")
    case False
    then show ?thesis
      using edge_loop_spec(1) [OF adm', of edges] ids_of_type_single [OF dist, of "''start''" "''Start''" "''start''"]
      by (auto simp: well_formed_graph_def st_def starts_def simp flip: nodes_def edges_def)
  next
    case True
    then obtain s where s: "s \<in> set nodes" "wn_type s = ''start''"
      and unique: "\<And>n. n \<in> set nodes \<Longrightarrow> wn_type n = ''start'' \<Longrightarrow> n = s" by blast
    have valid: "es_valid_sources st = map we_source edges"
      using edge_loop_spec(2) [OF adm'] True by (simp add: st_def)
    have "starts \<noteq> []" using s by (auto simp: starts_def ids_of_type_def filter_empty_conv)
    with us(2) have reach: "us = [] \<longleftrightarrow> (\<forall>n \<in> set nodes. wn_type n \<noteq> ''end'' \<longrightarrow>
        (wn_id s, wn_id n) \<in> (edge_rel nodes edges)\<^sup>*)"
      using s unique by blast
    have every: "(\<forall>x \<in> set nodes. wn_type x = ''start'' \<longrightarrow> P x) \<longleftrightarrow> P s" for P
      using s unique by blast
    have out: "start_outgoing_issues nodes starts (es_valid_sources st) = [] \<longleftrightarrow>
        (\<exists>e \<in> set edges. we_source e = wn_id s)"
      unfolding starts_def valid start_outgoing_none [OF dist conjunct2 [OF True]] every
      by (auto simp: image_iff) metis
    show ?thesis
      unfolding well_formed_graph_def append_is_Nil_conv nodes_def [symmetric] edges_def [symmetric]
        st_def edge_loop_spec(1) [OF adm'] command_issues_none starts_def
        ids_of_type_single [OF dist] every
        reach out [unfolded st_def starts_def] conj_assoc
      by (rule refl)
  qed
  with eq show ?thesis by blast
qed

end
