(* ===== verification/Workflow_Validation.thy ===== *)
theory Workflow_Validation
  imports Topology_Correctness
begin

text \<open>
  \<open>workflow/validation.py\<close>: admission of a Workflow document (unique identifiers, known node
  types, valid configurations, a layout over existing nodes), which also normalises the node
  configurations, and the check that a document can be executed.
\<close>

section \<open>Admission\<close>

definition node_issue ::
  "workflow_node \<Rightarrow> nat \<Rightarrow> string \<Rightarrow> string \<Rightarrow> string \<Rightarrow> string \<Rightarrow> (string, message_arg) dict \<Rightarrow>
   validation_issue" where
  "node_issue node index code field message key args =
     topology_issue code
       (''definition.nodes['' @ nat_str index @ '']'' @ (if field \<noteq> [] then ''.'' @ field else []))
       message key (wn_id node) (wn_type node) args"

definition config_issues :: "workflow_node \<Rightarrow> nat \<Rightarrow> model_error list \<Rightarrow> validation_issue list" where
  "config_issues node index errors =
     map (\<lambda>i. i\<lparr>vi_scope := ''workflow'', vi_owner_id := wn_id node, vi_owner_name := wn_id node,
               vi_owner_type := wn_type node,
               vi_path := ''definition.nodes['' @ nat_str index @ ''].config'' @
                 (if vi_path i \<noteq> [] then ''.'' @ vi_path i else [])\<rparr>)
       (vr_issues (report_from_validation_error errors ''workflow_draft'' ''workflow''
          (wn_id node) (wn_id node) (wn_type node)))"

record normalize_state =
  ns_indexes :: "(string, nat) dict"
  ns_issues :: "validation_issue list"
  ns_nodes :: "workflow_node list"

definition unsupported_issue :: "workflow_node \<Rightarrow> nat \<Rightarrow> validation_issue" where
  "unsupported_issue node index =
     (case supported_node_versions (wn_type node) of
        None \<Rightarrow>
          node_issue node index ''workflow.node_type_unsupported'' ''type''
            ''The Workflow node type is not supported.''
            ''validation.issue.workflow.nodeTypeUnsupported'' [(''type'', ArgStr (wn_type node))]
      | Some versions \<Rightarrow>
          node_issue node index ''workflow.node_version_unsupported'' ''type_version''
            ''The Workflow node type version is not supported.''
            ''validation.issue.workflow.nodeVersionUnsupported''
            [(''type'', ArgStr (wn_type node)), (''version'', ArgInt (wn_type_version node))])"

definition normalize_step ::
  "model_library \<Rightarrow> nat \<times> workflow_node \<Rightarrow> normalize_state \<Rightarrow> normalize_state" where
  "normalize_step lib x st =
     (case x of (index, node) \<Rightarrow>
      let st1 =
        (case map_of (ns_indexes st) (wn_id node) of
           Some previous \<Rightarrow>
             st\<lparr>ns_issues := ns_issues st @
               [node_issue node index ''workflow.node_id_duplicate'' ''id''
                  ''Workflow node IDs must be unique.''
                  ''validation.issue.workflow.nodeIdDuplicate''
                  [(''first_index'', ArgInt (int previous))]]\<rparr>
         | None \<Rightarrow> st\<lparr>ns_indexes := AList.update (wn_id node) index (ns_indexes st)\<rparr>)
      in
      (case spec_of node of
         None \<Rightarrow> st1\<lparr>ns_issues := ns_issues st1 @ [unsupported_issue node index],
                     ns_nodes := ns_nodes st1 @ [node]\<rparr>
       | Some spec \<Rightarrow>
           (case validate_config lib (nt_config_model spec) (wn_config node) of
              Inl errors \<Rightarrow> st1\<lparr>ns_issues := ns_issues st1 @ config_issues node index errors,
                               ns_nodes := ns_nodes st1 @ [node]\<rparr>
            | Inr config \<Rightarrow> st1\<lparr>ns_nodes := ns_nodes st1 @ [node\<lparr>wn_config := config\<rparr>]\<rparr>)))"

definition normalize_nodes :: "model_library \<Rightarrow> workflow_node list \<Rightarrow> normalize_state" where
  "normalize_nodes lib nodes =
     fold (normalize_step lib) (enumerate 0 nodes)
       \<lparr>ns_indexes = [], ns_issues = [], ns_nodes = []\<rparr>"

definition edge_id_step ::
  "nat \<times> workflow_edge \<Rightarrow> (string, nat) dict \<times> validation_issue list \<Rightarrow>
   (string, nat) dict \<times> validation_issue list" where
  "edge_id_step x st =
     (case x of (index, e) \<Rightarrow>
      case st of (indexes, issues) \<Rightarrow>
        (case map_of indexes (we_id e) of
           Some previous \<Rightarrow>
             (indexes, issues @
               [topology_issue ''workflow.edge_id_duplicate''
                  (''definition.edges['' @ nat_str index @ ''].id'')
                  ''Workflow edge IDs must be unique.''
                  ''validation.issue.workflow.edgeIdDuplicate'' (we_id e) ''edge''
                  [(''first_index'', ArgInt (int previous))]])
         | None \<Rightarrow> (AList.update (we_id e) index indexes, issues)))"

definition layout_issues :: "workflow_node list \<Rightarrow> string list \<Rightarrow> validation_issue list" where
  "layout_issues nodes keys =
     map (\<lambda>i. topology_issue ''workflow.layout_node_not_found'' (''layout.nodes.'' @ i)
            ''The Workflow layout references a node that does not exist.''
            ''validation.issue.workflow.layoutNodeNotFound'' i ''layout'' [])
       (filter (\<lambda>i. i \<notin> wn_id ` set nodes) keys)"

definition admission_issues ::
  "model_library \<Rightarrow> workflow_document \<Rightarrow> validation_issue list \<times> workflow_document" where
  "admission_issues lib doc =
     (let ns = normalize_nodes lib (wd_nodes (doc_definition doc));
          normalized = doc\<lparr>doc_definition := (doc_definition doc)\<lparr>wd_nodes := ns_nodes ns\<rparr>\<rparr>;
          edge_issues = snd (fold edge_id_step (enumerate 0 (wd_edges (doc_definition normalized))) ([], []))
      in (ns_issues ns @ edge_issues @
            layout_issues (wd_nodes (doc_definition normalized)) (map fst (doc_layout_nodes normalized)),
          normalized))"

text \<open>A document object is accepted as it is; a payload is first parsed by its model.\<close>

definition admit_document ::
  "model_library \<Rightarrow> workflow_document \<Rightarrow> validation_report \<times> workflow_document option" where
  "admit_document lib doc =
     (case admission_issues lib doc of
        (issues, normalized) \<Rightarrow>
          let report = \<lparr>vr_stage = ''workflow_draft'', vr_issues = issues\<rparr>
          in (report, if report_valid report then Some normalized else None))"

definition admit_workflow_document ::
  "model_library \<Rightarrow> ('p \<Rightarrow> model_error list + workflow_document) \<Rightarrow> 'p \<Rightarrow>
   validation_report \<times> workflow_document option" where
  "admit_workflow_document lib parse payload =
     (case parse payload of
        Inl errors \<Rightarrow>
          (report_from_validation_error errors ''workflow_draft'' ''workflow'' [] [] ''graph'', None)
      | Inr doc \<Rightarrow> admit_document lib doc)"

definition validate_workflow_executable ::
  "model_library \<Rightarrow> workflow_document \<Rightarrow> (string, 'c) dict option \<Rightarrow>
   topology_error + validation_report" where
  "validate_workflow_executable lib doc commands =
     (case admit_document lib doc of
        (admission, None) \<Rightarrow>
          Inr \<lparr>vr_stage = ''workflow_publish'', vr_issues = vr_issues admission\<rparr>
      | (admission, Some normalized) \<Rightarrow>
          bind_res (validate_workflow_topology lib normalized commands) (\<lambda>issues.
            Inr \<lparr>vr_stage = ''workflow_publish'', vr_issues = issues\<rparr>))"

section \<open>What admission accepts\<close>

definition config_ok :: "model_library \<Rightarrow> workflow_node \<Rightarrow> bool" where
  "config_ok lib n \<longleftrightarrow> (\<exists>s c. spec_of n = Some s \<and>
     validate_config lib (nt_config_model s) (wn_config n) = Inr c)"

definition normal_node :: "model_library \<Rightarrow> workflow_node \<Rightarrow> workflow_node" where
  "normal_node lib n =
     (case spec_of n of
        None \<Rightarrow> n
      | Some s \<Rightarrow> (case validate_config lib (nt_config_model s) (wn_config n) of
                    Inl _ \<Rightarrow> n | Inr c \<Rightarrow> n\<lparr>wn_config := c\<rparr>))"

lemma normal_node_same [simp]:
  "wn_id (normal_node lib n) = wn_id n" "wn_type (normal_node lib n) = wn_type n"
  "wn_type_version (normal_node lib n) = wn_type_version n"
  by (auto simp: normal_node_def split: option.splits sum.splits)

lemma spec_of_normal [simp]: "spec_of (normal_node lib n) = spec_of n"
  by (simp add: spec_of_def)

definition admissible :: "model_library \<Rightarrow> workflow_document \<Rightarrow> bool" where
  "admissible lib doc \<longleftrightarrow>
     distinct (map wn_id (wd_nodes (doc_definition doc))) \<and>
     (\<forall>n \<in> set (wd_nodes (doc_definition doc)). config_ok lib n) \<and>
     distinct (map we_id (wd_edges (doc_definition doc))) \<and>
     set (map fst (doc_layout_nodes doc)) \<subseteq> wn_id ` set (wd_nodes (doc_definition doc))"

definition normalized_document :: "model_library \<Rightarrow> workflow_document \<Rightarrow> workflow_document" where
  "normalized_document lib doc =
     doc\<lparr>doc_definition := (doc_definition doc)
           \<lparr>wd_nodes := map (normal_node lib) (wd_nodes (doc_definition doc))\<rparr>\<rparr>"

text \<open>The model library reports at least one error when it refuses a configuration.\<close>

definition errors_reported :: "model_library \<Rightarrow> bool" where
  "errors_reported lib \<longleftrightarrow> (\<forall>m c. validate_config lib m c \<noteq> Inl [])"

lemma normalize_step_spec:
  assumes "errors_reported lib" and "normalize_step lib (i, n) st = st'"
  shows "ns_issues st' = [] \<longleftrightarrow>
      ns_issues st = [] \<and> map_of (ns_indexes st) (wn_id n) = None \<and> config_ok lib n"
    and "dom (map_of (ns_indexes st')) = insert (wn_id n) (dom (map_of (ns_indexes st)))"
    and "ns_nodes st' = ns_nodes st @ [normal_node lib n]"
  using assms
  by (auto simp: normalize_step_def Let_def config_ok_def normal_node_def errors_reported_def
      config_issues_def report_from_validation_error_def dict_get_set dom_def
      split: option.splits sum.splits if_splits)

lemma normalize_from:
  assumes "errors_reported lib"
  shows "fold (normalize_step lib) (enumerate i ns) st = st' \<Longrightarrow>
    (ns_issues st' = [] \<longleftrightarrow> ns_issues st = [] \<and> distinct (map wn_id ns) \<and>
       (\<forall>n \<in> set ns. config_ok lib n) \<and>
       (\<forall>n \<in> set ns. wn_id n \<notin> dom (map_of (ns_indexes st)))) \<and>
    ns_nodes st' = ns_nodes st @ map (normal_node lib) ns"
proof (induction ns arbitrary: i st)
  case Nil
  then show ?case by simp
next
  case (Cons n ns)
  define st1 where "st1 = normalize_step lib (i, n) st"
  have "fold (normalize_step lib) (enumerate (Suc i) ns) st1 = st'"
    using Cons.prems by (simp add: st1_def)
  note IH = Cons.IH [OF this] and step = normalize_step_spec [OF assms st1_def [symmetric]]
  have "(\<forall>x \<in> set ns. wn_id x \<notin> dom (map_of (ns_indexes st1))) \<longleftrightarrow>
      wn_id n \<notin> set (map wn_id ns) \<and> (\<forall>x \<in> set ns. wn_id x \<notin> dom (map_of (ns_indexes st)))"
    unfolding step(2) by (auto simp: image_iff)
  then have "ns_issues st' = [] \<longleftrightarrow> ns_issues st = [] \<and> distinct (map wn_id (n # ns)) \<and>
       (\<forall>x \<in> set (n # ns). config_ok lib x) \<and>
       (\<forall>x \<in> set (n # ns). wn_id x \<notin> dom (map_of (ns_indexes st)))"
    using IH [THEN conjunct1] step(1)
    by (simp only: list.simps distinct.simps set_simps ball_simps domIff not_not) blast
  with IH step(3) show ?case by simp
qed

lemma edge_id_from:
  "fold edge_id_step (enumerate i es) st = st' \<Longrightarrow>
    (snd st' = [] \<longleftrightarrow> snd st = [] \<and> distinct (map we_id es) \<and>
       (\<forall>e \<in> set es. we_id e \<notin> dom (map_of (fst st))))"
proof (induction es arbitrary: i st)
  case Nil
  then show ?case by simp
next
  case (Cons e es)
  define st1 where "st1 = edge_id_step (i, e) st"
  have "fold edge_id_step (enumerate (Suc i) es) st1 = st'"
    using Cons.prems by (simp add: st1_def)
  note IH = Cons.IH [OF this]
  have step: "snd st1 = [] \<longleftrightarrow> snd st = [] \<and> we_id e \<notin> dom (map_of (fst st))"
    "dom (map_of (fst st1)) = insert (we_id e) (dom (map_of (fst st)))"
    by (auto simp: st1_def edge_id_step_def dict_get_set dom_def split: prod.splits option.splits if_splits)
  have "(\<forall>x \<in> set es. we_id x \<notin> dom (map_of (fst st1))) \<longleftrightarrow>
      we_id e \<notin> set (map we_id es) \<and> (\<forall>x \<in> set es. we_id x \<notin> dom (map_of (fst st)))"
    unfolding step(2) by (auto simp: image_iff)
  with IH step(1) show ?case
    by (simp only: list.simps distinct.simps set_simps ball_simps) blast
qed

lemma all_errors_invalid:
  assumes "\<forall>i \<in> set iss. vi_severity i = Sev_error"
  shows "report_valid \<lparr>vr_stage = st, vr_issues = iss\<rparr> \<longleftrightarrow> iss = []"
  using assms by (cases iss) (auto simp: report_valid_def)

lemma topology_issue_severity [simp]: "vi_severity (topology_issue a b c d e f g) = Sev_error"
  by (simp add: topology_issue_def)

lemma config_issues_severity: "i \<in> set (config_issues n k errs) \<Longrightarrow> vi_severity i = Sev_error"
  by (auto simp: config_issues_def report_from_validation_error_def)

lemma normalize_severity:
  "\<forall>i \<in> set (ns_issues st). vi_severity i = Sev_error \<Longrightarrow>
   \<forall>i \<in> set (ns_issues (fold (normalize_step lib) xs st)). vi_severity i = Sev_error"
proof (induction xs arbitrary: st)
  case (Cons x xs)
  have "\<forall>i \<in> set (ns_issues (normalize_step lib x st)). vi_severity i = Sev_error"
    using Cons.prems config_issues_severity
    by (auto simp: normalize_step_def Let_def node_issue_def unsupported_issue_def
        split: prod.splits option.splits sum.splits)
  with Cons.IH show ?case by simp
qed simp

lemma edge_id_severity:
  "\<forall>i \<in> set (snd st). vi_severity i = Sev_error \<Longrightarrow>
   \<forall>i \<in> set (snd (fold edge_id_step xs st)). vi_severity i = Sev_error"
proof (induction xs arbitrary: st)
  case (Cons x xs)
  have "\<forall>i \<in> set (snd (edge_id_step x st)). vi_severity i = Sev_error"
    using Cons.prems by (auto simp: edge_id_step_def split: prod.splits option.splits)
  with Cons.IH show ?case by simp
qed simp

lemma layout_issues_none: "layout_issues nodes keys = [] \<longleftrightarrow> set keys \<subseteq> wn_id ` set nodes"
  by (auto simp: layout_issues_def filter_empty_conv)

lemma admission_spec:
  assumes "errors_reported lib"
  shows "snd (admission_issues lib doc) = normalized_document lib doc"
    and "fst (admission_issues lib doc) = [] \<longleftrightarrow> admissible lib doc"
    and "\<forall>i \<in> set (fst (admission_issues lib doc)). vi_severity i = Sev_error"
proof -
  note ns = normalize_from [OF assms refl, of 0 "wd_nodes (doc_definition doc)"
      "\<lparr>ns_indexes = [], ns_issues = [], ns_nodes = []\<rparr>", folded normalize_nodes_def]
  note es = edge_id_from [OF refl, of 0 "wd_edges (doc_definition doc)" "([], [])"]
  show "snd (admission_issues lib doc) = normalized_document lib doc"
    using ns by (simp add: admission_issues_def Let_def normalized_document_def)
  show "fst (admission_issues lib doc) = [] \<longleftrightarrow> admissible lib doc"
    using ns es by (simp add: admission_issues_def Let_def admissible_def layout_issues_none image_image)
  show "\<forall>i \<in> set (fst (admission_issues lib doc)). vi_severity i = Sev_error"
    using normalize_severity [of "\<lparr>ns_indexes = [], ns_issues = [], ns_nodes = []\<rparr>" lib
        "enumerate 0 (wd_nodes (doc_definition doc))", folded normalize_nodes_def]
      edge_id_severity [of "([], [])" "enumerate 0 (wd_edges (doc_definition doc))"]
    by (auto simp: admission_issues_def Let_def layout_issues_def)
qed

lemma admit_document_spec:
  assumes "errors_reported lib"
  shows "snd (admit_document lib doc) =
      (if admissible lib doc then Some (normalized_document lib doc) else None)"
    and "\<not> admissible lib doc \<Longrightarrow> vr_issues (fst (admit_document lib doc)) \<noteq> [] \<and>
      (\<forall>i \<in> set (vr_issues (fst (admit_document lib doc))). vi_severity i = Sev_error)"
proof -
  obtain iss d where a: "admission_issues lib doc = (iss, d)" by (cases "admission_issues lib doc")
  note spec = admission_spec [OF assms, of doc, unfolded a fst_conv snd_conv]
  show "snd (admit_document lib doc) =
      (if admissible lib doc then Some (normalized_document lib doc) else None)"
    using spec all_errors_invalid [OF spec(3)] by (simp add: admit_document_def a Let_def)
  show "vr_issues (fst (admit_document lib doc)) \<noteq> [] \<and>
      (\<forall>i \<in> set (vr_issues (fst (admit_document lib doc))). vi_severity i = Sev_error)"
    if "\<not> admissible lib doc"
    using spec that by (simp add: admit_document_def a Let_def)
qed

lemma admissible_nodes:
  "admissible lib doc \<Longrightarrow> admitted_nodes (wd_nodes (doc_definition (normalized_document lib doc)))"
  by (auto simp: admissible_def admitted_nodes_def normalized_document_def config_ok_def comp_def)

text \<open>
  Admission accepts a document exactly if its node and edge identifiers are unique, every
  node has a type and version of the catalog and a configuration its model accepts, and the
  layout places existing nodes only; the accepted document is the given one with the node
  configurations normalised, and a refused one comes with at least one error.
\<close>

theorem admission_accepts:
  assumes "errors_reported lib"
  shows "snd (admit_document lib doc) =
      (if admissible lib doc then Some (normalized_document lib doc) else None) \<and>
    (report_valid (fst (admit_document lib doc)) \<longleftrightarrow> admissible lib doc)"
proof -
  obtain iss d where a: "admission_issues lib doc = (iss, d)" by (cases "admission_issues lib doc")
  note spec = admission_spec [OF assms, of doc, unfolded a fst_conv snd_conv]
  have "report_valid (fst (admit_document lib doc)) \<longleftrightarrow> admissible lib doc"
    using spec(2) all_errors_invalid [OF spec(3)] by (simp add: admit_document_def a Let_def)
  with admit_document_spec(1) [OF assms] show ?thesis by blast
qed

text \<open>
  C17: a Workflow is reported executable, without any issue, exactly if it is admissible and its graph is well
  formed: one Start and one End, every edge from an output handle to an input handle of
  matching type, no repeated connection, every Command configured, Start with an edge, and
  every node but End reachable from Start.  Its check never fails an assertion or a lookup.
\<close>

theorem executable_iff_well_formed:
  assumes "errors_reported lib"
  shows "\<exists>r. validate_workflow_executable lib doc commands = Inr r \<and>
    (vr_issues r = [] \<longleftrightarrow> admissible lib doc \<and>
       well_formed_graph (doc_definition (normalized_document lib doc)) commands)"
proof (cases "admissible lib doc")
  case False
  obtain r d where a: "admit_document lib doc = (r, d)" by (cases "admit_document lib doc")
  with admit_document_spec [OF assms, of doc] False have "d = None" "vr_issues r \<noteq> []" by auto
  with a False show ?thesis by (simp add: validate_workflow_executable_def)
next
  case True
  obtain r d where a: "admit_document lib doc = (r, d)" by (cases "admit_document lib doc")
  with admit_document_spec(1) [OF assms, of doc] True
  have d: "d = Some (normalized_document lib doc)" by simp
  obtain issues where "validate_workflow_topology lib (normalized_document lib doc) commands = Inr issues"
    "issues = [] \<longleftrightarrow> well_formed_graph (doc_definition (normalized_document lib doc)) commands"
    using validate_topology_spec [OF admissible_nodes [OF True], of lib commands] by blast
  with a d True show ?thesis by (simp add: validate_workflow_executable_def)
qed

section \<open>A concrete Workflow\<close>

definition demo_library :: model_library where
  "demo_library = \<lparr>validate_config = (\<lambda>m c.
      case m of
        EmptyNodeConfig \<Rightarrow>
          (if c = [] then Inr []
           else Inl [\<lparr>me_type = ''extra_forbidden'', me_loc = [LocKey (fst (hd c))],
                      me_msg = ''Extra inputs are not permitted'', me_ctx = None\<rparr>])
      | CommandNodeConfig \<Rightarrow>
          (if map_of c ''command_id'' \<noteq> None then Inr c
           else Inl [\<lparr>me_type = ''missing'', me_loc = [LocKey ''command_id''],
                      me_msg = ''Field required'', me_ctx = None\<rparr>])),
     py_str = (\<lambda>j. case json_str j of None \<Rightarrow> [] | Some s \<Rightarrow> s)\<rparr>"

lemma demo_library_errors: "errors_reported demo_library"
  by (auto simp: errors_reported_def demo_library_def split: config_model.splits)

definition demo_workflow :: workflow_document where
  "demo_workflow = \<lparr>doc_definition =
     \<lparr>wd_nodes = [demo_node ''s'' ''start'',
        (demo_node ''c'' ''command'')\<lparr>wn_config := [(''command_id'', JStr ''id'')]\<rparr>,
        demo_node ''z'' ''end''],
      wd_edges = [demo_edge ''e1'' ''s'' ''c'', demo_edge ''e2'' ''c'' ''z'']\<rparr>,
     doc_layout_nodes = []\<rparr>"

theorem admission_accepts_witness:
  "report_valid (fst (admit_document demo_library demo_workflow)) \<and> admissible demo_library demo_workflow"
proof -
  have "report_valid (fst (admit_document demo_library demo_workflow))" by code_simp
  with admission_accepts [OF demo_library_errors, of demo_workflow] show ?thesis by blast
qed

theorem executable_iff_well_formed_witness:
  "well_formed_graph (doc_definition (normalized_document demo_library demo_workflow))
     (Some [(''c'', ())])"
proof -
  have "validate_workflow_executable demo_library demo_workflow (Some [(''c'', ())]) =
      Inr \<lparr>vr_stage = ''workflow_publish'', vr_issues = []\<rparr>" by code_simp
  with executable_iff_well_formed [OF demo_library_errors, of demo_workflow "Some [(''c'', ())]"]
  show ?thesis by auto
qed

end
