(* ===== verification/Workflow_State.thy ===== *)
theory Workflow_State
  imports Json
begin

text \<open>
  \<open>runtime/state.py\<close>, \<open>command.py\<close> and the State channels of \<open>workflow/compiler.py\<close> and
  \<open>mcp_tools/compiler.py\<close>: the flat variable store that Commands patch, the channel that
  validates one super-step as a whole, and the contract of a Command's result.
\<close>

section \<open>The flat State\<close>

type_synonym flat_state = "(string, json) dict"

definition merge_workflow_state :: "flat_state option \<Rightarrow> flat_state option \<Rightarrow> flat_state" where
  "merge_workflow_state current upd =
     dict_merge (dict_merge [] (case current of None \<Rightarrow> [] | Some c \<Rightarrow> c))
                (case upd of None \<Rightarrow> [] | Some u \<Rightarrow> u)"

definition workflow_state_channel :: string where
  "workflow_state_channel = ''state''"

definition flatten_workflow_state :: "json \<Rightarrow> flat_state" where
  "flatten_workflow_state channel_state =
     (case json_obj channel_state of
        None \<Rightarrow> []
      | Some d \<Rightarrow> (case map_of d workflow_state_channel of
                    Some (JObj raw) \<Rightarrow> raw
                  | _ \<Rightarrow> []))"

definition wrap_workflow_state_update :: "flat_state \<Rightarrow> flat_state" where
  "wrap_workflow_state_update upd = [(workflow_state_channel, JObj upd)]"

lemma merge_get:
  assumes "wf_dict c" and "wf_dict u"
  shows "map_of (merge_workflow_state (Some c) (Some u)) k =
    (case map_of u k of None \<Rightarrow> map_of c k | Some v \<Rightarrow> Some v)"
  using assms by (simp add: merge_workflow_state_def dict_merge_get_wf)

lemma merge_wf [simp]: "wf_dict (merge_workflow_state c u)"
  by (simp add: merge_workflow_state_def)

section \<open>The validated channel\<close>

text \<open>
  A channel holds the accumulated State of a graph.  The schema (a Pydantic model of the
  user) is a function that returns the message of its first error.
\<close>

record runtime_error =
  re_code :: string
  re_message :: string
  re_status_code :: nat

record state_channel =
  ch_has_value :: bool
  ch_value :: flat_state

definition new_channel :: state_channel where
  "new_channel = \<lparr>ch_has_value = False, ch_value = []\<rparr>"

definition channel_from_checkpoint :: "json \<Rightarrow> state_channel" where
  "channel_from_checkpoint checkpoint =
     (case json_obj checkpoint of
        None \<Rightarrow> new_channel
      | Some d \<Rightarrow> \<lparr>ch_has_value = True, ch_value = d\<rparr>)"

definition channel_get :: "state_channel \<Rightarrow> flat_state option" where
  "channel_get ch = (if ch_has_value ch then Some (ch_value ch) else None)"

definition channel_update ::
  "(flat_state \<Rightarrow> string option) \<Rightarrow> flat_state list \<Rightarrow> state_channel \<Rightarrow>
   runtime_error + bool \<times> state_channel" where
  "channel_update validate values ch =
     (if values = [] then Inr (False, ch)
      else
        let merged = foldl (\<lambda>m v. merge_workflow_state (Some m) (Some v))
                       (if ch_has_value ch then ch_value ch else []) values in
        (case validate merged of
           Some msg \<Rightarrow> Inl \<lparr>re_code = ''workflow.state_invalid'', re_message = msg, re_status_code = 422\<rparr>
         | None \<Rightarrow> Inr (True, \<lparr>ch_has_value = True, ch_value = merged\<rparr>)))"

definition mcp_channel_update ::
  "(flat_state \<Rightarrow> string option) \<Rightarrow> flat_state list \<Rightarrow> state_channel \<Rightarrow>
   runtime_error + bool \<times> state_channel" where
  "mcp_channel_update validate values ch =
     (if values = [] then Inr (False, ch)
      else
        let merged = foldl (\<lambda>m v. merge_workflow_state (Some m) (Some v))
                       (if ch_has_value ch then ch_value ch else []) values in
        (case validate merged of
           Some msg \<Rightarrow> Inl \<lparr>re_code = ''mcp_tool.state_invalid'', re_message = msg, re_status_code = 422\<rparr>
         | None \<Rightarrow> Inr (True, \<lparr>ch_has_value = True, ch_value = merged\<rparr>)))"

definition channel_content :: "state_channel \<Rightarrow> flat_state" where
  "channel_content ch = (if ch_has_value ch then ch_value ch else [])"

lemma foldl_merge_get:
  assumes "\<forall>v \<in> set vs. wf_dict v" and "wf_dict m"
  shows "wf_dict (foldl (\<lambda>m v. merge_workflow_state (Some m) (Some v)) m vs) \<and>
    map_of (foldl (\<lambda>m v. merge_workflow_state (Some m) (Some v)) m vs) k =
      (case find (\<lambda>v. map_of v k \<noteq> None) (rev vs) of
         None \<Rightarrow> map_of m k | Some v \<Rightarrow> map_of v k)"
  using assms
proof (induction vs rule: rev_induct)
  case (snoc v vs)
  then show ?case by (auto simp: merge_get split: option.splits)
qed simp

text \<open>
  C20: one super-step of a Workflow patches the State atomically.  With at least one update the
  channel takes the value in which every variable has its last written value (and keeps the
  variables nobody wrote), validated once as a whole; if the schema refuses it, the step fails
  with \<open>workflow.state_invalid\<close>, and without updates nothing happens.
\<close>

theorem channel_update_atomic:
  assumes "wf_dict (channel_content ch)" and "\<forall>v \<in> set vs. wf_dict v"
  shows "if vs = [] then channel_update validate vs ch = Inr (False, ch)
     else \<exists>m. wf_dict m \<and>
       (\<forall>k. map_of m k = (case find (\<lambda>v. map_of v k \<noteq> None) (rev vs) of
          None \<Rightarrow> map_of (channel_content ch) k | Some v \<Rightarrow> map_of v k)) \<and>
       channel_update validate vs ch =
         (case validate m of
            None \<Rightarrow> Inr (True, \<lparr>ch_has_value = True, ch_value = m\<rparr>)
          | Some msg \<Rightarrow> Inl \<lparr>re_code = ''workflow.state_invalid'', re_message = msg,
                          re_status_code = 422\<rparr>)"
proof -
  let ?m = "foldl (\<lambda>m v. merge_workflow_state (Some m) (Some v)) (channel_content ch) vs"
  have "channel_update validate vs ch =
         (case validate ?m of
            None \<Rightarrow> Inr (True, \<lparr>ch_has_value = True, ch_value = ?m\<rparr>)
          | Some msg \<Rightarrow> Inl \<lparr>re_code = ''workflow.state_invalid'', re_message = msg,
                          re_status_code = 422\<rparr>)" if "vs \<noteq> []"
    using that by (simp add: channel_update_def channel_content_def Let_def split: option.split)
  moreover have "channel_update validate [] ch = Inr (False, ch)" by (simp add: channel_update_def)
  ultimately show ?thesis
    using foldl_merge_get [OF assms(2,1)] by (cases "vs = []") (simp_all, blast)
qed

theorem channel_update_atomic_witness:
  "\<exists>m. map_of m ''a'' = Some (JInt 3) \<and> map_of m ''b'' = Some (JInt 2) \<and>
     channel_update (\<lambda>_. None) [[(''a'', JInt 1)], [(''b'', JInt 2), (''a'', JInt 3)]] new_channel =
       Inr (True, \<lparr>ch_has_value = True, ch_value = m\<rparr>)"
  using channel_update_atomic [of new_channel "[[(''a'', JInt 1)], [(''b'', JInt 2), (''a'', JInt 3)]]"
      "\<lambda>_. None"]
  by (force simp: channel_content_def new_channel_def wf_dict_def)

section \<open>What a Command may return\<close>

text \<open>
  The value a Command returns: anything, or an object of the \<open>Command\<close> class with its four
  fields.  A goto is the empty tuple, a name, a sequence, or something that is neither.
\<close>

datatype goto_item = GotoName string | GotoObject

datatype goto = Goto_none | Goto_one string | Goto_many "goto_item list" | Goto_invalid

datatype goto_target = To_none | To_one string | To_many "string list"

datatype command_update = Update_none | Update_map flat_state | Update_other

record command_value =
  cv_is_command :: bool
  cv_graph :: "string option"
  cv_resume :: "json option"
  cv_update :: command_update
  cv_goto :: goto

datatype command_error = CommandError | CommandStateSchemaError string

fun goto_values :: "goto \<Rightarrow> goto_item list option" where
  "goto_values Goto_none = Some []"
| "goto_values (Goto_one s) = Some [GotoName s]"
| "goto_values (Goto_many xs) = Some xs"
| "goto_values Goto_invalid = None"

fun goto_name :: "goto_item \<Rightarrow> string option" where
  "goto_name (GotoName s) = Some s"
| "goto_name GotoObject = None"

text \<open>The loop over the names, with its two lists; the name of the library's end is a parameter.\<close>

fun goto_loop ::
  "string \<Rightarrow> (string, string) dict \<Rightarrow> string list \<Rightarrow> string list \<times> string list" where
  "goto_loop END target_map [] = ([], [])"
| "goto_loop END target_map (t # ts) =
     (case goto_loop END target_map ts of (normalized, unknown) \<Rightarrow>
        (case map_of target_map t of
           Some x \<Rightarrow> (x # normalized, unknown)
         | None \<Rightarrow> if t = END \<and> END \<in> snd ` set target_map then (END # normalized, unknown)
                   else (normalized, t # unknown)))"

definition normalize_command_goto ::
  "string \<Rightarrow> goto \<Rightarrow> (string, string) dict \<Rightarrow> unit + goto_target" where
  "normalize_command_goto END gt target_map =
     (if gt = Goto_none then Inr To_none
      else (case goto_values gt of
        None \<Rightarrow> Inl ()
      | Some values \<Rightarrow>
          if \<exists>x \<in> set values. goto_name x = None then Inl ()
          else (case goto_loop END target_map (map (the \<circ> goto_name) values) of
                  (normalized, unknown) \<Rightarrow>
                    if unknown \<noteq> [] then Inl ()
                    else (case gt of
                            Goto_one _ \<Rightarrow> Inr (To_one (hd normalized))
                          | _ \<Rightarrow> Inr (To_many normalized)))))"

text \<open>
  The two validations of \<open>run_command\<close> belong to Pydantic: one of the wrapped update, which
  returns the validated channel, one of the State that would result, against the schema.
\<close>

record state_validation =
  sv_update :: "flat_state \<Rightarrow> string + flat_state"
  sv_state :: "flat_state \<Rightarrow> string option"

definition run_command ::
  "string \<Rightarrow> state_validation \<Rightarrow> (flat_state \<Rightarrow> unit + command_value) \<Rightarrow> json \<Rightarrow>
   (string, string) dict \<Rightarrow> command_error + flat_state option \<times> goto_target" where
  "run_command END sv command state target_map =
     (let flat = flatten_workflow_state state in
      case command flat of
        Inl _ \<Rightarrow> Inl CommandError
      | Inr result \<Rightarrow>
          if \<not> cv_is_command result \<or> cv_graph result \<noteq> None \<or> cv_resume result \<noteq> None
          then Inl CommandError
          else (case cv_update result of
                  Update_other \<Rightarrow> Inl CommandError
                | upd \<Rightarrow>
                    let u = (case upd of Update_map m \<Rightarrow> m | _ \<Rightarrow> []) in
                    (case (if u \<noteq> [] then sv_update sv (wrap_workflow_state_update u) else Inr []) of
                       Inl msg \<Rightarrow> Inl (CommandStateSchemaError msg)
                     | Inr validated \<Rightarrow>
                         (case sv_state sv (dict_merge (dict_merge [] flat) u) of
                            Some msg \<Rightarrow> Inl (CommandStateSchemaError msg)
                          | None \<Rightarrow>
                              (case normalize_command_goto END (cv_goto result) target_map of
                                 Inl _ \<Rightarrow> Inl CommandError
                               | Inr g \<Rightarrow>
                                   Inr (if validated = [] then None else Some validated, g))))))"

fun target_names :: "goto_target \<Rightarrow> string list" where
  "target_names To_none = []"
| "target_names (To_one s) = [s]"
| "target_names (To_many ss) = ss"

lemma goto_loop_spec:
  "goto_loop END tm ts = (normalized, unknown) \<Longrightarrow>
     set normalized \<subseteq> snd ` set tm \<and>
     (unknown = [] \<longleftrightarrow> (\<forall>t \<in> set ts. map_of tm t \<noteq> None \<or> t = END \<and> END \<in> snd ` set tm)) \<and>
     (unknown = [] \<longrightarrow>
        normalized = map (\<lambda>t. case map_of tm t of None \<Rightarrow> END | Some x \<Rightarrow> x) ts)"
proof (induction ts arbitrary: normalized unknown)
  case (Cons t ts)
  obtain n u where nu: "goto_loop END tm ts = (n, u)" by (cases "goto_loop END tm ts")
  note IH = Cons.IH [OF nu]
  show ?case
  proof (cases "map_of tm t")
    case (Some x)
    then have "x \<in> snd ` set tm" by (force dest: map_of_SomeD)
    moreover have "normalized = x # n" "unknown = u" using Cons.prems nu Some by auto
    ultimately show ?thesis using IH Some by simp
  next
    case None
    define R where "R = snd ` set tm"
    have "goto_loop END tm (t # ts) =
        (if t = END \<and> END \<in> R then (END # n, u) else (n, t # u))"
      using nu None by (simp add: R_def)
    with Cons.prems have "if t = END \<and> END \<in> R then normalized = END # n \<and> unknown = u
      else normalized = n \<and> unknown = t # u"
      by (auto split: if_splits)
    then show ?thesis
      using IH None unfolding R_def [symmetric] by (cases "t = END \<and> END \<in> R") auto
  qed
qed simp

text \<open>
  What a Command returns as goto can only leave along the edges of its node.  The result
  names only graph targets of the node's target map, in the order given, each name translated
  by the map (the library's END only where the map leads there); any name without an edge is
  refused.
\<close>

theorem goto_within_targets:
  assumes "goto_values gt = Some (map GotoName names)" and "gt \<noteq> Goto_none"
  shows "normalize_command_goto END gt tm =
    (if \<forall>t \<in> set names. map_of tm t \<noteq> None \<or> t = END \<and> END \<in> snd ` set tm
     then Inr (case gt of Goto_one _ \<Rightarrow> To_one (case map_of tm (hd names) of None \<Rightarrow> END | Some x \<Rightarrow> x)
               | _ \<Rightarrow> To_many (map (\<lambda>t. case map_of tm t of None \<Rightarrow> END | Some x \<Rightarrow> x) names))
     else Inl ()) \<and>
    (\<forall>g. normalize_command_goto END gt tm = Inr g \<longrightarrow> set (target_names g) \<subseteq> snd ` set tm)"
proof -
  obtain n u where nu: "goto_loop END tm names = (n, u)" by (cases "goto_loop END tm names")
  note spec = goto_loop_spec [OF nu]
  have names: "map (the \<circ> goto_name) (map GotoName names) = names"
    by (simp add: comp_def)
  have *: "normalize_command_goto END gt tm =
      (if u \<noteq> [] then Inl () else (case gt of Goto_one _ \<Rightarrow> Inr (To_one (hd n)) | _ \<Rightarrow> Inr (To_many n)))"
    using assms nu unfolding normalize_command_goto_def assms(1) option.case names nu prod.case
    by (auto split: goto.splits)
  define R where "R = snd ` set tm"
  have sub: "set n \<subseteq> R"
    and cond: "(\<forall>t \<in> set names. map_of tm t \<noteq> None \<or> t = END \<and> END \<in> R) \<longleftrightarrow> u = []"
    and n: "u = [] \<Longrightarrow> n = map (\<lambda>t. case map_of tm t of None \<Rightarrow> END | Some x \<Rightarrow> x) names"
    using spec unfolding R_def [symmetric] by blast+
  have "hd n \<in> R \<and> n = [case map_of tm (hd names) of None \<Rightarrow> END | Some x \<Rightarrow> x]"
    if "gt = Goto_one s" "u = []" for s
  proof -
    have "names = [s]" using assms(1) that(1) by (cases names) auto
    with n [OF that(2)] sub show ?thesis by simp
  qed
  then show ?thesis
    unfolding R_def [symmetric] cond *
    using n sub by (cases gt; cases "u = []") (simp_all add: assms(2))
qed

theorem goto_within_targets_witness:
  "normalize_command_goto ''__end__'' (Goto_many [GotoName ''z'', GotoName ''b'']) [(''z'', ''__end__''), (''b'', ''b'')]
     = Inr (To_many [''__end__'', ''b''])"
  using goto_within_targets [of "Goto_many [GotoName ''z'', GotoName ''b'']" "[''z'', ''b'']" "''__end__''"
      "[(''z'', ''__end__''), (''b'', ''b'')]"]
  by simp

lemma normalize_goto_targets:
  "normalize_command_goto END gt tm = Inr g \<Longrightarrow> set (target_names g) \<subseteq> snd ` set tm"
proof (cases gt)
  case Goto_none
  then show "normalize_command_goto END gt tm = Inr g \<Longrightarrow> ?thesis"
    by (auto simp: normalize_command_goto_def)
next
  case (Goto_one s)
  assume "normalize_command_goto END gt tm = Inr g"
  obtain n u where nu: "goto_loop END tm [s] = (n, u)" by (cases "goto_loop END tm [s]")
  with Goto_one \<open>normalize_command_goto END gt tm = Inr g\<close> have "u = []" "g = To_one (hd n)"
    by (auto simp: normalize_command_goto_def split: if_splits)
  with goto_loop_spec [OF nu] show ?thesis by auto
next
  case (Goto_many xs)
  assume "normalize_command_goto END gt tm = Inr g"
  obtain n u where nu: "goto_loop END tm (map (the \<circ> goto_name) xs) = (n, u)"
    by (cases "goto_loop END tm (map (the \<circ> goto_name) xs)")
  with Goto_many \<open>normalize_command_goto END gt tm = Inr g\<close> have "u = []" "g = To_many n"
    by (auto simp: normalize_command_goto_def split: if_splits)
  moreover have "set n \<subseteq> snd ` set tm" using goto_loop_spec [OF nu] by blast
  ultimately show ?thesis by simp
qed (simp add: normalize_command_goto_def)


definition demo_validation :: state_validation where
  "demo_validation = \<lparr>sv_update = Inr, sv_state = (\<lambda>s. if map_of s ''n'' = None then Some ''n: Field required'' else None)\<rparr>"

definition demo_command :: "flat_state \<Rightarrow> unit + command_value" where
  "demo_command s = Inr \<lparr>cv_is_command = True, cv_graph = None, cv_resume = None,
     cv_update = Update_map [(''n'', JInt 1)], cv_goto = Goto_one ''z''\<rparr>"


text \<open>
  Wrapping a flat update into the channel and flattening it again gives the update back, so
  a Command sees exactly the variables that were written.
\<close>

theorem flatten_wrap: "flatten_workflow_state (JObj (wrap_workflow_state_update u)) = u"
  by (simp add: flatten_workflow_state_def wrap_workflow_state_update_def)

end
