(* ===== verification/Workflow_Compiler.thy ===== *)
theory Workflow_Compiler
  imports Workflow_Validation Workflow_State
begin

text \<open>
  \<open>workflow/compiler.py\<close> and \<open>mcp_tools/compiler.py\<close>: from an admitted control document to the
  calls that build the graph of the runtime library, and the Command node that runs in it.
\<close>

section \<open>The graph that is built\<close>

text \<open>
  What the compilers add to the library's graph builder, in order: nodes with their declared
  destinations, and edges.  START and END are the library's names, parameters here.
\<close>

record graph_builder =
  gb_nodes :: "(string \<times> string list) list"
  gb_edges :: "(string \<times> string) list"

datatype compile_error =
    Compile_error string string
  | Graph_schema_error string
  | Topology_raised topology_error

text \<open>\<open>dict.fromkeys\<close>: the values once each, in the order of their first occurrence.\<close>

definition unique_values :: "string list \<Rightarrow> string list" where
  "unique_values xs = map fst (dict_of (map (\<lambda>x. (x, ())) xs))"

lemma unique_values_set [simp]: "set (unique_values xs) = set xs"
proof -
  have "fst ` set (dict_of (map (\<lambda>x. (x, ())) xs)) = set xs"
    using dict_get_of_None [of "map (\<lambda>x. (x, ())) xs"]
    by (auto simp: map_of_eq_None_iff image_image set_eq_iff)
  then show ?thesis by (simp add: unique_values_def)
qed

lemma unique_values_distinct [simp]: "distinct (unique_values xs)"
  using wf_dict_of [of "map (\<lambda>x. (x, ())) xs"] by (simp add: unique_values_def wf_dict_def)

definition ids_with :: "string \<Rightarrow> workflow_document \<Rightarrow> string set" where
  "ids_with t doc = {wn_id n | n. n \<in> set (wd_nodes (doc_definition doc)) \<and> wn_type n = t}"

lemma ids_with_code [code]:
  "ids_with t doc = set (map wn_id (filter (\<lambda>n. wn_type n = t) (wd_nodes (doc_definition doc))))"
  by (auto simp: ids_with_def)

definition add_target ::
  "string \<Rightarrow> string \<Rightarrow> string \<Rightarrow> (string, (string, string) dict) dict \<Rightarrow>
   (string, (string, string) dict) dict" where
  "add_target source key v maps =
     AList.update source (AList.update key v (case map_of maps source of None \<Rightarrow> [] | Some m \<Rightarrow> m)) maps"

definition target_maps ::
  "string \<Rightarrow> string set \<Rightarrow> string set \<Rightarrow> workflow_edge list \<Rightarrow>
   (string, (string, string) dict) dict" where
  "target_maps END entry_ids exit_ids edges =
     fold (\<lambda>e maps.
        if we_source e \<notin> entry_ids
        then add_target (we_source e) (we_target e)
               (if we_target e \<in> exit_ids then END else we_target e) maps
        else maps) edges []"

fun add_command_nodes ::
  "(string, 'c) dict \<Rightarrow> string \<Rightarrow> string \<Rightarrow> (string, (string, string) dict) dict \<Rightarrow>
   workflow_node list \<Rightarrow> graph_builder \<Rightarrow> compile_error + graph_builder" where
  "add_command_nodes commands code message maps [] gb = Inr gb"
| "add_command_nodes commands code message maps (n # ns) gb =
     (case map_of commands (wn_id n) of
        None \<Rightarrow> Inl (Compile_error code message)
      | Some _ \<Rightarrow>
          let target_map = (case map_of maps (wn_id n) of None \<Rightarrow> [] | Some m \<Rightarrow> m) in
          add_command_nodes commands code message maps ns
            (gb\<lparr>gb_nodes := gb_nodes gb @ [(wn_id n, unique_values (map snd target_map))]\<rparr>))"

definition entry_edges ::
  "string \<Rightarrow> string \<Rightarrow> string set \<Rightarrow> string set \<Rightarrow> workflow_edge list \<Rightarrow> (string \<times> string) list" where
  "entry_edges start end_target entry_ids exit_ids edges =
     map (\<lambda>e. (start, if we_target e \<in> exit_ids then end_target else we_target e))
       (filter (\<lambda>e. we_source e \<in> entry_ids) edges)"

definition first_issue :: "validation_issue list \<Rightarrow> compile_error" where
  "first_issue issues = Compile_error (vi_code (hd issues)) (vi_message (hd issues))"

definition compile_workflow ::
  "string \<Rightarrow> string \<Rightarrow> model_library \<Rightarrow> (string option \<Rightarrow> string + 's option) \<Rightarrow>
   workflow_document \<Rightarrow> (string, 'c) dict \<Rightarrow> string option \<Rightarrow> compile_error + graph_builder" where
  "compile_workflow START END lib compile_schema doc commands schema_source =
     (case admit_document lib doc of
        (admission, None) \<Rightarrow> Inl (first_issue (vr_issues admission))
      | (admission, Some normalized) \<Rightarrow>
          (case compile_schema schema_source of
             Inl msg \<Rightarrow> Inl (Graph_schema_error msg)
           | Inr _ \<Rightarrow>
               (case validate_workflow_topology lib normalized (Some commands) of
                  Inl e \<Rightarrow> Inl (Topology_raised e)
                | Inr issues \<Rightarrow>
                    if issues \<noteq> [] then Inl (first_issue issues)
                    else
                      let entry_ids = ids_with ''start'' normalized;
                          exit_ids = ids_with ''end'' normalized;
                          edges = wd_edges (doc_definition normalized);
                          command_nodes = filter (\<lambda>n. wn_type n = ''command'')
                            (wd_nodes (doc_definition normalized))
                      in bind_res
                        (add_command_nodes commands ''workflow.command_not_found''
                           ''The selected Command Node configuration does not exist.''
                           (target_maps END entry_ids exit_ids edges) command_nodes
                           \<lparr>gb_nodes = [], gb_edges = []\<rparr>)
                        (\<lambda>gb. Inr (gb\<lparr>gb_edges := gb_edges gb @
                           entry_edges START END entry_ids exit_ids edges\<rparr>)))))"

text \<open>
  An MCP Tool graph differs: with a schema it gets an input and an output node, every way to
  the end goes through the output node, and a goto may also name the library's END.
\<close>

definition mcp_tool_input_node :: string where
  "mcp_tool_input_node = ''__agent_shell_mcp_tool_input__''"

definition mcp_tool_output_node :: string where
  "mcp_tool_output_node = ''__agent_shell_mcp_tool_output__''"

definition mcp_target_maps ::
  "string \<Rightarrow> string \<Rightarrow> string set \<Rightarrow> string set \<Rightarrow> workflow_edge list \<Rightarrow>
   (string, (string, string) dict) dict" where
  "mcp_target_maps END end_target entry_ids exit_ids edges =
     fold (\<lambda>e maps.
        if we_source e \<notin> entry_ids
        then (let maps1 = add_target (we_source e) (we_target e)
                    (if we_target e \<in> exit_ids then end_target else we_target e) maps in
              if we_target e \<in> exit_ids then add_target (we_source e) END end_target maps1
              else maps1)
        else maps) edges []"

definition compile_mcp_tool_graph ::
  "string \<Rightarrow> string \<Rightarrow> model_library \<Rightarrow> workflow_document \<Rightarrow> (string, 'c) dict \<Rightarrow>
   's option \<Rightarrow> compile_error + graph_builder" where
  "compile_mcp_tool_graph START END lib doc commands schema =
     (case admit_document lib doc of
        (admission, None) \<Rightarrow> Inl (first_issue (vr_issues admission))
      | (admission, Some normalized) \<Rightarrow>
          (case validate_workflow_topology lib normalized (Some commands) of
             Inl e \<Rightarrow> Inl (Topology_raised e)
           | Inr issues \<Rightarrow>
               if issues \<noteq> [] then Inl (first_issue issues)
               else
                 let entry_ids = ids_with ''start'' normalized;
                     exit_ids = ids_with ''end'' normalized;
                     edges = wd_edges (doc_definition normalized);
                     command_nodes = filter (\<lambda>n. wn_type n = ''command'')
                       (wd_nodes (doc_definition normalized));
                     end_target = (if schema \<noteq> None then mcp_tool_output_node else END);
                     first = (if schema \<noteq> None
                       then \<lparr>gb_nodes = [(mcp_tool_input_node, []), (mcp_tool_output_node, [])],
                             gb_edges = [(mcp_tool_output_node, END)]\<rparr>
                       else \<lparr>gb_nodes = [], gb_edges = []\<rparr>)
                 in bind_res
                   (add_command_nodes commands ''mcp_tool.command_not_found''
                      ''The selected MCP Tool Command Node configuration does not exist.''
                      (mcp_target_maps END end_target entry_ids exit_ids edges) command_nodes first)
                   (\<lambda>gb. Inr (gb\<lparr>gb_edges := gb_edges gb @
                      (if schema \<noteq> None then [(START, mcp_tool_input_node),
                                              (mcp_tool_input_node, mcp_tool_output_node)] else []) @
                      entry_edges (if schema \<noteq> None then mcp_tool_input_node else START) end_target
                        entry_ids exit_ids edges\<rparr>))))"

section \<open>Target maps\<close>

lemma target_maps_get:
  "(case map_of (target_maps END en ex edges) s of None \<Rightarrow> None | Some m \<Rightarrow> map_of m t) =
     (if s \<notin> en \<and> (\<exists>e \<in> set edges. we_source e = s \<and> we_target e = t)
      then Some (if t \<in> ex then END else t) else None)"
proof (induction edges rule: rev_induct)
  case Nil
  then show ?case by (simp add: target_maps_def)
next
  case (snoc e es)
  have "target_maps END en ex (es @ [e]) =
      (if we_source e \<notin> en
       then add_target (we_source e) (we_target e)
              (if we_target e \<in> ex then END else we_target e) (target_maps END en ex es)
       else target_maps END en ex es)"
    by (simp add: target_maps_def)
  with snoc show ?case
    by (auto simp: add_target_def dict_get_set split: option.splits if_splits)
qed

lemma add_target_wf:
  assumes "\<forall>s m. map_of maps s = Some m \<longrightarrow> wf_dict m"
  shows "\<forall>s m. map_of (add_target source key v maps) s = Some m \<longrightarrow> wf_dict m"
  using assms by (auto simp: add_target_def dict_get_set split: option.splits if_splits)

lemma target_maps_wf: "map_of (target_maps END en ex edges) s = Some m \<Longrightarrow> wf_dict m"
proof -
  have "\<forall>s m. map_of (target_maps END en ex edges) s = Some m \<longrightarrow> wf_dict m"
  proof (induction edges rule: rev_induct)
    case Nil
    then show ?case by (simp add: target_maps_def)
  next
    case (snoc e es)
    have "target_maps END en ex (es @ [e]) =
        (if we_source e \<notin> en
         then add_target (we_source e) (we_target e)
                (if we_target e \<in> ex then END else we_target e) (target_maps END en ex es)
         else target_maps END en ex es)"
      by (simp add: target_maps_def)
    with snoc add_target_wf show ?case by simp
  qed
  then show "map_of (target_maps END en ex edges) s = Some m \<Longrightarrow> wf_dict m" by blast
qed

lemma wf_dict_range: "wf_dict m \<Longrightarrow> snd ` set m = {v. \<exists>k. map_of m k = Some v}"
  by (force simp: wf_dict_def dest: map_of_SomeD)

text \<open>The destinations of a node are the targets of its edges, with END for an exit.\<close>

lemma destinations_set:
  assumes "s \<notin> en"
  shows "set (unique_values (map snd (case map_of (target_maps END en ex edges) s of
       None \<Rightarrow> [] | Some m \<Rightarrow> m))) =
     {if t \<in> ex then END else t | t. \<exists>e \<in> set edges. we_source e = s \<and> we_target e = t}"
proof (cases "map_of (target_maps END en ex edges) s")
  case None
  have "\<not> (\<exists>e \<in> set edges. we_source e = s \<and> we_target e = t)" for t
    using target_maps_get [where END = END and en = en and ex = ex and edges = edges and s = s and t = t]
      None assms by (auto split: if_splits)
  with None show ?thesis by auto
next
  case (Some m)
  have "map_of m t = (if \<exists>e \<in> set edges. we_source e = s \<and> we_target e = t
      then Some (if t \<in> ex then END else t) else None)" for t
    using target_maps_get [where END = END and en = en and ex = ex and edges = edges and s = s and t = t] Some assms by simp
  with Some wf_dict_range [OF target_maps_wf [OF Some]] show ?thesis
    by (auto split: if_splits)
qed

lemma add_command_nodes_all:
  assumes "\<forall>n \<in> set ns. map_of commands (wn_id n) \<noteq> None"
  shows "add_command_nodes commands code msg maps ns gb =
    Inr (gb\<lparr>gb_nodes := gb_nodes gb @ map (\<lambda>n. (wn_id n, unique_values (map snd
      (case map_of maps (wn_id n) of None \<Rightarrow> [] | Some m \<Rightarrow> m)))) ns\<rparr>)"
  using assms by (induction ns arbitrary: gb) (auto simp: Let_def)

section \<open>The compiled Workflow\<close>

text \<open>How control can move in the graph that was built.\<close>

definition builder_rel :: "graph_builder \<Rightarrow> (string \<times> string) set" where
  "builder_rel g = set (gb_edges g) \<union> {(n, d). \<exists>ds. (n, ds) \<in> set (gb_nodes g) \<and> d \<in> set ds}"

definition command_nodes_of :: "workflow_document \<Rightarrow> workflow_node list" where
  "command_nodes_of doc = filter (\<lambda>n. wn_type n = ''command'') (wd_nodes (doc_definition doc))"

lemma compile_workflow_eq:
  assumes "errors_reported lib"
  shows "compile_workflow START END lib cs doc commands src = Inr g \<longleftrightarrow>
    admissible lib doc \<and> (\<exists>sc. cs src = Inr sc) \<and>
    well_formed_graph (doc_definition (normalized_document lib doc)) (Some commands) \<and>
    g = (let d = normalized_document lib doc; en = ids_with ''start'' d; ex = ids_with ''end'' d;
             edges = wd_edges (doc_definition d) in
      \<lparr>gb_nodes = map (\<lambda>n. (wn_id n, unique_values (map snd
          (case map_of (target_maps END en ex edges) (wn_id n) of None \<Rightarrow> [] | Some m \<Rightarrow> m))))
         (command_nodes_of d),
       gb_edges = entry_edges START END en ex edges\<rparr>)"
proof (cases "admissible lib doc")
  case False
  obtain r d where a: "admit_document lib doc = (r, d)" by (cases "admit_document lib doc")
  with admit_document_spec [OF assms, of doc] False have "d = None" by auto
  with a False show ?thesis by (simp add: compile_workflow_def)
next
  case True
  define d where "d = normalized_document lib doc"
  obtain r where a: "admit_document lib doc = (r, Some d)"
    using admit_document_spec(1) [OF assms, of doc] True by (cases "admit_document lib doc") (simp add: d_def)
  obtain issues where t: "validate_workflow_topology lib d (Some commands) = Inr issues"
    "issues = [] \<longleftrightarrow> well_formed_graph (doc_definition d) (Some commands)"
    using validate_topology_spec [OF admissible_nodes [OF True], of lib "Some commands"]
    unfolding d_def by blast
  show ?thesis
  proof (cases "cs src")
    case (Inl msg)
    with a t show ?thesis by (simp add: compile_workflow_def)
  next
    case (Inr sc)
    show ?thesis
    proof (cases "issues = []")
      case False
      with a t Inr show ?thesis unfolding d_def [symmetric]
        by (simp add: compile_workflow_def first_issue_def)
    next
      case wf: True
      then have "\<forall>n \<in> set (command_nodes_of d). map_of commands (wn_id n) \<noteq> None"
        using t(2) by (auto simp: well_formed_graph_def command_nodes_of_def)
      note nodes = add_command_nodes_all [OF this]
      show ?thesis
        using True a t(1,2) Inr wf unfolding d_def [symmetric]
        by (auto simp: compile_workflow_def Let_def nodes [unfolded command_nodes_of_def] command_nodes_of_def)
    qed
  qed
qed

text \<open>
  C18: a Workflow compiles exactly if it is admissible, its graph well formed and its State
  schema compiles; in particular the compiler never reaches its \<open>command_not_found\<close> branch after
  the checks passed, and never raises on a document the checks accept.
\<close>

theorem compile_workflow_iff:
  assumes "errors_reported lib"
  shows "(\<exists>g. compile_workflow START END lib cs doc commands src = Inr g) \<longleftrightarrow>
    admissible lib doc \<and> (\<exists>sc. cs src = Inr sc) \<and>
    well_formed_graph (doc_definition (normalized_document lib doc)) (Some commands)"
  unfolding compile_workflow_eq [OF assms] by blast

lemma node_unique:
  "distinct (map wn_id nodes) \<Longrightarrow> n \<in> set nodes \<Longrightarrow> m \<in> set nodes \<Longrightarrow> wn_id n = wn_id m \<Longrightarrow> n = m"
  by (auto simp: distinct_map inj_on_def)

lemma command_not_typed:
  assumes dist: "distinct (map wn_id (wd_nodes (doc_definition d)))"
    and "n \<in> set (command_nodes_of d)" and "ty \<noteq> ''command''"
  shows "wn_id n \<notin> ids_with ty d"
proof
  assume "wn_id n \<in> ids_with ty d"
  then obtain m where m: "m \<in> set (wd_nodes (doc_definition d))" "wn_type m = ty" "wn_id n = wn_id m"
    by (auto simp: ids_with_def)
  have "n \<in> set (wd_nodes (doc_definition d))" "wn_type n = ''command''"
    using assms(2) by (auto simp: command_nodes_of_def)
  with node_unique [OF dist _ m(1,3)] m(2) assms(3) show False by simp
qed

lemma well_formed_start:
  assumes "well_formed_graph d commands"
  obtains s where "s \<in> set (wd_nodes d)" "wn_type s = ''start''"
    "\<forall>n \<in> set (wd_nodes d). wn_type n \<noteq> ''end'' \<longrightarrow>
       (wn_id s, wn_id n) \<in> (edge_rel (wd_nodes d) (wd_edges d))\<^sup>*"
proof -
  note wf = assms [unfolded well_formed_graph_def, THEN conjunct2, THEN conjunct2, THEN conjunct2]
  have 1: "\<exists>n. n \<in> set (wd_nodes d) \<and> wn_type n = ''start''"
    and 2: "\<forall>s \<in> set (wd_nodes d). wn_type s = ''start'' \<longrightarrow>
       (\<exists>e \<in> set (wd_edges d). we_source e = wn_id s) \<and>
       (\<forall>n \<in> set (wd_nodes d). wn_type n \<noteq> ''end'' \<longrightarrow>
          (wn_id s, wn_id n) \<in> (edge_rel (wd_nodes d) (wd_edges d))\<^sup>*)"
    by (rule wf [THEN conjunct1, THEN ex1_implies_ex], rule wf [THEN conjunct2, THEN conjunct2])
  then show ?thesis using that by blast
qed

lemma compiled_reaches:
  assumes nodes: "distinct (map wn_id (wd_nodes (doc_definition d)))"
    and wf: "well_formed_graph (doc_definition d) (Some commands)"
    and g: "gb_edges g = entry_edges START END (ids_with ''start'' d) (ids_with ''end'' d)
        (wd_edges (doc_definition d))"
      "\<And>n e. n \<in> set (command_nodes_of d) \<Longrightarrow> e \<in> set (wd_edges (doc_definition d)) \<Longrightarrow>
        we_source e = wn_id n \<Longrightarrow>
        (wn_id n, if we_target e \<in> ids_with ''end'' d then END else we_target e) \<in> builder_rel g"
    and s: "s \<in> set (wd_nodes (doc_definition d))" "wn_type s = ''start''"
    and path: "(wn_id s, x) \<in> (edge_rel (wd_nodes (doc_definition d)) (wd_edges (doc_definition d)))\<^sup>*"
  shows "x = wn_id s \<or> (START, if x \<in> ids_with ''end'' d then END else x) \<in> (builder_rel g)\<^sup>+"
  using path
proof (induction rule: rtrancl_induct)
  case base
  then show ?case by simp
next
  case (step x y)
  obtain e where e: "e \<in> set (wd_edges (doc_definition d))" "we_source e = x" "we_target e = y"
    using step.hyps(2) by (auto simp: edge_rel_def)
  have typed: "typed_edge (wd_nodes (doc_definition d)) e"
    using wf e(1) by (simp add: well_formed_graph_def)
  then obtain n where n: "n \<in> set (wd_nodes (doc_definition d))" "wn_id n = x"
    "wn_type n = ''start'' \<or> wn_type n = ''command''"
    using e(2) by (auto simp: typed_edge_def)
  let ?y = "if y \<in> ids_with ''end'' d then END else y"
  show ?case
  proof (cases "wn_type n = ''start''")
    case True
    then have "x \<in> ids_with ''start'' d" using n by (auto simp: ids_with_def)
    then have "(START, ?y) \<in> set (gb_edges g)"
      using e g(1) by (force simp: entry_edges_def)
    then show ?thesis by (auto simp: builder_rel_def)
  next
    case False
    with n have cmd: "n \<in> set (command_nodes_of d)" by (auto simp: command_nodes_of_def)
    have "x \<notin> ids_with ''end'' d"
      using command_not_typed [OF nodes cmd, of "''end''"] n(2) by simp
    moreover have "x \<noteq> wn_id s"
      using node_unique [OF nodes n(1) s(1)] n(2) s(2) False by blast
    ultimately have "(START, x) \<in> (builder_rel g)\<^sup>+" using step.IH by simp
    moreover have "(x, ?y) \<in> builder_rel g"
      using g(2) [OF cmd e(1)] e(2) n(2) unfolding e(3) by simp
    ultimately show ?thesis by (blast intro: trancl_into_trancl)
  qed
qed

text \<open>
  C19: the compiled graph mirrors the document: its nodes are the Commands in document order,
  each with exactly the targets of its outgoing edges as destinations (End becoming the
  library's END); every edge leaves START; no destination or edge leads outside the graph; and
  every node can be reached from START.
\<close>

theorem compile_workflow_graph:
  assumes "errors_reported lib" and "compile_workflow START END lib cs doc commands src = Inr g"
  shows "map fst (gb_nodes g) =
      map wn_id (filter (\<lambda>n. wn_type n = ''command'') (wd_nodes (doc_definition doc))) \<and>
    (\<forall>n ds. (n, ds) \<in> set (gb_nodes g) \<longrightarrow>
       set ds = {if t \<in> ids_with ''end'' doc then END else t | t.
                  \<exists>e \<in> set (wd_edges (doc_definition doc)). we_source e = n \<and> we_target e = t}) \<and>
    (\<forall>x \<in> set (gb_edges g). fst x = START) \<and>
    snd ` builder_rel g \<subseteq> insert END (fst ` set (gb_nodes g)) \<and>
    (\<forall>n \<in> fst ` set (gb_nodes g). (START, n) \<in> (builder_rel g)\<^sup>+)"
proof -
  define d where "d = normalized_document lib doc"
  have same: "wd_edges (doc_definition d) = wd_edges (doc_definition doc)"
    "wd_nodes (doc_definition d) = map (normal_node lib) (wd_nodes (doc_definition doc))"
    by (simp_all add: d_def normalized_document_def)
  have ids: "ids_with t d = ids_with t doc" for t
    unfolding ids_with_code same by (simp add: filter_map comp_def)
  let ?en = "ids_with ''start'' d" and ?ex = "ids_with ''end'' d"
  let ?edges = "wd_edges (doc_definition d)" and ?nodes = "wd_nodes (doc_definition d)"
  note eq = assms(2) [unfolded compile_workflow_eq [OF assms(1)], folded d_def, unfolded Let_def]
  then have adm: "admissible lib doc" and wf: "well_formed_graph (doc_definition d) (Some commands)"
    and gn: "gb_nodes g = map (\<lambda>n. (wn_id n, unique_values (map snd
          (case map_of (target_maps END ?en ?ex ?edges) (wn_id n) of None \<Rightarrow> [] | Some m \<Rightarrow> m))))
         (command_nodes_of d)"
    and ge: "gb_edges g = entry_edges START END ?en ?ex ?edges"
    by auto
  have dist: "distinct (map wn_id ?nodes)"
    using admissible_nodes [OF adm] by (simp add: admitted_nodes_def d_def)
  have not_entry: "wn_id n \<notin> ?en" if "n \<in> set (command_nodes_of d)" for n
    by (rule command_not_typed [OF dist that]) simp
  have dest: "set ds = {if t \<in> ?ex then END else t | t. \<exists>e \<in> set ?edges. we_source e = n \<and> we_target e = t}"
    if mem: "(n, ds) \<in> set (gb_nodes g)" for n ds
  proof -
    obtain m where m: "m \<in> set (command_nodes_of d)" "n = wn_id m"
      "ds = unique_values (map snd
          (case map_of (target_maps END ?en ?ex ?edges) (wn_id m) of None \<Rightarrow> [] | Some m \<Rightarrow> m))"
      using mem unfolding gn by auto
    show ?thesis unfolding m(2,3) by (rule destinations_set [OF not_entry [OF m(1)]])
  qed
  have target: "(if we_target e \<in> ?ex then END else we_target e) \<in> insert END (fst ` set (gb_nodes g))"
    if "e \<in> set ?edges" for e
  proof -
    have "typed_edge ?nodes e" using wf that by (simp add: well_formed_graph_def)
    then obtain n where "n \<in> set ?nodes" "wn_id n = we_target e" "wn_type n \<in> {''command'', ''end''}"
      by (auto simp: typed_edge_def)
    then have "we_target e \<in> ?ex \<or> n \<in> set (command_nodes_of d)"
      by (auto simp: ids_with_def command_nodes_of_def) metis?
    with \<open>wn_id n = we_target e\<close> show ?thesis by (force simp: gn)
  qed
  have "map fst (gb_nodes g) =
      map wn_id (filter (\<lambda>n. wn_type n = ''command'') (wd_nodes (doc_definition doc)))"
    by (simp add: gn command_nodes_of_def same filter_map comp_def)
  moreover have "\<forall>x \<in> set (gb_edges g). fst x = START"
    by (auto simp: ge entry_edges_def)
  moreover have "snd ` builder_rel g \<subseteq> insert END (fst ` set (gb_nodes g))"
  proof
    fix x
    assume "x \<in> snd ` builder_rel g"
    then consider "x \<in> snd ` set (gb_edges g)" | n ds where "(n, ds) \<in> set (gb_nodes g)" "x \<in> set ds"
      by (auto simp: builder_rel_def)
    then show "x \<in> insert END (fst ` set (gb_nodes g))"
    proof cases
      case 1
      then obtain e where "e \<in> set ?edges" "x = (if we_target e \<in> ?ex then END else we_target e)"
        by (auto simp: ge entry_edges_def)
      with target [of e] show ?thesis by simp
    next
      case 2
      then obtain e where "e \<in> set ?edges" "x = (if we_target e \<in> ?ex then END else we_target e)"
        using dest by blast
      with target [of e] show ?thesis by simp
    qed
  qed
  moreover have "(START, n) \<in> (builder_rel g)\<^sup>+" if mem: "n \<in> fst ` set (gb_nodes g)" for n
  proof -
    obtain m where m: "m \<in> set (command_nodes_of d)" "n = wn_id m"
      using mem by (auto simp: gn)
    obtain s where s: "s \<in> set ?nodes" "wn_type s = ''start''"
      and reach: "\<forall>n \<in> set ?nodes. wn_type n \<noteq> ''end'' \<longrightarrow> (wn_id s, wn_id n) \<in> (edge_rel ?nodes ?edges)\<^sup>*"
      by (rule well_formed_start [OF wf])
    have path: "(wn_id s, n) \<in> (edge_rel ?nodes ?edges)\<^sup>*"
      using reach m by (auto simp: command_nodes_of_def)
    have step: "(wn_id k, if we_target e \<in> ?ex then END else we_target e) \<in> builder_rel g"
      if k: "k \<in> set (command_nodes_of d)" "e \<in> set ?edges" "we_source e = wn_id k" for k e
    proof -
      obtain ds where ds: "(wn_id k, ds) \<in> set (gb_nodes g)"
        using k(1) by (auto simp: gn)
      with dest [OF ds] k show ?thesis unfolding builder_rel_def by blast
    qed
    have "n = wn_id s \<or> (START, if n \<in> ?ex then END else n) \<in> (builder_rel g)\<^sup>+"
      by (rule compiled_reaches [OF dist wf ge step s path])
    moreover have "n \<notin> ?ex"
      using command_not_typed [OF dist m(1), of "''end''"] m(2) by simp
    moreover have "wn_id s \<in> ?en" using s unfolding ids_with_def by blast
    then have "n \<noteq> wn_id s"
      using command_not_typed [OF dist m(1), of "''start''"] m(2) by auto
    ultimately show ?thesis by simp
  qed
  ultimately show ?thesis
    using dest unfolding same ids by blast
qed

lemma add_target_values:
  assumes "\<And>s m t v. map_of maps s = Some m \<Longrightarrow> map_of m t = Some v \<Longrightarrow> P v" and "P x"
    and "map_of (add_target source key x maps) s = Some m" and "map_of m t = Some v"
  shows "P v"
  using assms(2-4) assms(1) [of s m t v] assms(1) [of s _ t v]
  by (auto simp: add_target_def dict_get_set split: if_splits option.splits)

lemma mcp_target_maps_range:
  assumes "map_of (mcp_target_maps END end_t en ex edges) s = Some m" and "map_of m t = Some v"
  shows "v = end_t \<or> (\<exists>e \<in> set edges. v = we_target e)"
  using assms
proof (induction edges arbitrary: s m t v rule: rev_induct)
  case Nil
  then show ?case by (simp add: mcp_target_maps_def)
next
  case (snoc e es)
  define maps where "maps = mcp_target_maps END end_t en ex es"
  define maps1 where "maps1 = add_target (we_source e) (we_target e)
      (if we_target e \<in> ex then end_t else we_target e) maps"
  define ok where "ok v \<longleftrightarrow> v = end_t \<or> (\<exists>x \<in> set (es @ [e]). v = we_target x)" for v
  have IH: "ok v" if "map_of maps s = Some m" "map_of m t = Some v" for s m t v
    using snoc.IH [of s m t v] that unfolding maps_def ok_def by auto
  have ok: "ok end_t" "ok (if we_target e \<in> ex then end_t else we_target e)"
    by (auto simp: ok_def)
  have 1: "ok v" if "map_of maps1 s = Some m" "map_of m t = Some v" for s m t v
    by (rule add_target_values [where P = ok, OF IH ok(2) that [unfolded maps1_def]])
  have 2: "ok v" if "map_of (add_target (we_source e) END end_t maps1) s = Some m" "map_of m t = Some v"
    for s m t v
    by (rule add_target_values [where P = ok, OF 1 ok(1) that])
  have "mcp_target_maps END end_t en ex (es @ [e]) =
      (if we_source e \<notin> en
       then (if we_target e \<in> ex then add_target (we_source e) END end_t maps1 else maps1)
       else maps)"
    by (simp add: mcp_target_maps_def maps_def maps1_def Let_def)
  with snoc.prems IH 1 2 have "ok v" by (auto split: if_splits)
  then show ?case by (simp add: ok_def)
qed

lemma add_target_wf':
  "\<forall>s m. map_of maps s = Some m \<longrightarrow> wf_dict m \<Longrightarrow>
   map_of (add_target source key v maps) s = Some m \<Longrightarrow> wf_dict m"
  using add_target_wf by blast

lemma mcp_target_maps_wf:
  "\<forall>s m. map_of (mcp_target_maps END end_t en ex edges) s = Some m \<longrightarrow> wf_dict m"
proof (induction edges rule: rev_induct)
  case Nil
  then show ?case by (simp add: mcp_target_maps_def)
next
  case (snoc e es)
  then show ?case
    using add_target_wf [OF snoc.IH] add_target_wf [OF add_target_wf [OF snoc.IH]]
    by (simp add: mcp_target_maps_def Let_def)
qed

lemma compile_mcp_eq:
  assumes "errors_reported lib" and "compile_mcp_tool_graph START END lib doc commands (Some sc) = Inr g"
  shows "gb_nodes g = [(mcp_tool_input_node, []), (mcp_tool_output_node, [])] @
      map (\<lambda>n. (wn_id n, unique_values (map snd
          (case map_of (mcp_target_maps END mcp_tool_output_node
              (ids_with ''start'' (normalized_document lib doc))
              (ids_with ''end'' (normalized_document lib doc)) (wd_edges (doc_definition doc))) (wn_id n) of
             None \<Rightarrow> [] | Some m \<Rightarrow> m)))) (command_nodes_of (normalized_document lib doc))"
    and "gb_edges g = [(mcp_tool_output_node, END), (START, mcp_tool_input_node),
        (mcp_tool_input_node, mcp_tool_output_node)] @
      entry_edges mcp_tool_input_node mcp_tool_output_node
        (ids_with ''start'' (normalized_document lib doc))
        (ids_with ''end'' (normalized_document lib doc)) (wd_edges (doc_definition doc))"
    and "well_formed_graph (doc_definition (normalized_document lib doc)) (Some commands)"
proof -
  define d where "d = normalized_document lib doc"
  obtain r d' where a: "admit_document lib doc = (r, d')" by (cases "admit_document lib doc")
  have adm: "admissible lib doc"
  proof (rule ccontr)
    assume "\<not> admissible lib doc"
    with a admit_document_spec(1) [OF assms(1), of doc] have "d' = None" by simp
    with a assms(2) show False by (simp add: compile_mcp_tool_graph_def)
  qed
  with a admit_document_spec(1) [OF assms(1), of doc] have d': "d' = Some d" by (simp add: d_def)
  obtain issues where t: "validate_workflow_topology lib d (Some commands) = Inr issues"
    "issues = [] \<longleftrightarrow> well_formed_graph (doc_definition d) (Some commands)"
    using validate_topology_spec [OF admissible_nodes [OF adm], of lib "Some commands"]
    unfolding d_def by blast
  have none: "issues = []"
    using assms(2) a d' t(1) by (cases "issues = []") (simp_all add: compile_mcp_tool_graph_def)
  then have wf: "well_formed_graph (doc_definition d) (Some commands)" using t(2) by blast
  then have "\<forall>n \<in> set (command_nodes_of d). map_of commands (wn_id n) \<noteq> None"
    by (auto simp: well_formed_graph_def command_nodes_of_def)
  note nodes = add_command_nodes_all [OF this, unfolded command_nodes_of_def]
  have edges: "wd_edges (doc_definition d) = wd_edges (doc_definition doc)"
    by (simp add: d_def normalized_document_def)
  have g: "Inr g = compile_mcp_tool_graph START END lib doc commands (Some sc)" using assms(2) by simp
  show "gb_nodes g = [(mcp_tool_input_node, []), (mcp_tool_output_node, [])] @
      map (\<lambda>n. (wn_id n, unique_values (map snd
          (case map_of (mcp_target_maps END mcp_tool_output_node
              (ids_with ''start'' (normalized_document lib doc))
              (ids_with ''end'' (normalized_document lib doc)) (wd_edges (doc_definition doc))) (wn_id n) of
             None \<Rightarrow> [] | Some m \<Rightarrow> m)))) (command_nodes_of (normalized_document lib doc))"
    and "gb_edges g = [(mcp_tool_output_node, END), (START, mcp_tool_input_node),
        (mcp_tool_input_node, mcp_tool_output_node)] @
      entry_edges mcp_tool_input_node mcp_tool_output_node
        (ids_with ''start'' (normalized_document lib doc))
        (ids_with ''end'' (normalized_document lib doc)) (wd_edges (doc_definition doc))"
    using g a d' t(1) none unfolding d_def [symmetric]
    by (simp_all add: compile_mcp_tool_graph_def Let_def nodes command_nodes_of_def edges)
  show "well_formed_graph (doc_definition (normalized_document lib doc)) (Some commands)"
    using wf by (simp add: d_def)
qed

text \<open>
  An MCP Tool graph with a schema cannot end without its output validation.  In the graph
  that is built the library's END has exactly one predecessor, the output node: no Command
  destination and no entry edge leads to END directly, whatever name (END or the End node) the
  Command uses to finish.
\<close>

theorem mcp_output_gate:
  assumes "errors_reported lib"
    and "compile_mcp_tool_graph START END lib doc commands (Some schema) = Inr g"
    and "END \<notin> wn_id ` set (wd_nodes (doc_definition doc))"
    and "END \<noteq> mcp_tool_input_node" and "END \<noteq> mcp_tool_output_node"
  shows "(n, END) \<in> builder_rel g \<longleftrightarrow> n = mcp_tool_output_node"
proof
  define d where "d = normalized_document lib doc"
  have ids: "wn_id ` set (wd_nodes (doc_definition d)) = wn_id ` set (wd_nodes (doc_definition doc))"
    by (simp add: d_def normalized_document_def image_image)
  note eq = compile_mcp_eq [OF assms(1,2), folded d_def]
  have target: "we_target e \<noteq> END" if "e \<in> set (wd_edges (doc_definition doc))" for e
  proof -
    have "typed_edge (wd_nodes (doc_definition d)) e"
      using eq(3) that by (simp add: well_formed_graph_def d_def normalized_document_def)
    then have "we_target e \<in> wn_id ` set (wd_nodes (doc_definition d))"
      unfolding typed_edge_def by (metis image_eqI)
    with ids assms(3) show ?thesis by auto
  qed
  assume "(n, END) \<in> builder_rel g"
  then consider "(n, END) \<in> set (gb_edges g)" | ds where "(n, ds) \<in> set (gb_nodes g)" "END \<in> set ds"
    by (auto simp: builder_rel_def)
  then show "n = mcp_tool_output_node"
  proof cases
    case 1
    then have "n = mcp_tool_output_node \<or> (\<exists>e \<in> set (wd_edges (doc_definition doc)). we_target e = END)"
      using assms(4,5) unfolding eq(2) by (auto simp: entry_edges_def split: if_splits)
    with target show ?thesis by blast
  next
    case 2
    then obtain i m where m: "map_of (mcp_target_maps END mcp_tool_output_node (ids_with ''start'' d)
        (ids_with ''end'' d) (wd_edges (doc_definition doc))) i = Some m" "\<exists>a. (a, END) \<in> set m"
      unfolding eq(1) by (auto split: option.splits) blast
    have "wf_dict m" using mcp_target_maps_wf m(1) by blast
    moreover have "END \<in> snd ` set m" using m(2) by force
    ultimately obtain t where "map_of m t = Some END" using wf_dict_range by fastforce
    from mcp_target_maps_range [OF m(1) this] target assms(5) show ?thesis by auto
  qed
next
  assume "n = mcp_tool_output_node"
  then show "(n, END) \<in> builder_rel g"
    using compile_mcp_eq(2) [OF assms(1,2)] by (simp add: builder_rel_def)
qed

section \<open>The concrete Workflow compiled\<close>

definition demo_commands :: "(string, unit) dict" where
  "demo_commands = [(''c'', ())]"

definition demo_builder :: graph_builder where
  "demo_builder = \<lparr>gb_nodes = [(''c'', [''__end__''])], gb_edges = [(''__start__'', ''c'')]\<rparr>"

lemma demo_compiles:
  "compile_workflow ''__start__'' ''__end__'' demo_library (\<lambda>_. Inr (None :: unit option)) demo_workflow
     demo_commands None = Inr demo_builder"
  by code_simp

theorem compile_workflow_iff_witness:
  "admissible demo_library demo_workflow \<and>
   well_formed_graph (doc_definition (normalized_document demo_library demo_workflow)) (Some demo_commands)"
  using compile_workflow_iff [OF demo_library_errors, of "''__start__''" "''__end__''"
      "\<lambda>_. Inr (None :: unit option)" demo_workflow demo_commands None] demo_compiles by blast

theorem compile_workflow_graph_witness:
  "(''__start__'', ''c'') \<in> (builder_rel demo_builder)\<^sup>+ \<and>
   snd ` builder_rel demo_builder \<subseteq> {''__end__'', ''c''}"
  using compile_workflow_graph [OF demo_library_errors demo_compiles]
  by (simp add: demo_builder_def)

theorem mcp_output_gate_witness:
  "\<exists>g. compile_mcp_tool_graph ''__start__'' ''__end__'' demo_library demo_workflow demo_commands (Some ()) = Inr g \<and>
     (''c'', ''__end__'') \<notin> builder_rel g"
proof -
  have "\<exists>g. compile_mcp_tool_graph ''__start__'' ''__end__'' demo_library demo_workflow demo_commands (Some ()) = Inr g"
  proof -
    have "(case compile_mcp_tool_graph ''__start__'' ''__end__'' demo_library demo_workflow demo_commands (Some ()) of
        Inl _ \<Rightarrow> False | Inr _ \<Rightarrow> True)" by code_simp
    then show ?thesis by (auto split: sum.splits)
  qed
  then obtain g where g: "compile_mcp_tool_graph ''__start__'' ''__end__'' demo_library demo_workflow
      demo_commands (Some ()) = Inr g" by blast
  have "(''c'', ''__end__'') \<in> builder_rel g \<longleftrightarrow> ''c'' = mcp_tool_output_node"
    by (rule mcp_output_gate [OF demo_library_errors g])
       (simp_all add: demo_workflow_def demo_node_def mcp_tool_input_node_def mcp_tool_output_node_def)
  with g show ?thesis by (auto simp: mcp_tool_output_node_def)
qed

end
