(* ===== verification/Security.thy ===== *)
theory Security
  imports Text_Ops
begin

text \<open>
  \<open>security.py\<close>, the path predicates of \<open>http_surface.py\<close> and the deployment rules of
  \<open>settings.py\<close>: Bearer authentication with separate management and API tokens, and the
  forwarding headers a trusted proxy may set.
\<close>

section \<open>Tokens\<close>

datatype required_scope = Management | Api

record security_principal =
  sp_scope :: required_scope
  sp_authenticated :: bool
  sp_subject :: string

datatype security_error =
    SecurityFailure nat string string
  | TypeErr

definition invalid_token :: security_error where
  "invalid_token = SecurityFailure 401 ''invalid_api_key'' ''A valid Bearer token is required.''"

definition bearer_token_is_valid :: "string \<Rightarrow> bool" where
  "bearer_token_is_valid v \<longleftrightarrow>
     v \<noteq> [] \<and> is_ascii v \<and> (\<forall>c \<in> set v. 33 \<le> char_nat c \<and> char_nat c \<le> 126)"

text \<open>\<open>hmac.compare_digest\<close> on two \<open>str\<close> raises unless both are ASCII.\<close>

definition compare_digest :: "string \<Rightarrow> string \<Rightarrow> security_error + bool" where
  "compare_digest a b = (if is_ascii a \<and> is_ascii b then Inr (a = b) else Inl TypeErr)"

definition token_match :: "string \<Rightarrow> string option \<Rightarrow> security_error + bool" where
  "token_match candidate token =
     (case token of None \<Rightarrow> Inr False | Some t \<Rightarrow> compare_digest candidate t)"

definition parse_bearer_authorization :: "string \<Rightarrow> security_error + string" where
  "parse_bearer_authorization raw =
     (case split_on (CHR '' '') raw of
        [kind, token] \<Rightarrow>
          if str_lower kind \<noteq> ''bearer'' \<or> token = [] then Inl invalid_token
          else if \<exists>c \<in> set token. space_char c \<or> control_char c then Inl invalid_token
          else Inr token
      | _ \<Rightarrow> Inl invalid_token)"

definition scope_name :: "required_scope \<Rightarrow> string" where
  "scope_name s = (case s of Management \<Rightarrow> ''management'' | Api \<Rightarrow> ''api'')"

definition authenticate_bearer_token ::
  "string \<Rightarrow> required_scope \<Rightarrow> string option \<Rightarrow> string option \<Rightarrow>
   security_error + security_principal" where
  "authenticate_bearer_token candidate scope management_token api_key =
     bind_res (token_match candidate management_token) (\<lambda>management_match.
     bind_res (token_match candidate api_key) (\<lambda>api_match.
       let expected = (if scope = Management then management_match else api_match);
           other = (if scope = Management then api_match else management_match) in
       if expected
       then Inr \<lparr>sp_scope = scope, sp_authenticated = True, sp_subject = scope_name scope @ ''-token''\<rparr>
       else if other
       then Inl (SecurityFailure 403 ''insufficient_scope''
              (''The '' @ (if scope = Api then ''API'' else ''management'') @ '' scope is required.''))
       else Inl invalid_token))"

section \<open>Requests\<close>

type_synonym header = "string \<times> string"

record http_request =
  rq_type :: string
  rq_method :: string
  rq_path :: string
  rq_headers :: "header list"
  rq_client :: "string option"
  rq_scheme :: string
  rq_server :: "(string \<times> int) option"

definition header_values :: "string \<Rightarrow> http_request \<Rightarrow> string list" where
  "header_values name rq = map snd (filter (\<lambda>h. str_lower (fst h) = name) (rq_headers rq))"

definition api_prefix :: string where
  "api_prefix = ''/agent-shell/api''"

definition compat_prefix :: string where
  "compat_prefix = ''/compat''"

definition is_agent_shell_api_path :: "string \<Rightarrow> bool" where
  "is_agent_shell_api_path path \<longleftrightarrow> path = api_prefix \<or> starts_with (api_prefix @ ''/'') path"

definition is_compat_api_path :: "string \<Rightarrow> bool" where
  "is_compat_api_path path \<longleftrightarrow> path = compat_prefix \<or> starts_with (compat_prefix @ ''/'') path"

definition path_scope :: "string \<Rightarrow> required_scope option" where
  "path_scope path =
     (if path = api_prefix @ ''/health'' then None
      else if is_agent_shell_api_path path then Some Management
      else if is_compat_api_path path then Some Api
      else None)"

definition is_cors_preflight :: "http_request \<Rightarrow> bool" where
  "is_cors_preflight rq \<longleftrightarrow>
     rq_method rq = ''OPTIONS'' \<and> length (header_values ''origin'' rq) = 1 \<and>
     length (header_values ''access-control-request-method'' rq) = 1"

definition request_id_char :: "char \<Rightarrow> bool" where
  "request_id_char c \<longleftrightarrow> alnum_char c \<or> c \<in> set ''._-''"

text \<open>A fresh identifier comes from the library's random source, a parameter.\<close>

definition request_id_for_scope :: "string \<Rightarrow> http_request \<Rightarrow> string" where
  "request_id_for_scope fresh rq =
     (case header_values ''x-request-id'' rq of
        [v] \<Rightarrow> if v \<noteq> [] \<and> length v \<le> 64 \<and> (\<forall>c \<in> set v. request_id_char c) then v
               else ''req_'' @ fresh
      | _ \<Rightarrow> ''req_'' @ fresh)"

definition parse_bearer :: "http_request \<Rightarrow> security_error + string" where
  "parse_bearer rq =
     (case header_values ''authorization'' rq of
        [raw] \<Rightarrow> if is_ascii raw then parse_bearer_authorization raw else Inl invalid_token
      | _ \<Rightarrow> Inl invalid_token)"

definition error_type_of :: "nat \<Rightarrow> string" where
  "error_type_of code =
     (if code = 400 then ''invalid_request_error'' else if code = 401 then ''authentication_error''
      else if code = 403 then ''permission_error'' else ''security_error'')"

record security_response =
  sr_status :: nat
  sr_headers :: "header list"
  sr_error :: "(string, json) dict"
  sr_request_id :: string

definition security_error_response ::
  "nat \<Rightarrow> string \<Rightarrow> string \<Rightarrow> string \<Rightarrow> required_scope option \<Rightarrow> security_response" where
  "security_error_response status code message request_id scope =
     \<lparr>sr_status = status,
      sr_headers = [(''X-Request-ID'', request_id)] @
        (if status = 401
         then [(''WWW-Authenticate'', ''Bearer realm=\"agent-shell\", error=\"invalid_token\"'')]
         else if status = 403
         then [(''WWW-Authenticate'', ''Bearer realm=\"agent-shell\", error=\"insufficient_scope\", scope=\"'' @
                 (case scope of None \<Rightarrow> [] | Some s \<Rightarrow> scope_name s) @ ''\"'')]
         else []),
      sr_error =
        [(''message'', JStr message), (''type'', JStr (error_type_of status)), (''param'', JNull),
         (''code'', JStr code)] @
        (if scope = Some Management
         then [(''message_key'', JStr
                 (if code = ''insufficient_scope'' then ''errors.managementScopeRequired''
                  else if code = ''invalid_api_key'' then ''errors.invalidManagementCredential''
                  else if code = ''invalid_proxy_headers'' then ''errors.invalidProxyHeaders''
                  else ''errors.requestFailed'')),
               (''message_args'', JObj [])]
         else []),
      sr_request_id = request_id\<rparr>"

text \<open>
  What the middleware does with a request: hand it to the application (with the principal it
  authenticated, if any), answer it itself, or fail with an exception.
\<close>

datatype middleware_result =
    Forwarded "security_principal option" http_request
  | Answered security_response
  | Crashed

definition scope_authentication ::
  "string \<Rightarrow> string option \<Rightarrow> string option \<Rightarrow> http_request \<Rightarrow> middleware_result" where
  "scope_authentication fresh management_token api_key rq =
     (if rq_type rq \<noteq> ''http'' then Forwarded None rq
      else
        let request_id = request_id_for_scope fresh rq in
        case path_scope (rq_path rq) of
          None \<Rightarrow> Forwarded None rq
        | Some scope \<Rightarrow>
            if is_cors_preflight rq then Forwarded None rq
            else (case bind_res (parse_bearer rq) (\<lambda>candidate.
                         authenticate_bearer_token candidate scope management_token api_key) of
                    Inr p \<Rightarrow> Forwarded (Some p) rq
                  | Inl (SecurityFailure status code message) \<Rightarrow>
                      Answered (security_error_response status code message request_id (Some scope))
                  | Inl TypeErr \<Rightarrow> Crashed))"

text \<open>\<open>authenticate\<close> of \<open>langgraph_dev.py\<close>: the official routes, with the header as text.\<close>

datatype server_auth = Server_ok | Server_http_error nat string | Server_crashed

definition langgraph_authenticate ::
  "string option option \<Rightarrow> string option \<Rightarrow> server_auth" where
  "langgraph_authenticate settings authorization =
     (case settings of
        None \<Rightarrow> Server_http_error 503 ''Unavailable''
      | Some None \<Rightarrow> Server_http_error 503 ''Unavailable''
      | Some (Some token) \<Rightarrow>
          (case bind_res (parse_bearer_authorization (case authorization of None \<Rightarrow> [] | Some a \<Rightarrow> a))
                  (\<lambda>candidate. authenticate_bearer_token candidate Management (Some token) None) of
             Inr _ \<Rightarrow> Server_ok
           | Inl (SecurityFailure status _ message) \<Rightarrow> Server_http_error status message
           | Inl TypeErr \<Rightarrow> Server_crashed))"

section \<open>Deployment rules\<close>

record deployment =
  dp_allow_remote :: bool
  dp_is_loopback :: bool
  dp_trusted_proxy_cidrs :: "string list"
  dp_management_token :: "string option"
  dp_langsmith_tracing_enabled :: bool
  dp_langsmith_api_key :: "string option"

definition authenticated_remote :: "deployment \<Rightarrow> bool" where
  "authenticated_remote d \<longleftrightarrow>
     dp_allow_remote d \<or> \<not> dp_is_loopback d \<or> dp_trusted_proxy_cidrs d \<noteq> []"

definition validate_deployment :: "deployment \<Rightarrow> string list + unit" where
  "validate_deployment d =
     (let actions =
        (if \<not> dp_is_loopback d \<and> \<not> dp_allow_remote d
         then [''Enable remote access explicitly or use a loopback host.''] else []) @
        (if dp_trusted_proxy_cidrs d \<noteq> [] \<and> \<not> dp_allow_remote d
         then [''Trusted proxy deployment requires explicit remote access.''] else []) @
        (if dp_management_token d = None then [''Configure the management Bearer token.''] else []) @
        (if dp_langsmith_tracing_enabled d \<and> dp_langsmith_api_key d = None
         then [''Configure the LangSmith API key or disable tracing.''] else [])
      in if actions \<noteq> [] then Inl actions else Inr ())"

definition validate_api_key_policy :: "deployment \<Rightarrow> string option \<Rightarrow> string + unit" where
  "validate_api_key_policy d api_key =
     (case api_key of
        None \<Rightarrow> if authenticated_remote d then Inl ''api_key_required'' else Inr ()
      | Some k \<Rightarrow> if bearer_token_is_valid k then Inr () else Inl ''api_key_invalid'')"

section \<open>Token separation\<close>

lemma parse_bearer_authorization_iff:
  "parse_bearer_authorization raw = Inr token \<longleftrightarrow>
     (\<exists>kind. raw = kind @ CHR '' '' # token \<and> str_lower kind = ''bearer'' \<and> token \<noteq> [] \<and>
        (\<forall>c \<in> set token. \<not> space_char c \<and> \<not> control_char c))"
proof
  assume p: "parse_bearer_authorization raw = Inr token"
  then obtain kind t where s: "split_on (CHR '' '') raw = [kind, t]"
    by (auto simp: parse_bearer_authorization_def split: list.splits)
  with p have "t = token" "str_lower kind = ''bearer''" "token \<noteq> []"
    "\<forall>c \<in> set token. \<not> space_char c \<and> \<not> control_char c"
    by (auto simp: parse_bearer_authorization_def split: if_splits)
  with s split_on_pair show "\<exists>kind. raw = kind @ CHR '' '' # token \<and> str_lower kind = ''bearer'' \<and> token \<noteq> [] \<and>
        (\<forall>c \<in> set token. \<not> space_char c \<and> \<not> control_char c)" by blast
next
  assume "\<exists>kind. raw = kind @ CHR '' '' # token \<and> str_lower kind = ''bearer'' \<and> token \<noteq> [] \<and>
        (\<forall>c \<in> set token. \<not> space_char c \<and> \<not> control_char c)"
  then obtain kind where k: "raw = kind @ CHR '' '' # token" "str_lower kind = ''bearer''" "token \<noteq> []"
    "\<forall>c \<in> set token. \<not> space_char c \<and> \<not> control_char c" by blast
  have "CHR '' '' \<notin> set token"
    using k(4) by (auto simp: control_char_def)
  moreover have "CHR '' '' \<notin> set kind"
  proof
    assume "CHR '' '' \<in> set kind"
    then have "lower_ascii (CHR '' '') \<in> set (str_lower kind)" by (auto simp: str_lower_def)
    then have "lower_ascii (CHR '' '') \<in> set ''bearer''" using k(2) by simp
    moreover have "lower_ascii (CHR '' '') = CHR '' ''" by (simp add: lower_ascii_def upper_char_def)
    ultimately show False by simp
  qed
  ultimately have "split_on (CHR '' '') raw = [kind, token]"
    using k(1) split_on_pair by blast
  with k show "parse_bearer_authorization raw = Inr token"
    by (auto simp: parse_bearer_authorization_def)
qed

lemma compare_digest_ascii:
  "is_ascii a \<Longrightarrow> is_ascii b \<Longrightarrow> compare_digest a b = Inr (a = b)"
  by (simp add: compare_digest_def)

lemma token_match_ascii:
  "is_ascii c \<Longrightarrow> (\<forall>t. token = Some t \<longrightarrow> is_ascii t) \<Longrightarrow>
     token_match c token = Inr (token = Some c)"
  by (auto simp: token_match_def compare_digest_ascii split: option.splits)

lemma authenticate_ascii:
  assumes "is_ascii candidate"
    and "\<forall>t. management_token = Some t \<longrightarrow> is_ascii t" and "\<forall>t. api_key = Some t \<longrightarrow> is_ascii t"
  shows "authenticate_bearer_token candidate scope management_token api_key =
      (if (if scope = Management then management_token else api_key) = Some candidate
       then Inr \<lparr>sp_scope = scope, sp_authenticated = True, sp_subject = scope_name scope @ ''-token''\<rparr>
       else if (if scope = Management then api_key else management_token) = Some candidate
       then Inl (SecurityFailure 403 ''insufficient_scope''
              (''The '' @ (if scope = Api then ''API'' else ''management'') @ '' scope is required.''))
       else Inl (SecurityFailure 401 ''invalid_api_key'' ''A valid Bearer token is required.''))"
  using token_match_ascii [OF assms(1,2)] token_match_ascii [OF assms(1,3)]
  by (cases scope) (simp_all add: authenticate_bearer_token_def invalid_token_def)

text \<open>
  The two tokens are strictly separated.  For ASCII values a candidate authenticates for a
  scope exactly if it is that scope's token (and the principal carries that scope); the other
  scope's token is refused with 403, anything else with 401.
\<close>

theorem token_separation:
  assumes "is_ascii candidate"
    and "\<forall>t. management_token = Some t \<longrightarrow> is_ascii t" and "\<forall>t. api_key = Some t \<longrightarrow> is_ascii t"
  shows "let own = (if scope = Management then management_token else api_key);
             other = (if scope = Management then api_key else management_token) in
    authenticate_bearer_token candidate scope management_token api_key =
      (if own = Some candidate
       then Inr \<lparr>sp_scope = scope, sp_authenticated = True, sp_subject = scope_name scope @ ''-token''\<rparr>
       else if other = Some candidate
       then Inl (SecurityFailure 403 ''insufficient_scope''
              (''The '' @ (if scope = Api then ''API'' else ''management'') @ '' scope is required.''))
       else Inl (SecurityFailure 401 ''invalid_api_key'' ''A valid Bearer token is required.''))"
  using authenticate_ascii [OF assms, of scope] by (simp add: Let_def)

theorem token_separation_witness:
  "authenticate_bearer_token ''k'' Management (Some ''m'') (Some ''k'') =
     Inl (SecurityFailure 403 ''insufficient_scope'' ''The management scope is required.'')"
  using token_separation [of "''k''" "Some ''m''" "Some ''k''" Management]
  by (simp add: is_ascii_def)

lemma parse_bearer_ascii: "parse_bearer rq = Inr c \<Longrightarrow> is_ascii c"
  by (auto simp: parse_bearer_def parse_bearer_authorization_iff split: list.splits if_splits)


definition demo_request :: "string \<Rightarrow> http_request" where
  "demo_request token = \<lparr>rq_type = ''http'', rq_method = ''GET'', rq_path = ''/agent-shell/api/runs'',
     rq_headers = [(''Authorization'', ''Bearer '' @ token)], rq_client = None, rq_scheme = ''http'',
     rq_server = None\<rparr>"


text \<open>
  C23: on the official LangGraph routes the token check is not total: any Authorization value of
  Bearer form whose token contains a character beyond ASCII (which the parser lets through)
  makes the comparison raise, and the handler fails instead of answering 401.
\<close>

theorem langgraph_auth_crashes_on_non_ascii:
  assumes "\<exists>c \<in> set token. 128 \<le> char_nat c" and "\<forall>c \<in> set token. \<not> space_char c \<and> \<not> control_char c"
  shows "langgraph_authenticate (Some (Some secret)) (Some (''Bearer '' @ token)) = Server_crashed"
proof -
  have "token \<noteq> []" using assms(1) by auto
  have "\<not> is_ascii token" using assms(1) unfolding is_ascii_def by (meson not_less)
  have "str_lower ''Bearer'' = ''bearer''" by code_simp
  with assms(2) \<open>token \<noteq> []\<close> have "parse_bearer_authorization (''Bearer'' @ CHR '' '' # token) = Inr token"
    unfolding parse_bearer_authorization_iff by blast
  then have "parse_bearer_authorization (''Bearer '' @ token) = Inr token" by simp
  with \<open>\<not> is_ascii token\<close> show ?thesis
    by (simp add: langgraph_authenticate_def authenticate_bearer_token_def token_match_def compare_digest_def)
qed

theorem langgraph_auth_crashes_on_non_ascii_witness:
  "langgraph_authenticate (Some (Some ''secret'')) (Some (''Bearer '' @ [char_of (233 :: nat)])) = Server_crashed"
  by (rule langgraph_auth_crashes_on_non_ascii) (simp_all add: space_char_def control_char_def)

text \<open>
  C24: a configuration that passes both start-up checks always has a management token, and one
  that is reachable from elsewhere (remote access, a non-loopback host or a trusted proxy) has
  remote access enabled explicitly and a valid API Key.
\<close>

theorem deployment_authenticated:
  assumes "validate_deployment d = Inr ()" and "validate_api_key_policy d api_key = Inr ()"
  shows "dp_management_token d \<noteq> None \<and>
    (authenticated_remote d \<longrightarrow> dp_allow_remote d \<and> (\<exists>k. api_key = Some k \<and> bearer_token_is_valid k))"
  using assms
  by (auto simp: validate_deployment_def validate_api_key_policy_def authenticated_remote_def Let_def
      split: if_splits option.splits)

definition demo_deployment :: deployment where
  "demo_deployment = \<lparr>dp_allow_remote = True, dp_is_loopback = False, dp_trusted_proxy_cidrs = [],
     dp_management_token = Some ''m'', dp_langsmith_tracing_enabled = False, dp_langsmith_api_key = None\<rparr>"

theorem deployment_authenticated_witness:
  "dp_allow_remote demo_deployment \<and> bearer_token_is_valid ''k''"
proof -
  have "validate_deployment demo_deployment = Inr ()" "authenticated_remote demo_deployment"
    "validate_api_key_policy demo_deployment (Some ''k'') = Inr ()"
    by (simp_all add: validate_deployment_def demo_deployment_def authenticated_remote_def
        validate_api_key_policy_def bearer_token_is_valid_def is_ascii_def)
  with deployment_authenticated [of demo_deployment "Some ''k''"] show ?thesis by auto
qed

end
