(* ===== verification/Proxy_Headers.thy ===== *)
theory Proxy_Headers
  imports Security
begin

text \<open>
  \<open>TrustedProxyHeadersMiddleware\<close> of \<open>security.py\<close>: which forwarding headers are accepted, from
  whom, and which client address they yield.  Addresses and networks belong to Python's
  \<open>ipaddress\<close>: a record of its functions is a parameter.
\<close>

section \<open>Parsing\<close>

datatype proxy_error = ProxyHeaderError string

record 'a ip_library =
  ip_address :: "string \<Rightarrow> 'a option"
  ip_text :: "'a \<Rightarrow> string"
  in_trusted :: "'a \<Rightarrow> bool"

record split_state =
  ss_parts :: "string list"
  ss_current :: string
  ss_quoted :: bool
  ss_escaped :: bool

definition quote_char :: char where
  "quote_char = CHR 0x22"

definition backslash_char :: char where
  "backslash_char = CHR 0x5C"

definition split_step :: "char \<Rightarrow> char \<Rightarrow> split_state \<Rightarrow> split_state" where
  "split_step delimiter c s =
     (if ss_escaped s then s\<lparr>ss_current := ss_current s @ [c], ss_escaped := False\<rparr>
      else if c = backslash_char \<and> ss_quoted s then s\<lparr>ss_escaped := True\<rparr>
      else if c = quote_char then s\<lparr>ss_quoted := \<not> ss_quoted s, ss_current := ss_current s @ [c]\<rparr>
      else if c = delimiter \<and> \<not> ss_quoted s
      then s\<lparr>ss_parts := ss_parts s @ [str_strip (ss_current s)], ss_current := []\<rparr>
      else s\<lparr>ss_current := ss_current s @ [c]\<rparr>)"

definition split_quoted :: "string \<Rightarrow> char \<Rightarrow> proxy_error + string list" where
  "split_quoted v delimiter =
     (let s = fold (split_step delimiter) v
                \<lparr>ss_parts = [], ss_current = [], ss_quoted = False, ss_escaped = False\<rparr> in
      if ss_quoted s \<or> ss_escaped s then Inl (ProxyHeaderError ''unterminated quoted value'')
      else
        let parts = ss_parts s @ [str_strip (ss_current s)] in
        if [] \<in> set parts then Inl (ProxyHeaderError ''empty forwarded element'')
        else Inr parts)"

definition unquote_forwarded :: "string \<Rightarrow> proxy_error + string" where
  "unquote_forwarded v =
     bind_res
       (if starts_with [quote_char] v \<or> ends_with [quote_char] v
        then (if length v < 2 \<or> \<not> (starts_with [quote_char] v \<and> ends_with [quote_char] v)
              then Inl (ProxyHeaderError ''malformed quoted value'')
              else Inr (butlast (tl v)))
        else Inr v)
       (\<lambda>v. if \<exists>c \<in> set v. control_char c
             then Inl (ProxyHeaderError ''control character in forwarded value'') else Inr v)"

definition parse_forwarded_address :: "'a ip_library \<Rightarrow> string \<Rightarrow> proxy_error + 'a" where
  "parse_forwarded_address ip raw =
     bind_res (unquote_forwarded raw) (\<lambda>v.
       if str_lower v = ''unknown'' \<or> starts_with ''_'' v
       then Inl (ProxyHeaderError ''obfuscated forwarded address is unsupported'')
       else bind_res
         (if starts_with ''['' v
          then (case cut_at (CHR '']'') v of
                  None \<Rightarrow> Inl (ProxyHeaderError ''invalid forwarded IPv6 address'')
                | Some (inside, rest) \<Rightarrow>
                    if rest \<noteq> [] \<and> (\<not> starts_with '':'' rest \<or> \<not> all_digits (tl rest))
                    then Inl (ProxyHeaderError ''invalid forwarded port'')
                    else Inr (tl inside))
          else if char_count (CHR '':'') v = 1
          then (case cut_at (CHR '':'') v of
                  Some (h, p) \<Rightarrow> Inr (if all_digits p then h else v)
                | None \<Rightarrow> Inr v)
          else Inr v)
         (\<lambda>host. case ip_address ip host of
                   None \<Rightarrow> Inl (ProxyHeaderError ''forwarded address must be an IP literal'')
                 | Some a \<Rightarrow> Inr a))"

type_synonym forwarded_host = "string \<times> nat option \<times> string"

definition parse_forwarded_host :: "string \<Rightarrow> proxy_error + forwarded_host" where
  "parse_forwarded_host raw =
     bind_res (unquote_forwarded raw) (\<lambda>v.
       if \<exists>c \<in> set v. c \<in> set ''/?#@'' then Inl (ProxyHeaderError ''invalid forwarded host'')
       else bind_res
         (if starts_with ''['' v
          then (case cut_at (CHR '']'') v of
                  None \<Rightarrow> Inl (ProxyHeaderError ''invalid forwarded host'')
                | Some (inside, rest) \<Rightarrow>
                    if rest = [] then Inr (tl inside, None)
                    else if \<not> starts_with '':'' rest \<or> \<not> all_digits (tl rest)
                    then Inl (ProxyHeaderError ''invalid forwarded host port'')
                    else Inr (tl inside, Some (read_nat (tl rest))))
          else if char_count (CHR '':'') v = 1
          then (case cut_at (CHR '':'') v of
                  Some (h, p) \<Rightarrow> if all_digits p then Inr (h, Some (read_nat p))
                                  else Inl (ProxyHeaderError ''invalid forwarded host port'')
                | None \<Rightarrow> Inr (v, None))
          else Inr (v, None))
         (\<lambda>(host, port).
            if host = [] \<or> (\<exists>c \<in> set host. space_char c)
            then Inl (ProxyHeaderError ''invalid forwarded host'')
            else if (case port of None \<Rightarrow> False | Some p \<Rightarrow> \<not> (1 \<le> p \<and> p \<le> 65535))
            then Inl (ProxyHeaderError ''invalid forwarded host port'')
            else Inr (str_lower host, port, str_lower v)))"

definition validate_scheme :: "string \<Rightarrow> proxy_error + string" where
  "validate_scheme v =
     bind_res (unquote_forwarded v) (\<lambda>u.
       let scheme = str_lower u in
       if scheme \<in> {''http'', ''https''} then Inr scheme
       else Inl (ProxyHeaderError ''unsupported forwarded scheme''))"

definition single_scheme :: "string list \<Rightarrow> proxy_error + string option" where
  "single_scheme values =
     (case values of
        [] \<Rightarrow> Inr None
      | v # _ \<Rightarrow>
          if \<not> is_ascii v then Inl (ProxyHeaderError ''invalid forwarded scheme encoding'')
          else if CHR '','' \<in> set v then Inl (ProxyHeaderError ''multiple forwarded scheme values'')
          else bind_res (validate_scheme (str_strip v)) (\<lambda>s. Inr (Some s)))"

definition single_host :: "string list \<Rightarrow> proxy_error + forwarded_host option" where
  "single_host values =
     (case values of
        [] \<Rightarrow> Inr None
      | v # _ \<Rightarrow>
          if \<not> is_ascii v then Inl (ProxyHeaderError ''invalid forwarded host encoding'')
          else if CHR '','' \<in> set v then Inl (ProxyHeaderError ''multiple forwarded host values'')
          else bind_res (parse_forwarded_host (str_strip v)) (\<lambda>h. Inr (Some h)))"

type_synonym 'a forwarding = "'a list \<times> string option \<times> forwarded_host option"

definition parse_x_forwarded ::
  "'a ip_library \<Rightarrow> http_request \<Rightarrow> proxy_error + 'a forwarding" where
  "parse_x_forwarded ip rq =
     (case header_values ''x-forwarded-for'' rq of
        [v] \<Rightarrow>
          if \<not> is_ascii v then Inl (ProxyHeaderError ''invalid x-forwarded-for encoding'')
          else
            bind_res (bind_res (split_quoted v (CHR '','')) (map_res (parse_forwarded_address ip))) (\<lambda>chain.
            bind_res (single_scheme (header_values ''x-forwarded-proto'' rq)) (\<lambda>scheme.
            bind_res (single_host (header_values ''x-forwarded-host'' rq)) (\<lambda>host.
              Inr (chain, scheme, host))))
      | _ \<Rightarrow> Inl (ProxyHeaderError ''x-forwarded-for is required''))"

fun forwarded_parameters ::
  "string list \<Rightarrow> (string, string) dict \<Rightarrow> proxy_error + (string, string) dict" where
  "forwarded_parameters [] acc = Inr acc"
| "forwarded_parameters (p # ps) acc =
     (case cut_at (CHR ''='') p of
        None \<Rightarrow> Inl (ProxyHeaderError ''malformed forwarded parameter'')
      | Some (k, v) \<Rightarrow>
          let key = str_lower (str_strip k) in
          if key \<notin> {''for'', ''by'', ''proto'', ''host''} \<or> map_of acc key \<noteq> None
          then Inl (ProxyHeaderError ''unknown or duplicate forwarded parameter'')
          else forwarded_parameters ps (AList.update key (str_strip v) acc))"

text \<open>One element of the header: its address and, if given, its scheme and host.\<close>

definition forwarded_element ::
  "'a ip_library \<Rightarrow> string \<Rightarrow> proxy_error + 'a \<times> string option \<times> forwarded_host option" where
  "forwarded_element ip element =
     bind_res (split_quoted element (CHR '';'')) (\<lambda>ps.
     bind_res (forwarded_parameters ps []) (\<lambda>params.
       (case map_of params ''for'' of
          None \<Rightarrow> Inl (ProxyHeaderError ''forwarded for parameter is required'')
        | Some f \<Rightarrow>
            bind_res (parse_forwarded_address ip f) (\<lambda>a.
            bind_res (case map_of params ''proto'' of
                        None \<Rightarrow> Inr None
                      | Some v \<Rightarrow> bind_res (validate_scheme v) (\<lambda>s. Inr (Some s))) (\<lambda>scheme.
            bind_res (case map_of params ''host'' of
                        None \<Rightarrow> Inr None
                      | Some v \<Rightarrow> bind_res (parse_forwarded_host v) (\<lambda>h. Inr (Some h))) (\<lambda>host.
              Inr (a, scheme, host)))))))"

definition somes :: "'a option list \<Rightarrow> 'a list" where
  "somes xs = map the (filter (\<lambda>x. x \<noteq> None) xs)"

definition parse_forwarded :: "'a ip_library \<Rightarrow> string \<Rightarrow> proxy_error + 'a forwarding" where
  "parse_forwarded ip raw =
     (if \<not> is_ascii raw then Inl (ProxyHeaderError ''invalid forwarded encoding'')
      else
        bind_res (bind_res (split_quoted raw (CHR '','')) (map_res (forwarded_element ip))) (\<lambda>es.
          let schemes = somes (map (fst \<circ> snd) es); hosts = somes (map (snd \<circ> snd) es) in
          if length (remdups schemes) > 1
          then Inl (ProxyHeaderError ''conflicting forwarded proto values'')
          else if length (remdups (map (snd \<circ> snd) hosts)) > 1
          then Inl (ProxyHeaderError ''conflicting forwarded host values'')
          else Inr (map fst es,
                    if schemes \<noteq> [] then Some (hd schemes) else None,
                    if hosts \<noteq> [] then Some (hd hosts) else None)))"

section \<open>The middleware\<close>

definition client_from_chain :: "'a ip_library \<Rightarrow> 'a list \<Rightarrow> proxy_error + 'a" where
  "client_from_chain ip chain =
     (if chain = [] then Inl (ProxyHeaderError ''empty forwarding chain'')
      else (case find (\<lambda>a. \<not> in_trusted ip a) (rev chain) of
              Some a \<Rightarrow> Inr a
            | None \<Rightarrow> Inr (hd chain)))"

definition forwarding_names :: "string list" where
  "forwarding_names = [''forwarded'', ''x-forwarded-for'', ''x-forwarded-proto'', ''x-forwarded-host'']"

definition header_names :: "http_request \<Rightarrow> string list" where
  "header_names rq = map (str_lower \<circ> fst) (rq_headers rq)"

definition set_host :: "forwarded_host \<Rightarrow> http_request \<Rightarrow> http_request" where
  "set_host h rq =
     (case h of (hostname, port, serialized) \<Rightarrow>
        rq\<lparr>rq_server := Some (hostname,
             case port of Some p \<Rightarrow> int p
             | None \<Rightarrow> (case rq_server rq of None \<Rightarrow> 0 | Some (_, p) \<Rightarrow> p)),
           rq_headers := filter (\<lambda>x. str_lower (fst x) \<noteq> ''host'') (rq_headers rq) @ [(''host'', serialized)]\<rparr>)"

text \<open>The checks on the headers themselves, as the message of the first that fails.\<close>

definition forwarding_conflict :: "http_request \<Rightarrow> string option" where
  "forwarding_conflict rq =
     (let names = header_names rq;
          forwarded = header_values ''forwarded'' rq;
          xs = map (\<lambda>n. header_values n rq) (tl forwarding_names) in
      if (\<exists>n \<in> set names. starts_with ''x-forwarded-'' n \<and> n \<notin> set forwarding_names) \<or>
         ''x-real-ip'' \<in> set names
      then Some ''unsupported forwarding header''
      else if forwarded \<noteq> [] \<and> (\<exists>v \<in> set xs. v \<noteq> [])
      then Some ''forwarded header families conflict''
      else if length forwarded > 1 \<or> (\<exists>v \<in> set xs. length v > 1)
      then Some ''duplicate forwarding header''
      else None)"

definition parse_forwarding :: "'a ip_library \<Rightarrow> http_request \<Rightarrow> proxy_error + 'a forwarding" where
  "parse_forwarding ip rq =
     (if header_values ''forwarded'' rq \<noteq> [] then parse_forwarded ip (hd (header_values ''forwarded'' rq))
      else if \<exists>n \<in> set (tl forwarding_names). header_values n rq \<noteq> [] then parse_x_forwarded ip rq
      else Inl (ProxyHeaderError ''unsupported forwarding header''))"

definition apply_forwarding ::
  "'a ip_library \<Rightarrow> http_request \<Rightarrow> 'a \<Rightarrow> string option \<Rightarrow> forwarded_host option \<Rightarrow> http_request" where
  "apply_forwarding ip rq a scheme host =
     (let rq1 = rq\<lparr>rq_client := Some (ip_text ip a)\<rparr>;
          rq2 = (case scheme of None \<Rightarrow> rq1 | Some s \<Rightarrow> rq1\<lparr>rq_scheme := s\<rparr>)
      in (case host of None \<Rightarrow> rq2 | Some h \<Rightarrow> set_host h rq2))"

definition prepare_scope :: "'a ip_library \<Rightarrow> http_request \<Rightarrow> proxy_error + http_request" where
  "prepare_scope ip rq =
     (case ip_address ip (case rq_client rq of None \<Rightarrow> [] | Some c \<Rightarrow> c) of
        None \<Rightarrow> Inl (ProxyHeaderError ''direct peer is not an IP literal'')
      | Some peer \<Rightarrow>
          if \<not> in_trusted ip peer
          then Inl (ProxyHeaderError (''forwarding headers came from untrusted peer '' @ ip_text ip peer))
          else (case forwarding_conflict rq of
                  Some message \<Rightarrow> Inl (ProxyHeaderError message)
                | None \<Rightarrow>
                    bind_res (parse_forwarding ip rq) (\<lambda>(chain, scheme, host).
                    bind_res (client_from_chain ip chain) (\<lambda>a.
                      Inr (apply_forwarding ip rq a scheme host)))))"

definition has_forwarding :: "http_request \<Rightarrow> bool" where
  "has_forwarding rq \<longleftrightarrow>
     (\<exists>n \<in> set (header_names rq). n = ''forwarded'' \<or> n = ''x-real-ip'' \<or> starts_with ''x-forwarded-'' n)"

definition trusted_proxy_headers ::
  "'a ip_library \<Rightarrow> string \<Rightarrow> http_request \<Rightarrow> middleware_result" where
  "trusted_proxy_headers ip fresh rq =
     (if rq_type rq \<noteq> ''http'' then Forwarded None rq
      else if \<not> has_forwarding rq then Forwarded None rq
      else (case prepare_scope ip rq of
              Inl _ \<Rightarrow> Answered (security_error_response 400 ''invalid_proxy_headers''
                 ''The forwarding headers are invalid for this deployment.''
                 (request_id_for_scope fresh rq) (path_scope (rq_path rq)))
            | Inr prepared \<Rightarrow> Forwarded None prepared))"

section \<open>Spoofing\<close>

text \<open>
  C25: what a client writes into the forwarding chain cannot change the address a trusted proxy
  reported for it.  If the last addresses of the chain are trusted proxies and the one before
  them is not, that one is the client, whatever precedes it in the chain.
\<close>

theorem chain_prefix_irrelevant:
  assumes "\<not> in_trusted ip a" and "\<forall>b \<in> set proxies. in_trusted ip b"
  shows "client_from_chain ip (spoofed @ [a] @ proxies) = Inr a"
proof -
  have "find (\<lambda>x. \<not> in_trusted ip x) (rev (spoofed @ [a] @ proxies)) = Some a"
  proof -
    have "find (\<lambda>x. \<not> in_trusted ip x) (rev proxies @ a # rev spoofed) = Some a"
      if "\<forall>b \<in> set ps. in_trusted ip b" "rev proxies = ps" for ps
      unfolding that(2) using that(1) assms(1) by (induction ps) auto
    from this [of "rev proxies"] assms(2) show ?thesis by simp
  qed
  then show ?thesis by (simp add: client_from_chain_def)
qed

lemma apply_forwarding_client [simp]:
  "rq_client (apply_forwarding ip rq a scheme host) = Some (ip_text ip a)"
  by (auto simp: apply_forwarding_def set_host_def Let_def split: option.splits prod.splits)

lemma prepare_scope_Inr:
  "prepare_scope ip rq = Inr rq' \<longleftrightarrow>
     (\<exists>peer chain scheme host a.
        ip_address ip (case rq_client rq of None \<Rightarrow> [] | Some c \<Rightarrow> c) = Some peer \<and> in_trusted ip peer \<and>
        forwarding_conflict rq = None \<and> parse_forwarding ip rq = Inr (chain, scheme, host) \<and>
        client_from_chain ip chain = Inr a \<and> rq' = apply_forwarding ip rq a scheme host)"
  by (auto simp: prepare_scope_def res_Inr split: option.splits)

lemma no_conflict:
  assumes "forwarding_conflict rq = None"
  shows "''x-real-ip'' \<notin> set (header_names rq)"
    and "header_values ''forwarded'' rq = [] \<or> header_values ''x-forwarded-for'' rq = []"
    and "length (header_values ''forwarded'' rq) \<le> 1" and "length (header_values ''x-forwarded-for'' rq) \<le> 1"
proof -
  define xs where "xs = map (\<lambda>n. header_values n rq) (tl forwarding_names)"
  have x: "header_values ''x-forwarded-for'' rq \<in> set xs" by (simp add: xs_def forwarding_names_def)
  have "\<not> ((\<exists>n \<in> set (header_names rq). starts_with ''x-forwarded-'' n \<and> n \<notin> set forwarding_names) \<or>
       ''x-real-ip'' \<in> set (header_names rq))"
    and fam: "\<not> (header_values ''forwarded'' rq \<noteq> [] \<and> (\<exists>v \<in> set xs. v \<noteq> []))"
    and dup: "\<not> (length (header_values ''forwarded'' rq) > 1 \<or> (\<exists>v \<in> set xs. length v > 1))"
    using assms unfolding forwarding_conflict_def Let_def xs_def [symmetric]
    by (simp_all only: split: if_splits) simp_all
  then show "''x-real-ip'' \<notin> set (header_names rq)"
    and "header_values ''forwarded'' rq = [] \<or> header_values ''x-forwarded-for'' rq = []"
    and "length (header_values ''forwarded'' rq) \<le> 1" and "length (header_values ''x-forwarded-for'' rq) \<le> 1"
    using x by (blast, blast, force, force)
qed

text \<open>
  Forwarding headers take effect only when the direct peer is a trusted proxy: a request
  with such headers that is handed on came from a trusted peer, carries headers of one family
  only and none twice, and the client address it is handed on with is the last address of the
  parsed chain that is not a trusted proxy (the first, if all are); every other request with
  forwarding headers is answered 400, and one without them is handed on unchanged.
\<close>

theorem forwarding_only_from_trusted:
  assumes "rq_type rq = ''http''"
  shows "case trusted_proxy_headers ip fresh rq of
      Forwarded pr rq' \<Rightarrow>
        (if \<not> has_forwarding rq then rq' = rq
         else (\<exists>peer. ip_address ip (case rq_client rq of None \<Rightarrow> [] | Some c \<Rightarrow> c) = Some peer \<and>
                 in_trusted ip peer) \<and>
              ''x-real-ip'' \<notin> set (header_names rq) \<and>
              (header_values ''forwarded'' rq = [] \<or> header_values ''x-forwarded-for'' rq = []) \<and>
              length (header_values ''forwarded'' rq) \<le> 1 \<and>
              length (header_values ''x-forwarded-for'' rq) \<le> 1 \<and>
              (\<exists>chain scheme host a. parse_forwarding ip rq = Inr (chain, scheme, host) \<and>
                 client_from_chain ip chain = Inr a \<and> rq_client rq' = Some (ip_text ip a)))
    | Answered r \<Rightarrow> has_forwarding rq \<and> sr_status r = 400
    | Crashed \<Rightarrow> False"
proof (cases "has_forwarding rq")
  case False
  with assms show ?thesis by (simp add: trusted_proxy_headers_def)
next
  case True
  show ?thesis
  proof (cases "prepare_scope ip rq")
    case (Inl e)
    with True assms show ?thesis
      by (simp add: trusted_proxy_headers_def security_error_response_def)
  next
    case (Inr rq')
    then obtain peer chain scheme host a where p:
      "ip_address ip (case rq_client rq of None \<Rightarrow> [] | Some c \<Rightarrow> c) = Some peer" "in_trusted ip peer"
      "forwarding_conflict rq = None" "parse_forwarding ip rq = Inr (chain, scheme, host)"
      "client_from_chain ip chain = Inr a" "rq' = apply_forwarding ip rq a scheme host"
      unfolding prepare_scope_Inr by blast
    then have "rq_client rq' = Some (ip_text ip a)" by simp
    with p no_conflict [OF p(3)] True Inr assms show ?thesis
      by (simp add: trusted_proxy_headers_def)
  qed
qed

section \<open>Concrete headers\<close>

text \<open>IPv4 addresses as Python reads them: four decimal fields up to 255, no leading zeros.\<close>

definition octet :: "string \<Rightarrow> nat option" where
  "octet s = (if all_digits s \<and> length s \<le> 3 \<and> (hd s \<noteq> CHR ''0'' \<or> length s = 1) \<and> read_nat s \<le> 255
              then Some (read_nat s) else None)"

definition ipv4 :: "string \<Rightarrow> nat list option" where
  "ipv4 s = (let os = map octet (split_on (CHR ''.'') s) in
     if length os = 4 \<and> None \<notin> set os then Some (map the os) else None)"

definition ipv4_text :: "nat list \<Rightarrow> string" where
  "ipv4_text a = concat (map (\<lambda>(i, n). (if i = 0 then [] else ''.'') @ nat_str n) (enumerate 0 a))"

definition demo_ip :: "nat list ip_library" where
  "demo_ip = \<lparr>ip_address = ipv4, ip_text = ipv4_text, in_trusted = (\<lambda>a. hd a = 10)\<rparr>"

theorem chain_prefix_irrelevant_witness:
  "client_from_chain demo_ip ([[1, 2, 3, 4], [10, 9, 9, 9]] @ [[8, 8, 8, 8]] @ [[10, 0, 0, 2]]) = Inr [8, 8, 8, 8]"
  by (rule chain_prefix_irrelevant) (simp_all add: demo_ip_def)

definition demo_forwarded :: "string \<Rightarrow> http_request" where
  "demo_forwarded peer = \<lparr>rq_type = ''http'', rq_method = ''GET'', rq_path = ''/compat'',
     rq_headers = [(''X-Forwarded-For'', ''1.2.3.4, 8.8.8.8, 10.0.0.2'')], rq_client = Some peer,
     rq_scheme = ''http'', rq_server = None\<rparr>"

theorem forwarding_only_from_trusted_witness:
  "(case trusted_proxy_headers demo_ip [] (demo_forwarded ''9.9.9.9'') of
      Answered r \<Rightarrow> sr_status r = 400 | _ \<Rightarrow> False)"
proof -
  have "rq_type (demo_forwarded ''9.9.9.9'') = ''http''" by (simp add: demo_forwarded_def)
  note * = forwarding_only_from_trusted [OF this, of demo_ip "[]"]
  have "(case trusted_proxy_headers demo_ip [] (demo_forwarded ''9.9.9.9'') of
      Answered _ \<Rightarrow> True | _ \<Rightarrow> False)" by code_simp
  with * show ?thesis by (auto split: middleware_result.splits)
qed

end
