(* ===== verification/Configuration_References.thy ===== *)
theory Configuration_References
  imports Validation
begin

text \<open>
  \<open>configuration/dependencies.py\<close> and the issue of \<open>validation/references.py\<close>: the entities of
  a configuration, the references between them with their place in the payload, and the
  rewriting of the targets at these places.
\<close>

section \<open>Entities\<close>

datatype entity_kind = Component | External_agent | Main_agent | Mcp_tool | Subagent | Workflow

fun kind_text :: "entity_kind \<Rightarrow> string" where
  "kind_text Component = ''component''"
| "kind_text External_agent = ''external_agent''"
| "kind_text Main_agent = ''main_agent''"
| "kind_text Mcp_tool = ''mcp_tool''"
| "kind_text Subagent = ''subagent''"
| "kind_text Workflow = ''workflow''"

record configuration_entity =
  ce_id :: string
  ce_kind :: entity_kind
  ce_name :: string
  ce_payload :: "(string, json) dict"
  ce_component_type :: string

datatype path_segment = Key string | Index nat

type_synonym location = "path_segment list"

record configuration_reference =
  cr_owner_id :: string
  cr_owner_kind :: entity_kind
  cr_owner_name :: string
  cr_path :: string
  cr_target_id :: string
  cr_target_kind :: entity_kind
  cr_target_component_type :: string
  cr_location :: location

definition field :: "string \<Rightarrow> (string, json) dict \<Rightarrow> json" where
  "field k d = (case map_of d k of None \<Rightarrow> JNull | Some v \<Rightarrow> v)"

fun dict_records :: "json list \<Rightarrow> (string, json) dict list" where
  "dict_records [] = []"
| "dict_records (JObj d # xs) = d # dict_records xs"
| "dict_records (_ # xs) = dict_records xs"

definition records_of :: "json \<Rightarrow> (string, json) dict list" where
  "records_of v = (case json_list v of None \<Rightarrow> [] | Some xs \<Rightarrow> dict_records xs)"

text \<open>Python's \<open>str\<close> of a JSON value is a parameter (it is the text itself for a text).\<close>

type_synonym to_text = "json \<Rightarrow> string"

definition text_field :: "to_text \<Rightarrow> string \<Rightarrow> (string, json) dict \<Rightarrow> string" where
  "text_field txt k d = txt (case map_of d k of None \<Rightarrow> JStr [] | Some v \<Rightarrow> v)"

definition entity_of ::
  "to_text \<Rightarrow> entity_kind \<Rightarrow> string \<Rightarrow> string \<Rightarrow> (string, json) dict \<Rightarrow> configuration_entity" where
  "entity_of txt kind ctype name_key r =
     \<lparr>ce_id = text_field txt ''id'' r, ce_kind = kind, ce_name = text_field txt name_key r,
      ce_payload = r, ce_component_type = ctype\<rparr>"

definition iter_configuration_entities ::
  "to_text \<Rightarrow> (string, json) dict \<Rightarrow> configuration_entity list" where
  "iter_configuration_entities txt config =
     (case field ''components'' config of
        JObj types \<Rightarrow>
          concat (map (\<lambda>(ctype, values). map (entity_of txt Component ctype ''name'') (records_of values)) types)
      | _ \<Rightarrow> []) @
     map (entity_of txt Main_agent [] ''name'') (records_of (field ''main_agents'' config)) @
     map (entity_of txt Subagent [] ''component_name'') (records_of (field ''subagents'' config)) @
     map (entity_of txt External_agent [] ''name'') (records_of (field ''external_agents'' config)) @
     map (entity_of txt Workflow [] ''name'') (records_of (field ''workflows'' config)) @
     map (entity_of txt Mcp_tool [] ''name'') (records_of (field ''mcp_tools'' config))"

section \<open>References\<close>

definition target_text :: "json \<Rightarrow> string" where
  "target_text v = (case json_str v of None \<Rightarrow> [] | Some s \<Rightarrow> s)"

text \<open>A path is its location written with dots and brackets.\<close>

fun path_text :: "location \<Rightarrow> string" where
  "path_text [] = []"
| "path_text [Key k] = k"
| "path_text (Key k # Index i # rest) =
     k @ ''['' @ nat_str i @ '']'' @ (if rest = [] then [] else ''.'' @ path_text rest)"
| "path_text (Key k # rest) = k @ ''.'' @ path_text rest"
| "path_text (Index i # rest) = path_text rest"

definition mk_reference ::
  "configuration_entity \<Rightarrow> json \<Rightarrow> entity_kind \<Rightarrow> string \<Rightarrow> location \<Rightarrow> configuration_reference" where
  "mk_reference owner target kind ctype loc =
     \<lparr>cr_owner_id = ce_id owner, cr_owner_kind = ce_kind owner, cr_owner_name = ce_name owner,
      cr_path = path_text loc, cr_target_id = target_text target, cr_target_kind = kind,
      cr_target_component_type = ctype, cr_location = loc\<rparr>"

text \<open>The references of one list of the payload: one per record, at the given field.\<close>

definition list_references ::
  "configuration_entity \<Rightarrow> (string, json) dict \<Rightarrow> string list \<Rightarrow> string \<Rightarrow> string \<Rightarrow> entity_kind \<Rightarrow>
   ((string, json) dict \<Rightarrow> string) \<Rightarrow> configuration_reference list" where
  "list_references owner d base list_key target_key kind ctype =
     map (\<lambda>(i, item). mk_reference owner (field target_key item) kind (ctype item)
            (map Key base @ [Key list_key, Index i, Key target_key]))
       (enumerate 0 (records_of (field list_key d)))"

definition scalar_reference ::
  "configuration_entity \<Rightarrow> string \<Rightarrow> string \<Rightarrow> configuration_reference list" where
  "scalar_reference owner key ctype =
     (if field key (ce_payload owner) \<noteq> JNull
      then [mk_reference owner (field key (ce_payload owner)) Component ctype [Key key]]
      else [])"

definition main_agent_references :: "to_text \<Rightarrow> configuration_entity \<Rightarrow> configuration_reference list" where
  "main_agent_references txt owner =
     list_references owner (ce_payload owner) [] ''capability_refs'' ''block_id'' Component (text_field txt ''type'') @
     list_references owner (ce_payload owner) [] ''tool_refs'' ''tool_id'' Component (\<lambda>_. ''custom-tool'') @
     list_references owner (ce_payload owner) [] ''middleware_refs'' ''middleware_id'' Component
       (\<lambda>_. ''custom-middleware'') @
     list_references owner (ce_payload owner) [] ''mcp_refs'' ''requirement_id'' Component
       (\<lambda>_. ''mcp-requirement'') @
     list_references owner (ce_payload owner) [] ''subagents'' ''subagent_id'' Subagent (\<lambda>_. [])"

definition component_references :: "configuration_entity \<Rightarrow> configuration_reference list" where
  "component_references owner =
     (if ce_component_type owner = ''filesystem'' then scalar_reference owner ''skill_package_id'' ''skill''
      else []) @
     (if ce_component_type owner = ''command''
      then list_references owner (ce_payload owner) [] ''mcp_refs'' ''requirement_id'' Component
             (\<lambda>_. ''mcp-requirement'')
      else [])"

definition override_references ::
  "to_text \<Rightarrow> configuration_entity \<Rightarrow> (string, json) dict \<Rightarrow> configuration_reference list" where
  "override_references txt owner settings =
     map (\<lambda>(i, item). mk_reference owner (field ''block_id'' item) Component (text_field txt ''type'' item)
            [Key ''settings'', Key ''capability_overrides'', Index i, Key ''block_id''])
       (filter (\<lambda>(i, item). field ''mode'' item = JStr ''replace'')
          (enumerate 0 (records_of (field ''capability_overrides'' settings))))"

definition object_or_empty :: "string \<Rightarrow> (string, json) dict \<Rightarrow> (string, json) dict option" where
  "object_or_empty k d = (case map_of d k of None \<Rightarrow> Some [] | Some v \<Rightarrow> json_obj v)"

definition subagent_references :: "to_text \<Rightarrow> configuration_entity \<Rightarrow> configuration_reference list" where
  "subagent_references txt owner =
     (case object_or_empty ''settings'' (ce_payload owner) of
        None \<Rightarrow> []
      | Some settings \<Rightarrow>
          override_references txt owner settings @
          list_references owner settings [''settings''] ''tool_refs'' ''tool_id'' Component (\<lambda>_. ''custom-tool'') @
          list_references owner settings [''settings''] ''middleware_refs'' ''middleware_id'' Component
            (\<lambda>_. ''custom-middleware'') @
          list_references owner settings [''settings''] ''mcp_refs'' ''requirement_id'' Component
            (\<lambda>_. ''mcp-requirement''))"

definition node_location :: "nat \<Rightarrow> string \<Rightarrow> location" where
  "node_location i k = [Key ''definition'', Key ''nodes'', Index i, Key ''config'', Key k]"

definition command_node_references ::
  "configuration_entity \<Rightarrow> bool \<Rightarrow> nat \<times> (string, json) dict \<Rightarrow> configuration_reference list" where
  "command_node_references owner with_agents x =
     (case x of (i, node) \<Rightarrow>
       (case object_or_empty ''config'' node of
          None \<Rightarrow> []
        | Some config \<Rightarrow>
            if field ''type'' node \<noteq> JStr ''command'' then []
            else
              [mk_reference owner (field ''command_id'' config) Component ''command''
                 (node_location i ''command_id'')] @
              (if with_agents \<and> field ''external_agent_id'' config \<noteq> JNull
               then [mk_reference owner (field ''external_agent_id'' config) External_agent []
                       (node_location i ''external_agent_id'')]
               else [])))"

definition graph_references :: "configuration_entity \<Rightarrow> bool \<Rightarrow> configuration_reference list" where
  "graph_references owner with_agents =
     (case object_or_empty ''definition'' (ce_payload owner) of
        None \<Rightarrow> []
      | Some d \<Rightarrow>
          concat (map (command_node_references owner with_agents)
            (enumerate 0 (records_of (field ''nodes'' d)))))"

definition workflow_references :: "configuration_entity \<Rightarrow> configuration_reference list" where
  "workflow_references owner =
     scalar_reference owner ''python_schema_id'' ''python-schema'' @
     scalar_reference owner ''workflow_event_output_id'' ''workflow-event-output'' @
     graph_references owner True"

definition mcp_tool_references :: "configuration_entity \<Rightarrow> configuration_reference list" where
  "mcp_tool_references owner =
     scalar_reference owner ''python_schema_id'' ''python-schema'' @
     graph_references owner False"

definition iter_configuration_references ::
  "to_text \<Rightarrow> configuration_entity \<Rightarrow> configuration_reference list" where
  "iter_configuration_references txt owner =
     (case ce_kind owner of
        Component \<Rightarrow> component_references owner
      | Main_agent \<Rightarrow> main_agent_references txt owner
      | Subagent \<Rightarrow> subagent_references txt owner
      | Workflow \<Rightarrow> workflow_references owner
      | Mcp_tool \<Rightarrow> mcp_tool_references owner
      | External_agent \<Rightarrow> [])"

section \<open>Rewriting\<close>

datatype rewrite_error = OmitsTarget string | Key_error | Index_error | Type_error

text \<open>Assignment at a location of the payload: lookups on the way, then one assignment.\<close>

fun json_assign :: "location \<Rightarrow> json \<Rightarrow> json \<Rightarrow> rewrite_error + json" where
  "json_assign [] v _ = Inr v"
| "json_assign [Key k] v (JObj d) = Inr (JObj (AList.update k v d))"
| "json_assign (Key k # rest) v (JObj d) =
     (case map_of d k of
        None \<Rightarrow> Inl Key_error
      | Some x \<Rightarrow> bind_res (json_assign rest v x) (\<lambda>y. Inr (JObj (AList.update k y d))))"
| "json_assign (Index i # rest) v (JList xs) =
     (if i < length xs then bind_res (json_assign rest v (xs ! i)) (\<lambda>y. Inr (JList (xs[i := y])))
      else Inl Index_error)"
| "json_assign _ _ _ = Inl Type_error"

fun rewrite_loop ::
  "(string \<Rightarrow> string option) \<Rightarrow> bool \<Rightarrow> configuration_reference list \<Rightarrow> json \<Rightarrow> rewrite_error + json" where
  "rewrite_loop target_ids preserve [] p = Inr p"
| "rewrite_loop target_ids preserve (r # rs) p =
     (case target_ids (cr_target_id r) of
        None \<Rightarrow> if preserve then rewrite_loop target_ids preserve rs p
                else Inl (OmitsTarget (cr_target_id r))
      | Some t \<Rightarrow> bind_res (json_assign (cr_location r) (JStr t) p) (rewrite_loop target_ids preserve rs))"

definition rewrite_configuration_references ::
  "to_text \<Rightarrow> configuration_entity \<Rightarrow> (string, string) dict \<Rightarrow> bool \<Rightarrow> rewrite_error + json" where
  "rewrite_configuration_references txt owner target_ids preserve =
     rewrite_loop (map_of target_ids) preserve (iter_configuration_references txt owner)
       (JObj (ce_payload owner))"

section \<open>The issue of a reference\<close>

definition reference_target_type :: "configuration_reference \<Rightarrow> string" where
  "reference_target_type r =
     (if cr_target_component_type r \<noteq> [] then cr_target_component_type r else kind_text (cr_target_kind r))"

definition reference_target_matches :: "configuration_entity \<Rightarrow> configuration_reference \<Rightarrow> bool" where
  "reference_target_matches target r \<longleftrightarrow>
     ce_kind target = cr_target_kind r \<and>
     (cr_target_kind r \<noteq> Component \<or> ce_component_type target = cr_target_component_type r)"

definition entity_type_text :: "configuration_entity \<Rightarrow> string" where
  "entity_type_text e = (if ce_component_type e \<noteq> [] then ce_component_type e else kind_text (ce_kind e))"

definition configuration_reference_issue ::
  "configuration_entity \<Rightarrow> configuration_reference \<Rightarrow> configuration_entity option \<Rightarrow>
   validation_issue option" where
  "configuration_reference_issue owner r target =
     (let scope = (if ce_kind owner = Component then ''block'' else kind_text (ce_kind owner)) in
      case target of
        None \<Rightarrow> Some (reference_not_found_issue scope (ce_id owner) (ce_name owner)
                  (entity_type_text owner) (cr_path r) (cr_target_id r) (reference_target_type r))
      | Some t \<Rightarrow>
          if reference_target_matches t r then None
          else Some (reference_type_mismatch_issue scope (ce_id owner) (ce_name owner)
                  (entity_type_text owner) (cr_path r) (cr_target_id r) (reference_target_type r)
                  (entity_type_text t)))"

section \<open>Assignment at a location\<close>

fun json_get :: "location \<Rightarrow> json \<Rightarrow> json option" where
  "json_get [] v = Some v"
| "json_get (Key k # rest) (JObj d) = (case map_of d k of None \<Rightarrow> None | Some x \<Rightarrow> json_get rest x)"
| "json_get (Index i # rest) (JList xs) = (if i < length xs then json_get rest (xs ! i) else None)"
| "json_get _ _ = None"

lemma json_get_append:
  "json_get (a @ b) p = Option.bind (json_get a p) (json_get b)"
  by (induction a p rule: json_get.induct) (auto split: option.splits)

lemma json_assign_get: "json_assign loc v p = Inr q \<Longrightarrow> json_get loc q = Some v"
  by (induction loc v p arbitrary: q rule: json_assign.induct)
     (auto simp: dict_get_set res_Inr split: option.splits if_splits)

text \<open>Two locations of which neither lies inside the other.\<close>

definition diverge :: "location \<Rightarrow> location \<Rightarrow> bool" where
  "diverge a b \<longleftrightarrow> \<not> prefix a b \<and> \<not> prefix b a"

lemma diverge_sym: "diverge a b \<longleftrightarrow> diverge b a"
  by (auto simp: diverge_def)

lemma json_assign_other:
  "json_assign loc v p = Inr q \<Longrightarrow> \<not> prefix loc l \<Longrightarrow> \<not> prefix l loc \<Longrightarrow> json_get l q = json_get l p"
proof (induction loc v p arbitrary: q l rule: json_assign.induct)
  case (2 k v d)
  then show ?case by (cases l; cases "hd l") (auto simp: dict_get_set split: option.splits)
next
  case (3 k s rest v d)
  then obtain x y where x: "map_of d k = Some x" "json_assign (s # rest) v x = Inr y"
    "q = JObj (AList.update k y d)"
    by (auto simp: res_Inr split: option.splits)
  show ?case
  proof (cases "\<exists>l'. l = Key k # l'")
    case True
    then obtain l' where l: "l = Key k # l'" by blast
    with "3.IH" [OF x(1,2), of l'] "3.prems"(2,3) x show ?thesis by (simp add: dict_get_set)
  next
    case False
    with "3.prems"(3) x(3) show ?thesis
      by (cases l; cases "hd l") (auto simp: dict_get_set split: option.splits)
  qed
next
  case (4 i rest v xs)
  then obtain y where y: "i < length xs" "json_assign rest v (xs ! i) = Inr y" "q = JList (xs[i := y])"
    by (auto simp: res_Inr split: if_splits)
  show ?case
  proof (cases "\<exists>l'. l = Index i # l'")
    case True
    then obtain l' where l: "l = Index i # l'" by blast
    with "4.IH" [OF y(1,2), of l'] "4.prems"(2,3) y show ?thesis by simp
  next
    case False
    with "4.prems"(3) y(3) show ?thesis
      by (cases l; cases "hd l") (auto simp: nth_list_update)
  qed
qed auto

lemma json_assign_container:
  "json_assign loc v p = Inr q \<Longrightarrow> json_get l p = Some (JObj d) \<Longrightarrow> \<not> prefix loc l \<Longrightarrow>
     \<exists>d'. json_get l q = Some (JObj d')"
proof (cases "prefix l loc")
  case False
  moreover assume "json_assign loc v p = Inr q" "json_get l p = Some (JObj d)" "\<not> prefix loc l"
  ultimately show ?thesis using json_assign_other by metis
next
  case True
  then obtain rest where loc: "loc = l @ rest" by (auto simp: prefix_def)
  assume a: "json_assign loc v p = Inr q" "json_get l p = Some (JObj d)" "\<not> prefix loc l"
  then have "rest \<noteq> []" using loc by auto
  have "json_assign (l @ rest) v p = Inr q \<Longrightarrow> json_get l p = Some (JObj d) \<Longrightarrow>
      \<exists>d'. json_get l q = Some (JObj d')"
  proof (induction l p arbitrary: q rule: json_get.induct)
    case (1 w)
    then have "w = JObj d" by simp
    with 1(1) \<open>rest \<noteq> []\<close> show ?case
      by (cases rest; cases "hd rest"; cases "tl rest") (auto simp: res_Inr split: option.splits)
  next
    case (2 k l' dd)
    then obtain x where x: "map_of dd k = Some x" "json_get l' x = Some (JObj d)"
      by (auto split: option.splits)
    obtain s r where sr: "l' @ rest = s # r" using \<open>rest \<noteq> []\<close> by (cases "l' @ rest") auto
    with 2(2) x(1) obtain y where y: "json_assign (l' @ rest) v x = Inr y" "q = JObj (AList.update k y dd)"
      by (auto simp: res_Inr)
    from 2(1) [OF x(1) y(1) x(2)] y(2) show ?case by (simp add: dict_get_set)
  next
    case (3 i l' xs)
    then have x: "i < length xs" "json_get l' (xs ! i) = Some (JObj d)" by (auto split: if_splits)
    with 3(2) obtain y where y: "json_assign (l' @ rest) v (xs ! i) = Inr y" "q = JList (xs[i := y])"
      by (auto simp: res_Inr split: if_splits)
    from 3(1) [OF x(1) y(1) x(2)] y(2) x(1) show ?case by simp
  qed auto
  with a loc show ?thesis by blast
qed

text \<open>A location that ends in a field of an object can be assigned to.\<close>

definition assignable :: "location \<Rightarrow> json \<Rightarrow> bool" where
  "assignable loc p \<longleftrightarrow> (\<exists>l k d. loc = l @ [Key k] \<and> json_get l p = Some (JObj d))"

lemma json_assign_ok: "json_get l p = Some (JObj d) \<Longrightarrow> \<exists>q. json_assign (l @ [Key k]) v p = Inr q"
proof (induction l p rule: json_get.induct)
  case (2 k' rest d')
  then obtain x q where "map_of d' k' = Some x" "json_assign (rest @ [Key k]) v x = Inr q"
    by (auto split: option.splits)
  moreover obtain s r where "rest @ [Key k] = s # r" by (cases "rest @ [Key k]") auto
  ultimately show ?case by simp
next
  case (3 i rest xs)
  then show ?case by (auto split: if_splits)
qed auto

lemma assignable_keep:
  assumes "assignable loc p" and "json_assign loc' v p = Inr q" and "diverge loc' loc"
  shows "assignable loc q"
proof -
  obtain l k d where l: "loc = l @ [Key k]" "json_get l p = Some (JObj d)"
    using assms(1) by (auto simp: assignable_def)
  have "\<not> prefix loc' l" using assms(3) l(1) by (auto simp: diverge_def)
  from json_assign_container [OF assms(2) l(2) this] l(1) show ?thesis
    by (auto simp: assignable_def)
qed

section \<open>The rewriting loop\<close>

abbreviation prefix_free :: "location list \<Rightarrow> bool" where
  "prefix_free ls \<equiv> sorted_wrt diverge ls"

definition in_place :: "json \<Rightarrow> configuration_reference \<Rightarrow> bool" where
  "in_place p r \<longleftrightarrow> assignable (cr_location r) p"

lemma in_place_keep:
  "in_place p r \<Longrightarrow> json_assign (cr_location r') v p = Inr q \<Longrightarrow> diverge (cr_location r') (cr_location r) \<Longrightarrow>
     in_place q r"
  by (auto simp: in_place_def intro: assignable_keep)

lemma in_place_assign: "in_place p r \<Longrightarrow> \<exists>q. json_assign (cr_location r) v p = Inr q"
  by (auto simp: in_place_def assignable_def intro: json_assign_ok)

definition rewritten :: "(string \<Rightarrow> string option) \<Rightarrow> json \<Rightarrow> configuration_reference \<Rightarrow> json option" where
  "rewritten m p r =
     (case m (cr_target_id r) of
        None \<Rightarrow> json_get (cr_location r) p
      | Some t \<Rightarrow> Some (JStr t))"

lemma rewrite_loop_spec:
  assumes "prefix_free (map cr_location rs)"
    and "\<forall>r \<in> set rs. m (cr_target_id r) \<noteq> None \<longrightarrow> in_place p r"
    and "preserve \<or> (\<forall>r \<in> set rs. m (cr_target_id r) \<noteq> None)"
  shows "\<exists>q. rewrite_loop m preserve rs p = Inr q \<and>
           (\<forall>r \<in> set rs. json_get (cr_location r) q = rewritten m p r) \<and>
           (\<forall>l. (\<forall>r \<in> set rs. diverge (cr_location r) l) \<longrightarrow> json_get l q = json_get l p)"
  using assms
proof (induction rs arbitrary: p)
  case (Cons r rs)
  have pf: "prefix_free (map cr_location rs)" "\<forall>r' \<in> set rs. diverge (cr_location r) (cr_location r')"
    using Cons.prems(1) by auto
  show ?case
  proof (cases "m (cr_target_id r)")
    case None
    with Cons.prems(3) have "preserve" by auto
    with Cons.IH [of p] pf(1) Cons.prems(2) obtain q where
      q: "rewrite_loop m preserve rs p = Inr q" "\<forall>r' \<in> set rs. json_get (cr_location r') q = rewritten m p r'"
        "\<forall>l. (\<forall>r' \<in> set rs. diverge (cr_location r') l) \<longrightarrow> json_get l q = json_get l p"
      by auto
    moreover have "json_get (cr_location r) q = json_get (cr_location r) p"
      using q(3) pf(2) diverge_sym by blast
    ultimately show ?thesis using None \<open>preserve\<close> by (auto simp: rewritten_def)
  next
    case (Some t)
    have "in_place p r" using Cons.prems(2) Some by simp
    then obtain p' where p': "json_assign (cr_location r) (JStr t) p = Inr p'"
      using in_place_assign by blast
    have same: "diverge (cr_location r) l \<Longrightarrow> json_get l p' = json_get l p" for l
      using json_assign_other [OF p'] by (auto simp: diverge_def)
    have "\<forall>r' \<in> set rs. m (cr_target_id r') \<noteq> None \<longrightarrow> in_place p' r'"
      using Cons.prems(2) pf(2) in_place_keep [OF _ p'] by auto
    with Cons.IH [of p'] pf(1) Cons.prems(3) obtain q where
      q: "rewrite_loop m preserve rs p' = Inr q" "\<forall>r' \<in> set rs. json_get (cr_location r') q = rewritten m p' r'"
        "\<forall>l. (\<forall>r' \<in> set rs. diverge (cr_location r') l) \<longrightarrow> json_get l q = json_get l p'"
      by auto
    have "json_get (cr_location r) q = Some (JStr t)"
      using q(3) pf(2) diverge_sym json_assign_get [OF p'] by metis
    moreover have "rewritten m p' r' = rewritten m p r'" if "r' \<in> set rs" for r'
      using same pf(2) that by (auto simp: rewritten_def split: option.splits)
    ultimately show ?thesis using q Some p' same by (auto simp: rewritten_def)
  qed
qed auto

lemma rewrite_loop_omits:
  assumes "prefix_free (map cr_location rs)"
    and "\<forall>r \<in> set rs. m (cr_target_id r) \<noteq> None \<longrightarrow> in_place p r"
    and "\<exists>r \<in> set rs. m (cr_target_id r) = None"
  shows "\<exists>r \<in> set rs. m (cr_target_id r) = None \<and> rewrite_loop m False rs p = Inl (OmitsTarget (cr_target_id r))"
  using assms
proof (induction rs arbitrary: p)
  case (Cons r rs)
  show ?case
  proof (cases "m (cr_target_id r)")
    case (Some t)
    have "in_place p r" using Cons.prems(2) Some by simp
    then obtain p' where p': "json_assign (cr_location r) (JStr t) p = Inr p'"
      using in_place_assign by blast
    have "\<forall>r' \<in> set rs. m (cr_target_id r') \<noteq> None \<longrightarrow> in_place p' r'"
      using Cons.prems(1,2) in_place_keep [OF _ p'] by auto
    with Cons.IH [of p'] Cons.prems(1,3) Some p' show ?thesis by auto
  qed auto
qed auto

end
