(* ===== verification/Reference_Rewriting.thy ===== *)
theory Reference_Rewriting
  imports Configuration_References
begin

text \<open>
  What \<open>rewrite_configuration_references\<close> does to a payload: on payloads whose lists hold
  objects only, the locations of an entity's references diverge pairwise and hold the targets,
  so the rewriting moves every mapped target and changes nothing else.
\<close>

section \<open>Well-shaped payloads\<close>

fun is_object :: "json \<Rightarrow> bool" where
  "is_object (JObj _) = True"
| "is_object _ = False"

definition objects_only :: "json \<Rightarrow> bool" where
  "objects_only v = (case json_list v of None \<Rightarrow> True | Some xs \<Rightarrow> list_all is_object xs)"

definition object_lists :: "string list \<Rightarrow> (string, json) dict \<Rightarrow> bool" where
  "object_lists ks d \<longleftrightarrow> list_all (\<lambda>k. objects_only (field k d)) ks"

definition well_shaped :: "(string, json) dict \<Rightarrow> bool" where
  "well_shaped d \<longleftrightarrow>
     object_lists [''capability_refs'', ''tool_refs'', ''middleware_refs'', ''mcp_refs'', ''subagents''] d \<and>
     (case field ''settings'' d of
        JObj s \<Rightarrow> object_lists [''capability_overrides'', ''tool_refs'', ''middleware_refs'', ''mcp_refs''] s
      | _ \<Rightarrow> True) \<and>
     (case field ''definition'' d of JObj g \<Rightarrow> object_lists [''nodes''] g | _ \<Rightarrow> True)"

lemma dict_records_objects: "list_all is_object xs \<Longrightarrow> map JObj (dict_records xs) = xs"
  by (induction xs rule: dict_records.induct) auto

lemma field_get: "field k d \<noteq> JNull \<Longrightarrow> map_of d k = Some (field k d)"
  by (auto simp: field_def split: option.splits)

lemma records_get:
  assumes "objects_only (field k d)" and "i < length (records_of (field k d))"
  shows "json_get (Key k # Index i # rest) (JObj d) = json_get rest (JObj (records_of (field k d) ! i))"
proof -
  obtain xs where xs: "field k d = JList xs"
    using assms(2) by (cases "field k d") (auto simp: records_of_def)
  then have "map_of d k = Some (JList xs)" using field_get [of k d] by simp
  moreover have "xs = map JObj (records_of (field k d))"
    using assms(1) xs dict_records_objects by (auto simp: objects_only_def records_of_def)
  ultimately show ?thesis using assms(2) by (metis (no_types, lifting) json_get.simps(2,3) length_map nth_map option.simps(5))
qed

lemma records_item:
  assumes "objects_only (field k d)" and "i < length (records_of (field k d))"
  shows "json_get [Key k, Index i] (JObj d) = Some (JObj (records_of (field k d) ! i))"
  using records_get [OF assms, of "[]"] by (simp only: json_get.simps(1))

section \<open>Every reference sits at its location\<close>

text \<open>A reference with a target (not the empty text) is found where its location says.\<close>

definition located :: "json \<Rightarrow> configuration_reference \<Rightarrow> bool" where
  "located p r \<longleftrightarrow> (cr_target_id r \<noteq> [] \<longrightarrow>
     json_get (cr_location r) p = Some (JStr (cr_target_id r)) \<and> in_place p r)"

lemma target_text_Str: "target_text v \<noteq> [] \<Longrightarrow> v = JStr (target_text v)"
  by (cases v) (auto simp: target_text_def)

lemma located_mk:
  assumes "json_get l p = Some (JObj d)"
  shows "located p (mk_reference owner (field k d) kind ctype (l @ [Key k]))"
proof -
  have "map_of d k = Some (JStr (target_text (field k d)))" if "target_text (field k d) \<noteq> []"
    using target_text_Str [OF that] field_get [of k d] by (metis json.distinct(7))
  then show ?thesis using assms
    by (auto simp: located_def in_place_def assignable_def mk_reference_def json_get_append)
qed

lemma located_list:
  assumes "json_get (map Key base) p = Some (JObj d)" and "objects_only (field lk d)"
    and "r \<in> set (list_references owner d base lk tk kind ctype)"
  shows "located p r"
proof -
  obtain i item where i: "(i, item) \<in> set (enumerate 0 (records_of (field lk d)))"
    "r = mk_reference owner (field tk item) kind (ctype item) ((map Key base @ [Key lk, Index i]) @ [Key tk])"
    using assms(3) by (auto simp: list_references_def)
  then have "i < length (records_of (field lk d))" "item = records_of (field lk d) ! i"
    by (auto simp: in_set_enumerate_eq)
  then have "json_get (map Key base @ [Key lk, Index i]) p = Some (JObj item)"
    using assms(1) records_item [OF assms(2)] by (simp add: json_get_append del: json_get.simps(2,3))
  then show ?thesis unfolding i(2) by (rule located_mk)
qed

lemma located_scalar:
  "r \<in> set (scalar_reference owner k ctype) \<Longrightarrow> located (JObj (ce_payload owner)) r"
  using located_mk [of "[]" "JObj (ce_payload owner)" "ce_payload owner" owner k Component ctype]
  by (simp add: scalar_reference_def split: if_splits)

lemma located_overrides:
  assumes "json_get [Key ''settings''] p = Some (JObj s)" and "objects_only (field ''capability_overrides'' s)"
    and "r \<in> set (override_references txt owner s)"
  shows "located p r"
proof -
  let ?base = "[Key ''settings'', Key ''capability_overrides'']"
  obtain i item where i: "(i, item) \<in> set (enumerate 0 (records_of (field ''capability_overrides'' s)))"
    "r = mk_reference owner (field ''block_id'' item) Component (text_field txt ''type'' item)
           ((?base @ [Index i]) @ [Key ''block_id''])"
    using assms(3) by (auto simp: override_references_def)
  then have "i < length (records_of (field ''capability_overrides'' s))"
    "item = records_of (field ''capability_overrides'' s) ! i"
    by (auto simp: in_set_enumerate_eq)
  then have "json_get (?base @ [Index i]) p = Some (JObj item)"
    using assms(1) records_item [OF assms(2)]
      json_get_append [of "[Key ''settings'']" "[Key ''capability_overrides'', Index i]" p]
    by (simp del: json_get.simps(2,3))
  then show ?thesis unfolding i(2) by (rule located_mk)
qed

lemma located_node:
  assumes nodes: "json_get [Key ''definition''] p = Some (JObj g)" "objects_only (field ''nodes'' g)"
    and node: "(i, node) \<in> set (enumerate 0 (records_of (field ''nodes'' g)))"
    and r: "r \<in> set (command_node_references owner with_agents (i, node))"
  shows "located p r"
proof -
  from node have i: "i < length (records_of (field ''nodes'' g))" "node = records_of (field ''nodes'' g) ! i"
    by (auto simp: in_set_enumerate_eq)
  obtain config where c: "object_or_empty ''config'' node = Some config"
    using r by (cases "object_or_empty ''config'' node") (auto simp: command_node_references_def)
  let ?l = "[Key ''definition'', Key ''nodes'', Index i]"
  have l: "json_get ?l p = Some (JObj node)"
    using nodes(1) i records_item [OF nodes(2)]
      json_get_append [of "[Key ''definition'']" "[Key ''nodes'', Index i]" p]
    by (simp del: json_get.simps(2,3))
  have mk: "located p (mk_reference owner (field k config) kind ctype (node_location i k))" for k kind ctype
  proof (cases "map_of node ''config''")
    case None
    with c have "config = []" by (simp add: object_or_empty_def)
    then show ?thesis by (simp add: located_def mk_reference_def field_def target_text_def)
  next
    case (Some v)
    with c have "v = JObj config" by (cases v) (simp_all add: object_or_empty_def)
    with Some l have "json_get (?l @ [Key ''config'']) p = Some (JObj config)"
      by (simp only: json_get_append) simp
    then show ?thesis using located_mk [of "?l @ [Key ''config'']" p config owner k kind ctype]
      by (simp add: node_location_def)
  qed
  have "r = mk_reference owner (field ''command_id'' config) Component ''command'' (node_location i ''command_id'')
      \<or> r = mk_reference owner (field ''external_agent_id'' config) External_agent []
             (node_location i ''external_agent_id'')"
    using r c by (auto simp: command_node_references_def split: if_splits)
  then show ?thesis using mk by blast
qed

lemma object_field:
  assumes "object_or_empty k d = Some s"
  shows "s = [] \<or> map_of d k = Some (JObj s)"
  using assms by (auto simp: object_or_empty_def split: option.splits elim: json_obj.elims)

lemma located_graph:
  assumes "case field ''definition'' (ce_payload owner) of JObj g \<Rightarrow> object_lists [''nodes''] g | _ \<Rightarrow> True"
    and "r \<in> set (graph_references owner with_agents)"
  shows "located (JObj (ce_payload owner)) r"
proof -
  obtain g where g: "object_or_empty ''definition'' (ce_payload owner) = Some g"
    using assms(2) by (cases "object_or_empty ''definition'' (ce_payload owner)") (auto simp: graph_references_def)
  obtain i node where r: "(i, node) \<in> set (enumerate 0 (records_of (field ''nodes'' g)))"
    "r \<in> set (command_node_references owner with_agents (i, node))"
    using assms(2) g by (auto simp: graph_references_def)
  then have "g \<noteq> []" by (auto simp: field_def records_of_def)
  with object_field [OF g] have d: "map_of (ce_payload owner) ''definition'' = Some (JObj g)" by simp
  with assms(1) have "objects_only (field ''nodes'' g)" by (simp add: field_def object_lists_def)
  with d r show ?thesis by (intro located_node [of _ g]) auto
qed

lemma located_subagent:
  assumes "case field ''settings'' (ce_payload owner) of
      JObj s \<Rightarrow> object_lists [''capability_overrides'', ''tool_refs'', ''middleware_refs'', ''mcp_refs''] s
    | _ \<Rightarrow> True"
    and "r \<in> set (subagent_references txt owner)"
  shows "located (JObj (ce_payload owner)) r"
proof -
  obtain s where s: "object_or_empty ''settings'' (ce_payload owner) = Some s"
    using assms(2) by (cases "object_or_empty ''settings'' (ce_payload owner)") (auto simp: subagent_references_def)
  have "s \<noteq> []" using assms(2) s
    by (auto simp: subagent_references_def override_references_def list_references_def field_def records_of_def)
  with object_field [OF s] have d: "map_of (ce_payload owner) ''settings'' = Some (JObj s)" by simp
  then have get: "json_get (map Key [''settings'']) (JObj (ce_payload owner)) = Some (JObj s)" by simp
  have lists: "objects_only (field ''capability_overrides'' s)" "objects_only (field ''tool_refs'' s)"
    "objects_only (field ''middleware_refs'' s)" "objects_only (field ''mcp_refs'' s)"
    using assms(1) d by (auto simp: field_def object_lists_def)
  from assms(2) s show ?thesis
    using located_list [OF get] lists located_overrides [of _ s r] get
    by (auto simp: subagent_references_def)
qed

lemma references_located:
  assumes "well_shaped (ce_payload owner)" and "r \<in> set (iter_configuration_references txt owner)"
  shows "located (JObj (ce_payload owner)) r"
proof -
  have top: "json_get (map Key []) (JObj (ce_payload owner)) = Some (JObj (ce_payload owner))" by simp
  note lst = located_list [OF top]
  have lists: "object_lists [''capability_refs'', ''tool_refs'', ''middleware_refs'', ''mcp_refs'', ''subagents'']
      (ce_payload owner)"
    using assms(1) by (simp add: well_shaped_def)
  show ?thesis
  proof (cases "ce_kind owner")
    case Component
    with assms(2) lists lst located_scalar show ?thesis
      by (auto simp: iter_configuration_references_def component_references_def object_lists_def split: if_splits)
  next
    case Main_agent
    with assms(2) lists lst show ?thesis
      by (auto simp: iter_configuration_references_def main_agent_references_def object_lists_def)
  next
    case Subagent
    with assms show ?thesis
      by (intro located_subagent) (auto simp: well_shaped_def iter_configuration_references_def)
  next
    case Workflow
    with assms located_graph located_scalar show ?thesis
      by (auto simp: well_shaped_def iter_configuration_references_def workflow_references_def)
  next
    case Mcp_tool
    with assms located_graph located_scalar show ?thesis
      by (auto simp: well_shaped_def iter_configuration_references_def mcp_tool_references_def)
  qed (use assms(2) in \<open>auto simp: iter_configuration_references_def\<close>)
qed

section \<open>Locations never lie inside each other\<close>

lemma diverge_same_length: "length a = length b \<Longrightarrow> diverge a b \<longleftrightarrow> a \<noteq> b"
  by (auto simp: diverge_def prefix_def)

lemma diverge_heads [simp]: "x \<noteq> y \<Longrightarrow> diverge (x # a) (y # b)"
  by (auto simp: diverge_def)

lemma diverge_Cons [simp]: "diverge (x # a) (x # b) \<longleftrightarrow> diverge a b"
  by (auto simp: diverge_def)

lemma diverge_append [simp]: "diverge (c @ a) (c @ b) \<longleftrightarrow> diverge a b"
  by (auto simp: diverge_def)

lemma prefix_free_indexed:
  assumes "\<And>i j x y. i < j \<Longrightarrow> diverge (f (i, x)) (f (j, y))"
  shows "prefix_free (map f (enumerate n xs))"
  using assms by (induction xs arbitrary: n) (auto simp: in_set_enumerate_eq)

lemma prefix_free_list:
  "prefix_free (map cr_location (list_references owner d base lk tk kind ctype))"
  unfolding list_references_def map_map
  by (rule prefix_free_indexed) (auto simp: mk_reference_def)

lemma list_reference_location:
  "r \<in> set (list_references owner d base lk tk kind ctype) \<Longrightarrow>
     \<exists>i. cr_location r = map Key base @ [Key lk, Index i, Key tk]"
  by (auto simp: list_references_def mk_reference_def)

lemma scalar_location: "r \<in> set (scalar_reference owner k ctype) \<Longrightarrow> cr_location r = [Key k]"
  by (auto simp: scalar_reference_def mk_reference_def split: if_splits)

lemma prefix_free_scalar: "prefix_free (map cr_location (scalar_reference owner k ctype))"
  by (simp add: scalar_reference_def)

lemma override_location:
  "r \<in> set (override_references txt owner s) \<Longrightarrow>
     \<exists>i. cr_location r = [Key ''settings'', Key ''capability_overrides'', Index i, Key ''block_id'']"
  by (auto simp: override_references_def mk_reference_def)

lemma prefix_free_overrides: "prefix_free (map cr_location (override_references txt owner s))"
proof -
  have "prefix_free (map (\<lambda>x. cr_location (case x of (i, item) \<Rightarrow>
            mk_reference owner (field ''block_id'' item) Component (text_field txt ''type'' item)
              [Key ''settings'', Key ''capability_overrides'', Index i, Key ''block_id'']))
          (filter P (enumerate n xs)))" for P n and xs :: "(string, json) dict list"
    by (induction xs arbitrary: n) (auto simp: mk_reference_def in_set_enumerate_eq)
  then show ?thesis by (simp add: override_references_def comp_def)
qed

lemma node_reference_location:
  "r \<in> set (command_node_references owner w (i, node)) \<Longrightarrow> \<exists>k. cr_location r = node_location i k"
  by (auto simp: command_node_references_def mk_reference_def split: option.splits if_splits)

lemma prefix_free_node: "prefix_free (map cr_location (command_node_references owner w (i, node)))"
  by (auto simp: command_node_references_def mk_reference_def node_location_def diverge_same_length
      split: option.splits)

lemma prefix_free_nodes:
  "prefix_free (map cr_location (concat (map (command_node_references owner w) (enumerate n xs))))"
proof (induction xs arbitrary: n)
  case (Cons x xs)
  have "diverge (cr_location r) (cr_location r')"
    if r: "r \<in> set (command_node_references owner w (n, x))"
      "(j, y) \<in> set (enumerate (Suc n) xs)" "r' \<in> set (command_node_references owner w (j, y))" for r r' j y
  proof -
    have "n < j" using r(2) by (auto simp: in_set_enumerate_eq)
    then show ?thesis using node_reference_location [OF r(1)] node_reference_location [OF r(3)]
      by (auto simp: node_location_def)
  qed
  with Cons.IH show ?case by (auto simp: sorted_wrt_append prefix_free_node)
qed simp

lemma prefix_free_graph: "prefix_free (map cr_location (graph_references owner w))"
  by (auto simp: graph_references_def prefix_free_nodes simp del: map_concat split: option.splits)

lemma graph_reference_location:
  "r \<in> set (graph_references owner w) \<Longrightarrow> \<exists>i k. cr_location r = node_location i k"
  using node_reference_location
  by (cases "object_or_empty ''definition'' (ce_payload owner)") (fastforce simp: graph_references_def)+

lemmas prefix_free_parts = prefix_free_list prefix_free_scalar prefix_free_overrides prefix_free_graph
  sorted_wrt_append

lemma references_prefix_free: "prefix_free (map cr_location (iter_configuration_references txt owner))"
proof (cases "ce_kind owner")
  case Component
  then show ?thesis
    by (auto simp: iter_configuration_references_def component_references_def prefix_free_parts)
next
  case Main_agent
  then show ?thesis
    by (auto simp: iter_configuration_references_def main_agent_references_def prefix_free_parts
        dest!: list_reference_location)
next
  case Subagent
  then show ?thesis
    by (auto simp: iter_configuration_references_def subagent_references_def prefix_free_parts
        split: option.splits dest!: list_reference_location override_location)
next
  case Workflow
  then show ?thesis
    by (auto simp: iter_configuration_references_def workflow_references_def prefix_free_parts
        node_location_def dest!: scalar_location graph_reference_location)
next
  case Mcp_tool
  then show ?thesis
    by (auto simp: iter_configuration_references_def mcp_tool_references_def prefix_free_parts
        node_location_def dest!: scalar_location graph_reference_location)
qed (simp add: iter_configuration_references_def)

section \<open>Rewriting\<close>

lemma mapped_in_place:
  assumes "well_shaped (ce_payload owner)" and "map_of ids [] = None"
  shows "\<forall>r \<in> set (iter_configuration_references txt owner).
           map_of ids (cr_target_id r) \<noteq> None \<longrightarrow> in_place (JObj (ce_payload owner)) r"
  using references_located [OF assms(1)] assms(2) by (metis located_def)

lemma rewrite_spec:
  assumes "well_shaped (ce_payload owner)" and "map_of ids [] = None"
    and "preserve \<or> (\<forall>r \<in> set (iter_configuration_references txt owner). map_of ids (cr_target_id r) \<noteq> None)"
  shows "\<exists>q. rewrite_configuration_references txt owner ids preserve = Inr q \<and>
           (\<forall>r \<in> set (iter_configuration_references txt owner).
              json_get (cr_location r) q = rewritten (map_of ids) (JObj (ce_payload owner)) r) \<and>
           (\<forall>l. (\<forall>r \<in> set (iter_configuration_references txt owner). diverge (cr_location r) l) \<longrightarrow>
              json_get l q = json_get l (JObj (ce_payload owner)))"
  using rewrite_loop_spec [OF references_prefix_free mapped_in_place [OF assms(1,2)] assms(3)]
  unfolding rewrite_configuration_references_def .

lemma rewrite_omits:
  assumes "well_shaped (ce_payload owner)" and "map_of ids [] = None"
    and "\<exists>r \<in> set (iter_configuration_references txt owner). map_of ids (cr_target_id r) = None"
  shows "\<exists>r \<in> set (iter_configuration_references txt owner). map_of ids (cr_target_id r) = None \<and>
           rewrite_configuration_references txt owner ids False = Inl (OmitsTarget (cr_target_id r))"
  using rewrite_loop_omits [OF references_prefix_free mapped_in_place [OF assms(1,2)] assms(3)]
  unfolding rewrite_configuration_references_def .

definition demo_agent :: configuration_entity where
  "demo_agent =
     \<lparr>ce_id = ''m'', ce_kind = Main_agent, ce_name = ''main'',
      ce_payload =
        [(''name'', JStr ''main''),
         (''tool_refs'', JList [JObj [(''tool_id'', JStr ''a'')], JObj [(''tool_id'', JStr ''b'')]]),
         (''subagents'', JList [JObj [(''subagent_id'', JStr ''a''), (''note'', JInt 1)]])],
      ce_component_type = []\<rparr>"

definition plain_text :: to_text where
  "plain_text v = (case json_str v of None \<Rightarrow> [] | Some s \<Rightarrow> s)"


lemma demo_rewritten:
  "rewrite_configuration_references plain_text demo_agent [(''a'', ''x'')] True =
     Inr (JObj [(''name'', JStr ''main''),
       (''tool_refs'', JList [JObj [(''tool_id'', JStr ''x'')], JObj [(''tool_id'', JStr ''b'')]]),
       (''subagents'', JList [JObj [(''subagent_id'', JStr ''x''), (''note'', JInt 1)]])])"
  by code_simp

lemma demo_well_shaped: "well_shaped (ce_payload demo_agent)" "map_of [(''a'', ''x'')] [] = None"
  by code_simp+


text \<open>
  Without \<open>preserve_unmapped\<close> a well-shaped entity is rewritten exactly when every target is
  mapped; otherwise the error names an unmapped target of the entity.
\<close>

theorem rewrite_omits_target:
  assumes "well_shaped (ce_payload owner)" and "map_of ids [] = None"
  shows "(case rewrite_configuration_references txt owner ids False of
            Inr _ \<Rightarrow> \<forall>r \<in> set (iter_configuration_references txt owner). map_of ids (cr_target_id r) \<noteq> None
          | Inl e \<Rightarrow> \<exists>r \<in> set (iter_configuration_references txt owner).
                       map_of ids (cr_target_id r) = None \<and> e = OmitsTarget (cr_target_id r))"
proof (cases "\<exists>r \<in> set (iter_configuration_references txt owner). map_of ids (cr_target_id r) = None")
  case True
  from rewrite_omits [OF assms True] show ?thesis by auto
next
  case False
  with rewrite_spec [OF assms, of False "txt"] show ?thesis by auto
qed

theorem rewrite_omits_target_witness:
  "\<exists>e. rewrite_configuration_references plain_text demo_agent [(''a'', ''x'')] False = Inl e"
proof -
  have "\<exists>r \<in> set (iter_configuration_references plain_text demo_agent). map_of [(''a'', ''x'')] (cr_target_id r) = None"
    by code_simp
  with rewrite_omits_target [OF demo_well_shaped, of plain_text] show ?thesis
    by (auto split: sum.splits)
qed

end
