(* ===== verification/Configuration_Identity.thy ===== *)
theory Configuration_Identity
  imports Text_Ops
begin

text \<open>
  \<open>configuration/identity.py\<close>: configuration identifiers and the Windows-safe names of
  configurations, with the key by which two names collide.
\<close>

section \<open>Identifiers\<close>

definition hex_class :: "char \<Rightarrow> bool" where
  "hex_class c \<longleftrightarrow> digit_class c \<or> (97 \<le> char_nat c \<and> char_nat c \<le> 102)"

definition is_configuration_id :: "string \<Rightarrow> bool" where
  "is_configuration_id s \<longleftrightarrow>
     (case split_on (CHR ''-'') s of
        [a, b, c, d, e] \<Rightarrow>
          length a = 8 \<and> length b = 4 \<and> length c = 4 \<and> length d = 4 \<and> length e = 12 \<and>
          hd c = CHR ''4'' \<and> hd d \<in> set ''89ab'' \<and> list_all hex_class (a @ b @ c @ d @ e)
      | _ \<Rightarrow> False)"

section \<open>Names\<close>

definition upper_ascii :: "char \<Rightarrow> char" where
  "upper_ascii c = (if lower_char c then char_of (char_nat c - 32) else c)"

definition windows_invalid :: string where
  "windows_invalid = ''<>:'' @ [CHR 0x22] @ ''/'' @ [CHR 0x5C] @ ''|?*''"

definition windows_reserved :: "string list" where
  "windows_reserved =
     [''CON'', ''PRN'', ''AUX'', ''NUL'', ''CONIN$'', ''CONOUT$''] @
     map (\<lambda>i. ''COM'' @ nat_str i) [1..<10] @ map (\<lambda>i. ''LPT'' @ nat_str i) [1..<10]"

text \<open>
  The errors of \<open>normalize_configuration_name\<close>.  \<open>str.upper\<close> is applied for a comparison with
  the ASCII device names only: no other letter below code point 256 has its capital in one of
  them, so the ASCII capitals decide.
\<close>

datatype name_error = Name_required | Name_dots | Name_ending | Name_characters | Name_reserved

definition first_part :: "string \<Rightarrow> string" where
  "first_part name = takeWhile (\<lambda>c. c \<noteq> CHR ''.'') name"

definition normalize_configuration_name :: "string \<Rightarrow> name_error + string" where
  "normalize_configuration_name v =
     (let name = str_strip v in
      if name = [] then Inl Name_required
      else if name = ''.'' \<or> name = ''..'' then Inl Name_dots
      else if ends_with '' '' name \<or> ends_with ''.'' name then Inl Name_ending
      else if \<exists>c \<in> set name. c \<in> set windows_invalid \<or> char_nat c < 32 then Inl Name_characters
      else if map upper_ascii (first_part name) \<in> set windows_reserved then Inl Name_reserved
      else Inr name)"

text \<open>
  \<open>str.casefold\<close> on code points below 256: the capitals of ASCII and Latin-1, the sharp s (two
  letters) and the micro sign (a Greek letter).
\<close>

definition fold_char :: "char \<Rightarrow> nat list" where
  "fold_char c =
     (let n = char_nat c in
      if upper_char c \<or> 192 \<le> n \<and> n \<le> 222 \<and> n \<noteq> 215 then [n + 32]
      else if n = 223 then [115, 115]
      else if n = 181 then [956]
      else [n])"

definition casefold :: "string \<Rightarrow> nat list" where
  "casefold s = concat (map fold_char s)"

definition name_collision_key :: "string \<Rightarrow> name_error + nat list" where
  "name_collision_key v = bind_res (normalize_configuration_name v) (\<lambda>n. Inr (casefold n))"

section \<open>Properties\<close>

lemma strip_blank_ends:
  "s = [] \<or> \<not> space_char (hd s) \<and> \<not> space_char (last s) \<Longrightarrow> str_strip s = s"
proof -
  assume a: "s = [] \<or> \<not> space_char (hd s) \<and> \<not> space_char (last s)"
  have "dropWhile space_char x = x" if "x = [] \<or> \<not> space_char (hd x)" for x
    using that by (cases x) auto
  from this [of s] this [of "rev s"] a show "str_strip s = s"
    unfolding str_strip_def by (cases "s = []") (simp_all only: hd_rev rev_is_Nil_conv rev_rev_ident HOL.simp_thms)
qed

lemma strip_ends:
  "str_strip s = [] \<or> \<not> space_char (hd (str_strip s)) \<and> \<not> space_char (last (str_strip s))"
proof (cases "dropWhile space_char s")
  case Nil
  then have "str_strip s = []" by (simp only: str_strip_def rev.simps(1) dropWhile.simps(1))
  then show ?thesis by blast
next
  case (Cons c cs)
  then have c: "\<not> space_char c" by (metis hd_dropWhile list.distinct(1) list.sel(1))
  obtain d ds where d: "dropWhile space_char (rev (c # cs)) = d # ds"
    using c by (cases "dropWhile space_char (rev (c # cs))") auto
  then have "\<not> space_char d" by (metis hd_dropWhile list.distinct(1) list.sel(1))
  moreover have "last (d # ds) = c"
    using d by (metis dropWhile_append3 c rev.simps(2) last_snoc)
  ultimately show ?thesis using Cons d c unfolding str_strip_def
    by (metis last_rev list.distinct(1) list.sel(1) rev_is_Nil_conv rev_rev_ident hd_rev)
qed

lemma str_strip_idem [simp]: "str_strip (str_strip s) = str_strip s"
  by (rule strip_blank_ends) (rule strip_ends)

text \<open>A normalised name is its own normal form.\<close>

lemma normalize_idem: "normalize_configuration_name v = Inr n \<Longrightarrow> normalize_configuration_name n = Inr n"
  by (auto simp: normalize_configuration_name_def Let_def split: if_splits)

lemma normalize_iff:
  "normalize_configuration_name v = Inr n \<longleftrightarrow>
     n = str_strip v \<and> n \<noteq> [] \<and> n \<noteq> ''.'' \<and> n \<noteq> ''..'' \<and> \<not> ends_with '' '' n \<and> \<not> ends_with ''.'' n \<and>
     (\<forall>c \<in> set n. c \<notin> set windows_invalid \<and> 32 \<le> char_nat c) \<and>
     map upper_ascii (first_part n) \<notin> set windows_reserved"
  unfolding normalize_configuration_name_def Let_def not_le [symmetric]
  by (auto split: if_splits)

lemma casefold_append [simp]: "casefold (a @ b) = casefold a @ casefold b"
  by (simp add: casefold_def)

lemma key_normalized: "normalize_configuration_name v = Inr n \<Longrightarrow> name_collision_key v = Inr (casefold n)"
  by (simp add: name_collision_key_def)

text \<open>Two spellings of a name collide: the key ignores the case and the blanks around it.\<close>

lemma key_of_normal_form: "normalize_configuration_name v = Inr n \<Longrightarrow> name_collision_key n = name_collision_key v"
  by (simp add: name_collision_key_def normalize_idem)

end
