(* ===== verification/Configuration_Snapshot.thy ===== *)
theory Configuration_Snapshot
  imports Configuration_References Configuration_Identity
begin

text \<open>
  \<open>configuration/storage.py\<close>: the check every configuration passes before it is stored or
  activated, and what it accepts.
\<close>

section \<open>The check\<close>

definition name_field :: "entity_kind \<Rightarrow> string" where
  "name_field k = (if k = Subagent then ''component_name'' else ''name'')"

type_synonym name_scope = "entity_kind \<times> string"

definition scope_of :: "configuration_entity \<Rightarrow> name_scope" where
  "scope_of e = (ce_kind e, if ce_kind e = Component then ce_component_type e else [])"

datatype snapshot_error =
    Version_error
  | Components_not_mapping
  | Component_type_error string
  | Section_not_list string
  | Section_records string
  | Entity_id_error entity_kind
  | Duplicate_id string
  | Name_missing string
  | Name_invalid string name_error
  | Name_not_normalized string
  | Mcp_name_error string
  | Name_conflict string string
  | Namespace_conflict string string
  | Reference_id_error string string

text \<open>The pattern of component types: a small letter, then small letters, digits and hyphens.\<close>

definition component_type_ok :: "string \<Rightarrow> bool" where
  "component_type_ok s \<longleftrightarrow> s \<noteq> [] \<and> lower_char (hd s) \<and>
     list_all (\<lambda>c. lower_char c \<or> digit_class c \<or> c = CHR ''-'') (tl s)"

definition mcp_tool_name_ok :: "string \<Rightarrow> bool" where
  "mcp_tool_name_ok s \<longleftrightarrow> 1 \<le> length s \<and> length s \<le> 128 \<and>
     list_all (\<lambda>c. alnum_char c \<or> c \<in> {CHR ''.'', CHR ''_'', CHR ''-''}) s"

fun json_is_object :: "json \<Rightarrow> bool" where
  "json_is_object (JObj _) = True"
| "json_is_object _ = False"

definition record_list :: "string \<Rightarrow> json \<Rightarrow> snapshot_error + unit" where
  "record_list label v =
     (case v of
        JList xs \<Rightarrow> if list_all json_is_object xs then Inr () else Inl (Section_records label)
      | _ \<Rightarrow> Inl (Section_not_list label))"

definition check_component_section :: "string \<times> json \<Rightarrow> snapshot_error + unit" where
  "check_component_section kv =
     (if \<not> component_type_ok (fst kv) then Inl (Component_type_error (fst kv))
      else record_list (''components.'' @ fst kv) (snd kv))"

definition record_sections :: "string list" where
  "record_sections = [''external_agents'', ''main_agents'', ''mcp_tools'', ''subagents'', ''workflows'']"

definition check_sections :: "(string, json) dict \<Rightarrow> snapshot_error + unit" where
  "check_sections config =
     (case field ''components'' config of
        JObj components \<Rightarrow>
          bind_res (map_res check_component_section components) (\<lambda>_.
          bind_res (map_res (\<lambda>k. record_list k (field k config)) record_sections) (\<lambda>_. Inr ()))
      | _ \<Rightarrow> Inl Components_not_mapping)"

record snapshot_state =
  ss_ids :: "(string, entity_kind) dict"
  ss_names :: "(name_scope, (nat list, string) dict) dict"
  ss_namespaces :: "(string, string) dict"

definition entity_id_of :: "configuration_entity \<Rightarrow> string option" where
  "entity_id_of e =
     (case map_of (ce_payload e) ''id'' of
        Some (JStr i) \<Rightarrow> if is_configuration_id i then Some i else None
      | _ \<Rightarrow> None)"

definition entity_name_of :: "configuration_entity \<Rightarrow> snapshot_error + string" where
  "entity_name_of e =
     (case map_of (ce_payload e) (name_field (ce_kind e)) of
        Some (JStr raw) \<Rightarrow>
          if str_strip raw = [] then Inl (Name_missing (ce_id e))
          else (case normalize_configuration_name raw of
                  Inl x \<Rightarrow> Inl (Name_invalid (ce_id e) x)
                | Inr n \<Rightarrow>
                    if n \<noteq> raw then Inl (Name_not_normalized (ce_id e))
                    else if ce_kind e = Mcp_tool \<and> \<not> mcp_tool_name_ok raw then Inl (Mcp_name_error (ce_id e))
                    else Inr raw)
      | _ \<Rightarrow> Inl (Name_missing (ce_id e)))"

definition collision_key :: "entity_kind \<Rightarrow> string \<Rightarrow> snapshot_error + nat list" where
  "collision_key k raw =
     (if k \<in> {Workflow, Mcp_tool} then Inr (map char_nat raw)
      else (case name_collision_key raw of Inl x \<Rightarrow> Inl (Name_invalid raw x) | Inr key \<Rightarrow> Inr key))"

definition namespace_of :: "configuration_entity \<Rightarrow> string option" where
  "namespace_of e =
     (if ce_kind e = Component \<and> ce_component_type e = ''mcp-requirement''
      then json_str (field ''namespace'' (ce_payload e)) else None)"

definition add_name :: "name_scope \<Rightarrow> nat list \<Rightarrow> string \<Rightarrow>
    (name_scope, (nat list, string) dict) dict \<Rightarrow> (name_scope, (nat list, string) dict) dict" where
  "add_name s key i names =
     AList.update s (AList.update key i (case map_of names s of None \<Rightarrow> [] | Some m \<Rightarrow> m)) names"

definition name_owner :: "(name_scope, (nat list, string) dict) dict \<Rightarrow> name_scope \<Rightarrow> nat list \<Rightarrow> string option" where
  "name_owner names s key = (case map_of names s of None \<Rightarrow> None | Some m \<Rightarrow> map_of m key)"

definition check_references :: "to_text \<Rightarrow> configuration_entity \<Rightarrow> snapshot_error + unit" where
  "check_references txt e =
     (case find (\<lambda>r. \<not> is_configuration_id (cr_target_id r)) (iter_configuration_references txt e) of
        None \<Rightarrow> Inr ()
      | Some r \<Rightarrow> Inl (Reference_id_error (ce_id e) (cr_path r)))"

definition check_namespace :: "configuration_entity \<Rightarrow> string \<Rightarrow> (string, string) dict \<Rightarrow> snapshot_error + (string, string) dict" where
  "check_namespace e i namespaces =
     (case namespace_of e of
        None \<Rightarrow> Inr namespaces
      | Some n \<Rightarrow>
          (case map_of namespaces n of
             Some previous \<Rightarrow> Inl (Namespace_conflict n previous)
           | None \<Rightarrow> Inr (AList.update n i namespaces)))"

definition check_entity :: "to_text \<Rightarrow> configuration_entity \<Rightarrow> snapshot_state \<Rightarrow> snapshot_error + snapshot_state" where
  "check_entity txt e st =
     (case entity_id_of e of
        None \<Rightarrow> Inl (Entity_id_error (ce_kind e))
      | Some i \<Rightarrow>
          bind_res (require (map_of (ss_ids st) i = None) (Duplicate_id i)) (\<lambda>_.
          bind_res (entity_name_of e) (\<lambda>raw.
          bind_res (collision_key (ce_kind e) raw) (\<lambda>key.
          (case name_owner (ss_names st) (scope_of e) key of
             Some previous \<Rightarrow> Inl (Name_conflict raw previous)
           | None \<Rightarrow>
               bind_res (check_namespace e i (ss_namespaces st)) (\<lambda>namespaces.
               bind_res (check_references txt e) (\<lambda>_.
                 Inr \<lparr>ss_ids = AList.update i (ce_kind e) (ss_ids st),
                      ss_names = add_name (scope_of e) key i (ss_names st),
                      ss_namespaces = namespaces\<rparr>)))))))"

fun check_entities :: "to_text \<Rightarrow> configuration_entity list \<Rightarrow> snapshot_state \<Rightarrow> snapshot_error + snapshot_state" where
  "check_entities txt [] st = Inr st"
| "check_entities txt (e # es) st = bind_res (check_entity txt e st) (check_entities txt es)"

definition validate_configuration_snapshot ::
  "to_text \<Rightarrow> (string, json) dict \<Rightarrow> int \<Rightarrow> snapshot_error + unit" where
  "validate_configuration_snapshot txt config version =
     bind_res (require (field ''config_version'' config = JInt version) Version_error) (\<lambda>_.
     bind_res (check_sections config) (\<lambda>_.
     bind_res (check_entities txt (iter_configuration_entities txt config)
       \<lparr>ss_ids = [], ss_names = [], ss_namespaces = []\<rparr>) (\<lambda>_. Inr ())))"

section \<open>What it accepts\<close>

definition well_named :: "configuration_entity \<Rightarrow> bool" where
  "well_named e \<longleftrightarrow>
     (\<exists>n. map_of (ce_payload e) (name_field (ce_kind e)) = Some (JStr n) \<and>
        normalize_configuration_name n = Inr n \<and> (ce_kind e = Mcp_tool \<longrightarrow> mcp_tool_name_ok n))"

definition well_referenced :: "to_text \<Rightarrow> configuration_entity \<Rightarrow> bool" where
  "well_referenced txt e \<longleftrightarrow> (\<forall>r \<in> set (iter_configuration_references txt e). is_configuration_id (cr_target_id r))"

definition payload_name :: "configuration_entity \<Rightarrow> string" where
  "payload_name e = target_text (field (name_field (ce_kind e)) (ce_payload e))"

definition payload_id :: "configuration_entity \<Rightarrow> string" where
  "payload_id e = target_text (field ''id'' (ce_payload e))"

definition name_identity :: "configuration_entity \<Rightarrow> name_scope \<times> nat list" where
  "name_identity e =
     (scope_of e,
      if ce_kind e \<in> {Workflow, Mcp_tool} then map char_nat (payload_name e) else casefold (payload_name e))"

definition namespaces_of :: "configuration_entity list \<Rightarrow> string list" where
  "namespaces_of es = concat (map (\<lambda>e. case namespace_of e of None \<Rightarrow> [] | Some n \<Rightarrow> [n]) es)"

definition sound_entities :: "to_text \<Rightarrow> configuration_entity list \<Rightarrow> bool" where
  "sound_entities txt es \<longleftrightarrow>
     (\<forall>e \<in> set es. entity_id_of e = Some (payload_id e) \<and> well_named e \<and> well_referenced txt e) \<and>
     distinct (map payload_id es) \<and> distinct (map name_identity es) \<and> distinct (namespaces_of es)"

definition seen_names :: "snapshot_state \<Rightarrow> (name_scope \<times> nat list) set" where
  "seen_names st = {(s, key). name_owner (ss_names st) s key \<noteq> None}"

lemma entity_id_of_Some: "entity_id_of e = Some i \<Longrightarrow> payload_id e = i"
  by (auto simp: entity_id_of_def payload_id_def field_def target_text_def split: option.splits json.splits if_splits)

lemma entity_name_of_Inr:
  "entity_name_of e = Inr raw \<longleftrightarrow> well_named e \<and> raw = payload_name e"
proof -
  have "normalize_configuration_name n = Inr n \<Longrightarrow> str_strip n \<noteq> []" for n
    by (auto simp: normalize_iff)
  then show ?thesis
    by (auto simp: entity_name_of_def well_named_def payload_name_def field_def target_text_def
        split: option.splits json.splits if_splits sum.splits)
qed

lemma collision_key_Inr:
  "well_named e \<Longrightarrow> collision_key (ce_kind e) (payload_name e) = Inr (snd (name_identity e))"
  by (auto simp: collision_key_def name_identity_def well_named_def payload_name_def field_def target_text_def
      name_collision_key_def)

lemma check_references_Inr: "check_references txt e = Inr u \<longleftrightarrow> well_referenced txt e"
  by (auto simp: check_references_def well_referenced_def find_None_iff split: option.splits)
     (metis find_None_iff option.distinct(1))+

lemma name_owner_add: "name_owner (add_name s key i names) s' key' =
   (if s' = s \<and> key' = key then Some i else name_owner names s' key')"
  by (auto simp: name_owner_def add_name_def dict_get_set split: option.splits)

definition accepts_next :: "to_text \<Rightarrow> configuration_entity \<Rightarrow> snapshot_state \<Rightarrow> bool" where
  "accepts_next txt e st \<longleftrightarrow>
     entity_id_of e = Some (payload_id e) \<and> well_named e \<and> well_referenced txt e \<and>
     payload_id e \<notin> dom (map_of (ss_ids st)) \<and> name_identity e \<notin> seen_names st \<and>
     set (namespaces_of [e]) \<inter> dom (map_of (ss_namespaces st)) = {}"

definition extends :: "configuration_entity \<Rightarrow> snapshot_state \<Rightarrow> snapshot_state \<Rightarrow> bool" where
  "extends e st st' \<longleftrightarrow>
     dom (map_of (ss_ids st')) = insert (payload_id e) (dom (map_of (ss_ids st))) \<and>
     seen_names st' = insert (name_identity e) (seen_names st) \<and>
     dom (map_of (ss_namespaces st')) = set (namespaces_of [e]) \<union> dom (map_of (ss_namespaces st))"

lemma dict_dom_update: "dom (map_of (AList.update k v d)) = insert k (dom (map_of d))"
  by (simp add: update_conv')

lemma check_namespace_spec:
  "check_namespace e i ns = Inr ns' \<Longrightarrow>
     set (namespaces_of [e]) \<inter> dom (map_of ns) = {} \<and> dom (map_of ns') = set (namespaces_of [e]) \<union> dom (map_of ns)"
  by (cases "namespace_of e") (auto simp: check_namespace_def namespaces_of_def dict_get_set split: option.splits if_splits)

lemma check_namespace_ok:
  "set (namespaces_of [e]) \<inter> dom (map_of ns) = {} \<Longrightarrow> \<exists>ns'. check_namespace e i ns = Inr ns'"
  by (cases "namespace_of e") (auto simp: check_namespace_def namespaces_of_def split: option.splits)

lemma name_identity_scope: "name_identity e = (scope_of e, snd (name_identity e))"
  by (simp add: name_identity_def)

lemma check_entity_sound:
  assumes "check_entity txt e st = Inr st'"
  shows "accepts_next txt e st \<and> extends e st st'"
proof -
  obtain i where i: "entity_id_of e = Some i"
    using assms by (cases "entity_id_of e") (auto simp: check_entity_def)
  then have pid: "payload_id e = i" by (rule entity_id_of_Some)
  obtain raw key ns where
    new: "map_of (ss_ids st) i = None" and raw: "entity_name_of e = Inr raw"
    and key: "collision_key (ce_kind e) raw = Inr key" and free: "name_owner (ss_names st) (scope_of e) key = None"
    and ns: "check_namespace e i (ss_namespaces st) = Inr ns" and refs: "check_references txt e = Inr ()"
    and st': "st' = \<lparr>ss_ids = AList.update i (ce_kind e) (ss_ids st),
                ss_names = add_name (scope_of e) key i (ss_names st), ss_namespaces = ns\<rparr>"
    using assms i by (auto simp: check_entity_def res_Inr split: option.splits)
  have named: "well_named e" "raw = payload_name e" using raw entity_name_of_Inr by auto
  then have ident: "name_identity e = (scope_of e, key)"
    using key collision_key_Inr [of e] name_identity_scope [of e] by simp
  have "seen_names st' = insert (name_identity e) (seen_names st)"
    by (auto simp: seen_names_def st' name_owner_add ident)
  with check_namespace_spec [OF ns] new named ident free refs i pid show ?thesis
    unfolding accepts_next_def extends_def
    by (simp add: st' dict_dom_update seen_names_def check_references_Inr domIff)
qed

lemma check_entity_complete:
  assumes "accepts_next txt e st"
  shows "\<exists>st'. check_entity txt e st = Inr st'"
proof -
  have id: "entity_id_of e = Some (payload_id e)" "map_of (ss_ids st) (payload_id e) = None"
    using assms by (auto simp: accepts_next_def)
  have name: "entity_name_of e = Inr (payload_name e)"
    "collision_key (ce_kind e) (payload_name e) = Inr (snd (name_identity e))"
    using assms collision_key_Inr by (auto simp: accepts_next_def entity_name_of_Inr)
  have free: "name_owner (ss_names st) (scope_of e) (snd (name_identity e)) = None"
    using assms name_identity_scope [of e] by (auto simp: accepts_next_def seen_names_def)
  obtain ns where "check_namespace e (payload_id e) (ss_namespaces st) = Inr ns"
    using assms check_namespace_ok unfolding accepts_next_def by blast
  moreover have "check_references txt e = Inr ()"
    using assms by (simp add: accepts_next_def check_references_Inr)
  ultimately show ?thesis using id name free by (simp add: check_entity_def)
qed

lemma namespaces_Cons: "namespaces_of (e # es) = namespaces_of [e] @ namespaces_of es"
  by (simp add: namespaces_of_def)

lemma namespaces_single: "distinct (namespaces_of [e])"
  by (simp add: namespaces_of_def split: option.splits)

lemma sound_step:
  "p \<notin> A \<Longrightarrow> q \<notin> B \<Longrightarrow> N \<inter> C = {} \<Longrightarrow> U \<Longrightarrow> V \<Longrightarrow> W \<Longrightarrow>
   (S \<and> P \<inter> insert p A = {} \<and> Q \<inter> insert q B = {} \<and> M \<inter> (N \<union> C) = {}) \<longleftrightarrow>
   ((U \<and> V \<and> W) \<and> S \<and> p \<notin> P \<and> q \<notin> Q \<and> N \<inter> M = {}) \<and> insert p P \<inter> A = {} \<and> insert q Q \<inter> B = {} \<and> (N \<union> M) \<inter> C = {}"
  by auto

lemma sound_Cons:
  "sound_entities txt (e # es) \<longleftrightarrow>
     (entity_id_of e = Some (payload_id e) \<and> well_named e \<and> well_referenced txt e) \<and>
     sound_entities txt es \<and> payload_id e \<notin> payload_id ` set es \<and>
     name_identity e \<notin> name_identity ` set es \<and> set (namespaces_of [e]) \<inter> set (namespaces_of es) = {}"
  unfolding sound_entities_def namespaces_Cons [of e es] using namespaces_single [of e] by auto

lemma check_entities_iff:
  "(\<exists>st'. check_entities txt es st = Inr st') \<longleftrightarrow>
     sound_entities txt es \<and>
     payload_id ` set es \<inter> dom (map_of (ss_ids st)) = {} \<and>
     name_identity ` set es \<inter> seen_names st = {} \<and>
     set (namespaces_of es) \<inter> dom (map_of (ss_namespaces st)) = {}"
proof (induction es arbitrary: st)
  case Nil
  then show ?case by (simp add: sound_entities_def namespaces_of_def)
next
  case (Cons e es)
  show ?case
  proof (cases "accepts_next txt e st")
    case False
    then have "\<nexists>st'. check_entities txt (e # es) st = Inr st'"
      using check_entity_sound by (auto simp: res_Inr)
    moreover have "\<not> (sound_entities txt (e # es) \<and> payload_id ` set (e # es) \<inter> dom (map_of (ss_ids st)) = {} \<and>
        name_identity ` set (e # es) \<inter> seen_names st = {} \<and>
        set (namespaces_of (e # es)) \<inter> dom (map_of (ss_namespaces st)) = {})"
    proof -
      have "set (namespaces_of (e # es)) = set (namespaces_of [e]) \<union> set (namespaces_of es)"
        by (subst namespaces_Cons) simp
      then show ?thesis
        using False unfolding sound_Cons accepts_next_def by (simp only: list.set image_insert) blast
    qed
    ultimately show ?thesis by blast
  next
    case True
    then obtain st1 where st1: "check_entity txt e st = Inr st1" using check_entity_complete by blast
    have ext: "extends e st st1" using check_entity_sound [OF st1] by blast
    have "(\<exists>st'. check_entities txt (e # es) st = Inr st') \<longleftrightarrow> (\<exists>st'. check_entities txt es st1 = Inr st')"
      using st1 by simp
    also have "\<dots> \<longleftrightarrow> sound_entities txt es \<and>
        payload_id ` set es \<inter> insert (payload_id e) (dom (map_of (ss_ids st))) = {} \<and>
        name_identity ` set es \<inter> insert (name_identity e) (seen_names st) = {} \<and>
        set (namespaces_of es) \<inter> (set (namespaces_of [e]) \<union> dom (map_of (ss_namespaces st))) = {}"
      using ext unfolding Cons.IH [of st1] extends_def by (simp only:)
    finally have run: "(\<exists>st'. check_entities txt (e # es) st = Inr st') \<longleftrightarrow> sound_entities txt es \<and>
        payload_id ` set es \<inter> insert (payload_id e) (dom (map_of (ss_ids st))) = {} \<and>
        name_identity ` set es \<inter> insert (name_identity e) (seen_names st) = {} \<and>
        set (namespaces_of es) \<inter> (set (namespaces_of [e]) \<union> dom (map_of (ss_namespaces st))) = {}" .
    have accepted: "payload_id e \<notin> dom (map_of (ss_ids st))" "name_identity e \<notin> seen_names st"
      "set (namespaces_of [e]) \<inter> dom (map_of (ss_namespaces st)) = {}"
      "entity_id_of e = Some (payload_id e)" "well_named e" "well_referenced txt e"
      using True by (simp_all add: accepts_next_def)
    show ?thesis
      unfolding run sound_Cons namespaces_Cons [of e es] set_append list.set image_insert
      by (rule sound_step [OF accepted])
  qed
qed

lemma check_entities_start:
  "(\<exists>st'. check_entities txt es \<lparr>ss_ids = [], ss_names = [], ss_namespaces = []\<rparr> = Inr st') \<longleftrightarrow>
     sound_entities txt es"
  unfolding check_entities_iff by (auto simp: seen_names_def name_owner_def)

text \<open>
  C27: the check before a configuration is stored accepts exactly the sound ones: the right
  version and shape, identifiers that are valid and never repeated, normalised names that are
  unique in their scope, unique MCP namespaces, and references that carry valid identifiers.
\<close>

theorem snapshot_accepts_iff:
  "validate_configuration_snapshot txt config version = Inr () \<longleftrightarrow>
     field ''config_version'' config = JInt version \<and> check_sections config = Inr () \<and>
     sound_entities txt (iter_configuration_entities txt config)"
proof -
  have "(\<exists>st'. check_entities txt es \<lparr>ss_ids = [], ss_names = [], ss_namespaces = []\<rparr> = Inr st') \<longleftrightarrow>
      sound_entities txt es" for es by (rule check_entities_start)
  then show ?thesis
    by (auto simp: validate_configuration_snapshot_def res_Inr)
qed

end
