(* ===== verification/Bundle_Records.thy ===== *)
theory Bundle_Records
  imports Reference_Rewriting Configuration_Snapshot
begin

text \<open>
  \<open>configuration/bundles/contracts.py\<close> and \<open>records.py\<close>: the manifest of a configuration bundle
  and its identity rules, the closure of its references, the planning of target identities and
  names, and the records that are written in the end.
\<close>

section \<open>Manifests\<close>

record bundle_root =
  bo_kind :: entity_kind
  bo_source_id :: string
  bo_component_type :: "string option"

record bundle_record =
  br_kind :: entity_kind
  br_source_id :: string
  br_name :: string
  br_component_type :: "string option"
  br_payload :: "(string, json) dict"

datatype asset_kind = Python_package | Skill_package

record bundle_asset =
  ba_kind :: asset_kind
  ba_owner_source_id :: string
  ba_path :: string
  ba_sha256 :: string

record bundle_manifest =
  bm_root :: bundle_root
  bm_records :: "bundle_record list"
  bm_assets :: "bundle_asset list"

text \<open>The validators of the models, as the message of the error they raise.\<close>

definition root_error :: "bundle_root \<Rightarrow> string option" where
  "root_error r =
     (if (bo_kind r = Component) \<noteq> (bo_component_type r \<noteq> None)
      then Some ''type is required only for a component root'' else None)"

definition record_error :: "bundle_record \<Rightarrow> string option" where
  "record_error r =
     (if (br_kind r = Component) \<noteq> (br_component_type r \<noteq> None)
      then Some ''type is required only for component records''
      else if map_of (br_payload r) ''id'' \<noteq> None \<or> map_of (br_payload r) (name_field (br_kind r)) \<noteq> None
      then Some ''bundle record payload duplicates envelope identity'' else None)"

fun asset_kind_text :: "asset_kind \<Rightarrow> string" where
  "asset_kind_text Python_package = ''python-package''"
| "asset_kind_text Skill_package = ''skill-package''"

definition str_less :: "string \<Rightarrow> string \<Rightarrow> bool" where
  "str_less a b \<longleftrightarrow> a \<noteq> b \<and> str_less_eq a b"

text \<open>Python compares tuples at their first difference.\<close>

fun tuple_less_eq :: "string list \<Rightarrow> string list \<Rightarrow> bool" where
  "tuple_less_eq [] _ = True"
| "tuple_less_eq (_ # _) [] = False"
| "tuple_less_eq (a # as) (b # bs) = (str_less a b \<or> a = b \<and> tuple_less_eq as bs)"

definition type_text :: "string option \<Rightarrow> string" where
  "type_text t = (case t of None \<Rightarrow> [] | Some s \<Rightarrow> s)"

definition record_key :: "bundle_record \<Rightarrow> string list" where
  "record_key r = [kind_text (br_kind r), type_text (br_component_type r), br_source_id r]"

definition asset_key :: "bundle_asset \<Rightarrow> string list" where
  "asset_key a = [asset_kind_text (ba_kind a), ba_owner_source_id a, []]"

definition validate_identities :: "bundle_manifest \<Rightarrow> string option" where
  "validate_identities m =
     (let ids = map br_source_id (bm_records m) in
      if \<not> distinct ids then Some ''bundle record source_id values must be unique''
      else if \<not> distinct (map (\<lambda>a. (ba_kind a, ba_owner_source_id a)) (bm_assets m))
      then Some ''bundle asset owners must be unique''
      else (case find (\<lambda>r. br_source_id r = bo_source_id (bm_root m)) (bm_records m) of
              None \<Rightarrow> Some ''bundle root must identify one bundled record''
            | Some r \<Rightarrow>
                if br_kind r \<noteq> bo_kind (bm_root m) \<or> br_component_type r \<noteq> bo_component_type (bm_root m)
                then Some ''bundle root kind and type must match its record''
                else if \<not> sorted_wrt tuple_less_eq (map record_key (bm_records m))
                then Some ''bundle records must use canonical ordering''
                else if \<not> sorted_wrt tuple_less_eq (map asset_key (bm_assets m))
                then Some ''bundle assets must use canonical ordering''
                else None))"

section \<open>The closure of the records\<close>

datatype bundle_error =
    Archive_error string
  | Import_error string
  | Bundle_key_error string
  | Bundle_name_error name_error
  | Bundle_rewrite_error rewrite_error

definition source_entity :: "bundle_record \<Rightarrow> configuration_entity" where
  "source_entity r =
     \<lparr>ce_id = br_source_id r, ce_kind = br_kind r, ce_name = br_name r,
      ce_payload = AList.update ''id'' (JStr (br_source_id r))
        (dict_merge [(name_field (br_kind r), JStr (br_name r))] (br_payload r)),
      ce_component_type = type_text (br_component_type r)\<rparr>"

definition matches_reference :: "configuration_entity \<Rightarrow> configuration_reference \<Rightarrow> bool" where
  "matches_reference target r \<longleftrightarrow>
     ce_kind target = cr_target_kind r \<and>
     (ce_kind target \<noteq> Component \<or> ce_component_type target = cr_target_component_type r)"

text \<open>
  The same worklist checks a bundle on import and collects the records of an export; the errors
  it raises, each with the path of the reference, are those of its caller.
\<close>

record 'e closure_errors =
  cl_omitted :: "string \<Rightarrow> 'e"
  cl_mistyped :: "string \<Rightarrow> 'e"

fun closure_targets ::
  "'e closure_errors \<Rightarrow> (string, configuration_entity) dict \<Rightarrow> configuration_reference list \<Rightarrow>
   'e + configuration_entity list" where
  "closure_targets errs by_id [] = Inr []"
| "closure_targets errs by_id (r # rs) =
     (case map_of by_id (cr_target_id r) of
        None \<Rightarrow> Inl (cl_omitted errs (cr_path r))
      | Some t \<Rightarrow>
          if \<not> matches_reference t r
          then Inl (cl_mistyped errs (cr_path r))
          else bind_res (closure_targets errs by_id rs) (\<lambda>ts. Inr (t # ts)))"

lemma closure_targets_Inr:
  "closure_targets errs by_id rs = Inr ts \<longleftrightarrow>
     list_all2 (\<lambda>r t. map_of by_id (cr_target_id r) = Some t \<and> matches_reference t r) rs ts"
  by (induction rs arbitrary: ts) (auto simp: list_all2_Cons1 res_Inr split: option.splits)

lemma closure_targets_subset: "closure_targets errs by_id rs = Inr ts \<Longrightarrow> set ts \<subseteq> snd ` set by_id"
  unfolding closure_targets_Inr
  by (auto simp: list_all2_conv_all_nth in_set_conv_nth) (metis map_of_SomeD image_eqI snd_conv)

function closure_loop ::
  "'e closure_errors \<Rightarrow> to_text \<Rightarrow> (string, configuration_entity) dict \<Rightarrow> configuration_entity list \<Rightarrow> string list \<Rightarrow>
   'e + string list" where
  "closure_loop errs txt by_id pending reached =
     (if pending = [] then Inr reached
      else
        let owner = last pending in
        if ce_id owner \<in> set reached then closure_loop errs txt by_id (butlast pending) reached
        else bind_res (closure_targets errs by_id (iter_configuration_references txt owner)) (\<lambda>targets.
               closure_loop errs txt by_id (butlast pending @ targets) (reached @ [ce_id owner])))"
  by pat_completeness auto
termination
proof (relation "inv_image (less_than <*lex*> less_than)
    (\<lambda>(errs, txt, by_id, p, r). (card (ce_id ` (snd ` set by_id \<union> set p) - set r), length p))", goal_cases)
  case (2 errs tx by_id p r owner)
  let ?V = "\<lambda>p. ce_id ` (snd ` set by_id \<union> set p) - set r"
  have "?V (butlast p) \<subseteq> ?V p" by (auto dest: in_set_butlastD)
  then have "card (?V (butlast p)) \<le> card (?V p)" by (intro card_mono) auto
  with 2 show ?case by auto
next
  case (3 errs tx by_id p r owner targets)
  have "set targets \<subseteq> snd ` set by_id" using closure_targets_subset 3(4) by blast
  then have "ce_id ` (snd ` set by_id \<union> set (butlast p @ targets)) - set (r @ [ce_id owner])
      \<subset> ce_id ` (snd ` set by_id \<union> set p) - set r"
    using 3(1-3) by (auto dest: in_set_butlastD)
  then have "card (ce_id ` (snd ` set by_id \<union> set (butlast p @ targets)) - set (r @ [ce_id owner]))
      < card (ce_id ` (snd ` set by_id \<union> set p) - set r)"
    by (intro psubset_card_mono) auto
  then show ?case by simp
qed auto

declare closure_loop.simps [simp del]

definition entities_by_id :: "configuration_entity list \<Rightarrow> (string, configuration_entity) dict" where
  "entities_by_id es = dict_of (map (\<lambda>e. (ce_id e, e)) es)"

definition archive_errors :: "bundle_error closure_errors" where
  "archive_errors =
     \<lparr>cl_omitted = (\<lambda>p. Archive_error (''bundle omits reference target at '' @ p)),
      cl_mistyped = (\<lambda>p. Archive_error (''bundle reference has the wrong type at '' @ p))\<rparr>"

definition validate_complete_closure ::
  "to_text \<Rightarrow> configuration_entity list \<Rightarrow> string \<Rightarrow> bundle_error + unit" where
  "validate_complete_closure txt records root_id =
     (case map_of (entities_by_id records) root_id of
        None \<Rightarrow> Inl (Bundle_key_error root_id)
      | Some r \<Rightarrow>
          bind_res (closure_loop archive_errors txt (entities_by_id records) [r] []) (\<lambda>reached.
            if set reached \<noteq> ce_id ` set records
            then Inl (Archive_error ''bundle contains records outside its root closure'')
            else Inr ()))"

end
