(* ===== verification/Bundle_Closure.thy ===== *)
theory Bundle_Closure
  imports Bundle_Records
begin

text \<open>
  The worklist of \<open>_validate_complete_closure\<close> against its specification: it accepts exactly
  the record sets in which every reference has its record and every record belongs to the
  closure of the root.
\<close>

section \<open>The closure relation\<close>

definition closure_rel ::
  "to_text \<Rightarrow> (string, configuration_entity) dict \<Rightarrow> (configuration_entity \<times> configuration_entity) set" where
  "closure_rel txt by_id =
     {(a, b). \<exists>r \<in> set (iter_configuration_references txt a). map_of by_id (cr_target_id r) = Some b}"

definition resolved :: "to_text \<Rightarrow> (string, configuration_entity) dict \<Rightarrow> configuration_entity \<Rightarrow> bool" where
  "resolved txt by_id e \<longleftrightarrow>
     (\<forall>r \<in> set (iter_configuration_references txt e).
        \<exists>t. map_of by_id (cr_target_id r) = Some t \<and> matches_reference t r)"

definition keyed :: "(string, configuration_entity) dict \<Rightarrow> bool" where
  "keyed by_id \<longleftrightarrow> (\<forall>k e. map_of by_id k = Some e \<longrightarrow> ce_id e = k)"

definition settled ::
  "to_text \<Rightarrow> (string, configuration_entity) dict \<Rightarrow> string set \<Rightarrow> string \<Rightarrow> bool" where
  "settled txt by_id front i \<longleftrightarrow>
     (\<exists>e. map_of by_id i = Some e \<and> resolved txt by_id e \<and>
       (\<forall>b. (e, b) \<in> closure_rel txt by_id \<longrightarrow> ce_id b \<in> front))"

lemma settled_mono: "settled txt by_id A i \<Longrightarrow> A \<subseteq> B \<Longrightarrow> settled txt by_id B i"
  by (auto simp: settled_def)

lemma closure_targets_resolved:
  "closure_targets errs by_id (iter_configuration_references txt e) = Inr ts \<Longrightarrow>
     resolved txt by_id e \<and> set ts = {b. (e, b) \<in> closure_rel txt by_id}"
  unfolding closure_targets_Inr resolved_def closure_rel_def
  by (fastforce simp: list_all2_conv_all_nth in_set_conv_nth)

lemma closure_targets_error:
  "closure_targets errs by_id rs = Inl x \<Longrightarrow>
     \<exists>r \<in> set rs. \<not> (\<exists>t. map_of by_id (cr_target_id r) = Some t \<and> matches_reference t r)"
  by (induction rs) (auto simp: res_Inl split: option.splits if_splits)

section \<open>The worklist\<close>

lemma closure_loop_spec:
  assumes "keyed by_id" and "\<forall>e \<in> set pending. map_of by_id (ce_id e) = Some e"
    and "\<forall>i \<in> set reached. settled txt by_id (set reached \<union> ce_id ` set pending) i"
  shows "case closure_loop errs txt by_id pending reached of
      Inr R \<Rightarrow> set reached \<union> ce_id ` set pending \<subseteq> set R \<and>
        (\<forall>i \<in> set R. settled txt by_id (set R) i) \<and>
        (\<forall>i \<in> set R. i \<in> set reached \<or>
           (\<exists>p \<in> set pending. \<exists>e. (p, e) \<in> (closure_rel txt by_id)\<^sup>* \<and> ce_id e = i))
    | Inl x \<Rightarrow> \<exists>p \<in> set pending. \<exists>e. (p, e) \<in> (closure_rel txt by_id)\<^sup>* \<and> \<not> resolved txt by_id e"
  using assms
proof (induction errs "txt" by_id pending reached rule: closure_loop.induct)
  case (1 errs tx by_id pending reached)
  show ?case
  proof (cases "pending = []")
    case True
    with 1(5) show ?thesis by (simp add: closure_loop.simps)
  next
    case False
    define owner where "owner = last pending"
    have pend: "set pending = insert owner (set (butlast pending))"
      using False unfolding owner_def by (metis append_butlast_last_id list.set(1,2) set_append Un_insert_right sup_bot_right)
    have own: "map_of by_id (ce_id owner) = Some owner" using 1(4) pend by auto
    show ?thesis
    proof (cases "ce_id owner \<in> set reached")
      case True
      then have eq: "closure_loop errs tx by_id pending reached = closure_loop errs tx by_id (butlast pending) reached"
        using False by (subst closure_loop.simps) (simp add: owner_def Let_def)
      have same: "set reached \<union> ce_id ` set (butlast pending) = set reached \<union> ce_id ` set pending"
        using True pend by auto
      note IH = 1(1) [OF False owner_def True 1(3)]
      have "\<forall>e \<in> set (butlast pending). map_of by_id (ce_id e) = Some e" using 1(4) pend by auto
      from IH [OF this] 1(5) show ?thesis
        unfolding eq same using pend by (auto split: sum.splits)
    next
      case new: False
      show ?thesis
      proof (cases "closure_targets errs by_id (iter_configuration_references tx owner)")
        case (Inl x)
        then have eq: "closure_loop errs tx by_id pending reached = Inl x"
          using False new by (subst closure_loop.simps) (simp add: owner_def Let_def)
        from closure_targets_error [OF Inl] have "\<not> resolved tx by_id owner"
          by (auto simp: resolved_def)
        with eq pend show ?thesis by auto
      next
        case (Inr targets)
        then have eq: "closure_loop errs tx by_id pending reached =
            closure_loop errs tx by_id (butlast pending @ targets) (reached @ [ce_id owner])"
          using False new by (subst closure_loop.simps) (simp add: owner_def Let_def)
        note t = closure_targets_resolved [OF Inr]
        have step: "(owner, b) \<in> closure_rel tx by_id" if "b \<in> set targets" for b
          using t that by auto
        have nodes: "\<forall>e \<in> set (butlast pending @ targets). map_of by_id (ce_id e) = Some e"
          using 1(3,4) pend t by (auto simp: closure_rel_def keyed_def)
        let ?front = "set (reached @ [ce_id owner]) \<union> ce_id ` set (butlast pending @ targets)"
        have "settled tx by_id ?front (ce_id owner)"
          using own t by (auto simp: settled_def)
        moreover have "set reached \<union> ce_id ` set pending \<subseteq> ?front" using pend by auto
        ultimately have inv: "\<forall>i \<in> set (reached @ [ce_id owner]). settled tx by_id ?front i"
          using 1(5) settled_mono by fastforce
        note IH = 1(2) [OF False owner_def new Inr 1(3) nodes inv]
        show ?thesis
        proof (cases "closure_loop errs tx by_id (butlast pending @ targets) (reached @ [ce_id owner])")
          case (Inl x)
          with IH obtain p e where p: "p \<in> set (butlast pending @ targets)"
            "(p, e) \<in> (closure_rel tx by_id)\<^sup>*" "\<not> resolved tx by_id e" by auto
          then have "\<exists>p \<in> set pending. (p, e) \<in> (closure_rel tx by_id)\<^sup>*"
            using step pend by (auto intro: converse_rtrancl_into_rtrancl)
          with p(3) Inl eq show ?thesis by auto
        next
          case (Inr R)
          with IH have R: "set (reached @ [ce_id owner]) \<union> ce_id ` set (butlast pending @ targets) \<subseteq> set R"
            "\<forall>i \<in> set R. settled tx by_id (set R) i"
            "\<forall>i \<in> set R. i \<in> set (reached @ [ce_id owner]) \<or>
              (\<exists>p \<in> set (butlast pending @ targets). \<exists>e. (p, e) \<in> (closure_rel tx by_id)\<^sup>* \<and> ce_id e = i)"
            by simp_all
          have "i \<in> set reached \<or> (\<exists>p \<in> set pending. \<exists>e. (p, e) \<in> (closure_rel tx by_id)\<^sup>* \<and> ce_id e = i)"
            if i: "i \<in> set R" for i
          proof -
            from bspec [OF R(3) i] have "i \<in> set reached \<or> i = ce_id owner \<or>
                (\<exists>p e. p \<in> set (butlast pending @ targets) \<and> (p, e) \<in> (closure_rel tx by_id)\<^sup>* \<and> ce_id e = i)"
              by (simp only: set_append list.set Un_iff) blast
            then consider "i \<in> set reached" | "i = ce_id owner"
              | p e where "p \<in> set (butlast pending @ targets)" "(p, e) \<in> (closure_rel tx by_id)\<^sup>*" "ce_id e = i"
              by blast
            then show ?thesis
            proof cases
              case 2
              with pend show ?thesis by blast
            next
              case 3
              show ?thesis
              proof (cases "p \<in> set targets")
                case True
                then have "(owner, e) \<in> (closure_rel tx by_id)\<^sup>*"
                  using step 3(2) by (blast intro: converse_rtrancl_into_rtrancl)
                with pend 3(3) show ?thesis by blast
              next
                case False
                with 3 pend show ?thesis by auto
              qed
            qed blast
          qed
          with R(1,2) pend Inr eq show ?thesis by auto
        qed
      qed
    qed
  qed
qed

section \<open>The specification\<close>

lemma entities_by_id_get:
  assumes "distinct (map ce_id es)"
  shows "map_of (entities_by_id es) i = Some e \<longleftrightarrow> e \<in> set es \<and> ce_id e = i"
proof -
  have "distinct (map fst (map (\<lambda>e. (ce_id e, e)) es))" using assms by (simp add: comp_def)
  then show ?thesis
    unfolding entities_by_id_def by (subst dict_get_of_distinct) (auto dest: map_of_SomeD)
qed

text \<open>What a reference between two records of the bundle is.\<close>

definition bundle_edge :: "to_text \<Rightarrow> configuration_entity list \<Rightarrow> (configuration_entity \<times> configuration_entity) set" where
  "bundle_edge txt records =
     {(a, b). a \<in> set records \<and> b \<in> set records \<and>
        (\<exists>r \<in> set (iter_configuration_references txt a). cr_target_id r = ce_id b)}"

definition complete_references :: "to_text \<Rightarrow> configuration_entity list \<Rightarrow> bool" where
  "complete_references txt records \<longleftrightarrow>
     (\<forall>a \<in> set records. \<forall>r \<in> set (iter_configuration_references txt a).
        \<exists>b \<in> set records. ce_id b = cr_target_id r \<and> matches_reference b r)"

lemma closure_rel_bundle:
  assumes "distinct (map ce_id records)" and "(a, b) \<in> (closure_rel txt (entities_by_id records))\<^sup>*" and "a \<in> set records"
  shows "(a, b) \<in> (bundle_edge txt records)\<^sup>* \<and> b \<in> set records"
  using assms(2,3)
proof (induction rule: rtrancl_induct)
  case (step y z)
  then have "(y, z) \<in> bundle_edge txt records"
    by (auto simp: closure_rel_def bundle_edge_def entities_by_id_get [OF assms(1)])
  with step show ?case by (auto intro: rtrancl_into_rtrancl simp: bundle_edge_def)
qed simp

lemma resolved_iff:
  assumes "distinct (map ce_id records)"
  shows "resolved txt (entities_by_id records) a \<longleftrightarrow>
     (\<forall>r \<in> set (iter_configuration_references txt a).
        \<exists>b \<in> set records. ce_id b = cr_target_id r \<and> matches_reference b r)"
  by (auto simp: resolved_def entities_by_id_get [OF assms])

lemma bundle_edge_closure:
  "distinct (map ce_id records) \<Longrightarrow> (a, b) \<in> bundle_edge txt records \<Longrightarrow> (a, b) \<in> closure_rel txt (entities_by_id records)"
  unfolding closure_rel_def bundle_edge_def by (simp add: entities_by_id_get) metis

lemma reachable_iff:
  assumes "distinct (map ce_id records)" and "r \<in> set records"
  shows "(r, e) \<in> (closure_rel txt (entities_by_id records))\<^sup>* \<longleftrightarrow> (r, e) \<in> (bundle_edge txt records)\<^sup>*"
proof
  show "(r, e) \<in> (bundle_edge txt records)\<^sup>* \<Longrightarrow> (r, e) \<in> (closure_rel txt (entities_by_id records))\<^sup>*"
    using bundle_edge_closure [OF assms(1)] by (meson rtrancl_mono subrelI subsetD)
qed (use closure_rel_bundle [OF assms(1) _ assms(2)] in blast)

text \<open>From a root, the worklist ends with the identities of everything reachable.\<close>

lemma closure_loop_reach:
  assumes dist: "distinct (map ce_id records)" and r: "r \<in> set records"
  shows "case closure_loop errs txt (entities_by_id records) [r] [] of
      Inr R \<Rightarrow> set R = ce_id ` {e. (r, e) \<in> (bundle_edge txt records)\<^sup>*} \<and>
        (\<forall>e. (r, e) \<in> (bundle_edge txt records)\<^sup>* \<longrightarrow> resolved txt (entities_by_id records) e)
    | Inl x \<Rightarrow> \<exists>e. (r, e) \<in> (bundle_edge txt records)\<^sup>* \<and> \<not> resolved txt (entities_by_id records) e"
proof -
  let ?m = "entities_by_id records"
  note get = entities_by_id_get [OF dist] and reach = reachable_iff [OF dist r]
  have keyed: "keyed ?m" by (simp add: keyed_def get)
  have spec: "case closure_loop errs txt ?m [r] [] of
      Inr R \<Rightarrow> ce_id r \<in> set R \<and> (\<forall>i \<in> set R. settled txt ?m (set R) i) \<and>
        (\<forall>i \<in> set R. \<exists>e. (r, e) \<in> (closure_rel txt ?m)\<^sup>* \<and> ce_id e = i)
    | Inl x \<Rightarrow> \<exists>e. (r, e) \<in> (closure_rel txt ?m)\<^sup>* \<and> \<not> resolved txt ?m e"
    using closure_loop_spec [of ?m "[r]" "[]" "txt" errs, OF keyed] r by (auto simp: get split: sum.splits)
  show ?thesis
  proof (cases "closure_loop errs txt ?m [r] []")
    case (Inl x)
    with spec show ?thesis by (simp add: reach)
  next
    case (Inr R)
    with spec have R: "ce_id r \<in> set R" "\<forall>i \<in> set R. settled txt ?m (set R) i"
      "\<forall>i \<in> set R. \<exists>e. (r, e) \<in> (bundle_edge txt records)\<^sup>* \<and> ce_id e = i" by (simp_all add: reach)
    have "ce_id e \<in> set R \<and> resolved txt ?m e" if e: "(r, e) \<in> (bundle_edge txt records)\<^sup>*" for e
      using e
    proof (induction rule: rtrancl_induct)
      case base
      have "map_of ?m (ce_id r) = Some r" using r by (simp add: get)
      with R(1,2) show ?case by (auto simp: settled_def)
    next
      case (step y z)
      have y: "map_of ?m (ce_id y) = Some y" and z: "map_of ?m (ce_id z) = Some z"
        using step(2) by (auto simp: get bundle_edge_def)
      have "settled txt ?m (set R) (ce_id y)" using R(2) step(3) by blast
      with y bundle_edge_closure [OF dist step(2)] have "ce_id z \<in> set R" by (auto simp: settled_def)
      with R(2) z show ?case by (auto simp: settled_def)
    qed
    with R(3) Inr show ?thesis by auto
  qed
qed

lemma closure_check_iff:
  assumes dist: "distinct (map ce_id records)" and r: "r \<in> set records"
  shows "validate_complete_closure txt records (ce_id r) = Inr () \<longleftrightarrow>
     complete_references txt records \<and> (\<forall>e \<in> set records. (r, e) \<in> (bundle_edge txt records)\<^sup>*)"
proof -
  let ?m = "entities_by_id records" let ?reach = "{e. (r, e) \<in> (bundle_edge txt records)\<^sup>*}"
  have r_get: "map_of ?m (ce_id r) = Some r" using r by (simp add: entities_by_id_get [OF dist])
  have sub: "?reach \<subseteq> set records"
    using closure_rel_bundle [OF dist _ r] reachable_iff [OF dist r] by blast
  have complete: "complete_references txt records \<longleftrightarrow> (\<forall>a \<in> set records. resolved txt ?m a)"
    by (simp add: complete_references_def resolved_iff [OF dist])
  note spec = closure_loop_reach [OF dist r, of "txt" archive_errors]
  show ?thesis
  proof (cases "closure_loop archive_errors txt ?m [r] []")
    case (Inl x)
    with spec sub have "\<not> complete_references txt records" unfolding complete by auto
    with Inl r_get show ?thesis by (simp add: validate_complete_closure_def)
  next
    case (Inr R)
    then have "validate_complete_closure txt records (ce_id r) = Inr () \<longleftrightarrow> set R = ce_id ` set records"
      using r_get by (simp add: validate_complete_closure_def)
    also have "\<dots> \<longleftrightarrow> ?reach = set records"
      using spec Inr sub dist by (auto simp: distinct_map inj_on_image_eq_iff)
    finally show ?thesis using spec Inr sub unfolding complete by auto
  qed
qed

text \<open>
  C28: the closure check of a bundle accepts exactly the complete bundles: every reference of
  every record leads to a record of the matching kind and type, and every record can be reached
  from the root along references.
\<close>

theorem closure_complete_iff:
  assumes dist: "distinct (map ce_id records)" and r: "r \<in> set records"
  shows "validate_complete_closure txt records (ce_id r) = Inr () \<longleftrightarrow>
     complete_references txt records \<and> (\<forall>e \<in> set records. (r, e) \<in> (bundle_edge txt records)\<^sup>*)"
  by (rule closure_check_iff [OF dist r])

definition demo_tool :: configuration_entity where
  "demo_tool = \<lparr>ce_id = ''a'', ce_kind = Component, ce_name = ''t'',
     ce_payload = [(''id'', JStr ''a'')], ce_component_type = ''custom-tool''\<rparr>"

definition demo_owner :: configuration_entity where
  "demo_owner = \<lparr>ce_id = ''m'', ce_kind = Main_agent, ce_name = ''main'',
     ce_payload = [(''tool_refs'', JList [JObj [(''tool_id'', JStr ''a'')]])], ce_component_type = []\<rparr>"

theorem closure_complete_iff_witness:
  "complete_references plain_text [demo_owner, demo_tool] \<and>
   (demo_owner, demo_tool) \<in> (bundle_edge plain_text [demo_owner, demo_tool])\<^sup>*"
proof -
  have "validate_complete_closure plain_text [demo_owner, demo_tool] (ce_id demo_owner) = Inr ()"
    by (simp add: validate_complete_closure_def entities_by_id_def demo_owner_def demo_tool_def closure_loop.simps
        iter_configuration_references_def main_agent_references_def component_references_def list_references_def
        mk_reference_def field_def target_text_def records_of_def matches_reference_def dict_of_def)
  moreover have "distinct (map ce_id [demo_owner, demo_tool])"
    by (simp add: demo_owner_def demo_tool_def)
  ultimately show ?thesis
    using closure_complete_iff [of "[demo_owner, demo_tool]" demo_owner plain_text] by simp
qed

end
