(* ===== verification/Bundle_Planning.thy ===== *)
theory Bundle_Planning
  imports Bundle_Closure Workflow_Document
begin

text \<open>
  \<open>configuration/bundles/records.py\<close>, second half: loading the records of a manifest, the choice
  of fresh identities and of names that do not collide, and the records in their target form.
\<close>

section \<open>Loading the records\<close>

definition managed_component_types :: "string list" where
  "managed_component_types =
    [''model-requirement'', ''system-prompt'', ''filesystem'', ''filesystem-tools'', ''todo-list'',
     ''custom-tool'', ''skill'', ''custom-middleware'', ''agent-event-output'', ''exception-retry'',
     ''model-call-limit'', ''tool-call-limit'', ''subagent'', ''summarization'', ''pii'',
     ''mcp-requirement'', ''workflow-event-output'', ''command'', ''python-schema'']"

text \<open>The component types with a Python package, and the directory of their packages.\<close>

definition package_directories :: "(string \<times> string) list" where
  "package_directories =
    [(''custom-tool'', ''agent_tool''), (''agent-event-output'', ''agent_event_output''),
     (''workflow-event-output'', ''workflow_event_output''), (''command'', ''command''),
     (''custom-middleware'', ''agent_middleware'')]"

record bundle_record_set =
  rs_entities :: "configuration_entity list"
  rs_component_types :: "(string, string) dict"
  rs_component_records :: "(string, string \<times> string \<times> (string, json) dict) dict"
  rs_skill_package_owners :: "string list"

definition folder_is :: "string \<Rightarrow> string \<Rightarrow> (string, json) dict \<Rightarrow> bool" where
  "folder_is key name payload \<longleftrightarrow>
     (case map_of payload key of
        Some (JObj d) \<Rightarrow> map_of d ''folder'' = Some (JStr name)
      | _ \<Rightarrow> False)"

definition check_component :: "configuration_entity \<Rightarrow> bundle_error + unit" where
  "check_component e =
     (if ce_component_type e = ''model-requirement'' \<and>
         \<not> list_all (\<lambda>kv. fst kv \<in> {''id'', ''name'', ''description''}) (ce_payload e)
      then Inl (Archive_error ''bundle Model Requirement contains connection fields'')
      else if map_of package_directories (ce_component_type e) \<noteq> None \<and>
         \<not> folder_is ''python_package'' (ce_name e) (ce_payload e)
      then Inl (Archive_error ''bundle Python package folder does not match its Component name'')
      else if ce_component_type e = ''skill'' \<and> \<not> folder_is ''skill_package'' (ce_name e) (ce_payload e)
      then Inl (Archive_error ''bundle Skill package folder does not match its Component name'')
      else Inr ())"

definition components_of :: "configuration_entity list \<Rightarrow> configuration_entity list" where
  "components_of es = filter (\<lambda>e. ce_kind e = Component) es"

definition load_bundle_record_set ::
  "to_text \<Rightarrow> bundle_manifest \<Rightarrow> bundle_error + bundle_record_set" where
  "load_bundle_record_set txt m =
     (let entities = map source_entity (bm_records m) in
      bind_res (validate_complete_closure txt entities (bo_source_id (bm_root m))) (\<lambda>_.
      let types = dict_of (map (\<lambda>e. (ce_id e, ce_component_type e)) (components_of entities));
          unsupported = sort_by (\<lambda>t. t)
            (remdups (filter (\<lambda>t. t \<notin> set managed_component_types) (map snd types))) in
      bind_res (require (unsupported = [])
        (Archive_error (''bundle contains unsupported component types: '' @ join '', '' unsupported))) (\<lambda>_.
      bind_res (map_res check_component (components_of entities)) (\<lambda>_.
        Inr \<lparr>rs_entities = entities, rs_component_types = types,
             rs_component_records = dict_of (map (\<lambda>e. (ce_id e,
               (ce_component_type e, ce_name e, AList.delete ''name'' (AList.delete ''id'' (ce_payload e)))))
               (components_of entities)),
             rs_skill_package_owners =
               map ce_id (filter (\<lambda>e. ce_component_type e = ''skill'') (components_of entities))\<rparr>))))"

section \<open>Names\<close>

definition entity_name_key :: "entity_kind \<Rightarrow> string \<Rightarrow> bundle_error + nat list" where
  "entity_name_key k v =
     (if k \<in> {Workflow, Mcp_tool} then Inr (map char_nat v)
      else (case name_collision_key v of Inl x \<Rightarrow> Inl (Bundle_name_error x) | Inr key \<Rightarrow> Inr key))"

definition import_suffix :: "nat \<Rightarrow> string" where
  "import_suffix i = (if i = 1 then '' (imported)'' else '' (imported '' @ nat_str i @ '')'')"

definition candidate_name :: "string \<Rightarrow> nat \<Rightarrow> string" where
  "candidate_name original i =
     str_rstrip (slice_to (120 - int (length (import_suffix i))) original) @ import_suffix i"

text \<open>
  Two candidates never collide: the number before the last bracket can be read from the key.
  So only finitely many candidates are taken and the search for a free one ends.
\<close>

definition import_core :: "nat \<Rightarrow> string" where
  "import_core i = (if i = 1 then ''(imported)'' else ''(imported '' @ nat_str i @ '')'')"

lemma import_suffix_core: "import_suffix i = CHR '' '' # import_core i"
  by (simp add: import_suffix_def import_core_def)

lemma nat_str_digits: "\<forall>c \<in> set (nat_str n). digit_class c"
proof (induction n rule: nat_str.induct)
  case (1 n)
  have d: "d < 10 \<Longrightarrow> digit_class (digit_char d)" for d
    by (simp add: digit_class_def digit_char_def)
  show ?case
  proof (cases "n < 10")
    case True
    then show ?thesis using d by (subst nat_str.simps) simp
  next
    case False
    with 1 d show ?thesis by (subst nat_str.simps) auto
  qed
qed

lemma casefold_digits: "\<forall>c \<in> set s. digit_class c \<Longrightarrow> casefold s = map char_nat s"
  by (induction s) (auto simp: casefold_def fold_char_def upper_char_def digit_class_def Let_def)

lemma casefold_core: "casefold (import_core i) = map char_nat (import_core i)"
proof -
  have "casefold ''(imported'' = map char_nat ''(imported''" "casefold '' '' = map char_nat '' ''"
    "casefold '')'' = map char_nat '')''" by code_simp+
  moreover have "import_core i = ''(imported'' @ (if i = 1 then [] else '' '' @ nat_str i) @ '')''"
    by (simp add: import_core_def)
  ultimately show ?thesis
    using casefold_digits [OF nat_str_digits] by (simp only: casefold_append map_append) (auto simp: casefold_def)
qed

lemma strip_core: "str_strip (p @ import_core i) = dropWhile space_char p @ import_core i"
proof -
  have front: "dropWhile space_char (import_core i) = import_core i"
    by (simp add: import_core_def space_char_def)
  then have "dropWhile space_char (p @ import_core i) = dropWhile space_char p @ import_core i"
    by (induction p) auto
  moreover have "dropWhile space_char (rev (import_core i) @ q) = rev (import_core i) @ q" for q
    by (simp add: import_core_def space_char_def)
  ultimately show ?thesis by (simp add: str_strip_def)
qed

lemma candidate_core: "\<exists>p. candidate_name original i = p @ import_core i"
  unfolding candidate_name_def import_suffix_core by (metis append.assoc append_Cons append_Nil)

lemma key_core:
  assumes "entity_name_key k (candidate_name original i) = Inr key"
  shows "\<exists>p. key = p @ map char_nat (import_core i)"
proof -
  obtain p where p: "candidate_name original i = p @ import_core i" using candidate_core by blast
  show ?thesis
  proof (cases "k \<in> {Workflow, Mcp_tool}")
    case True
    with assms p show ?thesis by (auto simp: entity_name_key_def)
  next
    case False
    with assms have "name_collision_key (candidate_name original i) = Inr key"
      by (auto simp: entity_name_key_def split: sum.splits)
    then obtain n where "normalize_configuration_name (candidate_name original i) = Inr n" "key = casefold n"
      by (auto simp: name_collision_key_def res_Inr)
    then have "key = casefold (dropWhile space_char p @ import_core i)"
      using p strip_core by (auto simp: normalize_iff)
    then show ?thesis by (simp add: casefold_core)
  qed
qed

definition key_number :: "nat list \<Rightarrow> nat list" where
  "key_number key = rev (takeWhile (\<lambda>n. 48 \<le> n \<and> n \<le> 57) (tl (rev key)))"

lemma key_number_core:
  "key_number (p @ map char_nat (import_core i)) = (if i = 1 then [] else map char_nat (nat_str i))"
proof -
  have "\<forall>n \<in> set (map char_nat (nat_str i)). 48 \<le> n \<and> n \<le> 57"
    using nat_str_digits by (auto simp: digit_class_def)
  then have "takeWhile (\<lambda>n. 48 \<le> n \<and> n \<le> 57) (rev (map char_nat (nat_str i)) @ 32 # q) =
      rev (map char_nat (nat_str i))" for q
    by (subst takeWhile_append2) auto
  then show ?thesis by (simp add: key_number_def import_core_def)
qed

lemma candidate_keys_inject:
  assumes "entity_name_key k (candidate_name original i) = Inr key"
    and "entity_name_key k (candidate_name original j) = Inr key"
  shows "i = j"
proof -
  have "(if i = 1 then [] else map char_nat (nat_str i)) = (if j = 1 then [] else map char_nat (nat_str j))"
    using key_core [OF assms(1)] key_core [OF assms(2)] by (metis key_number_core)
  moreover have "inj char_nat" by (auto simp: inj_def)
  ultimately show ?thesis by (auto split: if_splits)
qed

definition taken_indexes :: "entity_kind \<Rightarrow> string \<Rightarrow> nat list list \<Rightarrow> nat set" where
  "taken_indexes k original used =
     {i. \<exists>key \<in> set used. entity_name_key k (candidate_name original i) = Inr key}"

lemma taken_card: "finite (taken_indexes k original used) \<and> card (taken_indexes k original used) \<le> length used"
proof -
  let ?f = "\<lambda>i. entity_name_key k (candidate_name original i)"
  have inj: "inj_on ?f (taken_indexes k original used)"
    by (auto simp: inj_on_def taken_indexes_def dest: candidate_keys_inject)
  have sub: "?f ` taken_indexes k original used \<subseteq> Inr ` set used"
    by (auto simp: taken_indexes_def)
  then have "finite (taken_indexes k original used)"
    using inj by (meson finite_imageD finite_imageI finite_set finite_subset)
  moreover have "card (taken_indexes k original used) \<le> card (Inr ` set used :: (bundle_error + nat list) set)"
    using card_inj_on_le [OF inj sub] by simp
  moreover have "card (Inr ` set used :: (bundle_error + nat list) set) \<le> length used"
    using card_image_le [of "set used"] card_length [of used] by (meson finite_set le_trans)
  ultimately show ?thesis by linarith
qed

function next_name_from :: "entity_kind \<Rightarrow> string \<Rightarrow> nat list list \<Rightarrow> nat \<Rightarrow> bundle_error + string" where
  "next_name_from k original used i =
     (case entity_name_key k (candidate_name original i) of
        Inl x \<Rightarrow> Inl x
      | Inr key \<Rightarrow>
          if key \<notin> set used then Inr (candidate_name original i)
          else next_name_from k original used (Suc i))"
  by pat_completeness auto
termination
proof (relation "measure (\<lambda>(k, original, used, i). card (taken_indexes k original used - {..<i}))", goal_cases)
  case (2 k original used i key)
  then have "i \<in> taken_indexes k original used" by (auto simp: taken_indexes_def)
  then have "taken_indexes k original used - {..<Suc i} \<subset> taken_indexes k original used - {..<i}" by auto
  then show ?case using taken_card by (auto intro!: psubset_card_mono)
qed simp

declare next_name_from.simps [simp del]

definition next_name :: "configuration_entity \<Rightarrow> nat list list \<Rightarrow> bundle_error + string" where
  "next_name e used =
     (case entity_name_key (ce_kind e) (ce_name e) of
        Inl x \<Rightarrow> Inl x
      | Inr key \<Rightarrow>
          if key \<notin> set used then Inr (ce_name e)
          else next_name_from (ce_kind e) (ce_name e) used 1)"

section \<open>The candidates are names\<close>

lemma slice_prefix: "\<exists>m. slice_to n s = take m s"
  by (auto simp: slice_to_def)

lemma rstrip_prefix: "\<exists>m. str_rstrip s = take m s"
proof -
  have "rev (takeWhile space_char r @ dropWhile space_char r) = rev r" for r
    by (simp only: takeWhile_dropWhile_id)
  from this [of "rev s"] have "str_rstrip s @ rev (takeWhile space_char (rev s)) = s"
    unfolding str_rstrip_def rev_append rev_rev_ident .
  then have "str_rstrip s = take (length (str_rstrip s)) s" by (simp only: append_eq_conv_conj)
  then show ?thesis by blast
qed

lemma candidate_prefix: "\<exists>m. candidate_name original i = take m original @ CHR '' '' # import_core i"
proof -
  obtain a where a: "slice_to (120 - int (length (import_suffix i))) original = take a original"
    using slice_prefix by blast
  obtain b where "str_rstrip (take a original) = take b (take a original)" using rstrip_prefix by blast
  then have b: "str_rstrip (take a original) = take (min b a) original" by simp
  show ?thesis unfolding candidate_name_def a b by (metis import_suffix_core)
qed

lemma core_chars: "c \<in> set (import_core i) \<Longrightarrow> 32 \<le> char_nat c \<and> c \<notin> set windows_invalid \<and> c \<noteq> CHR ''.''"
proof -
  have lit: "\<forall>c \<in> set (''(imported '' @ '')''). 32 \<le> char_nat c \<and> c \<notin> set windows_invalid \<and> c \<noteq> CHR ''.''"
    by code_simp
  have dig: "32 \<le> char_nat c \<and> c \<notin> set windows_invalid \<and> c \<noteq> CHR ''.''" if "digit_class c" for c
  proof -
    have "\<forall>c \<in> set (CHR ''.'' # windows_invalid). char_nat c < 48 \<or> 57 < char_nat c" by code_simp
    then have "c \<notin> set (CHR ''.'' # windows_invalid)" using that unfolding digit_class_def by (meson not_less)
    then show ?thesis using that by (simp add: digit_class_def)
  qed
  have gen: "x \<in> set (a @ b @ d) \<Longrightarrow> x \<in> set (a @ d) \<or> x \<in> set b" for x and a b d :: string by auto
  have one: "set ''(imported)'' \<subseteq> set (''(imported '' @ '')'')" by code_simp
  assume "c \<in> set (import_core i)"
  then have "c \<in> set (''(imported '' @ '')'') \<or> c \<in> set (nat_str i)"
  proof (cases "i = 1")
    case True
    then have eq: "import_core i = ''(imported)''" unfolding import_core_def by (rule if_P)
    from subsetD [OF one \<open>c \<in> set (import_core i)\<close> [unfolded eq]] show ?thesis by (rule disjI1)
  next
    case False
    then have eq: "import_core i = ''(imported '' @ nat_str i @ '')''" unfolding import_core_def by (rule if_not_P)
    show ?thesis
      using \<open>c \<in> set (import_core i)\<close> unfolding eq by (rule gen [of c "''(imported ''" "nat_str i" "'')''"])
  qed
  then show ?thesis
  proof
    assume "c \<in> set (''(imported '' @ '')'')"
    with lit show ?thesis by (rule bspec)
  next
    assume "c \<in> set (nat_str i)"
    with nat_str_digits have "digit_class c" by (rule bspec)
    then show ?thesis by (rule dig)
  qed
qed

lemma core_bracket: "CHR ''('' \<in> set (import_core i)"
  by (simp add: import_core_def)

lemma reserved_letters: "r \<in> set windows_reserved \<Longrightarrow> CHR ''('' \<notin> set r"
proof -
  have "\<forall>r \<in> set windows_reserved. CHR ''('' \<notin> set r" by code_simp
  then show "r \<in> set windows_reserved \<Longrightarrow> ?thesis" by blast
qed

lemma bracket_not_reserved: "CHR ''('' \<in> set s \<Longrightarrow> map upper_ascii s \<notin> set windows_reserved"
proof
  assume "CHR ''('' \<in> set s" "map upper_ascii s \<in> set windows_reserved"
  moreover have "upper_ascii (CHR ''('') = CHR ''(''" by (simp add: upper_ascii_def lower_char_def)
  ultimately show False using reserved_letters by (metis image_eqI list.set_map)
qed

lemma candidate_valid:
  assumes "normalize_configuration_name original = Inr original"
  shows "\<exists>n. normalize_configuration_name (candidate_name original i) = Inr n"
proof -
  let ?core = "import_core i"
  obtain m where m: "candidate_name original i = (take m original @ [CHR '' '']) @ ?core"
    using candidate_prefix [of original i] by auto
  define q where "q = dropWhile space_char (take m original @ [CHR '' ''])"
  have n: "str_strip (candidate_name original i) = q @ ?core"
    unfolding m q_def by (rule strip_core)
  have chars: "\<forall>c \<in> set original. c \<notin> set windows_invalid \<and> 32 \<le> char_nat c"
    and res: "map upper_ascii (first_part original) \<notin> set windows_reserved"
    and strip: "original = str_strip original" "original \<noteq> []"
    using assms by (auto simp: normalize_iff)
  have q: "q = [] \<or> q = take m original @ [CHR '' '']"
  proof (cases "take m original")
    case Nil
    then have "q = []" unfolding q_def Nil by (simp add: space_char_def)
    then show ?thesis by blast
  next
    case (Cons c cs)
    then have "c = hd original" using strip(2) by (metis append_take_drop_id hd_append2 list.distinct(1) list.sel(1))
    then have "\<not> space_char c" using strip_ends [of original] strip by metis
    with Cons show ?thesis by (simp add: q_def)
  qed
  have last: "last (q @ ?core) = CHR '')''" "?core \<noteq> []" by (simp_all add: import_core_def)
  have bracket: "CHR ''('' \<in> set (q @ ?core)" using core_bracket by auto
  have "\<not> ends_with '' '' (q @ ?core)" "\<not> ends_with ''.'' (q @ ?core)"
    using last(1) by (auto simp: ends_with_def suffix_def simp del: last_append dest!: arg_cong [where f = last])
  moreover have "\<forall>c \<in> set (q @ ?core). c \<notin> set windows_invalid \<and> 32 \<le> char_nat c"
  proof -
    have "\<forall>c \<in> set q. c \<notin> set windows_invalid \<and> 32 \<le> char_nat c"
    proof -
      have "CHR '' '' \<notin> set windows_invalid \<and> 32 \<le> char_nat (CHR '' '')" by code_simp
      moreover have "set q \<subseteq> set original \<union> {CHR '' ''}" using q by (auto dest: in_set_takeD)
      ultimately show ?thesis using chars by blast
    qed
    then show ?thesis using core_chars by auto
  qed
  moreover have "map upper_ascii (first_part (q @ ?core)) \<notin> set windows_reserved"
  proof (cases "CHR ''.'' \<in> set q")
    case True
    with q have "CHR ''.'' \<in> set (take m original)" by auto
    then have "first_part (take m original @ t) = first_part (take m original)" for t
      by (simp add: first_part_def)
    then have "first_part (q @ ?core) = first_part original"
      using q True by (metis append.assoc append_take_drop_id list.set(1) empty_iff)
    with res show ?thesis by simp
  next
    case False
    then have "first_part (q @ ?core) = q @ ?core"
      using core_chars by (auto simp: first_part_def takeWhile_eq_all_conv)
    with bracket_not_reserved [OF bracket] show ?thesis by (simp only: not_False_eq_True)
  qed
  moreover have dots: "q @ ?core \<noteq> ''.''" "q @ ?core \<noteq> ''..''"
  proof -
    have "s = q @ ?core \<Longrightarrow> CHR ''('' \<in> set s" for s using bracket by simp
    from this [of "''.''"] this [of "''..''"] show "q @ ?core \<noteq> ''.''" "q @ ?core \<noteq> ''..''" by fastforce+
  qed
  ultimately have "normalize_configuration_name (candidate_name original i) = Inr (q @ ?core)"
    unfolding normalize_iff n using dots bracket by auto
  then show ?thesis ..
qed

definition valid_name :: "configuration_entity \<Rightarrow> bool" where
  "valid_name e \<longleftrightarrow> ce_kind e \<in> {Workflow, Mcp_tool} \<or> normalize_configuration_name (ce_name e) = Inr (ce_name e)"

lemma valid_key: "valid_name e \<Longrightarrow> \<exists>key. entity_name_key (ce_kind e) (ce_name e) = Inr key"
  by (auto simp: valid_name_def entity_name_key_def name_collision_key_def)

lemma candidate_key: "valid_name e \<Longrightarrow> \<exists>key. entity_name_key (ce_kind e) (candidate_name (ce_name e) i) = Inr key"
  using candidate_valid [of "ce_name e" i]
  by (auto simp: valid_name_def entity_name_key_def name_collision_key_def)

lemma next_name_from_spec:
  assumes "\<And>i. \<exists>key. entity_name_key k (candidate_name original i) = Inr key"
  shows "\<exists>j \<ge> i. next_name_from k original used i = Inr (candidate_name original j) \<and>
           j \<notin> taken_indexes k original used \<and> {i..<j} \<subseteq> taken_indexes k original used"
  using assms
proof (induction k original used i rule: next_name_from.induct)
  case (1 k original used i)
  obtain key where key: "entity_name_key k (candidate_name original i) = Inr key" using 1(2) by blast
  show ?case
  proof (cases "key \<in> set used")
    case False
    with key have "next_name_from k original used i = Inr (candidate_name original i)"
      by (subst next_name_from.simps) simp
    moreover have "i \<notin> taken_indexes k original used" using key False by (simp add: taken_indexes_def)
    ultimately show ?thesis by auto
  next
    case True
    then have "next_name_from k original used i = next_name_from k original used (Suc i)"
      using key by (subst next_name_from.simps) simp
    moreover have i: "i \<in> taken_indexes k original used" using key True by (auto simp: taken_indexes_def)
    moreover obtain j where j: "j \<ge> Suc i" "next_name_from k original used (Suc i) = Inr (candidate_name original j)"
      "j \<notin> taken_indexes k original used" "{Suc i..<j} \<subseteq> taken_indexes k original used"
      using 1(1) [OF key _ 1(2)] True by blast
    moreover have "{i..<j} \<subseteq> insert i {Suc i..<j}" by auto
    ultimately show ?thesis by (intro exI [of _ j]) auto
  qed
qed

lemma next_name_spec:
  assumes "valid_name e"
  shows "\<exists>name key. next_name e used = Inr name \<and> entity_name_key (ce_kind e) name = Inr key \<and> key \<notin> set used \<and>
    (name = ce_name e \<or>
     (\<exists>i. 1 \<le> i \<and> i \<le> Suc (length used) \<and> name = candidate_name (ce_name e) i \<and>
        (\<exists>key0 \<in> set used. entity_name_key (ce_kind e) (ce_name e) = Inr key0)))"
proof -
  obtain key0 where key0: "entity_name_key (ce_kind e) (ce_name e) = Inr key0" using valid_key [OF assms] by blast
  show ?thesis
  proof (cases "key0 \<in> set used")
    case False
    with key0 show ?thesis by (simp add: next_name_def)
  next
    case True
    let ?T = "taken_indexes (ce_kind e) (ce_name e) used"
    obtain j where j: "1 \<le> j" "next_name_from (ce_kind e) (ce_name e) used 1 = Inr (candidate_name (ce_name e) j)"
      "j \<notin> ?T" "{1..<j} \<subseteq> ?T"
      using next_name_from_spec [OF candidate_key [OF assms], of 1 used] by blast
    have "card {1..<j} \<le> card ?T" using j(4) taken_card by (intro card_mono) auto
    then have "j \<le> Suc (length used)" using conjunct2 [OF taken_card [of "ce_kind e" "ce_name e" used]] by simp
    moreover obtain key where "entity_name_key (ce_kind e) (candidate_name (ce_name e) j) = Inr key"
      using candidate_key [OF assms] by blast
    moreover from this j(3) have "key \<notin> set used" by (auto simp: taken_indexes_def)
    moreover have "next_name e used = Inr (candidate_name (ce_name e) j)"
      using key0 True j(2) by (simp add: next_name_def)
    ultimately show ?thesis using j(1) key0 True by blast
  qed
qed

text \<open>
  C29: the search for a free name always ends, after at most one candidate more than there are
  names in the scope, with a valid name whose key is free; the name is kept if it is free.
\<close>

theorem next_name_free:
  assumes "valid_name e"
  shows "\<exists>name key. next_name e used = Inr name \<and> entity_name_key (ce_kind e) name = Inr key \<and> key \<notin> set used \<and>
    (if \<exists>key0 \<in> set used. entity_name_key (ce_kind e) (ce_name e) = Inr key0
     then \<exists>i. 1 \<le> i \<and> i \<le> Suc (length used) \<and> name = candidate_name (ce_name e) i
     else name = ce_name e)"
  using next_name_spec [OF assms, of used] valid_key [OF assms]
  by (auto simp: next_name_def split: if_splits)

theorem next_name_free_witness:
  "\<exists>name key. next_name demo_owner [casefold ''Main''] = Inr name \<and> key \<noteq> casefold ''Main'' \<and>
     entity_name_key Main_agent name = Inr key"
proof -
  have "normalize_configuration_name (ce_name demo_owner) = Inr (ce_name demo_owner)" by code_simp
  then have "valid_name demo_owner" by (simp add: valid_name_def)
  from next_name_free [OF this, of "[casefold ''Main'']"] show ?thesis by (auto simp: demo_owner_def)
qed

end
