(* ===== verification/Bundle_Identities.thy ===== *)
theory Bundle_Identities
  imports Bundle_Planning
begin

text \<open>
  \<open>plan_identities\<close> and \<open>transform_bundle_records\<close> of \<open>configuration/bundles/records.py\<close>: target
  identities and names for the records of a bundle, and the records in their target form.
\<close>

section \<open>Planning\<close>

record bundle_issue =
  bi_code :: string
  bi_message :: string
  bi_source_id :: string
  bi_path :: string

record import_resolutions =
  ir_target_ids :: "(string, string) dict"
  ir_names :: "(string, string) dict"

record name_plan =
  pl_source_id :: string
  pl_target_id :: string
  pl_kind :: entity_kind
  pl_type :: "string option"
  pl_original_name :: string
  pl_suggested_name :: string
  pl_selected_name :: string
  pl_requires_confirmation :: bool

record identity_plan =
  ip_target_ids :: "(string, string) dict"
  ip_names :: "(string, string) dict"
  ip_records :: "name_plan list"
  ip_errors :: "bundle_issue list"
  ip_supplied_names :: "string list"

text \<open>
  The random source of the library is the list of the identifiers it draws; the code draws
  again while a drawn one is taken, and a list too short for the draws it makes is \<open>None\<close>.
\<close>

fun draw_id :: "string list \<Rightarrow> string list \<Rightarrow> (string \<times> string list) option" where
  "draw_id taken [] = None"
| "draw_id taken (d # ds) = (if d \<in> set taken then draw_id taken ds else Some (d, ds))"

fun assign_ids :: "string list \<Rightarrow> string list \<Rightarrow> string list \<Rightarrow> (string, string) dict option" where
  "assign_ids taken [] draws = Some []"
| "assign_ids taken (s # ss) draws =
     (case draw_id taken draws of
        None \<Rightarrow> None
      | Some (d, ds) \<Rightarrow> map_option (\<lambda>ids. (s, d) # ids) (assign_ids taken ss ds))"

definition choose_target_ids ::
  "string list \<Rightarrow> string list \<Rightarrow> import_resolutions option \<Rightarrow> string list \<Rightarrow> bundle_error + (string, string) dict" where
  "choose_target_ids source_ids existing_ids resolutions draws =
     (case resolutions of
        None \<Rightarrow>
          (case assign_ids (existing_ids @ source_ids) (sort_by (\<lambda>i. i) (remdups source_ids)) draws of
             None \<Rightarrow> Inl (Import_error ''the random source was not drawn far enough'')
           | Some ids \<Rightarrow> Inr ids)
      | Some res \<Rightarrow>
          let values = map snd (ir_target_ids res) in
          if fst ` set (ir_target_ids res) \<noteq> set source_ids
          then Inl (Import_error ''import target UUID map must exactly match bundle source records'')
          else if \<not> distinct values \<or> set values \<inter> set existing_ids \<noteq> {} \<or> set values \<inter> set source_ids \<noteq> {}
          then Inl (Import_error ''import target UUID values must be new and globally unique'')
          else Inr (ir_target_ids res))"

type_synonym used_names = "(name_scope, nat list list) dict"

definition used_in :: "used_names \<Rightarrow> name_scope \<Rightarrow> nat list list" where
  "used_in used s = (case map_of used s of None \<Rightarrow> [] | Some u \<Rightarrow> u)"

definition add_used :: "name_scope \<Rightarrow> nat list \<Rightarrow> used_names \<Rightarrow> used_names" where
  "add_used s key used = AList.update s (List.insert key (used_in used s)) used"

fun existing_names :: "configuration_entity list \<Rightarrow> used_names \<Rightarrow> bundle_error + used_names" where
  "existing_names [] used = Inr used"
| "existing_names (e # es) used =
     bind_res (entity_name_key (ce_kind e) (ce_name e)) (\<lambda>key.
       existing_names es (add_used (scope_of e) key used))"

record plan_state =
  ps_used :: used_names
  ps_names :: "(string, string) dict"
  ps_plans :: "name_plan list"
  ps_errors :: "bundle_issue list"

definition confirmation_issue :: "configuration_entity \<Rightarrow> bundle_issue" where
  "confirmation_issue e = \<lparr>bi_code = ''configuration_name_confirmation_required'',
     bi_message = ''The imported configuration name must be confirmed.'',
     bi_source_id = ce_id e, bi_path = name_field (ce_kind e)\<rparr>"

definition conflict_issue :: "configuration_entity \<Rightarrow> bundle_issue" where
  "conflict_issue e = \<lparr>bi_code = ''configuration_name_conflict'',
     bi_message = ''The selected imported configuration name already exists in its scope.'',
     bi_source_id = ce_id e, bi_path = name_field (ce_kind e)\<rparr>"

definition plan_step ::
  "(string, string) dict \<Rightarrow> (string, string) dict \<Rightarrow> bool \<Rightarrow> configuration_entity \<Rightarrow> plan_state \<Rightarrow>
   bundle_error + plan_state" where
  "plan_step target_ids supplied require_resolved e st =
     (let used = used_in (ps_used st) (scope_of e) in
      bind_res (next_name e used) (\<lambda>suggested.
      let requires = (suggested \<noteq> ce_name e);
          selected = (case map_of supplied (ce_id e) of None \<Rightarrow> suggested | Some n \<Rightarrow> n) in
      bind_res (entity_name_key (ce_kind e) selected) (\<lambda>key.
        (case map_of target_ids (ce_id e) of
           None \<Rightarrow> Inl (Bundle_key_error (ce_id e))
         | Some t \<Rightarrow>
             Inr \<lparr>ps_used = add_used (scope_of e) key (ps_used st),
                  ps_names = AList.update (ce_id e) selected (ps_names st),
                  ps_plans = ps_plans st @
                    [\<lparr>pl_source_id = ce_id e, pl_target_id = t, pl_kind = ce_kind e,
                      pl_type = (if ce_component_type e = [] then None else Some (ce_component_type e)),
                      pl_original_name = ce_name e, pl_suggested_name = suggested,
                      pl_selected_name = selected, pl_requires_confirmation = requires\<rparr>],
                  ps_errors = ps_errors st @
                    (if requires \<and> require_resolved \<and> map_of supplied (ce_id e) = None
                     then [confirmation_issue e] else []) @
                    (if key \<in> set used then [conflict_issue e] else [])\<rparr>))))"

fun plan_entities ::
  "(string, string) dict \<Rightarrow> (string, string) dict \<Rightarrow> bool \<Rightarrow> configuration_entity list \<Rightarrow> plan_state \<Rightarrow>
   bundle_error + plan_state" where
  "plan_entities target_ids supplied require_resolved [] st = Inr st"
| "plan_entities target_ids supplied require_resolved (e # es) st =
     bind_res (plan_step target_ids supplied require_resolved e st)
       (plan_entities target_ids supplied require_resolved es)"

definition plan_identities ::
  "bundle_record_set \<Rightarrow> configuration_entity list \<Rightarrow> import_resolutions option \<Rightarrow> bool \<Rightarrow> string list \<Rightarrow>
   string list \<Rightarrow> bundle_error + identity_plan" where
  "plan_identities records existing resolutions require_resolved forbidden_ids draws =
     (let source_ids = map ce_id (rs_entities records);
          supplied = (case resolutions of None \<Rightarrow> [] | Some r \<Rightarrow> ir_names r) in
      bind_res (choose_target_ids source_ids (map ce_id existing @ forbidden_ids) resolutions draws) (\<lambda>target_ids.
      bind_res (existing_names existing []) (\<lambda>used.
      bind_res (require (fst ` set supplied \<subseteq> set source_ids)
        (Import_error ''import names contain unknown source UUIDs'')) (\<lambda>_.
      bind_res (plan_entities target_ids supplied require_resolved (rs_entities records)
        \<lparr>ps_used = used, ps_names = [], ps_plans = [], ps_errors = []\<rparr>) (\<lambda>st.
        Inr \<lparr>ip_target_ids = target_ids, ip_names = ps_names st, ip_records = ps_plans st,
             ip_errors = ps_errors st, ip_supplied_names = map fst supplied\<rparr>)))))"

section \<open>The records in their target form\<close>

definition set_folder :: "string \<Rightarrow> string \<Rightarrow> (string, json) dict \<Rightarrow> bundle_error + (string, json) dict" where
  "set_folder key name d =
     (case json_assign [Key key, Key ''folder''] (JStr name) (JObj d) of
        Inl e \<Rightarrow> Inl (Bundle_rewrite_error e)
      | Inr (JObj d') \<Rightarrow> Inr d'
      | Inr _ \<Rightarrow> Inl (Bundle_rewrite_error Type_error))"

definition lookup_id :: "(string, 'v) dict \<Rightarrow> string \<Rightarrow> bundle_error + 'v" where
  "lookup_id d i = (case map_of d i of None \<Rightarrow> Inl (Bundle_key_error i) | Some v \<Rightarrow> Inr v)"

definition transform_component ::
  "(string, (string, json) dict) dict \<Rightarrow> configuration_entity \<Rightarrow> string \<Rightarrow> (string, json) dict \<Rightarrow>
   bundle_error + (string, json) dict" where
  "transform_component payloads source name d =
     bind_res (lookup_id payloads (ce_id source)) (\<lambda>payload.
     let d1 = dict_merge d payload in
     bind_res (if map_of package_directories (ce_component_type source) \<noteq> None
               then set_folder ''python_package'' name d1 else Inr d1) (\<lambda>d2.
       if ce_component_type source = ''skill'' then set_folder ''skill_package'' name d2 else Inr d2))"

definition transform_record ::
  "to_text \<Rightarrow> (string, string) dict \<Rightarrow> (string, string) dict \<Rightarrow> (string, (string, json) dict) dict \<Rightarrow>
   configuration_entity \<Rightarrow> bundle_error + configuration_entity" where
  "transform_record txt target_ids names payloads source =
     (case rewrite_configuration_references txt source target_ids False of
        Inl e \<Rightarrow> Inl (Bundle_rewrite_error e)
      | Inr (JObj body) \<Rightarrow>
          bind_res (lookup_id target_ids (ce_id source)) (\<lambda>t.
          bind_res (lookup_id names (ce_id source)) (\<lambda>name.
          let d1 = AList.update (name_field (ce_kind source)) (JStr name)
                (AList.update ''id'' (JStr t) body) in
          bind_res (if ce_kind source = Component then transform_component payloads source name d1 else Inr d1) (\<lambda>d2.
          let d3 = (if ce_kind source \<in> {Main_agent, Mcp_tool, Workflow}
                    then AList.update ''enabled'' (JBool False) d2 else d2) in
          Inr \<lparr>ce_id = t, ce_kind = ce_kind source, ce_name = name, ce_payload = d3,
               ce_component_type = ce_component_type source\<rparr>)))
      | Inr _ \<Rightarrow> Inl (Bundle_rewrite_error Type_error))"

definition transform_bundle_records ::
  "to_text \<Rightarrow> bundle_record_set \<Rightarrow> identity_plan \<Rightarrow> (string, (string, json) dict) dict \<Rightarrow>
   bundle_error + configuration_entity list" where
  "transform_bundle_records txt records plan payloads =
     map_res (transform_record txt (ip_target_ids plan) (ip_names plan) payloads) (rs_entities records)"

end
