(* ===== verification/Bundle_Identity_Properties.thy ===== *)
theory Bundle_Identity_Properties
  imports Bundle_Identities
begin

text \<open>
  What the planning of a bundle import guarantees: fresh identities, names that collide with
  nothing in their scope, and records that are disabled and point to each other; and where the
  code falls short of it.
\<close>

section \<open>Names\<close>

lemma used_in_add: "used_in (add_used s key used) s' = (if s' = s then List.insert key (used_in used s) else used_in used s')"
  by (simp add: used_in_def add_used_def dict_get_set)

lemma existing_names_spec:
  "existing_names es used = Inr used' \<Longrightarrow>
     (\<forall>s. set (used_in used s) \<subseteq> set (used_in used' s)) \<and>
     (\<forall>e \<in> set es. \<exists>key. entity_name_key (ce_kind e) (ce_name e) = Inr key \<and> key \<in> set (used_in used' (scope_of e)))"
proof (induction es used rule: existing_names.induct)
  case (2 e es used)
  then obtain key where key: "entity_name_key (ce_kind e) (ce_name e) = Inr key"
    "existing_names es (add_used (scope_of e) key used) = Inr used'"
    by (auto simp: res_Inr)
  note IH = 2(1) [OF key]
  have mono: "set (used_in used s) \<subseteq> set (used_in (add_used (scope_of e) key used) s)" for s
    by (auto simp: used_in_add)
  have "key \<in> set (used_in (add_used (scope_of e) key used) (scope_of e))"
    by (simp add: used_in_add)
  with IH have "key \<in> set (used_in used' (scope_of e))" by blast
  with key(1) have "\<exists>key. entity_name_key (ce_kind e) (ce_name e) = Inr key \<and> key \<in> set (used_in used' (scope_of e))"
    by blast
  moreover have "set (used_in used s) \<subseteq> set (used_in used' s)" for s
    using mono [of s] IH by (meson order_trans)
  ultimately show ?case using IH by (simp only: list.set ball_simps) blast
qed auto

definition key_of :: "(string, string) dict \<Rightarrow> configuration_entity \<Rightarrow> bundle_error + nat list" where
  "key_of names e =
     (case map_of names (ce_id e) of None \<Rightarrow> Inl (Bundle_key_error (ce_id e))
      | Some n \<Rightarrow> entity_name_key (ce_kind e) n)"

lemma plan_step_spec:
  assumes "plan_step target_ids supplied rr e st = Inr st'"
  obtains selected key where
    "ps_used st' = add_used (scope_of e) key (ps_used st)"
    "ps_names st' = AList.update (ce_id e) selected (ps_names st)"
    "entity_name_key (ce_kind e) selected = Inr key"
    "\<exists>new. ps_errors st' = ps_errors st @ new \<and> (new = [] \<longrightarrow> key \<notin> set (used_in (ps_used st) (scope_of e)))"
    "map_of target_ids (ce_id e) \<noteq> None"
    "map_of supplied (ce_id e) = None \<Longrightarrow> next_name e (used_in (ps_used st) (scope_of e)) = Inr selected"
proof -
  obtain suggested where s: "next_name e (used_in (ps_used st) (scope_of e)) = Inr suggested"
    using assms by (auto simp: plan_step_def Let_def res_Inr)
  define selected where "selected = (case map_of supplied (ce_id e) of None \<Rightarrow> suggested | Some n \<Rightarrow> n)"
  obtain key where k: "entity_name_key (ce_kind e) selected = Inr key"
    using assms s by (auto simp: plan_step_def Let_def res_Inr selected_def)
  show thesis
    by (rule that [of key selected])
       (use assms s k in \<open>auto simp: plan_step_def Let_def selected_def [symmetric] split: option.splits if_splits\<close>,
        auto simp: selected_def)
qed

lemma plan_entities_spec:
  assumes "plan_entities target_ids supplied rr es st = Inr st'" and "distinct (map ce_id es)"
    and "ps_errors st' = []"
  shows "ps_errors st = [] \<and> (\<forall>s. set (used_in (ps_used st) s) \<subseteq> set (used_in (ps_used st') s)) \<and>
    (\<forall>i. i \<notin> ce_id ` set es \<longrightarrow> map_of (ps_names st') i = map_of (ps_names st) i) \<and>
    (\<forall>e \<in> set es. \<exists>key. key_of (ps_names st') e = Inr key \<and> key \<notin> set (used_in (ps_used st) (scope_of e)) \<and>
       map_of target_ids (ce_id e) \<noteq> None) \<and>
    (\<forall>e \<in> set es. \<forall>e' \<in> set es. e \<noteq> e' \<longrightarrow> scope_of e = scope_of e' \<longrightarrow>
       key_of (ps_names st') e \<noteq> key_of (ps_names st') e')"
  using assms
proof (induction es arbitrary: st)
  case (Cons e es)
  then obtain st1 where st1: "plan_step target_ids supplied rr e st = Inr st1"
    "plan_entities target_ids supplied rr es st1 = Inr st'"
    by (auto simp: res_Inr)
  obtain selected key where step: "ps_used st1 = add_used (scope_of e) key (ps_used st)"
    "ps_names st1 = AList.update (ce_id e) selected (ps_names st)"
    "entity_name_key (ce_kind e) selected = Inr key"
    "\<exists>new. ps_errors st1 = ps_errors st @ new \<and> (new = [] \<longrightarrow> key \<notin> set (used_in (ps_used st) (scope_of e)))"
    "map_of target_ids (ce_id e) \<noteq> None"
    by (rule plan_step_spec [OF st1(1)])
  have dist: "distinct (map ce_id es)" "ce_id e \<notin> ce_id ` set es" using Cons.prems(2) by auto
  note IH = Cons.IH [OF st1(2) dist(1) Cons.prems(3)]
  have err: "ps_errors st = []" "key \<notin> set (used_in (ps_used st) (scope_of e))"
    using IH step(4) by auto
  have mono: "set (used_in (ps_used st) s) \<subseteq> set (used_in (ps_used st1) s)" for s
    using step(1) by (auto simp: used_in_add)
  have name: "key_of (ps_names st') e = Inr key"
    using IH dist(2) step(2,3) by (simp add: key_of_def dict_get_set)
  have used: "key \<in> set (used_in (ps_used st1) (scope_of e))"
    using step(1) by (simp add: used_in_add)
  have other: "key_of (ps_names st') e' \<noteq> Inr key" if "e' \<in> set es" "scope_of e' = scope_of e" for e'
    using IH that used by force
  show ?case
  proof (intro conjI ballI allI impI)
    fix i
    assume "i \<notin> ce_id ` set (e # es)"
    then show "map_of (ps_names st') i = map_of (ps_names st) i"
      using IH step(2) by (simp add: dict_get_set)
  next
    fix a
    assume "a \<in> set (e # es)"
    then consider "a = e" | "a \<in> set es" by auto
    then show "\<exists>key. key_of (ps_names st') a = Inr key \<and> key \<notin> set (used_in (ps_used st) (scope_of a)) \<and>
       map_of target_ids (ce_id a) \<noteq> None"
    proof cases
      case 1
      then show ?thesis using name err(2) step(5) by simp
    next
      case 2
      with IH mono show ?thesis by blast
    qed
  next
    fix a b
    assume ab: "a \<in> set (e # es)" "b \<in> set (e # es)" "a \<noteq> b" "scope_of a = scope_of b"
    then consider "a = e" "b \<in> set es" | "b = e" "a \<in> set es" | "a \<in> set es" "b \<in> set es" by auto
    then show "key_of (ps_names st') a \<noteq> key_of (ps_names st') b"
    proof cases
      case 1
      with ab other [of b] name show ?thesis by auto
    next
      case 2
      with ab other [of a] name show ?thesis by auto
    next
      case 3
      with IH ab show ?thesis by blast
    qed
  qed (use IH mono err in blast)+
qed simp

text \<open>
  A plan without errors gives every record a name whose key collides neither with an existing
  configuration of its scope nor with another record of the bundle in the same scope.
\<close>

theorem planned_names_unique:
  assumes "plan_identities records existing resolutions rr forbidden draws = Inr plan"
    and "ip_errors plan = []" and "distinct (map ce_id (rs_entities records))"
  shows "\<forall>e \<in> set (rs_entities records). \<exists>key. key_of (ip_names plan) e = Inr key \<and>
      (\<forall>x \<in> set existing. scope_of x = scope_of e \<longrightarrow> entity_name_key (ce_kind x) (ce_name x) \<noteq> Inr key) \<and>
      (\<forall>e' \<in> set (rs_entities records). e' \<noteq> e \<longrightarrow> scope_of e' = scope_of e \<longrightarrow> key_of (ip_names plan) e' \<noteq> Inr key)"
proof -
  obtain target_ids used supplied st where
    used: "existing_names existing [] = Inr used"
    and st: "plan_entities target_ids supplied rr (rs_entities records)
        \<lparr>ps_used = used, ps_names = [], ps_plans = [], ps_errors = []\<rparr> = Inr st"
    and plan: "ip_names plan = ps_names st" "ip_errors plan = ps_errors st"
    using assms(1) unfolding plan_identities_def Let_def by (auto simp: res_Inr)
  note spec = plan_entities_spec [OF st assms(3) assms(2) [unfolded plan(2)]]
  note ex = existing_names_spec [OF used]
  show ?thesis
  proof
    fix e
    assume e: "e \<in> set (rs_entities records)"
    with spec obtain key where key: "key_of (ps_names st) e = Inr key" "key \<notin> set (used_in used (scope_of e))"
      by auto
    have "entity_name_key (ce_kind x) (ce_name x) \<noteq> Inr key" if "x \<in> set existing" "scope_of x = scope_of e" for x
      using ex that key(2) by force
    with key spec e plan(1) show "\<exists>key. key_of (ip_names plan) e = Inr key \<and>
      (\<forall>x \<in> set existing. scope_of x = scope_of e \<longrightarrow> entity_name_key (ce_kind x) (ce_name x) \<noteq> Inr key) \<and>
      (\<forall>e' \<in> set (rs_entities records). e' \<noteq> e \<longrightarrow> scope_of e' = scope_of e \<longrightarrow> key_of (ip_names plan) e' \<noteq> Inr key)"
      by (metis (no_types, lifting))
  qed
qed

definition demo_records :: bundle_record_set where
  "demo_records = \<lparr>rs_entities = [demo_owner, demo_tool], rs_component_types = [(''a'', ''custom-tool'')],
     rs_component_records = [(''a'', (''custom-tool'', ''t'', []))], rs_skill_package_owners = []\<rparr>"

definition demo_existing :: "configuration_entity list" where
  "demo_existing = [demo_owner\<lparr>ce_id := ''z''\<rparr>]"

theorem planned_names_unique_witness:
  "\<exists>plan. plan_identities demo_records demo_existing None False [] [''u'', ''v''] = Inr plan \<and>
     (\<exists>key. key_of (ip_names plan) demo_owner = Inr key \<and>
        entity_name_key Main_agent ''main'' \<noteq> Inr key)"
proof -
  obtain plan where plan: "plan_identities demo_records demo_existing None False [] [''u'', ''v''] = Inr plan"
    "ip_errors plan = []"
  proof -
    have "case plan_identities demo_records demo_existing None False [] [''u'', ''v''] of
        Inl _ \<Rightarrow> False | Inr p \<Rightarrow> ip_errors p = []"
      by code_simp
    then show thesis using that by (auto split: sum.splits)
  qed
  have "distinct (map ce_id (rs_entities demo_records))" by code_simp
  from planned_names_unique [OF plan this] plan(1) show ?thesis
    by (auto simp: demo_records_def demo_existing_def scope_of_def demo_owner_def)
qed

section \<open>Identities\<close>

lemma draw_id_fresh: "draw_id taken draws = Some (d, ds) \<Longrightarrow> d \<notin> set taken \<and> d \<in> set draws \<and> (\<exists>p. draws = p @ d # ds)"
proof (induction draws)
  case (Cons x xs)
  show ?case
  proof (cases "x \<in> set taken")
    case True
    with Cons obtain p where "d \<notin> set taken" "xs = p @ d # ds" by auto
    then show ?thesis by (auto intro: exI [of _ "x # p"])
  next
    case False
    with Cons.prems show ?thesis by auto
  qed
qed simp

lemma assign_ids_fresh:
  "assign_ids taken ss draws = Some ids \<Longrightarrow> distinct draws \<Longrightarrow>
     map fst ids = ss \<and> set (map snd ids) \<inter> set taken = {} \<and> set (map snd ids) \<subseteq> set draws \<and> distinct (map snd ids)"
proof (induction ss arbitrary: draws ids)
  case (Cons s ss)
  then obtain d ds ids' where d: "draw_id taken draws = Some (d, ds)" "assign_ids taken ss ds = Some ids'"
    "ids = (s, d) # ids'"
    by (auto split: option.splits)
  obtain p where p: "draws = p @ d # ds" "d \<notin> set taken" using draw_id_fresh [OF d(1)] by blast
  with Cons.prems(2) have "distinct ds" "d \<notin> set ds" by auto
  with Cons.IH [OF d(2)] d(3) p show ?case by auto
qed simp

text \<open>
  The target identities of an import are fresh.  Every record gets one, no two records
  share one, and none is taken by an existing configuration, a forbidden identity or a record
  of the bundle, whether the server draws them (the draws differ) or the client supplies them.
\<close>

theorem target_ids_fresh:
  assumes "choose_target_ids source_ids existing_ids resolutions draws = Inr ids"
    and "distinct draws" and "\<forall>r. resolutions = Some r \<longrightarrow> wf_dict (ir_target_ids r)"
  shows "fst ` set ids = set source_ids \<and> distinct (map fst ids) \<and> distinct (map snd ids) \<and>
    set (map snd ids) \<inter> (set existing_ids \<union> set source_ids) = {}"
proof (cases resolutions)
  case None
  let ?s = "sort_by (\<lambda>i. i) (remdups source_ids)"
  have ids: "assign_ids (existing_ids @ source_ids) ?s draws = Some ids"
    using assms(1) None by (auto simp: choose_target_ids_def split: option.splits)
  note fresh = assign_ids_fresh [OF ids assms(2)]
  have perm: "mset ?s = mset (remdups source_ids)" by (rule sort_by_mset)
  then have "set ?s = set source_ids" by (metis mset_eq_setD set_remdups)
  moreover have "distinct ?s" using perm by (metis distinct_remdups mset_eq_imp_distinct_iff)
  moreover have "fst ` set ids = set ?s" using fresh by (metis list.set_map)
  ultimately show ?thesis using fresh by auto
next
  case (Some r)
  with assms(1,3) show ?thesis
    by (auto simp: choose_target_ids_def Let_def wf_dict_def split: if_splits)
qed

theorem target_ids_fresh_witness:
  "\<exists>ids. choose_target_ids [''m'', ''a''] [''z''] None [''z'', ''u'', ''v''] = Inr ids \<and>
     distinct (map snd ids) \<and> ''z'' \<notin> set (map snd ids)"
proof -
  obtain ids where ids: "choose_target_ids [''m'', ''a''] [''z''] None [''z'', ''u'', ''v''] = Inr ids"
  proof -
    have "choose_target_ids [''m'', ''a''] [''z''] None [''z'', ''u'', ''v''] = Inr [(''a'', ''u''), (''m'', ''v'')]"
      by code_simp
    then show thesis by (rule that)
  qed
  from target_ids_fresh [OF ids] ids show ?thesis by simp
qed

section \<open>The imported records\<close>

text \<open>No reference sits at one of the fields that the import writes itself.\<close>

definition import_fields :: "string list" where
  "import_fields = [''id'', ''name'', ''component_name'', ''enabled'']"

lemma reference_head:
  assumes "r \<in> set (iter_configuration_references txt owner)"
  shows "\<exists>k rest. cr_location r = Key k # rest \<and> k \<notin> set import_fields"
proof -
  note refs = assms [unfolded iter_configuration_references_def]
  show ?thesis
  proof (cases "ce_kind owner")
    case Component
    with refs show ?thesis
      by (auto simp: component_references_def import_fields_def
          dest!: list_reference_location scalar_location split: if_splits)
  next
    case Main_agent
    with refs show ?thesis
      by (auto simp: main_agent_references_def import_fields_def dest!: list_reference_location)
  next
    case Subagent
    with refs show ?thesis
      by (cases "object_or_empty ''settings'' (ce_payload owner)")
         (auto simp: subagent_references_def import_fields_def dest!: list_reference_location override_location)
  next
    case Workflow
    with refs show ?thesis
      by (auto simp: workflow_references_def import_fields_def node_location_def
          dest!: scalar_location graph_reference_location)
  next
    case Mcp_tool
    with refs show ?thesis
      by (auto simp: mcp_tool_references_def import_fields_def node_location_def
          dest!: scalar_location graph_reference_location)
  qed (use refs in simp)
qed

lemma json_get_update_other:
  "l = Key k' # rest \<Longrightarrow> k' \<noteq> k \<Longrightarrow> json_get l (JObj (AList.update k v d)) = json_get l (JObj d)"
  by (simp add: dict_get_set)

lemma name_field_import: "name_field k \<in> set import_fields"
  by (simp add: name_field_def import_fields_def)

text \<open>
  An imported agent, Subagent, Workflow or MCP Tool carries its planned identity and name,
  is disabled where it could run, and each of its references points to the target identity of
  the record it pointed to in the bundle.
\<close>

theorem import_repoints:
  assumes "transform_record txt ids names payloads source = Inr out"
    and "ce_kind source \<noteq> Component" and "well_shaped (ce_payload source)" and "map_of ids [] = None"
  shows "map_of ids (ce_id source) = Some (ce_id out) \<and> map_of names (ce_id source) = Some (ce_name out) \<and>
    map_of (ce_payload out) ''id'' = Some (JStr (ce_id out)) \<and>
    (ce_kind source \<in> {Main_agent, Mcp_tool, Workflow} \<longrightarrow> map_of (ce_payload out) ''enabled'' = Some (JBool False)) \<and>
    (\<forall>r \<in> set (iter_configuration_references txt source).
       \<exists>t. map_of ids (cr_target_id r) = Some t \<and> json_get (cr_location r) (JObj (ce_payload out)) = Some (JStr t))"
proof -
  obtain body where body: "rewrite_configuration_references txt source ids False = Inr (JObj body)"
    using assms(1) by (auto simp: transform_record_def split: sum.splits json.splits)
  define d1 where "d1 = AList.update (name_field (ce_kind source)) (JStr (ce_name out))
    (AList.update ''id'' (JStr (ce_id out)) body)"
  have out: "map_of ids (ce_id source) = Some (ce_id out)" "map_of names (ce_id source) = Some (ce_name out)"
    "ce_payload out = (if ce_kind source \<in> {Main_agent, Mcp_tool, Workflow}
       then AList.update ''enabled'' (JBool False) d1 else d1)"
    using assms(1,2) body
    by (auto simp: transform_record_def res_Inr lookup_id_def d1_def Let_def split: option.splits)
  have all: "\<forall>r \<in> set (iter_configuration_references txt source). map_of ids (cr_target_id r) \<noteq> None"
    using rewrite_omits [OF assms(3,4), of "txt"] body by fastforce
  from rewrite_spec [OF assms(3,4) disjI2 [OF all], of False] body
  have at: "json_get (cr_location r) (JObj body) =
      (case map_of ids (cr_target_id r) of Some t \<Rightarrow> Some (JStr t)
       | None \<Rightarrow> json_get (cr_location r) (JObj (ce_payload source)))"
    if "r \<in> set (iter_configuration_references txt source)" for r
    using that by (auto simp: rewritten_def)
  have "\<exists>t. map_of ids (cr_target_id r) = Some t \<and> json_get (cr_location r) (JObj (ce_payload out)) = Some (JStr t)"
    if r: "r \<in> set (iter_configuration_references txt source)" for r
  proof -
    obtain t where t: "map_of ids (cr_target_id r) = Some t" using all r by blast
    obtain k rest where k: "cr_location r = Key k # rest" "k \<notin> set import_fields"
      using reference_head [OF r] by blast
    then have "k \<noteq> name_field (ce_kind source)" "k \<noteq> ''id''" "k \<noteq> ''enabled''"
      using name_field_import by (auto simp: import_fields_def)
    with k(1) out(3) have "json_get (cr_location r) (JObj (ce_payload out)) = json_get (cr_location r) (JObj body)"
      by (simp add: d1_def dict_get_set)
    with at [OF r] t show ?thesis by simp
  qed
  moreover have "name_field (ce_kind source) \<noteq> ''id''" by (simp add: name_field_def)
  ultimately show ?thesis using out by (auto simp: d1_def dict_get_set)
qed

text \<open>
  C30: the references of an imported filesystem component are lost.  Its rewritten payload is
  overlaid with the payload of the bundle, so its Skill still names the identity the Skill had
  in the bundle, whatever identity the plan gave to the imported Skill.
\<close>

theorem imported_filesystem_keeps_source_skill:
  assumes "transform_record txt ids names payloads source = Inr out"
    and "ce_kind source = Component" and "ce_component_type source = ''filesystem''"
    and "map_of payloads (ce_id source) = Some p" and "wf_dict p"
    and "map_of p ''skill_package_id'' = Some (JStr s)"
  shows "map cr_target_id (iter_configuration_references txt out) = [s]"
proof -
  obtain body where body: "rewrite_configuration_references txt source ids False = Inr (JObj body)"
    using assms(1) by (auto simp: transform_record_def split: sum.splits json.splits)
  have out: "ce_kind out = Component" "ce_component_type out = ''filesystem''"
    and pay: "\<exists>d. ce_payload out = dict_merge d p"
    using assms(1-4) body
    by (auto simp: transform_record_def transform_component_def res_Inr lookup_id_def Let_def package_directories_def
        split: option.splits)
  from pay have "map_of (ce_payload out) ''skill_package_id'' = Some (JStr s)"
    using assms(5,6) by (auto simp: dict_merge_get_wf)
  with out show ?thesis
    by (simp add: iter_configuration_references_def component_references_def scalar_reference_def field_def
        mk_reference_def target_text_def)
qed

definition demo_filesystem :: configuration_entity where
  "demo_filesystem = \<lparr>ce_id = ''f'', ce_kind = Component, ce_name = ''files'',
     ce_payload = [(''name'', JStr ''files''), (''skill_package_id'', JStr ''s''), (''id'', JStr ''f'')],
     ce_component_type = ''filesystem''\<rparr>"

theorem import_repoints_witness:
  "\<exists>out. transform_record plain_text [(''m'', ''M''), (''a'', ''A'')] [(''m'', ''main'')] [] demo_owner = Inr out \<and>
     map_of (ce_payload out) ''enabled'' = Some (JBool False) \<and> ce_id out = ''M''"
proof -
  obtain out where out: "transform_record plain_text [(''m'', ''M''), (''a'', ''A'')] [(''m'', ''main'')] [] demo_owner = Inr out"
  proof -
    have "case transform_record plain_text [(''m'', ''M''), (''a'', ''A'')] [(''m'', ''main'')] [] demo_owner of
        Inl _ \<Rightarrow> False | Inr _ \<Rightarrow> True"
      by code_simp
    then show thesis using that by (auto split: sum.splits)
  qed
  have "well_shaped (ce_payload demo_owner)" by code_simp
  from import_repoints [OF out _ this] out show ?thesis by (auto simp: demo_owner_def)
qed

theorem imported_filesystem_keeps_source_skill_witness:
  "\<exists>out. transform_record plain_text [(''f'', ''F''), (''s'', ''S'')] [(''f'', ''files'')]
       [(''f'', [(''skill_package_id'', JStr ''s'')])] demo_filesystem = Inr out \<and>
     map cr_target_id (iter_configuration_references plain_text out) = [''s'']"
proof -
  obtain out where out: "transform_record plain_text [(''f'', ''F''), (''s'', ''S'')] [(''f'', ''files'')]
       [(''f'', [(''skill_package_id'', JStr ''s'')])] demo_filesystem = Inr out"
  proof -
    have "case transform_record plain_text [(''f'', ''F''), (''s'', ''S'')] [(''f'', ''files'')]
       [(''f'', [(''skill_package_id'', JStr ''s'')])] demo_filesystem of Inl _ \<Rightarrow> False | Inr _ \<Rightarrow> True"
      by code_simp
    then show thesis using that by (auto split: sum.splits)
  qed
  from imported_filesystem_keeps_source_skill [OF out, of "[(''skill_package_id'', JStr ''s'')]" "''s''"] out
  show ?thesis by (auto simp: demo_filesystem_def wf_dict_def)
qed

end
