(* ===== verification/Configuration_Store.thy ===== *)
theory Configuration_Store
  imports Configuration_Snapshot Workflow_Document
begin

text \<open>
  \<open>storage/file_config.py\<close>: the configuration of a repository as one YAML document per entity,
  the flush that makes the files equal to the configuration in memory, the load that reads them
  back, and the update that validates, flushes and rolls back.  A file system is the dictionary
  of its files; a path is the list of its segments below the repository.
\<close>

section \<open>Files\<close>

type_synonym path = "string list"

record 'f config_store =
  cs_dirs :: "string list"
  cs_files :: "(path, 'f) dict"

datatype 'f file_op =
    Make_dir string
  | Write_file path 'f
  | Unlink_file path

fun apply_op :: "'f file_op \<Rightarrow> 'f config_store \<Rightarrow> 'f config_store" where
  "apply_op (Make_dir d) st = st\<lparr>cs_dirs := (if d \<in> set (cs_dirs st) then cs_dirs st else cs_dirs st @ [d])\<rparr>"
| "apply_op (Write_file p x) st = st\<lparr>cs_files := AList.update p x (cs_files st)\<rparr>"
| "apply_op (Unlink_file p) st = st\<lparr>cs_files := AList.delete p (cs_files st)\<rparr>"

definition apply_ops :: "'f file_op list \<Rightarrow> 'f config_store \<Rightarrow> 'f config_store" where
  "apply_ops ops st = fold apply_op ops st"

text \<open>The YAML library: what it writes for a document, and what it reads from a file (or fails).\<close>

record 'f yaml_library =
  yaml_dump :: "json \<Rightarrow> 'f"
  yaml_load :: "'f \<Rightarrow> json option"

datatype store_error =
    Store_value_error string
  | Yaml_error
  | Snapshot_refused snapshot_error
  | Repository_changed
  | Mutator_error string
  | Write_failed

definition config_version :: int where
  "config_version = 2"

definition yaml_suffix :: string where
  "yaml_suffix = ''.yaml''"

definition managed_roots :: "string list" where
  "managed_roots = [''components'', ''agents'', ''mcp_tools'', ''workflows'']"

definition managed_path :: "path \<Rightarrow> bool" where
  "managed_path p \<longleftrightarrow> 2 \<le> length p \<and> hd p \<in> set managed_roots \<and> ends_with yaml_suffix (last p)"

section \<open>Writing\<close>

definition has_id :: "(string, json) dict \<Rightarrow> bool" where
  "has_id r \<longleftrightarrow> json_truthy (field ''id'' r)"

definition field_or :: "json \<Rightarrow> string \<Rightarrow> (string, json) dict \<Rightarrow> json" where
  "field_or d k r = (case map_of r k of None \<Rightarrow> d | Some v \<Rightarrow> v)"

definition without :: "string list \<Rightarrow> (string, json) dict \<Rightarrow> (string, json) dict" where
  "without ks r = filter (\<lambda>kv. fst kv \<notin> set ks) r"

definition record_path :: "to_text \<Rightarrow> path \<Rightarrow> (string, json) dict \<Rightarrow> path" where
  "record_path txt dir r = dir @ [txt (field ''id'' r) @ yaml_suffix]"

definition component_document :: "string \<Rightarrow> (string, json) dict \<Rightarrow> json" where
  "component_document block_type r =
     JObj [(''kind'', JStr ''component''), (''type'', JStr block_type), (''schema_version'', JInt config_version),
           (''id'', field ''id'' r), (''name'', field_or (JStr []) ''name'' r),
           (''payload'', JObj (without [''id'', ''name''] r))]"

definition agent_document :: "string \<Rightarrow> string \<Rightarrow> (string, json) dict \<Rightarrow> json" where
  "agent_document kind identity r =
     JObj [(''kind'', JStr kind), (''schema_version'', JInt config_version), (''id'', field ''id'' r),
           (identity, field_or (JStr []) identity r), (''payload'', JObj (without [''id'', identity] r))]"

definition plain_document :: "string \<Rightarrow> (string, json) dict \<Rightarrow> json" where
  "plain_document kind r =
     JObj [(''kind'', JStr kind), (''schema_version'', JInt config_version), (''id'', field ''id'' r),
           (''payload'', JObj (without [''id''] r))]"

definition section_documents ::
  "to_text \<Rightarrow> path \<Rightarrow> ((string, json) dict \<Rightarrow> json) \<Rightarrow> json \<Rightarrow> (path \<times> json) list" where
  "section_documents txt dir document section_value =
     map (\<lambda>r. (record_path txt dir r, document r)) (filter has_id (records_of section_value))"

definition component_sections :: "(string, json) dict \<Rightarrow> (string, json) dict" where
  "component_sections config = (case field ''components'' config of JObj types \<Rightarrow> types | _ \<Rightarrow> [])"

definition component_documents :: "to_text \<Rightarrow> (string, json) dict \<Rightarrow> (path \<times> json) list" where
  "component_documents txt config =
     concat (map (\<lambda>(t, v). section_documents txt [''components'', t] (component_document t) v)
       (component_sections config))"

definition agent_documents :: "to_text \<Rightarrow> (string, json) dict \<Rightarrow> (path \<times> json) list" where
  "agent_documents txt config =
     section_documents txt [''agents'', ''external''] (agent_document ''external_agent'' ''name'')
       (field ''external_agents'' config) @
     section_documents txt [''agents'', ''main''] (agent_document ''main_agent'' ''name'')
       (field ''main_agents'' config) @
     section_documents txt [''agents'', ''subagent''] (agent_document ''subagent'' ''component_name'')
       (field ''subagents'' config)"

definition mcp_tool_documents :: "to_text \<Rightarrow> (string, json) dict \<Rightarrow> (path \<times> json) list" where
  "mcp_tool_documents txt config =
     section_documents txt [''mcp_tools''] (plain_document ''mcp_tool'') (field ''mcp_tools'' config)"

definition workflow_documents :: "to_text \<Rightarrow> (string, json) dict \<Rightarrow> (path \<times> json) list" where
  "workflow_documents txt config =
     section_documents txt [''workflows''] (plain_document ''workflow'') (field ''workflows'' config)"

definition config_documents :: "to_text \<Rightarrow> (string, json) dict \<Rightarrow> (path \<times> json) list" where
  "config_documents txt config =
     component_documents txt config @ agent_documents txt config @ mcp_tool_documents txt config @
     workflow_documents txt config"

text \<open>The operations of \<open>_flush_config\<close>: directories and documents, then the files nobody expects.\<close>

definition flush_ops :: "'f yaml_library \<Rightarrow> to_text \<Rightarrow> (string, json) dict \<Rightarrow> 'f config_store \<Rightarrow> 'f file_op list" where
  "flush_ops lib txt config st =
     (let docs = config_documents txt config in
      map (Make_dir \<circ> fst) (component_sections config) @
      map (\<lambda>(p, d). Write_file p (yaml_dump lib d)) docs @
      map Unlink_file (filter (\<lambda>p. managed_path p \<and> p \<notin> fst ` set docs) (map fst (cs_files st))))"

section \<open>Reading\<close>

definition read_yaml :: "'f yaml_library \<Rightarrow> 'f \<Rightarrow> store_error + (string, json) dict" where
  "read_yaml lib x =
     (case yaml_load lib x of
        None \<Rightarrow> Inl Yaml_error
      | Some v \<Rightarrow>
          if \<not> json_truthy v then Inr []
          else (case v of
                  JObj d \<Rightarrow> Inr d
                | _ \<Rightarrow> Inl (Store_value_error ''configuration file must contain a mapping'')))"

definition configuration_document ::
  "string \<Rightarrow> (string, json) dict \<Rightarrow> string \<Rightarrow> string \<Rightarrow> string \<Rightarrow>
   store_error + (string \<times> (string, json) dict)" where
  "configuration_document stem document kind component_type identity_field =
     (let expected = [''kind'', ''schema_version'', ''id'', ''payload''] @
            (if component_type \<noteq> [] then [''type'', ''name'']
             else if identity_field \<noteq> [] then [identity_field] else []);
          reserved = [''id''] @ (if component_type \<noteq> [] then [''name'']
             else if identity_field \<noteq> [] then [identity_field] else []) in
      if fst ` set document \<noteq> set expected
      then Inl (Store_value_error ''configuration document envelope is invalid'')
      else if field ''kind'' document \<noteq> JStr kind
      then Inl (Store_value_error ''configuration document kind is invalid'')
      else if field ''schema_version'' document \<noteq> JInt config_version
      then Inl (Store_value_error ''configuration document schema_version is invalid'')
      else if component_type \<noteq> [] \<and> field ''type'' document \<noteq> JStr component_type
      then Inl (Store_value_error ''configuration document type is invalid'')
      else (case field ''id'' document of
              JStr i \<Rightarrow>
                if \<not> is_configuration_id i
                then Inl (Store_value_error ''configuration document id must be a canonical lowercase UUID4'')
                else if stem \<noteq> i
                then Inl (Store_value_error ''configuration filename must match its document id'')
                else (case field ''payload'' document of
                        JObj payload \<Rightarrow>
                          if \<exists>k \<in> set reserved. map_of payload k \<noteq> None
                          then Inl (Store_value_error ''configuration payload duplicates envelope identity'')
                          else Inr (i, payload)
                      | _ \<Rightarrow> Inl (Store_value_error ''configuration payload must be a mapping''))
            | _ \<Rightarrow> Inl (Store_value_error ''configuration document id must be a canonical lowercase UUID4'')))"

definition stem_of :: "path \<Rightarrow> string" where
  "stem_of p = take (length (last p) - length yaml_suffix) (last p)"

definition dir_files :: "path \<Rightarrow> 'f config_store \<Rightarrow> (path \<times> 'f) list" where
  "dir_files dir st =
     sort_by (\<lambda>f. last (fst f))
       (filter (\<lambda>f. fst f \<noteq> [] \<and> butlast (fst f) = dir \<and> ends_with yaml_suffix (last (fst f))) (cs_files st))"

definition load_record ::
  "'f yaml_library \<Rightarrow> string \<Rightarrow> string \<Rightarrow> string \<Rightarrow> path \<times> 'f \<Rightarrow> store_error + json" where
  "load_record lib kind component_type identity_field f =
     bind_res (read_yaml lib (snd f)) (\<lambda>document.
     bind_res (configuration_document (stem_of (fst f)) document kind component_type
                 (if component_type \<noteq> [] then [] else identity_field)) (\<lambda>(i, payload).
       let r = AList.update ''id'' (JStr i) payload;
           identity = (if component_type \<noteq> [] then ''name'' else identity_field) in
       Inr (JObj (if identity \<noteq> [] then AList.update identity (field identity document) r else r))))"

definition load_section ::
  "'f yaml_library \<Rightarrow> 'f config_store \<Rightarrow> path \<Rightarrow> string \<Rightarrow> string \<Rightarrow> string \<Rightarrow> store_error + json" where
  "load_section lib st dir kind component_type identity_field =
     bind_res (map_res (load_record lib kind component_type identity_field) (dir_files dir st))
       (\<lambda>rs. Inr (JList rs))"

definition load_components :: "'f yaml_library \<Rightarrow> 'f config_store \<Rightarrow> store_error + (string, json) dict" where
  "load_components lib st =
     map_res (\<lambda>d. if d = ''model'' then Inl (Store_value_error ''legacy model components are not accepted'')
                  else bind_res (load_section lib st [''components'', d] ''component'' d []) (\<lambda>v. Inr (d, v)))
       (cs_dirs st)"

definition load_config :: "'f yaml_library \<Rightarrow> 'f config_store \<Rightarrow> store_error + (string, json) dict" where
  "load_config lib st =
     bind_res (load_components lib st) (\<lambda>components.
     bind_res (load_section lib st [''agents'', ''external''] ''external_agent'' [] ''name'') (\<lambda>external.
     bind_res (load_section lib st [''agents'', ''main''] ''main_agent'' [] ''name'') (\<lambda>main.
     bind_res (load_section lib st [''agents'', ''subagent''] ''subagent'' [] ''component_name'') (\<lambda>sub.
     bind_res (load_section lib st [''workflows''] ''workflow'' [] []) (\<lambda>workflows.
     bind_res (load_section lib st [''mcp_tools''] ''mcp_tool'' [] []) (\<lambda>mcp.
       Inr [(''config_version'', JInt config_version), (''components'', JObj components),
            (''external_agents'', external), (''main_agents'', main), (''mcp_tools'', mcp),
            (''subagents'', sub), (''workflows'', workflows)]))))))"

section \<open>The repository\<close>

record 'f config_repository =
  rp_id :: string
  rp_config :: "(string, json) dict"
  rp_store :: "'f config_store"
  rp_revision :: nat

definition normalize_config :: "(string, json) dict \<Rightarrow> store_error + (string, json) dict" where
  "normalize_config config =
     (let c = fold (\<lambda>(k, v) d. dict_setdefault k v d)
        [(''config_version'', JInt config_version), (''components'', JObj []), (''external_agents'', JList []),
         (''main_agents'', JList []), (''mcp_tools'', JList []), (''subagents'', JList []), (''workflows'', JList [])]
        config in
      case field ''components'' c of
        JObj _ \<Rightarrow> Inr c
      | _ \<Rightarrow> Inl (Store_value_error ''config components must be a mapping''))"

text \<open>
  A flush may fail after any number of its operations (\<open>Some k\<close>); the update then flushes the
  configuration in memory again, which may fail in its turn.  The result is the repository after
  the call, with the error that was raised, if any.
\<close>

definition flush_until :: "'f yaml_library \<Rightarrow> to_text \<Rightarrow> nat option \<Rightarrow> (string, json) dict \<Rightarrow> 'f config_store \<Rightarrow> 'f config_store" where
  "flush_until lib txt fault config st =
     (let ops = flush_ops lib txt config st in
      apply_ops (case fault of None \<Rightarrow> ops | Some k \<Rightarrow> take k ops) st)"

definition update_config ::
  "'f yaml_library \<Rightarrow> to_text \<Rightarrow> nat option \<Rightarrow> nat option \<Rightarrow> string option \<Rightarrow>
   ((string, json) dict \<Rightarrow> string + (string, json) dict) \<Rightarrow> 'f config_repository \<Rightarrow>
   'f config_repository \<times> store_error option" where
  "update_config lib txt fault rollback_fault expected_id mutator rp =
     (if expected_id \<noteq> None \<and> expected_id \<noteq> Some (rp_id rp) then (rp, Some Repository_changed)
      else (case mutator (rp_config rp) of
        Inl e \<Rightarrow> (rp, Some (Mutator_error e))
      | Inr changed \<Rightarrow>
          (case normalize_config changed of
             Inl e \<Rightarrow> (rp, Some e)
           | Inr candidate \<Rightarrow>
               (case validate_configuration_snapshot txt candidate config_version of
                  Inl e \<Rightarrow> (rp, Some (Snapshot_refused e))
                | Inr _ \<Rightarrow>
                    (case fault of
                       None \<Rightarrow>
                         (rp\<lparr>rp_config := candidate, rp_store := flush_until lib txt None candidate (rp_store rp),
                             rp_revision := Suc (rp_revision rp)\<rparr>, None)
                     | Some k \<Rightarrow>
                         (rp\<lparr>rp_store := flush_until lib txt rollback_fault (rp_config rp)
                               (flush_until lib txt (Some k) candidate (rp_store rp))\<rparr>, Some Write_failed))))))"

end
