(* ===== verification/Store_Flush.thy ===== *)
theory Store_Flush
  imports Configuration_Store
begin

text \<open>
  What a flush of \<open>storage/file_config.py\<close> leaves on disk: the interface of a file store with its
  laws, the paths of a configuration that passed the snapshot check, and the effect of a complete
  flush and of one that stops half-way.
\<close>

section \<open>The interface of a file store\<close>

text \<open>
  Writing all documents and then removing a list of files, over any store with the three
  operations; the later of two writes of a path wins.
\<close>

locale file_store =
  fixes fread :: "'s \<Rightarrow> path \<Rightarrow> 'v option"
    and fwrite :: "path \<Rightarrow> 'v \<Rightarrow> 's \<Rightarrow> 's"
    and funlink :: "path \<Rightarrow> 's \<Rightarrow> 's"
  assumes read_write: "fread (fwrite p x s) q = (if q = p then Some x else fread s q)"
    and read_unlink: "fread (funlink p s) q = (if q = p then None else fread s q)"
begin

lemma read_writes:
  "fread (fold (\<lambda>(p, x). fwrite p x) docs s) q =
     (case map_of (rev docs) q of None \<Rightarrow> fread s q | Some x \<Rightarrow> Some x)"
proof (induction docs arbitrary: s)
  case (Cons d docs)
  show ?case
  proof (cases d)
    case (Pair p x)
    show ?thesis
      unfolding Pair fold_Cons o_apply prod.case Cons.IH rev.simps map_of_append
      by (simp add: read_write map_add_def split: option.splits)
  qed
qed simp

lemma read_unlinks: "fread (fold funlink ps s) q = (if q \<in> set ps then None else fread s q)"
  by (induction ps arbitrary: s) (auto simp: read_unlink)

lemma read_synced:
  "fread (fold funlink ps (fold (\<lambda>(p, x). fwrite p x) docs s)) q =
     (if q \<in> set ps then None
      else case map_of (rev docs) q of None \<Rightarrow> fread s q | Some x \<Rightarrow> Some x)"
  by (simp add: read_unlinks read_writes)

end

definition read_file :: "'f config_store \<Rightarrow> path \<Rightarrow> 'f option" where
  "read_file st p = map_of (cs_files st) p"

interpretation st_files: file_store read_file "\<lambda>p x. apply_op (Write_file p x)" "\<lambda>p. apply_op (Unlink_file p)"
  by unfold_locales (auto simp: read_file_def dict_get_set dict_get_pop)

section \<open>The operations of a flush\<close>

definition op_path :: "'f file_op \<Rightarrow> path option" where
  "op_path op = (case op of Make_dir d \<Rightarrow> None | Write_file p x \<Rightarrow> Some p | Unlink_file p \<Rightarrow> Some p)"

lemma read_other: "op_path op \<noteq> Some p \<Longrightarrow> read_file (apply_op op st) p = read_file st p"
  by (cases op) (auto simp: op_path_def read_file_def dict_get_set dict_get_pop)

lemma read_others:
  "\<forall>op \<in> set ops. op_path op \<noteq> Some p \<Longrightarrow> read_file (apply_ops ops st) p = read_file st p"
  unfolding apply_ops_def by (induction ops arbitrary: st) (auto simp: read_other)

lemma apply_ops_append: "apply_ops (xs @ ys) st = apply_ops ys (apply_ops xs st)"
  by (simp add: apply_ops_def)

lemma make_dirs_files: "cs_files (apply_ops (map (Make_dir \<circ> fst) ds) st) = cs_files st"
  unfolding apply_ops_def by (induction ds arbitrary: st) auto

lemma apply_ops_wf: "wf_dict (cs_files st) \<Longrightarrow> wf_dict (cs_files (apply_ops ops st))"
  unfolding apply_ops_def
proof (induction ops arbitrary: st)
  case (Cons op ops)
  then show ?case by (cases op) auto
qed simp

lemma apply_ops_dirs:
  "set (cs_dirs (apply_ops ops st)) = {d. Make_dir d \<in> set ops} \<union> set (cs_dirs st)"
  unfolding apply_ops_def
proof (induction ops arbitrary: st)
  case (Cons op ops)
  then show ?case by (cases op) auto
qed simp

lemma apply_writes: "apply_ops (map (\<lambda>(p, x). Write_file p x) docs) = fold (\<lambda>(p, x). apply_op (Write_file p x)) docs"
  unfolding apply_ops_def
  by (induction docs) (auto simp: fun_eq_iff)

lemma apply_unlinks: "apply_ops (map Unlink_file ps) = fold (\<lambda>p. apply_op (Unlink_file p)) ps"
  unfolding apply_ops_def by (induction ps) (auto simp: fun_eq_iff)

section \<open>Paths of a checked configuration\<close>

definition text_law :: "to_text \<Rightarrow> bool" where
  "text_law tx \<longleftrightarrow> (\<forall>s. tx (JStr s) = s)"

definition checked :: "to_text \<Rightarrow> (string, json) dict \<Rightarrow> bool" where
  "checked tx config \<longleftrightarrow> validate_configuration_snapshot tx config config_version = Inr ()"

definition record_id :: "(string, json) dict \<Rightarrow> string" where
  "record_id r = target_text (field ''id'' r)"

definition with_id :: "(string, json) dict \<Rightarrow> bool" where
  "with_id r \<longleftrightarrow> map_of r ''id'' = Some (JStr (record_id r)) \<and> is_configuration_id (record_id r)"

text \<open>The records of a configuration, in the order of the files and in that of the entities.\<close>

definition component_records :: "(string, json) dict \<Rightarrow> (string, json) dict list" where
  "component_records config = concat (map (\<lambda>tv. records_of (snd tv)) (component_sections config))"

definition all_records :: "(string, json) dict \<Rightarrow> (string, json) dict list" where
  "all_records config = component_records config @ concat (map (\<lambda>k. records_of (field k config)) record_sections)"

lemma entity_records:
  "mset (map ce_payload (iter_configuration_entities tx config)) = mset (all_records config)"
proof -
  have c: "map ce_payload (concat (map (\<lambda>(t, v). map (entity_of tx Component t ''name'') (records_of v)) types)) =
      concat (map (\<lambda>tv. records_of (snd tv)) types)" for types
    by (induction types) (auto simp: entity_of_def comp_def)
  have s: "map ce_payload (map (entity_of tx k t n) rs) = rs" for k t n rs
    by (induction rs) (auto simp: entity_of_def)
  have "map ce_payload (case field ''components'' config of
        JObj types \<Rightarrow> concat (map (\<lambda>(t, v). map (entity_of tx Component t ''name'') (records_of v)) types)
      | _ \<Rightarrow> []) = component_records config"
    by (cases "field ''components'' config") (simp_all add: c component_records_def component_sections_def)
  then show ?thesis
    unfolding iter_configuration_entities_def map_append s all_records_def record_sections_def
    by (simp add: ac_simps)
qed

lemma payload_id_record: "payload_id e = record_id (ce_payload e)"
  by (simp add: payload_id_def record_id_def)

lemma empty_not_id: "\<not> is_configuration_id []"
  by code_simp

lemma checked_records:
  assumes "checked tx config"
  shows "\<forall>r \<in> set (all_records config). with_id r" "distinct (map record_id (all_records config))"
proof -
  let ?es = "iter_configuration_entities tx config"
  have sound: "sound_entities tx ?es"
    using assms unfolding check_entities_start [symmetric]
    by (auto simp: checked_def validate_configuration_snapshot_def res_Inr)
  have ms: "mset (map ce_payload ?es) = mset (all_records config)" by (rule entity_records)
  have "with_id (ce_payload e)" if "e \<in> set ?es" for e
  proof -
    have "entity_id_of e = Some (payload_id e)" using sound that by (auto simp: sound_entities_def)
    then show ?thesis
      by (auto simp: entity_id_of_def with_id_def payload_id_record record_id_def field_def target_text_def
          split: option.splits json.splits if_splits)
  qed
  moreover have "set (all_records config) = ce_payload ` set ?es"
    using mset_eq_setD [OF ms] by simp
  ultimately show "\<forall>r \<in> set (all_records config). with_id r" by simp
  have "mset (map record_id (map ce_payload ?es)) = mset (map record_id (all_records config))"
    using ms by (metis mset_map)
  moreover have "map record_id (map ce_payload ?es) = map payload_id ?es"
    by (simp add: payload_id_record)
  moreover have "distinct (map payload_id ?es)" using sound by (simp add: sound_entities_def)
  ultimately show "distinct (map record_id (all_records config))"
    by (metis mset_eq_imp_distinct_iff)
qed


lemma stem_of_file [simp]: "stem_of (dir @ [i @ yaml_suffix]) = i"
  by (simp add: stem_of_def)

lemma file_suffix [simp]: "ends_with yaml_suffix (i @ yaml_suffix)"
  by (simp add: ends_with_def suffix_def)

lemma section_files:
  assumes "text_law tx" and "\<forall>r \<in> set (records_of v). with_id r"
  shows "section_documents tx dir doc v =
    map (\<lambda>r. (dir @ [record_id r @ yaml_suffix], doc r)) (records_of v)"
proof -
  have r: "has_id r \<and> record_path tx dir r = dir @ [record_id r @ yaml_suffix]" if "r \<in> set (records_of v)" for r
  proof -
    have f: "field ''id'' r = JStr (record_id r)" and i: "is_configuration_id (record_id r)"
      using assms(2) that by (auto simp: with_id_def field_def)
    have "record_id r \<noteq> []" using i empty_not_id by metis
    then show ?thesis
      using assms(1) by (simp add: has_id_def record_path_def f text_law_def)
  qed
  then have "filter has_id (records_of v) = records_of v" by (simp add: filter_id_conv)
  with r show ?thesis by (simp add: section_documents_def)
qed

lemma documents_stems:
  assumes "text_law tx" and "checked tx config"
  shows "mset (map (stem_of \<circ> fst) (config_documents tx config)) = mset (map record_id (all_records config))"
proof -
  have ids: "\<forall>r \<in> set (all_records config). with_id r" by (rule checked_records [OF assms(2)])
  have stems: "map (stem_of \<circ> fst) (section_documents tx dir doc v) = map record_id (records_of v)"
    if "\<forall>r \<in> set (records_of v). with_id r" for dir doc v
    by (simp add: section_files [OF assms(1) that] comp_def)
  have sec: "map (stem_of \<circ> fst) (section_documents tx dir doc (field k config)) = map record_id (records_of (field k config))"
    if "k \<in> set record_sections" for dir doc k
    by (rule stems) (use ids that in \<open>auto simp: all_records_def\<close>)
  have types: "map (stem_of \<circ> fst) (section_documents tx [''components'', fst tv] (component_document (fst tv)) (snd tv)) =
      map record_id (records_of (snd tv))" if "tv \<in> set (component_sections config)" for tv
    by (rule stems) (use ids that in \<open>auto simp: all_records_def component_records_def\<close>)
  have comp: "map (stem_of \<circ> fst) (component_documents tx config) = map record_id (component_records config)"
    unfolding component_documents_def component_records_def map_concat map_map
    by (rule arg_cong [where f = concat], rule map_cong) (simp_all only: refl types o_apply prod.case_eq_if)
  show ?thesis
    unfolding config_documents_def agent_documents_def mcp_tool_documents_def workflow_documents_def map_append comp
    by (simp add: sec all_records_def record_sections_def ac_simps del: mset_map)
qed

lemma documents_distinct:
  assumes "text_law tx" and "checked tx config"
  shows "distinct (map fst (config_documents tx config))"
proof -
  have "distinct (map stem_of (map fst (config_documents tx config)))"
    using documents_stems [OF assms] checked_records(2) [OF assms(2)]
    by (metis map_map mset_eq_imp_distinct_iff)
  then show ?thesis by (simp only: distinct_map)
qed

lemma section_managed:
  assumes "(p, d) \<in> set (section_documents tx dir doc v)" and "dir \<noteq> []" and "hd dir \<in> set managed_roots"
  shows "managed_path p"
  using assms by (auto simp: section_documents_def record_path_def managed_path_def Suc_le_eq)

lemma documents_managed: "(p, d) \<in> set (config_documents tx config) \<Longrightarrow> managed_path p"
  unfolding config_documents_def component_documents_def agent_documents_def mcp_tool_documents_def
    workflow_documents_def
  by (auto elim!: section_managed simp: managed_roots_def)

section \<open>The effect of a flush\<close>

lemma flush_ops_path: "op \<in> set (flush_ops lib tx config st) \<Longrightarrow> op_path op = Some p \<Longrightarrow> managed_path p"
  by (auto simp: flush_ops_def op_path_def Let_def dest: documents_managed)

text \<open>However far it gets, a flush changes no file outside the configuration.\<close>

lemma flush_until_other:
  "\<not> managed_path p \<Longrightarrow> read_file (flush_until lib tx fault config st) p = read_file st p"
  unfolding flush_until_def Let_def
  by (rule read_others) (auto split: option.splits dest: flush_ops_path in_set_takeD)

lemma flush_until_wf: "wf_dict (cs_files st) \<Longrightarrow> wf_dict (cs_files (flush_until lib tx fault config st))"
  by (simp add: flush_until_def Let_def apply_ops_wf)

lemma flush_until_dirs:
  "set (cs_dirs (flush_until lib tx None config st)) = fst ` set (component_sections config) \<union> set (cs_dirs st)"
  unfolding flush_until_def flush_ops_def Let_def by (auto simp: apply_ops_dirs image_iff)

lemma flush_until_read:
  assumes "text_law tx" and "checked tx config"
  shows "read_file (flush_until lib tx None config st) p =
    (if managed_path p then map_option (yaml_dump lib) (map_of (config_documents tx config) p) else read_file st p)"
proof (cases "managed_path p")
  case True
  let ?docs = "config_documents tx config"
  let ?files = "map (\<lambda>(q, d). (q, yaml_dump lib d)) ?docs"
  let ?stale = "filter (\<lambda>q. managed_path q \<and> q \<notin> fst ` set ?docs) (map fst (cs_files st))"
  let ?base = "apply_ops (map (Make_dir \<circ> fst) (component_sections config)) st"
  have "flush_until lib tx None config st =
      fold (\<lambda>q. apply_op (Unlink_file q)) ?stale (fold (\<lambda>(q, x). apply_op (Write_file q x)) ?files ?base)"
    unfolding apply_unlinks [symmetric] apply_writes [symmetric]
    by (simp add: flush_until_def flush_ops_def Let_def apply_ops_append comp_def case_prod_unfold)
  then have read: "read_file (flush_until lib tx None config st) p =
      (if p \<in> set ?stale then None
       else case map_of (rev ?files) p of None \<Rightarrow> read_file ?base p | Some x \<Rightarrow> Some x)"
    by (simp only: st_files.read_synced)
  have "map fst ?files = map fst ?docs" by (induction ?docs) auto
  then have "map_of (rev ?files) p = map_of ?files p"
    using documents_distinct [OF assms] by (simp only: map_of_rev_distinct)
  moreover have "map_of ?files p = map_option (yaml_dump lib) (map_of ?docs p)"
    by (simp add: map_of_map)
  moreover have "read_file ?base p = read_file st p" by (simp add: read_file_def make_dirs_files)
  moreover have "read_file st p = None" if "map_of ?docs p = None" "p \<notin> set ?stale"
    using that True by (auto simp: read_file_def map_of_eq_None_iff)
  ultimately show ?thesis
    unfolding read using True by (auto simp: map_of_eq_None_iff split: option.splits)
qed (simp add: flush_until_other)

end
