(* ===== verification/Store_Correctness.thy ===== *)
theory Store_Correctness
  imports Store_Flush
begin

text \<open>
  The contract of \<open>FileConfigRepository.update_config\<close>: the files of a repository are exactly the
  documents of the configuration in memory, whatever updates are made, refused or broken off.
\<close>

section \<open>The files and the configuration in memory\<close>

definition exact :: "'f yaml_library \<Rightarrow> to_text \<Rightarrow> (string, json) dict \<Rightarrow> 'f config_store \<Rightarrow> bool" where
  "exact lib tx config st \<longleftrightarrow>
     wf_dict (cs_files st) \<and> fst ` set (component_sections config) \<subseteq> set (cs_dirs st) \<and>
     (\<forall>p. managed_path p \<longrightarrow> read_file st p = map_option (yaml_dump lib) (map_of (config_documents tx config) p))"

definition stored :: "'f yaml_library \<Rightarrow> to_text \<Rightarrow> 'f config_repository \<Rightarrow> bool" where
  "stored lib tx rp \<longleftrightarrow> checked tx (rp_config rp) \<and> exact lib tx (rp_config rp) (rp_store rp)"

lemma flush_exact:
  assumes "text_law tx" and "checked tx config" and "wf_dict (cs_files st)"
  shows "exact lib tx config (flush_until lib tx None config st)"
  using assms by (simp add: exact_def flush_until_read flush_until_wf flush_until_dirs)

text \<open>The cases of an update: refused before anything is written, completed, or rolled back.\<close>

lemma update_config_cases:
  assumes "update_config lib tx fault rollback_fault expected mutator rp = (rp', e)"
  obtains
    (refused) x where "e = Some x" "rp' = rp"
  | (completed) changed candidate where "e = None" "fault = None" "mutator (rp_config rp) = Inr changed"
      "normalize_config changed = Inr candidate" "checked tx candidate"
      "rp' = rp\<lparr>rp_config := candidate, rp_store := flush_until lib tx None candidate (rp_store rp),
         rp_revision := Suc (rp_revision rp)\<rparr>"
  | (rolled_back) k candidate where "e = Some Write_failed" "fault = Some k" "checked tx candidate"
      "rp' = rp\<lparr>rp_store := flush_until lib tx rollback_fault (rp_config rp)
         (flush_until lib tx (Some k) candidate (rp_store rp))\<rparr>"
proof (cases "expected \<noteq> None \<and> expected \<noteq> Some (rp_id rp)")
  case True
  with assms refused show ?thesis by (auto simp: update_config_def)
next
  case False
  note fresh = this
  show ?thesis
  proof (cases "mutator (rp_config rp)")
    case (Inl x)
    with fresh assms refused show ?thesis by (auto simp: update_config_def)
  next
    case (Inr changed)
    note mut = this
    show ?thesis
    proof (cases "normalize_config changed")
      case (Inl x)
      with fresh mut assms refused show ?thesis by (auto simp: update_config_def)
    next
      case (Inr candidate)
      note norm = this
      show ?thesis
      proof (cases "validate_configuration_snapshot tx candidate config_version")
        case (Inl x)
        with fresh mut norm assms refused show ?thesis by (auto simp: update_config_def)
      next
        case (Inr u)
        then have "checked tx candidate" by (simp add: checked_def)
        with Inr fresh mut norm assms completed rolled_back show ?thesis
          by (cases fault) (auto simp: update_config_def)
      qed
    qed
  qed
qed

lemma update_keeps_stored:
  assumes law: "text_law tx" and st: "stored lib tx rp"
    and up: "update_config lib tx fault None expected mutator rp = (rp', e)"
  shows "stored lib tx rp' \<and> rp_revision rp' = rp_revision rp + (if e = None then 1 else 0) \<and>
    (\<forall>p. \<not> managed_path p \<longrightarrow> read_file (rp_store rp') p = read_file (rp_store rp) p) \<and>
    (e \<noteq> None \<longrightarrow> rp_config rp' = rp_config rp \<and> read_file (rp_store rp') = read_file (rp_store rp))"
proof (cases rule: update_config_cases [OF up])
  case (1 x)
  with st show ?thesis by simp
next
  case (2 changed candidate)
  with st law show ?thesis
    by (auto simp: stored_def exact_def flush_until_read flush_until_wf flush_until_dirs)
next
  case (3 k candidate)
  let ?st = "flush_until lib tx (Some k) candidate (rp_store rp)"
  have old: "checked tx (rp_config rp)" "wf_dict (cs_files ?st)"
    using st by (simp_all add: stored_def exact_def flush_until_wf)
  have "read_file (rp_store rp') p = read_file (rp_store rp) p" for p
    using st by (cases "managed_path p")
      (simp_all add: 3 flush_until_read [OF law old(1)] flush_until_other stored_def exact_def)
  moreover from this have "read_file (rp_store rp') = read_file (rp_store rp)" ..
  moreover have "stored lib tx rp'"
    using flush_exact [OF law old] old(1) by (simp add: 3 stored_def)
  ultimately show ?thesis by (simp add: 3)
qed

section \<open>Any sequence of updates\<close>

text \<open>
  An update as one operation: the point at which its flush fails (if it does), the repository the
  caller expects, and the change.  What it hands out is the error it raises.
\<close>

type_synonym config_update = "nat option \<times> string option \<times> ((string, json) dict \<Rightarrow> string + (string, json) dict)"

definition update_step ::
  "'f yaml_library \<Rightarrow> to_text \<Rightarrow> 'f config_repository \<Rightarrow> config_update \<Rightarrow>
   store_error + 'f config_repository \<times> store_error option list" where
  "update_step lib tx rp op =
     (case op of (fault, expected, mutator) \<Rightarrow>
        (case update_config lib tx fault None expected mutator rp of (rp', e) \<Rightarrow> Inr (rp', [e])))"

definition update_inv ::
  "'f yaml_library \<Rightarrow> to_text \<Rightarrow> 'f config_repository \<Rightarrow> 'f config_repository \<Rightarrow> store_error option list \<Rightarrow> bool" where
  "update_inv lib tx rp0 rp outs \<longleftrightarrow>
     text_law tx \<and> stored lib tx rp \<and> rp_revision rp = rp_revision rp0 + length (filter (\<lambda>e. e = None) outs) \<and>
     (\<forall>p. \<not> managed_path p \<longrightarrow> read_file (rp_store rp) p = read_file (rp_store rp0) p) \<and>
     (None \<notin> set outs \<longrightarrow> rp_config rp = rp_config rp0 \<and> read_file (rp_store rp) = read_file (rp_store rp0))"

lemma update_step_inv:
  assumes "update_inv lib tx rp0 rp outs" and "update_step lib tx rp op = Inr (rp', out)"
  shows "update_inv lib tx rp0 rp' (outs @ out)"
proof -
  obtain fault expected mutator where op: "op = (fault, expected, mutator)" by (cases op)
  obtain e where "update_config lib tx fault None expected mutator rp = (rp', e)" "out = [e]"
    using assms(2) by (auto simp: update_step_def op split: prod.splits)
  with update_keeps_stored [OF _ _ this(1)] assms(1) show ?thesis
    by (auto simp: update_inv_def)
qed

interpretation config_updates: invariant_machine
  "update_step lib tx" "\<lambda>rp. text_law tx \<and> stored lib tx rp \<and> rp = rp0" "update_inv lib tx rp0"
  for lib tx rp0
proof (unfold_locales, goal_cases)
  case (1 rp)
  then show ?case by (auto simp: update_inv_def)
next
  case (2 rp outs op rp' out)
  then show ?case by (rule update_step_inv)
qed

text \<open>
  C31: whatever sequence of updates is made on a repository - refused by their change or by the
  check, broken off at any file operation and rolled back, or completed - its files are at every
  moment between two updates exactly the documents of the configuration in memory, files of others
  are never touched, the revision counts the completed updates, and updates that all failed leave
  every file as it was.
\<close>

theorem updates_keep_files_exact:
  assumes "text_law tx" and "stored lib tx rp" and "run_ops (update_step lib tx) rp ops = (rp', outs)"
  shows "stored lib tx rp' \<and> rp_revision rp' = rp_revision rp + length (filter (\<lambda>e. e = None) outs) \<and>
    (\<forall>p. \<not> managed_path p \<longrightarrow> read_file (rp_store rp') p = read_file (rp_store rp) p) \<and>
    (None \<notin> set outs \<longrightarrow> rp_config rp' = rp_config rp \<and> read_file (rp_store rp') = read_file (rp_store rp))"
proof -
  have "update_inv lib tx rp rp' outs"
    by (rule config_updates.run_inv [OF _ assms(3)]) (simp add: assms)
  then show ?thesis by (simp add: update_inv_def)
qed

text \<open>
  C32: a completed update makes the files exact from whatever a crash or a failed rollback left
  on disk: every file of the configuration holds its document, and files that belong to no record
  are gone.
\<close>

theorem update_repairs_files:
  assumes "text_law tx" and "wf_dict (cs_files (rp_store rp))"
    and "update_config lib tx fault rollback_fault expected mutator rp = (rp', None)"
  shows "stored lib tx rp' \<and>
    (\<exists>changed. mutator (rp_config rp) = Inr changed \<and> normalize_config changed = Inr (rp_config rp'))"
proof (cases rule: update_config_cases [OF assms(3)])
  case (2 changed candidate)
  with assms(1,2) flush_exact [of tx candidate "rp_store rp" lib] show ?thesis
    by (auto simp: stored_def)
qed simp_all


section \<open>A repository\<close>

definition demo_text :: to_text where
  "demo_text v = (case v of JStr s \<Rightarrow> s | _ \<Rightarrow> [])"

definition demo_yaml :: "json yaml_library" where
  "demo_yaml = \<lparr>yaml_dump = (\<lambda>d. d), yaml_load = Some\<rparr>"

definition demo_prompt :: "(string, json) dict" where
  "demo_prompt = [(''id'', JStr ''0123abcd-0123-4123-8123-0123456789ab''), (''name'', JStr ''Prompt''),
     (''text'', JStr ''Be brief.'')]"

definition empty_config :: "(string, json) dict" where
  "empty_config = [(''config_version'', JInt 2), (''components'', JObj []), (''external_agents'', JList []),
     (''main_agents'', JList []), (''mcp_tools'', JList []), (''subagents'', JList []), (''workflows'', JList [])]"

definition add_prompt :: "(string, json) dict \<Rightarrow> string + (string, json) dict" where
  "add_prompt config = Inr (AList.update ''components'' (JObj [(''system-prompt'', JList [JObj demo_prompt])]) config)"

definition stale_file :: path where
  "stale_file = [''workflows'', ''old.yaml'']"

definition demo_repository :: "(path, json) dict \<Rightarrow> json config_repository" where
  "demo_repository files = \<lparr>rp_id = ''r'', rp_config = empty_config, rp_store = \<lparr>cs_dirs = [], cs_files = files\<rparr>,
     rp_revision = 1\<rparr>"

lemma demo_text_law: "text_law demo_text"
  by (simp add: text_law_def demo_text_def)

lemma demo_stored: "stored demo_yaml demo_text (demo_repository [])"
proof -
  have "checked demo_text empty_config" "config_documents demo_text empty_config = []"
    "component_sections empty_config = []" by (simp add: checked_def) code_simp+
  then show ?thesis by (simp add: stored_def exact_def demo_repository_def read_file_def)
qed

lemma updates_keep_files_exact_witness:
  "(case run_ops (update_step demo_yaml demo_text) (demo_repository [])
      [(Some 1, None, add_prompt), (None, None, add_prompt)] of
      (rp, outs) \<Rightarrow> stored demo_yaml demo_text rp \<and> rp_revision rp = 2)"
proof -
  let ?run = "run_ops (update_step demo_yaml demo_text) (demo_repository [])
      [(Some 1, None, add_prompt), (None, None, add_prompt)]"
  have "length (filter (\<lambda>e. e = None) (snd ?run)) = 1" by code_simp
  moreover obtain rp outs where run: "?run = (rp, outs)" by (metis prod.collapse)
  ultimately have "length (filter (\<lambda>e. e = None) outs) = 1" by (simp only: prod.sel)
  with updates_keep_files_exact [OF demo_text_law demo_stored run] show ?thesis
    unfolding run by (simp add: demo_repository_def)
qed

lemma update_repairs_files_witness:
  "stored demo_yaml demo_text
     (fst (update_config demo_yaml demo_text None None None add_prompt (demo_repository [(stale_file, JNull)])))"
proof -
  let ?up = "update_config demo_yaml demo_text None None None add_prompt (demo_repository [(stale_file, JNull)])"
  have "snd ?up = None" by code_simp
  then have "?up = (fst ?up, None)" by (metis prod.collapse)
  moreover have "wf_dict (cs_files (rp_store (demo_repository [(stale_file, JNull)])))"
    by (simp add: demo_repository_def wf_dict_def)
  ultimately show ?thesis using update_repairs_files [OF demo_text_law] by blast
qed

end
