(* ===== verification/Store_Roundtrip.thy ===== *)
theory Store_Roundtrip
  imports Store_Correctness
begin

text \<open>
  A restart of the server: loading the files of a repository gives back the configuration they
  were written from, section by section, each in the order of its file names.
\<close>

section \<open>Records\<close>

definition same_record :: "(string, json) dict \<Rightarrow> (string, json) dict \<Rightarrow> bool" where
  "same_record r r' \<longleftrightarrow> map_of r = map_of r'"

definition file_name :: "(string, json) dict \<Rightarrow> string" where
  "file_name r = record_id r @ yaml_suffix"

definition restored :: "json \<Rightarrow> json \<Rightarrow> bool" where
  "restored v v' \<longleftrightarrow> list_all2 same_record (sort_by file_name (records_of v)) (records_of v')"

definition yaml_law :: "'f yaml_library \<Rightarrow> bool" where
  "yaml_law lib \<longleftrightarrow> (\<forall>d. yaml_load lib (yaml_dump lib d) = Some d)"

lemma without_get: "map_of (without ks r) k = (if k \<in> set ks then None else map_of r k)"
  unfolding without_def by (induction r) auto

lemma dict_records_map: "dict_records (map JObj rs) = rs"
  by (induction rs) auto

lemma records_of_objects [simp]: "records_of (JList (map JObj rs)) = rs"
  by (simp add: records_of_def dict_records_map)

lemma sort_by_map: "sort_by key (map f xs) = map f (sort_by (key \<circ> f) xs)"
proof -
  have "insert_by key (f x) (map f ys) = map f (insert_by (key \<circ> f) x ys)" for x ys
    by (induction ys) auto
  then show ?thesis by (induction xs) (simp_all add: sort_by_def)
qed

lemma sort_by_set [simp]: "set (sort_by key xs) = set xs"
  by (metis set_mset_mset sort_by_mset)

lemma map_res_restores:
  assumes "\<forall>r \<in> set rs. \<exists>r'. f (g r) = Inr (JObj r') \<and> same_record r r'"
  shows "\<exists>rs'. map_res f (map g rs) = Inr (map JObj rs') \<and> list_all2 same_record rs rs'"
  using assms
proof (induction rs)
  case (Cons r rs)
  then obtain rs' r' where "map_res f (map g rs) = Inr (map JObj rs')" "list_all2 same_record rs rs'"
    "f (g r) = Inr (JObj r')" "same_record r r'" by auto
  then show ?case by (intro exI [of _ "r' # rs'"]) simp
qed simp

section \<open>Documents\<close>

text \<open>A document written for a record with an identifier is read back as that record.\<close>

definition named :: "string \<Rightarrow> (string, json) dict \<Rightarrow> bool" where
  "named k r \<longleftrightarrow> map_of r k \<noteq> None"

lemma read_dumped:
  assumes "yaml_law lib" and "d \<noteq> []"
  shows "read_yaml lib (yaml_dump lib (JObj d)) = Inr d"
  using assms by (simp add: read_yaml_def yaml_law_def)

lemma load_component_record:
  assumes lib: "yaml_law lib" and id: "with_id r" and name: "named ''name'' r" and t: "t \<noteq> []"
  shows "\<exists>r'. load_record lib ''component'' t [] (dir @ [file_name r], yaml_dump lib (component_document t r)) =
      Inr (JObj r') \<and> same_record r r'"
proof -
  let ?d = "[(''kind'', JStr ''component''), (''type'', JStr t), (''schema_version'', JInt config_version),
           (''id'', field ''id'' r), (''name'', field_or (JStr []) ''name'' r),
           (''payload'', JObj (without [''id'', ''name''] r))]"
  have fid: "field ''id'' r = JStr (record_id r)" "is_configuration_id (record_id r)"
    using id by (auto simp: with_id_def field_def)
  obtain n where n: "map_of r ''name'' = Some n" using name by (auto simp: named_def)
  have "configuration_document (record_id r) ?d ''component'' t [] = Inr (record_id r, without [''id'', ''name''] r)"
    using t fid by (auto simp: configuration_document_def field_def without_get Let_def)
  then have "load_record lib ''component'' t [] (dir @ [file_name r], yaml_dump lib (component_document t r)) =
      Inr (JObj (AList.update ''name'' n (AList.update ''id'' (JStr (record_id r)) (without [''id'', ''name''] r))))"
    using t n by (simp add: load_record_def component_document_def read_dumped [OF lib] file_name_def Let_def
        field_def field_or_def)
  moreover have "same_record r (AList.update ''name'' n (AList.update ''id'' (JStr (record_id r))
      (without [''id'', ''name''] r)))"
    using id n by (auto simp: same_record_def dict_get_set without_get with_id_def fun_eq_iff)
  ultimately show ?thesis by blast
qed

lemma load_agent_record:
  assumes lib: "yaml_law lib" and id: "with_id r" and name: "named nk r"
    and nk: "nk \<in> {''name'', ''component_name''}"
  shows "\<exists>r'. load_record lib kind [] nk (dir @ [file_name r], yaml_dump lib (agent_document kind nk r)) =
      Inr (JObj r') \<and> same_record r r'"
proof -
  let ?d = "[(''kind'', JStr kind), (''schema_version'', JInt config_version), (''id'', field ''id'' r),
           (nk, field_or (JStr []) nk r), (''payload'', JObj (without [''id'', nk] r))]"
  have fid: "field ''id'' r = JStr (record_id r)" "is_configuration_id (record_id r)"
    using id by (auto simp: with_id_def field_def)
  obtain n where n: "map_of r nk = Some n" using name by (auto simp: named_def)
  have "configuration_document (record_id r) ?d kind [] nk = Inr (record_id r, without [''id'', nk] r)"
    using nk fid by (auto simp: configuration_document_def field_def without_get Let_def)
  then have "load_record lib kind [] nk (dir @ [file_name r], yaml_dump lib (agent_document kind nk r)) =
      Inr (JObj (AList.update nk n (AList.update ''id'' (JStr (record_id r)) (without [''id'', nk] r))))"
    using nk n by (auto simp: load_record_def agent_document_def read_dumped [OF lib] file_name_def Let_def
        field_def field_or_def)
  moreover have "same_record r (AList.update nk n (AList.update ''id'' (JStr (record_id r)) (without [''id'', nk] r)))"
    using id n by (auto simp: same_record_def dict_get_set without_get with_id_def fun_eq_iff)
  ultimately show ?thesis by blast
qed

lemma load_plain_record:
  assumes lib: "yaml_law lib" and id: "with_id r"
  shows "\<exists>r'. load_record lib kind [] [] (dir @ [file_name r], yaml_dump lib (plain_document kind r)) =
      Inr (JObj r') \<and> same_record r r'"
proof -
  let ?d = "[(''kind'', JStr kind), (''schema_version'', JInt config_version), (''id'', field ''id'' r),
           (''payload'', JObj (without [''id''] r))]"
  have fid: "field ''id'' r = JStr (record_id r)" "is_configuration_id (record_id r)"
    using id by (auto simp: with_id_def field_def)
  have "configuration_document (record_id r) ?d kind [] [] = Inr (record_id r, without [''id''] r)"
    using fid by (auto simp: configuration_document_def field_def without_get Let_def)
  then have "load_record lib kind [] [] (dir @ [file_name r], yaml_dump lib (plain_document kind r)) =
      Inr (JObj (AList.update ''id'' (JStr (record_id r)) (without [''id''] r)))"
    by (simp add: load_record_def plain_document_def read_dumped [OF lib] file_name_def Let_def)
  moreover have "same_record r (AList.update ''id'' (JStr (record_id r)) (without [''id''] r))"
    using id by (auto simp: same_record_def dict_get_set without_get with_id_def fun_eq_iff)
  ultimately show ?thesis by blast
qed


section \<open>The files of a directory\<close>

definition docs_in :: "path \<Rightarrow> (path \<times> json) list \<Rightarrow> (path \<times> json) list" where
  "docs_in dir docs = filter (\<lambda>pd. butlast (fst pd) = dir) docs"

lemma docs_in_append [simp]: "docs_in dir (xs @ ys) = docs_in dir xs @ docs_in dir ys"
  by (simp add: docs_in_def)

lemma docs_in_section:
  "docs_in dir (section_documents tx dir' doc v) = (if dir' = dir then section_documents tx dir' doc v else [])"
  unfolding docs_in_def section_documents_def
  by (induction "filter has_id (records_of v)") (auto simp: record_path_def)

lemma docs_in_components:
  assumes "wf_dict (component_sections config)"
  shows "docs_in [''components'', t] (component_documents tx config) =
    section_documents tx [''components'', t] (component_document t) (field t (component_sections config))"
proof -
  let ?f = "\<lambda>(t, v). section_documents tx [''components'', t] (component_document t) v"
  have none: "section_documents tx dir doc JNull = []" for dir doc
    by (simp add: section_documents_def records_of_def)
  have "docs_in [''components'', t] (concat (map ?f types)) = ?f (t, field t types)" if "wf_dict types" for types
    using that
  proof (induction types)
    case (Cons tv types)
    obtain t' v where tv: "tv = (t', v)" by (cases tv)
    have "map_of types t = None" if "t' = t"
      using Cons.prems that tv by (auto simp: wf_dict_def map_of_eq_None_iff)
    with Cons tv show ?case
      by (cases "t' = t") (simp_all add: docs_in_section wf_dict_def field_def none)
  qed (simp add: docs_in_def field_def none)
  with assms show ?thesis by (simp only: component_documents_def prod.case)
qed

lemma managed_in_dir:
  assumes "p \<noteq> []" "butlast p = dir" "ends_with yaml_suffix (last p)" "dir \<noteq> []" "hd dir \<in> set managed_roots"
  shows "managed_path p"
proof -
  have p: "p = dir @ [last p]" using assms(1,2) by (metis append_butlast_last_id)
  have "hd p = hd dir" "2 \<le> length p" using assms(4) by (subst p, simp add: Suc_le_eq)+
  with assms(3,5) show ?thesis by (simp add: managed_path_def)
qed

lemma managed_files_exact:
  assumes "text_law tx" "checked tx config" "exact lib tx config st" and m: "managed_path p"
  shows "(p, x) \<in> set (cs_files st) \<longleftrightarrow> (\<exists>d. (p, d) \<in> set (config_documents tx config) \<and> x = yaml_dump lib d)"
proof -
  have "distinct (map fst (cs_files st))" "distinct (map fst (config_documents tx config))"
    using assms documents_distinct by (auto simp: exact_def wf_dict_def)
  then have "(p, x) \<in> set (cs_files st) \<longleftrightarrow> read_file st p = Some x"
    "(p, d) \<in> set (config_documents tx config) \<longleftrightarrow> map_of (config_documents tx config) p = Some d" for d
    by (simp_all add: read_file_def)
  moreover have "read_file st p = map_option (yaml_dump lib) (map_of (config_documents tx config) p)"
    using assms(3) m by (simp add: exact_def)
  ultimately show ?thesis by auto
qed

text \<open>In a repository with exact files, a directory holds the documents of its section.\<close>

lemma dir_files_exact:
  assumes law: "text_law tx" and ok: "checked tx config" and ex: "exact lib tx config st"
    and dir: "dir \<noteq> []" "hd dir \<in> set managed_roots"
    and docs: "docs_in dir (config_documents tx config) = map (\<lambda>r. (dir @ [file_name r], doc r)) rs"
  shows "dir_files dir st = map (\<lambda>r. (dir @ [file_name r], yaml_dump lib (doc r))) (sort_by file_name rs)"
proof -
  let ?docs = "config_documents tx config"
  let ?files = "filter (\<lambda>f. fst f \<noteq> [] \<and> butlast (fst f) = dir \<and> ends_with yaml_suffix (last (fst f))) (cs_files st)"
  let ?out = "map (\<lambda>r. (dir @ [file_name r], yaml_dump lib (doc r))) rs"
  have "map fst ?out = map fst (docs_in dir ?docs)" by (simp add: docs comp_def)
  then have dout: "distinct (map fst ?out)"
    using documents_distinct [OF law ok] by (simp only: docs_in_def distinct_map_filter)
  have out: "(p, x) \<in> set ?out \<longleftrightarrow> (\<exists>d. (p, d) \<in> set (docs_in dir ?docs) \<and> x = yaml_dump lib d)" for p x
    unfolding docs by auto
  have suffix: "p \<noteq> [] \<and> ends_with yaml_suffix (last p)" if "(p, d) \<in> set ?docs" for p d
    using documents_managed [OF that] by (auto simp: managed_path_def)
  have mem: "(p, x) \<in> set ?files \<longleftrightarrow> (p, x) \<in> set ?out" for p x
  proof (cases "p \<noteq> [] \<and> butlast p = dir \<and> ends_with yaml_suffix (last p)")
    case True
    then have "managed_path p" using managed_in_dir dir by blast
    from managed_files_exact [OF law ok ex this] True show ?thesis unfolding out by (simp add: docs_in_def)
  next
    case False
    then show ?thesis unfolding out by (auto simp: docs_in_def dest: suffix)
  qed
  have "z \<in> set ?files \<longleftrightarrow> z \<in> set ?out" for z by (cases z) (simp only: mem)
  then have "set ?files = set ?out" by (rule set_eqI)
  moreover have "distinct ?files" "distinct ?out"
    using ex dout by (simp_all only: exact_def wf_dict_def distinct_map distinct_filter)
  ultimately have ms: "mset ?files = mset ?out" by (simp only: set_eq_iff_mset_eq_distinct)
  have "distinct (map (\<lambda>f. last (fst f)) ?out)"
    using dout by (simp add: distinct_map comp_def inj_on_def)
  then have "sort_by (\<lambda>f. last (fst f)) ?out = sort_by (\<lambda>f. last (fst f)) ?files"
    by (rule sort_by_cong [OF ms [symmetric]])
  then have "dir_files dir st = sort_by (\<lambda>f. last (fst f)) ?out" by (simp only: dir_files_def)
  also have "\<dots> = map (\<lambda>r. (dir @ [file_name r], yaml_dump lib (doc r))) (sort_by file_name rs)"
    unfolding sort_by_map by (simp add: comp_def)
  finally show ?thesis .
qed


section \<open>Loading the sections\<close>

lemma load_section_restores:
  assumes law: "text_law tx" and ok: "checked tx config" and ex: "exact lib tx config st"
    and dir: "dir \<noteq> []" "hd dir \<in> set managed_roots"
    and docs: "docs_in dir (config_documents tx config) = section_documents tx dir doc v"
    and ids: "\<forall>r \<in> set (records_of v). with_id r"
    and load: "\<And>r. r \<in> set (records_of v) \<Longrightarrow>
      \<exists>r'. load_record lib kind t nk (dir @ [file_name r], yaml_dump lib (doc r)) = Inr (JObj r') \<and> same_record r r'"
  shows "\<exists>w. load_section lib st dir kind t nk = Inr w \<and> restored v w"
proof -
  have "docs_in dir (config_documents tx config) = map (\<lambda>r. (dir @ [file_name r], doc r)) (records_of v)"
    using docs section_files [OF law ids] by (simp add: file_name_def)
  note files = dir_files_exact [OF law ok ex dir this]
  have "\<forall>r \<in> set (sort_by file_name (records_of v)).
      \<exists>r'. load_record lib kind t nk (dir @ [file_name r], yaml_dump lib (doc r)) = Inr (JObj r') \<and> same_record r r'"
    using load by simp
  from map_res_restores [where f = "load_record lib kind t nk" and g = "\<lambda>r. (dir @ [file_name r], yaml_dump lib (doc r))", OF this]
  obtain rs' where
    "map_res (load_record lib kind t nk) (dir_files dir st) = Inr (map JObj rs')"
    "list_all2 same_record (sort_by file_name (records_of v)) rs'"
    unfolding files by blast
  then show ?thesis by (simp add: load_section_def restored_def)
qed

lemma entity_named:
  assumes "checked tx config" and "e \<in> set (iter_configuration_entities tx config)"
  shows "named (name_field (ce_kind e)) (ce_payload e)"
proof -
  have "sound_entities tx (iter_configuration_entities tx config)"
    using assms(1) unfolding check_entities_start [symmetric]
    by (auto simp: checked_def validate_configuration_snapshot_def res_Inr)
  with assms(2) show ?thesis by (auto simp: sound_entities_def well_named_def named_def)
qed

lemma sections_named:
  assumes "checked tx config"
  shows "r \<in> set (records_of (field ''external_agents'' config)) \<Longrightarrow> named ''name'' r"
    and "r \<in> set (records_of (field ''main_agents'' config)) \<Longrightarrow> named ''name'' r"
    and "r \<in> set (records_of (field ''subagents'' config)) \<Longrightarrow> named ''component_name'' r"
proof -
  have e: "named (name_field k) r" if "entity_of tx k t n r \<in> set (iter_configuration_entities tx config)" for k t n r
    using entity_named [OF assms that] by (simp add: entity_of_def)
  show "r \<in> set (records_of (field ''external_agents'' config)) \<Longrightarrow> named ''name'' r"
    using e [of External_agent "[]" "''name''" r]
    by (simp add: iter_configuration_entities_def name_field_def)
  show "r \<in> set (records_of (field ''main_agents'' config)) \<Longrightarrow> named ''name'' r"
    using e [of Main_agent "[]" "''name''" r]
    by (simp add: iter_configuration_entities_def name_field_def)
  show "r \<in> set (records_of (field ''subagents'' config)) \<Longrightarrow> named ''component_name'' r"
    using e [of Subagent "[]" "''component_name''" r]
    by (simp add: iter_configuration_entities_def name_field_def)
qed

lemma components_named:
  assumes "checked tx config" and "(t, v) \<in> set (component_sections config)" and "r \<in> set (records_of v)"
  shows "named ''name'' r"
proof -
  obtain types where types: "field ''components'' config = JObj types"
    using assms(2) by (cases "field ''components'' config") (auto simp: component_sections_def)
  then have "(t, v) \<in> set types" using assms(2) by (simp add: component_sections_def)
  then have "entity_of tx Component t ''name'' r \<in>
      set (concat (map (\<lambda>(t, v). map (entity_of tx Component t ''name'') (records_of v)) types))"
    using assms(3) by fastforce
  then have "entity_of tx Component t ''name'' r \<in> set (iter_configuration_entities tx config)"
    by (simp add: iter_configuration_entities_def types)
  from entity_named [OF assms(1) this] show ?thesis by (simp add: entity_of_def name_field_def)
qed

lemma docs_in_components_other: "hd dir \<noteq> ''components'' \<Longrightarrow> docs_in dir (component_documents tx config) = []"
  unfolding component_documents_def docs_in_def
  by (auto simp: filter_empty_conv section_documents_def record_path_def)

lemma section_ids:
  "checked tx config \<Longrightarrow> k \<in> set record_sections \<Longrightarrow> \<forall>r \<in> set (records_of (field k config)). with_id r"
  using checked_records(1) by (fastforce simp: all_records_def)

lemma docs_in_sections:
  "docs_in [''agents'', ''external''] (config_documents tx config) =
     section_documents tx [''agents'', ''external''] (agent_document ''external_agent'' ''name'')
       (field ''external_agents'' config)"
  "docs_in [''agents'', ''main''] (config_documents tx config) =
     section_documents tx [''agents'', ''main''] (agent_document ''main_agent'' ''name'') (field ''main_agents'' config)"
  "docs_in [''agents'', ''subagent''] (config_documents tx config) =
     section_documents tx [''agents'', ''subagent''] (agent_document ''subagent'' ''component_name'')
       (field ''subagents'' config)"
  "docs_in [''workflows''] (config_documents tx config) =
     section_documents tx [''workflows''] (plain_document ''workflow'') (field ''workflows'' config)"
  "docs_in [''mcp_tools''] (config_documents tx config) =
     section_documents tx [''mcp_tools''] (plain_document ''mcp_tool'') (field ''mcp_tools'' config)"
  by (simp_all add: config_documents_def agent_documents_def workflow_documents_def mcp_tool_documents_def
      docs_in_components_other docs_in_section)

lemma docs_in_component:
  assumes "wf_dict (component_sections config)"
  shows "docs_in [''components'', t] (config_documents tx config) =
    section_documents tx [''components'', t] (component_document t) (field t (component_sections config))"
  by (simp add: config_documents_def agent_documents_def workflow_documents_def mcp_tool_documents_def
      docs_in_components [OF assms] docs_in_section)


lemma component_types_ok:
  assumes "checked tx config" and "(t, v) \<in> set (component_sections config)"
  shows "component_type_ok t"
proof -
  obtain types where types: "field ''components'' config = JObj types"
    using assms(2) by (cases "field ''components'' config") (auto simp: component_sections_def)
  with assms(1) obtain us where "map_res check_component_section types = Inr us"
    by (auto simp: checked_def validate_configuration_snapshot_def check_sections_def res_Inr)
  moreover have "(t, v) \<in> set types" using assms(2) by (simp add: component_sections_def types)
  ultimately obtain u where "check_component_section (t, v) = Inr u"
    by (metis map_res_Inr_nth in_set_conv_nth)
  then show ?thesis by (auto simp: check_component_section_def split: if_splits)
qed

lemma load_components_restores:
  assumes law: "text_law tx" and lib: "yaml_law lib" and ok: "checked tx config" and ex: "exact lib tx config st"
    and wf: "wf_dict (component_sections config)" and legacy: "''model'' \<notin> set (cs_dirs st)"
  shows "\<exists>vs. load_components lib st = Inr (map (\<lambda>t. (t, vs t)) (cs_dirs st)) \<and>
    (\<forall>t \<in> set (cs_dirs st). restored (field t (component_sections config)) (vs t))"
proof -
  let ?f = "\<lambda>d. if d = ''model'' then Inl (Store_value_error ''legacy model components are not accepted'')
      else bind_res (load_section lib st [''components'', d] ''component'' d []) (\<lambda>v. Inr (d, v))"
  have one: "\<exists>w. load_section lib st [''components'', t] ''component'' t [] = Inr w \<and>
      restored (field t (component_sections config)) w" for t
  proof (rule load_section_restores [OF law ok ex _ _ docs_in_component [OF wf]])
    let ?v = "field t (component_sections config)"
    have v: "(t, ?v) \<in> set (component_sections config)" if "r \<in> set (records_of ?v)" for r
      using that by (auto simp: field_def records_of_def split: option.splits dest: map_of_SomeD)
    have ids: "with_id r" if r: "r \<in> set (records_of ?v)" for r
      using checked_records(1) [OF ok] r v [OF r] by (fastforce simp: all_records_def component_records_def)
    then show "\<forall>r \<in> set (records_of ?v). with_id r" by blast
    show "\<exists>r'. load_record lib ''component'' t [] ([''components'', t] @ [file_name r],
        yaml_dump lib (component_document t r)) = Inr (JObj r') \<and> same_record r r'"
      if r: "r \<in> set (records_of ?v)" for r
    proof (rule load_component_record [OF lib ids [OF r] components_named [OF ok v [OF r] r]])
      show "t \<noteq> []" using v [OF r] component_types_ok [OF ok] by (auto simp: component_type_ok_def)
    qed
  qed (simp_all add: managed_roots_def)
  define vs where "vs t = (case load_section lib st [''components'', t] ''component'' t [] of Inr w \<Rightarrow> w | Inl _ \<Rightarrow> JNull)" for t
  have vs: "load_section lib st [''components'', t] ''component'' t [] = Inr (vs t)"
    "restored (field t (component_sections config)) (vs t)" for t
    using one [of t] by (auto simp: vs_def)
  have "map_res ?f ds = Inr (map (\<lambda>t. (t, vs t)) ds)" if "''model'' \<notin> set ds" for ds
    using that by (induction ds) (auto simp: vs)
  with legacy vs(2) show ?thesis unfolding load_components_def by blast
qed

lemma load_agent_section:
  assumes "text_law tx" and lib: "yaml_law lib" and ok: "checked tx config" and "exact lib tx config st"
    and "dir \<noteq> []" "hd dir \<in> set managed_roots"
    and "docs_in dir (config_documents tx config) = section_documents tx dir (agent_document kind nk) (field k config)"
    and k: "k \<in> set record_sections" and nk: "nk \<in> {''name'', ''component_name''}"
    and named: "\<And>r. r \<in> set (records_of (field k config)) \<Longrightarrow> named nk r"
  shows "\<exists>w. load_section lib st dir kind [] nk = Inr w \<and> restored (field k config) w"
proof (rule load_section_restores [OF assms(1) ok assms(4-7)])
  show ids: "\<forall>r \<in> set (records_of (field k config)). with_id r" by (rule section_ids [OF ok k])
  show "\<exists>r'. load_record lib kind [] nk (dir @ [file_name r], yaml_dump lib (agent_document kind nk r)) =
      Inr (JObj r') \<and> same_record r r'" if "r \<in> set (records_of (field k config))" for r
    by (rule load_agent_record [OF lib bspec [OF ids that] named [OF that] nk])
qed

lemma load_plain_section:
  assumes "text_law tx" and lib: "yaml_law lib" and ok: "checked tx config" and "exact lib tx config st"
    and "dir \<noteq> []" "hd dir \<in> set managed_roots"
    and "docs_in dir (config_documents tx config) = section_documents tx dir (plain_document kind) (field k config)"
    and k: "k \<in> set record_sections"
  shows "\<exists>w. load_section lib st dir kind [] [] = Inr w \<and> restored (field k config) w"
proof (rule load_section_restores [OF assms(1) ok assms(4-7)])
  show ids: "\<forall>r \<in> set (records_of (field k config)). with_id r" by (rule section_ids [OF ok k])
  show "\<exists>r'. load_record lib kind [] [] (dir @ [file_name r], yaml_dump lib (plain_document kind r)) =
      Inr (JObj r') \<and> same_record r r'" if "r \<in> set (records_of (field k config))" for r
    by (rule load_plain_record [OF lib bspec [OF ids that]])
qed

text \<open>
  C33: loading the files of a repository succeeds and gives back the configuration that was
  written: every section and every component type holds the same records, in the order of their
  file names; a component directory without records is an empty section.
\<close>

theorem reload_returns_config:
  assumes "text_law tx" and "yaml_law lib" and "stored lib tx rp"
    and "wf_dict (component_sections (rp_config rp))" and "''model'' \<notin> set (cs_dirs (rp_store rp))"
  shows "\<exists>loaded. load_config lib (rp_store rp) = Inr loaded \<and>
    field ''config_version'' loaded = JInt config_version \<and>
    (\<forall>k \<in> set record_sections. restored (field k (rp_config rp)) (field k loaded)) \<and>
    fst ` set (component_sections loaded) = set (cs_dirs (rp_store rp)) \<and>
    (\<forall>t \<in> set (cs_dirs (rp_store rp)).
       restored (field t (component_sections (rp_config rp))) (field t (component_sections loaded)))"
proof -
  let ?c = "rp_config rp" let ?st = "rp_store rp"
  have ok: "checked tx ?c" and ex: "exact lib tx ?c ?st" using assms(3) by (simp_all add: stored_def)
  note named = sections_named [OF ok]
  obtain vs where vs: "load_components lib ?st = Inr (map (\<lambda>t. (t, vs t)) (cs_dirs ?st))"
      "\<forall>t \<in> set (cs_dirs ?st). restored (field t (component_sections ?c)) (vs t)"
    using load_components_restores [OF assms(1,2) ok ex assms(4,5)] by blast
  have "\<exists>x. load_section lib ?st [''agents'', ''external''] ''external_agent'' [] ''name'' = Inr x \<and>
      restored (field ''external_agents'' ?c) x"
    by (rule load_agent_section [OF assms(1,2) ok ex _ _ docs_in_sections(1)])
      (simp_all add: managed_roots_def record_sections_def named)
  then obtain x where x: "load_section lib ?st [''agents'', ''external''] ''external_agent'' [] ''name'' = Inr x"
      "restored (field ''external_agents'' ?c) x" by blast
  have "\<exists>m. load_section lib ?st [''agents'', ''main''] ''main_agent'' [] ''name'' = Inr m \<and>
      restored (field ''main_agents'' ?c) m"
    by (rule load_agent_section [OF assms(1,2) ok ex _ _ docs_in_sections(2)])
      (simp_all add: managed_roots_def record_sections_def named)
  then obtain m where m: "load_section lib ?st [''agents'', ''main''] ''main_agent'' [] ''name'' = Inr m"
      "restored (field ''main_agents'' ?c) m" by blast
  have "\<exists>s. load_section lib ?st [''agents'', ''subagent''] ''subagent'' [] ''component_name'' = Inr s \<and>
      restored (field ''subagents'' ?c) s"
    by (rule load_agent_section [OF assms(1,2) ok ex _ _ docs_in_sections(3)])
      (simp_all add: managed_roots_def record_sections_def named)
  then obtain s where s: "load_section lib ?st [''agents'', ''subagent''] ''subagent'' [] ''component_name'' = Inr s"
      "restored (field ''subagents'' ?c) s" by blast
  have "\<exists>w. load_section lib ?st [''workflows''] ''workflow'' [] [] = Inr w \<and> restored (field ''workflows'' ?c) w"
    by (rule load_plain_section [OF assms(1,2) ok ex _ _ docs_in_sections(4)])
      (simp_all add: managed_roots_def record_sections_def)
  then obtain w where w: "load_section lib ?st [''workflows''] ''workflow'' [] [] = Inr w"
      "restored (field ''workflows'' ?c) w" by blast
  have "\<exists>t. load_section lib ?st [''mcp_tools''] ''mcp_tool'' [] [] = Inr t \<and> restored (field ''mcp_tools'' ?c) t"
    by (rule load_plain_section [OF assms(1,2) ok ex _ _ docs_in_sections(5)])
      (simp_all add: managed_roots_def record_sections_def)
  then obtain t where t: "load_section lib ?st [''mcp_tools''] ''mcp_tool'' [] [] = Inr t"
      "restored (field ''mcp_tools'' ?c) t" by blast
  let ?l = "[(''config_version'', JInt config_version), (''components'', JObj (map (\<lambda>t. (t, vs t)) (cs_dirs ?st))),
      (''external_agents'', x), (''main_agents'', m), (''mcp_tools'', t), (''subagents'', s), (''workflows'', w)]"
  have loaded: "load_config lib ?st = Inr ?l"
    by (simp only: load_config_def vs(1) x(1) m(1) s(1) w(1) t(1) bind_res_simps)
  have fields: "field ''external_agents'' ?l = x" "field ''main_agents'' ?l = m" "field ''mcp_tools'' ?l = t"
    "field ''subagents'' ?l = s" "field ''workflows'' ?l = w" "field ''config_version'' ?l = JInt config_version"
    "component_sections ?l = map (\<lambda>t. (t, vs t)) (cs_dirs ?st)"
    by (simp_all add: field_def component_sections_def)
  have get: "field d (map (\<lambda>t. (t, vs t)) ds) = vs d" if "d \<in> set ds" for d ds
    using that by (induction ds) (auto simp: field_def)
  have sections: "\<forall>k \<in> set record_sections. restored (field k ?c) (field k ?l)"
    unfolding record_sections_def list.set ball_simps fields using x(2) m(2) s(2) w(2) t(2) by blast
  have "fst ` set (component_sections ?l) = set (cs_dirs ?st)"
    unfolding fields by (auto simp: image_iff)
  moreover have "\<forall>t \<in> set (cs_dirs ?st). restored (field t (component_sections ?c)) (field t (component_sections ?l))"
    unfolding fields using vs(2) get by metis
  ultimately show ?thesis using loaded sections fields(6) by blast
qed


definition prompt_config :: "(string, json) dict" where
  "prompt_config = AList.update ''components'' (JObj [(''system-prompt'', JList [JObj demo_prompt])]) empty_config"

definition prompt_repository :: "json config_repository" where
  "prompt_repository = \<lparr>rp_id = ''r'', rp_config = prompt_config,
     rp_store = flush_until demo_yaml demo_text None prompt_config \<lparr>cs_dirs = [], cs_files = []\<rparr>, rp_revision = 1\<rparr>"

lemma prompt_stored: "stored demo_yaml demo_text prompt_repository"
proof -
  have ok: "checked demo_text prompt_config" by (simp add: checked_def) code_simp
  have "exact demo_yaml demo_text prompt_config
      (flush_until demo_yaml demo_text None prompt_config \<lparr>cs_dirs = [], cs_files = []\<rparr>)"
    by (rule flush_exact [OF demo_text_law ok]) simp
  with ok show ?thesis by (simp add: stored_def prompt_repository_def)
qed

lemma reload_returns_config_witness:
  "\<exists>loaded. load_config demo_yaml (rp_store prompt_repository) = Inr loaded \<and>
     restored (JList [JObj demo_prompt]) (field ''system-prompt'' (component_sections loaded))"
proof -
  have dirs: "cs_dirs (rp_store prompt_repository) = [''system-prompt'']" by code_simp
  have sections: "component_sections (rp_config prompt_repository) = [(''system-prompt'', JList [JObj demo_prompt])]"
    by code_simp
  have wf: "wf_dict (component_sections (rp_config prompt_repository))" by (simp add: sections wf_dict_def)
  have law: "yaml_law demo_yaml" by (simp add: yaml_law_def demo_yaml_def)
  have legacy: "''model'' \<notin> set (cs_dirs (rp_store prompt_repository))" by (simp add: dirs)
  obtain loaded where loaded: "load_config demo_yaml (rp_store prompt_repository) = Inr loaded"
    "\<forall>t \<in> set (cs_dirs (rp_store prompt_repository)).
       restored (field t (component_sections (rp_config prompt_repository))) (field t (component_sections loaded))"
    using reload_returns_config [OF demo_text_law law prompt_stored wf legacy] by blast
  have "restored (field ''system-prompt'' (component_sections (rp_config prompt_repository)))
      (field ''system-prompt'' (component_sections loaded))"
    by (rule bspec [OF loaded(2)]) (simp only: dirs list.set insertI1)
  then show ?thesis
    using loaded(1) unfolding sections by (simp add: field_def)
qed

end
