(* ===== verification/Bundle_Journal.thy ===== *)
theory Bundle_Journal
  imports Store_Correctness Bundle_Planning
begin

text \<open>
  \<open>configuration/bundles/journal.py\<close> and \<open>transactions.py\<close>: the journal of an import, its cleanup
  after a commit, a failure or a restart, and the commit itself as the sequence of its effects on
  disk, any of which may be the last one before the process dies.
\<close>

section \<open>Journals\<close>

datatype journal_state = Prepared | Committed

record journal_record =
  jr_kind :: entity_kind
  jr_target_id :: string
  jr_component_type :: "string option"

record journal_package =
  jp_directory :: string
  jp_target_id :: string
  jp_folder :: string

record journal_skill_package =
  js_target_id :: string
  js_folder :: string

record import_journal =
  ij_transaction_id :: string
  ij_bundle_sha256 :: string
  ij_state :: journal_state
  ij_records :: "journal_record list"
  ij_packages :: "journal_package list"
  ij_skill_packages :: "journal_skill_package list"

definition imports_directory :: string where
  "imports_directory = ''configuration_imports''"

definition python_packages_directory :: string where
  "python_packages_directory = ''python_packages''"

definition skill_packages_directory :: string where
  "skill_packages_directory = ''skill_packages''"

definition configuration_path :: "journal_record \<Rightarrow> path" where
  "configuration_path r =
     (let file = jr_target_id r @ yaml_suffix in
      case jr_kind r of
        Component \<Rightarrow> [''components'', (case jr_component_type r of None \<Rightarrow> ''None'' | Some t \<Rightarrow> t), file]
      | Main_agent \<Rightarrow> [''agents'', ''main'', file]
      | Subagent \<Rightarrow> [''agents'', ''subagent'', file]
      | External_agent \<Rightarrow> [''agents'', ''external'', file]
      | _ \<Rightarrow> [''workflows'', file])"

section \<open>The disk of a repository\<close>

text \<open>
  Beside the YAML files: the package folders, each with the texts of its files, and the journals
  by transaction.  A folder below \<open>configuration_imports/staging\<close> is a staged one.
\<close>

type_synonym folder = "(string, string) dict"

record 'f import_disk =
  im_repository :: "'f config_repository"
  im_folders :: "(path, folder) dict"
  im_journals :: "(string, import_journal) dict"

datatype import_failure =
    Claim_exists
  | Target_exists
  | Os_error
  | Target_state_changed
  | Update_failed store_error
  | Journal_write_failed
  | Rollback_failed
  | Injected

definition staging_path :: "string \<Rightarrow> path" where
  "staging_path tx = [imports_directory, ''staging'', tx]"

definition asset_claim :: "string \<Rightarrow> string" where
  "asset_claim tx = ''.agent-shell-import-owner-'' @ tx"

definition claim_import_asset :: "path \<Rightarrow> string \<Rightarrow> (path, folder) dict \<Rightarrow> import_failure + (path, folder) dict" where
  "claim_import_asset p tx folders =
     (case map_of folders p of
        None \<Rightarrow> Inl Os_error
      | Some files \<Rightarrow>
          if map_of files (asset_claim tx) \<noteq> None then Inl Claim_exists
          else Inr (AList.update p (AList.update (asset_claim tx) tx files) folders))"

definition cleanup_claimed_asset :: "path \<Rightarrow> string \<Rightarrow> bool \<Rightarrow> (path, folder) dict \<Rightarrow> (path, folder) dict" where
  "cleanup_claimed_asset p tx remove_asset folders =
     (case map_of folders p of
        None \<Rightarrow> folders
      | Some files \<Rightarrow>
          if map_of files (asset_claim tx) \<noteq> Some tx then folders
          else if remove_asset then AList.delete p folders
          else AList.update p (AList.delete (asset_claim tx) files) folders)"

definition remove_owned_tree :: "path \<Rightarrow> (path, folder) dict \<Rightarrow> (path, folder) dict" where
  "remove_owned_tree p folders = filter (\<lambda>f. take (length p) (fst f) \<noteq> p) folders"

definition package_path :: "string \<Rightarrow> string \<Rightarrow> path" where
  "package_path directory name = [python_packages_directory, directory, name]"

definition skill_path :: "string \<Rightarrow> path" where
  "skill_path name = [skill_packages_directory, name]"

definition map_store :: "('f config_store \<Rightarrow> 'f config_store) \<Rightarrow> 'f import_disk \<Rightarrow> 'f import_disk" where
  "map_store f d = d\<lparr>im_repository := (im_repository d)\<lparr>rp_store := f (rp_store (im_repository d))\<rparr>\<rparr>"

definition journal_asset_paths :: "import_journal \<Rightarrow> path list" where
  "journal_asset_paths j =
     map (\<lambda>p. package_path (jp_directory p) (jp_folder p)) (ij_packages j) @
     map (\<lambda>s. skill_path (js_folder s)) (ij_skill_packages j)"

definition cleanup_import_journal :: "import_journal \<Rightarrow> 'f import_disk \<Rightarrow> 'f import_disk" where
  "cleanup_import_journal j d =
     (let remove_assets = (ij_state j = Prepared);
          d1 = (if remove_assets
                then map_store (apply_ops (map (\<lambda>r. Unlink_file (configuration_path r)) (ij_records j))) d else d);
          folders = fold (\<lambda>p. cleanup_claimed_asset p (ij_transaction_id j) remove_assets)
                      (journal_asset_paths j) (im_folders d1) in
      d1\<lparr>im_folders := remove_owned_tree (staging_path (ij_transaction_id j)) folders,
         im_journals := AList.delete (ij_transaction_id j) (im_journals d1)\<rparr>)"

text \<open>
  At the start of the server every journal found is cleaned up, in the order of their names; a
  journal under another name than its transaction stops the start.
\<close>

fun recover_loop :: "(string \<times> import_journal) list \<Rightarrow> 'f import_disk \<Rightarrow> string + 'f import_disk" where
  "recover_loop [] d = Inr d"
| "recover_loop ((name, j) # js) d =
     (if ij_transaction_id j \<noteq> name then Inl name else recover_loop js (cleanup_import_journal j d))"

definition recover_configuration_imports :: "'f import_disk \<Rightarrow> string + 'f import_disk" where
  "recover_configuration_imports d = recover_loop (sort_by fst (im_journals d)) d"

section \<open>The commit\<close>

text \<open>An asset of the bundle: where it belongs and the files it has once they are checked.\<close>

record package_plan =
  pa_target_id :: string
  pa_folder :: string
  pa_component_type :: string
  pa_files :: folder

record skill_plan =
  sk_target_id :: string
  sk_folder :: string
  sk_files :: folder

record prepared_import =
  pi_bundle_sha256 :: string
  pi_entities :: "configuration_entity list"
  pi_packages :: "package_plan list"
  pi_skills :: "skill_plan list"

definition package_directory :: "package_plan \<Rightarrow> string" where
  "package_directory p = (case map_of package_directories (pa_component_type p) of None \<Rightarrow> [] | Some d \<Rightarrow> d)"

definition prepared_journal :: "string \<Rightarrow> prepared_import \<Rightarrow> import_journal" where
  "prepared_journal tx p =
     \<lparr>ij_transaction_id = tx, ij_bundle_sha256 = pi_bundle_sha256 p, ij_state = Prepared,
      ij_records = map (\<lambda>e. \<lparr>jr_kind = ce_kind e, jr_target_id = ce_id e,
         jr_component_type = (if ce_component_type e = [] then None else Some (ce_component_type e))\<rparr>) (pi_entities p),
      ij_packages = map (\<lambda>a. \<lparr>jp_directory = package_directory a, jp_target_id = pa_target_id a,
         jp_folder = pa_folder a\<rparr>) (pi_packages p),
      ij_skill_packages = map (\<lambda>s. \<lparr>js_target_id = sk_target_id s, js_folder = sk_folder s\<rparr>) (pi_skills p)\<rparr>"

definition append_record ::
  "string \<Rightarrow> (string, json) dict \<Rightarrow> (string, json) dict \<Rightarrow> string + (string, json) dict" where
  "append_record key r config =
     (case map_of config key of
        None \<Rightarrow> Inr (AList.update key (JList [JObj r]) config)
      | Some (JList xs) \<Rightarrow> Inr (AList.update key (JList (xs @ [JObj r])) config)
      | Some _ \<Rightarrow> Inl ''AttributeError'')"

definition append_component ::
  "string \<Rightarrow> (string, json) dict \<Rightarrow> (string, json) dict \<Rightarrow> string + (string, json) dict" where
  "append_component t r config =
     (case field_or (JObj []) ''components'' config of
        JObj types \<Rightarrow>
          bind_res (append_record t r types) (\<lambda>types'. Inr (AList.update ''components'' (JObj types') config))
      | _ \<Rightarrow> Inl ''AttributeError'')"

definition append_entity ::
  "configuration_entity \<Rightarrow> (string, json) dict \<Rightarrow> string + (string, json) dict" where
  "append_entity e config =
     (let r = ce_payload e; off = AList.update ''enabled'' (JBool False) r in
      case ce_kind e of
        Component \<Rightarrow> append_component (ce_component_type e) r config
      | Main_agent \<Rightarrow> append_record ''main_agents'' off config
      | Subagent \<Rightarrow> append_record ''subagents'' r config
      | External_agent \<Rightarrow> append_record ''external_agents'' r config
      | Mcp_tool \<Rightarrow> append_record ''mcp_tools'' off config
      | Workflow \<Rightarrow> append_record ''workflows'' off config)"

fun append_imported_records ::
  "configuration_entity list \<Rightarrow> (string, json) dict \<Rightarrow> string + (string, json) dict" where
  "append_imported_records [] config = Inr config"
| "append_imported_records (e # es) config = bind_res (append_entity e config) (append_imported_records es)"

definition keep_record :: "string list \<Rightarrow> json \<Rightarrow> bool" where
  "keep_record ids v = (case v of JObj r \<Rightarrow> field ''id'' r \<notin> JStr ` set ids | _ \<Rightarrow> True)"

definition drop_records :: "string list \<Rightarrow> json \<Rightarrow> json" where
  "drop_records ids v = (case v of JList xs \<Rightarrow> JList (filter (keep_record ids) xs) | _ \<Rightarrow> v)"

definition remove_imported_records :: "string list \<Rightarrow> (string, json) dict \<Rightarrow> (string, json) dict" where
  "remove_imported_records ids config =
     fold (\<lambda>key c. AList.update key (drop_records ids (field_or (JList []) key c)) c) record_sections
       (case map_of config ''components'' of
          Some (JObj types) \<Rightarrow> AList.update ''components'' (JObj (map (\<lambda>(t, v). (t, drop_records ids v)) types)) config
        | _ \<Rightarrow> config)"


text \<open>
  The effects of a commit before the configuration is written: the journal, the staged folders,
  their claims and their moves to the place they belong.  A move fails if its target exists.
\<close>

datatype import_step =
    Write_journal import_journal
  | Stage_folder path folder
  | Claim_folder path
  | Publish_folder path path

definition import_step_on :: "string \<Rightarrow> import_step \<Rightarrow> 'f import_disk \<Rightarrow> import_failure + 'f import_disk" where
  "import_step_on tx step d =
     (case step of
        Write_journal j \<Rightarrow> Inr (d\<lparr>im_journals := AList.update (ij_transaction_id j) j (im_journals d)\<rparr>)
      | Stage_folder p files \<Rightarrow> Inr (d\<lparr>im_folders := AList.update p files (im_folders d)\<rparr>)
      | Claim_folder p \<Rightarrow>
          bind_res (claim_import_asset p tx (im_folders d)) (\<lambda>fs. Inr (d\<lparr>im_folders := fs\<rparr>))
      | Publish_folder src dst \<Rightarrow>
          if map_of (im_folders d) dst \<noteq> None then Inl Target_exists
          else (case map_of (im_folders d) src of
                  None \<Rightarrow> Inl Os_error
                | Some files \<Rightarrow> Inr (d\<lparr>im_folders := AList.update dst files (AList.delete src (im_folders d))\<rparr>)))"

text \<open>A run of steps: the disk it leaves, and the failure that stopped it.  The step with the
  given number fails before it does anything.\<close>

fun run_steps ::
  "string \<Rightarrow> nat option \<Rightarrow> import_step list \<Rightarrow> 'f import_disk \<Rightarrow> 'f import_disk \<times> import_failure option" where
  "run_steps tx fault [] d = (d, None)"
| "run_steps tx fault (s # ss) d =
     (if fault = Some 0 then (d, Some Injected)
      else (case import_step_on tx s d of
              Inl e \<Rightarrow> (d, Some e)
            | Inr d' \<Rightarrow> run_steps tx (map_option (\<lambda>n. n - 1) fault) ss d'))"

definition staged_package :: "string \<Rightarrow> package_plan \<Rightarrow> path" where
  "staged_package tx p = staging_path tx @ [''packages'', package_directory p, pa_folder p]"

definition staged_skill :: "string \<Rightarrow> skill_plan \<Rightarrow> path" where
  "staged_skill tx s = staging_path tx @ [''skills'', sk_folder s]"

definition stage_steps :: "string \<Rightarrow> prepared_import \<Rightarrow> import_step list" where
  "stage_steps tx p =
     map (\<lambda>a. Stage_folder (staged_package tx a) (pa_files a)) (pi_packages p) @
     map (\<lambda>s. Stage_folder (staged_skill tx s) (sk_files s)) (pi_skills p) @
     map (\<lambda>a. Claim_folder (staged_package tx a)) (pi_packages p) @
     map (\<lambda>s. Claim_folder (staged_skill tx s)) (pi_skills p) @
     map (\<lambda>a. Publish_folder (staged_package tx a) (package_path (package_directory a) (pa_folder a))) (pi_packages p) @
     map (\<lambda>s. Publish_folder (staged_skill tx s) (skill_path (sk_folder s))) (pi_skills p)"

text \<open>Where a commit fails: at a step, in the flush of the configuration, at the second journal,
  or in the flush that takes the records out again.\<close>

record import_faults =
  if_step :: "nat option"
  if_flush :: "nat option"
  if_journal :: bool
  if_rollback :: "nat option"

definition commit_prepared_import ::
  "'f yaml_library \<Rightarrow> to_text \<Rightarrow> string \<Rightarrow> import_faults \<Rightarrow> prepared_import \<Rightarrow> 'f import_disk \<Rightarrow>
   'f import_disk \<times> import_failure option" where
  "commit_prepared_import lib txt tx faults p d =
     (let rp = im_repository d; ids = map ce_id (pi_entities p); j = prepared_journal tx p in
      if set (map ce_id (iter_configuration_entities txt (rp_config rp))) \<inter> set ids \<noteq> {}
      then (d, Some Target_state_changed)
      else
        let d1 = d\<lparr>im_journals := AList.update tx j (im_journals d)\<rparr> in
        case run_steps tx (if_step faults) (stage_steps tx p) d1 of
          (d2, Some e) \<Rightarrow> (cleanup_import_journal j d2, Some e)
        | (d2, None) \<Rightarrow>
            case update_config lib txt (if_flush faults) None None (append_imported_records (pi_entities p)) (im_repository d2) of
              (rp3, Some e) \<Rightarrow> (cleanup_import_journal j (d2\<lparr>im_repository := rp3\<rparr>), Some (Update_failed e))
            | (rp3, None) \<Rightarrow>
                let d3 = d2\<lparr>im_repository := rp3\<rparr> in
                if if_journal faults
                then (case update_config lib txt (if_rollback faults) None None
                             (\<lambda>config. Inr (remove_imported_records ids config)) rp3 of
                        (rp4, Some e) \<Rightarrow> (d3\<lparr>im_repository := rp4\<rparr>, Some Rollback_failed)
                      | (rp4, None) \<Rightarrow> (cleanup_import_journal j (d3\<lparr>im_repository := rp4\<rparr>), Some Journal_write_failed))
                else
                  let committed = j\<lparr>ij_state := Committed\<rparr> in
                  (cleanup_import_journal committed (d3\<lparr>im_journals := AList.update tx committed (im_journals d3)\<rparr>), None))"

text \<open>
  A crash: the process dies before the step with the given number.  The numbers run through the
  journal, the steps, the file operations of the flush and the second journal.
\<close>

definition crashed_import ::
  "'f yaml_library \<Rightarrow> to_text \<Rightarrow> string \<Rightarrow> (string, json) dict \<Rightarrow> prepared_import \<Rightarrow> nat \<Rightarrow> 'f import_disk \<Rightarrow> 'f import_disk" where
  "crashed_import lib txt tx candidate p k d =
     (let j = prepared_journal tx p; steps = Write_journal j # stage_steps tx p;
          r = run_steps tx (Some k) steps d; n = k - length steps;
          ops = flush_ops lib txt candidate (rp_store (im_repository d)) in
      if snd r \<noteq> None then fst r
      else
        let d1 = map_store (apply_ops (take n ops)) (fst r) in
        if n \<le> length ops then d1
        else d1\<lparr>im_journals := AList.update tx (j\<lparr>ij_state := Committed\<rparr>) (im_journals d1)\<rparr>)"

end
