(* ===== verification/Import_Documents.thy ===== *)
theory Import_Documents
  imports Bundle_Journal
begin

text \<open>
  The documents an import adds: the records it appends to the configuration bring exactly one
  document each, at the place of their kind, and leave every other document as it was.
\<close>

section \<open>Where the record of an entity is stored\<close>

definition entity_dir :: "configuration_entity \<Rightarrow> path" where
  "entity_dir e =
     (case ce_kind e of
        Component \<Rightarrow> [''components'', ce_component_type e]
      | Main_agent \<Rightarrow> [''agents'', ''main'']
      | Subagent \<Rightarrow> [''agents'', ''subagent'']
      | External_agent \<Rightarrow> [''agents'', ''external'']
      | Mcp_tool \<Rightarrow> [''mcp_tools'']
      | Workflow \<Rightarrow> [''workflows''])"

definition entity_file :: "configuration_entity \<Rightarrow> path" where
  "entity_file e = entity_dir e @ [ce_id e @ yaml_suffix]"

text \<open>What the planner guarantees of the entities it hands to the commit.\<close>

definition proper_entity :: "configuration_entity \<Rightarrow> bool" where
  "proper_entity e \<longleftrightarrow> map_of (ce_payload e) ''id'' = Some (JStr (ce_id e)) \<and>
     (ce_kind e = Component \<longleftrightarrow> ce_component_type e \<noteq> [])"

lemma managed_entity_file: "managed_path (entity_file e)"
  by (simp add: managed_path_def entity_file_def entity_dir_def managed_roots_def split: entity_kind.splits)

section \<open>Appending one record\<close>

lemma records_snoc: "records_of (JList (xs @ [JObj r])) = records_of (JList xs) @ [r]"
proof -
  have "dict_records (xs @ ys) = dict_records xs @ dict_records ys" for ys
    by (induction xs rule: dict_records.induct) auto
  then show ?thesis by (simp add: records_of_def)
qed

lemma append_record_field:
  "append_record k r c = Inr c' \<Longrightarrow> k' \<noteq> k \<Longrightarrow> field k' c' = field k' c"
  by (auto simp: append_record_def field_def dict_get_set split: option.splits json.splits)

lemma append_record_cases:
  assumes "append_record k r c = Inr c'"
  obtains (fresh) "map_of c k = None" "c' = c @ [(k, JList [JObj r])]"
  | (present) xs as bs where "map_of c k = Some (JList xs)" "c = as @ (k, JList xs) # bs"
      "c' = as @ (k, JList (xs @ [JObj r])) # bs"
proof (cases "map_of c k")
  case None
  then have "AList.update k w c = c @ [(k, w)]" for w by (induction c) (auto split: if_splits)
  with None assms fresh show ?thesis by (simp add: append_record_def)
next
  case (Some v)
  then obtain xs where v: "v = JList xs" and c': "c' = AList.update k (JList (xs @ [JObj r])) c"
    using assms by (cases v) (auto simp: append_record_def)
  have "\<exists>as bs. c = as @ (k, v) # bs \<and> AList.update k w c = as @ (k, w) # bs" for w
    using Some
  proof (induction c)
    case (Cons kv c)
    show ?case
    proof (cases "fst kv = k")
      case True
      with Cons.prems have "kv # c = [] @ (k, v) # c" "AList.update k w (kv # c) = [] @ (k, w) # c" by (cases kv, auto)+
      then show ?thesis by blast
    next
      case False
      with Cons obtain as bs where "c = as @ (k, v) # bs" "AList.update k w c = as @ (k, w) # bs" by auto
      with False have "kv # c = (kv # as) @ (k, v) # bs" "AList.update k w (kv # c) = (kv # as) @ (k, w) # bs"
        by (cases kv, simp)+
      then show ?thesis by blast
    qed
  qed simp
  with present Some v c' show ?thesis by metis
qed

lemma append_record_records:
  assumes "append_record k r c = Inr c'"
  shows "records_of (field k c') = records_of (field k c) @ [r]"
  using assms
  by (auto simp: append_record_def field_def dict_get_set records_snoc split: option.splits json.splits)
    (simp add: records_of_def)

lemma section_documents_append:
  "records_of v' = records_of v @ [r] \<Longrightarrow> has_id r \<Longrightarrow>
     section_documents tx dir doc v' = section_documents tx dir doc v @ [(record_path tx dir r, doc r)]"
  by (simp add: section_documents_def)

lemma component_documents_append:
  assumes "append_record t r (component_sections c) = Inr types" and "component_sections c' = types" and "has_id r"
  shows "\<exists>d. set (component_documents tx c') =
    insert (record_path tx [''components'', t] r, d) (set (component_documents tx c))"
  using assms(1)
proof (cases rule: append_record_cases)
  case fresh
  moreover have "section_documents tx dir doc (JList [JObj r]) = [(record_path tx dir r, doc r)]" for dir doc
    using assms(3) by (simp add: section_documents_def records_of_def)
  ultimately have "set (component_documents tx c') = insert (record_path tx [''components'', t] r, component_document t r)
      (set (component_documents tx c))"
    using assms(2) by (simp add: component_documents_def)
  then show ?thesis by blast
next
  case (present xs as bs)
  have "set (component_documents tx c') = insert (record_path tx [''components'', t] r, component_document t r)
      (set (component_documents tx c))"
    unfolding component_documents_def assms(2) present(2,3)
    by (simp add: section_documents_append [OF records_snoc assms(3)])
  then show ?thesis by blast
qed

section \<open>Appending the entities of an import\<close>

lemmas document_defs = config_documents_def agent_documents_def mcp_tool_documents_def workflow_documents_def

definition section_dirs :: "(string \<times> path) list" where
  "section_dirs =
     [(''external_agents'', [''agents'', ''external'']), (''main_agents'', [''agents'', ''main'']),
      (''subagents'', [''agents'', ''subagent'']), (''mcp_tools'', [''mcp_tools'']), (''workflows'', [''workflows''])]"

lemma listed_documents:
  assumes app: "append_record k r c = Inr c'" and has: "has_id r" and dir: "(k, dir) \<in> set section_dirs"
  shows "\<exists>d. set (config_documents tx c') = insert (record_path tx dir r, d) (set (config_documents tx c))"
proof -
  have other: "field k' c' = field k' c" if "k' \<noteq> k" for k' by (rule append_record_field [OF app that])
  have add: "section_documents tx dir doc (field k c') =
      section_documents tx dir doc (field k c) @ [(record_path tx dir r, doc r)]" for dir doc
    by (rule section_documents_append [OF append_record_records [OF app] has])
  have "k \<noteq> ''components''" using dir by (auto simp: section_dirs_def)
  then have comps: "component_documents tx c' = component_documents tx c"
    by (simp add: component_documents_def component_sections_def other)
  have "\<exists>d. set (config_documents tx c') = insert (record_path tx (snd kd) r, d) (set (config_documents tx c))"
    if kd: "(k, dir) = kd" "kd \<in> set section_dirs" for kd
  proof -
    have k: "k = fst kd" using kd(1) by (metis fst_conv)
    note other = other [unfolded k] and add = add [unfolded k]
    from kd(2) other add show ?thesis
      unfolding section_dirs_def list.set document_defs
      by (elim insertE emptyE) (rule exI, simp add: comps)+
  qed
  from this [OF refl dir] show ?thesis by simp
qed

lemma append_component_documents:
  assumes app: "append_component t r c = Inr c'" and has: "has_id r"
  shows "\<exists>d. set (config_documents tx c') = insert (record_path tx [''components'', t] r, d) (set (config_documents tx c))"
proof -
  obtain types types' where types: "field_or (JObj []) ''components'' c = JObj types"
    "append_record t r types = Inr types'" and c': "c' = AList.update ''components'' (JObj types') c"
    using app by (auto simp: append_component_def res_Inr split: json.splits)
  have "component_sections c = types" "component_sections c' = types'"
    using types(1) by (auto simp: component_sections_def field_or_def field_def c' dict_get_set split: option.splits)
  with component_documents_append [of t r c types' c' tx] types(2) has
  obtain d where d: "set (component_documents tx c') =
      insert (record_path tx [''components'', t] r, d) (set (component_documents tx c))" by blast
  have "field k c' = field k c" if "k \<noteq> ''components''" for k
    using that by (simp add: c' field_def dict_get_set)
  then show ?thesis by (intro exI [of _ d]) (simp add: document_defs d)
qed

lemma append_entity_documents:
  assumes law: "text_law tx" and e: "proper_entity e" "ce_id e \<noteq> []" and app: "append_entity e c = Inr c'"
  shows "\<exists>d. set (config_documents tx c') = insert (entity_file e, d) (set (config_documents tx c))"
proof -
  let ?r = "ce_payload e" let ?off = "AList.update ''enabled'' (JBool False) ?r"
  have ids: "has_id ?r" "has_id ?off" "record_path tx dir ?r = dir @ [ce_id e @ yaml_suffix]"
    "record_path tx dir ?off = dir @ [ce_id e @ yaml_suffix]" for dir
    using law e by (simp_all add: has_id_def record_path_def proper_entity_def field_def text_law_def dict_get_set)
  show ?thesis
  proof (cases "ce_kind e")
    case Component
    with app have "append_component (ce_component_type e) ?r c = Inr c'" by (simp add: append_entity_def)
    from append_component_documents [OF this ids(1), of tx] Component show ?thesis
      by (simp add: entity_file_def entity_dir_def ids(3))
  next
    case Main_agent
    with app have "append_record ''main_agents'' ?off c = Inr c'" by (simp add: append_entity_def)
    from listed_documents [OF this ids(2), of _ tx] Main_agent show ?thesis
      by (simp add: entity_file_def entity_dir_def ids section_dirs_def)
  next
    case Subagent
    with app have "append_record ''subagents'' ?r c = Inr c'" by (simp add: append_entity_def)
    from listed_documents [OF this ids(1), of _ tx] Subagent show ?thesis
      by (simp add: entity_file_def entity_dir_def ids section_dirs_def)
  next
    case External_agent
    with app have "append_record ''external_agents'' ?r c = Inr c'" by (simp add: append_entity_def)
    from listed_documents [OF this ids(1), of _ tx] External_agent show ?thesis
      by (simp add: entity_file_def entity_dir_def ids section_dirs_def)
  next
    case Mcp_tool
    with app have "append_record ''mcp_tools'' ?off c = Inr c'" by (simp add: append_entity_def)
    from listed_documents [OF this ids(2), of _ tx] Mcp_tool show ?thesis
      by (simp add: entity_file_def entity_dir_def ids section_dirs_def)
  next
    case Workflow
    with app have "append_record ''workflows'' ?off c = Inr c'" by (simp add: append_entity_def)
    from listed_documents [OF this ids(2), of _ tx] Workflow show ?thesis
      by (simp add: entity_file_def entity_dir_def ids section_dirs_def)
  qed
qed

lemma append_records_documents:
  assumes "text_law tx" and "\<forall>e \<in> set es. proper_entity e \<and> ce_id e \<noteq> []" and "append_imported_records es c = Inr c'"
  shows "\<exists>D. set (config_documents tx c') = set (config_documents tx c) \<union> D \<and> fst ` D = entity_file ` set es"
  using assms(2,3)
proof (induction es arbitrary: c)
  case (Cons e es)
  then obtain c1 where c1: "append_entity e c = Inr c1" "append_imported_records es c1 = Inr c'"
    by (auto simp: res_Inr)
  obtain d where "set (config_documents tx c1) = insert (entity_file e, d) (set (config_documents tx c))"
    using append_entity_documents [OF assms(1) _ _ c1(1)] Cons.prems(1) by auto
  moreover obtain D where "set (config_documents tx c') = set (config_documents tx c1) \<union> D" "fst ` D = entity_file ` set es"
    using Cons.IH [OF _ c1(2)] Cons.prems(1) by auto
  ultimately show ?case by (intro exI [of _ "insert (entity_file e, d) D"]) auto
qed simp

end
