(* ===== verification/Import_Recovery.thy ===== *)
theory Import_Recovery
  imports Import_Documents
begin

text \<open>
  Imports that do not finish: what the cleanup after a crash or a failure restores, and what it
  leaves behind.
\<close>

section \<open>Folders\<close>

definition staged :: "string \<Rightarrow> path \<Rightarrow> bool" where
  "staged tx p \<longleftrightarrow> take 3 p = staging_path tx"

definition claimed :: "string \<Rightarrow> folder \<Rightarrow> bool" where
  "claimed tx files \<longleftrightarrow> map_of files (asset_claim tx) = Some tx"

definition import_moves :: "string \<Rightarrow> prepared_import \<Rightarrow> (path \<times> path) list" where
  "import_moves tx p =
     map (\<lambda>a. (staged_package tx a, package_path (package_directory a) (pa_folder a))) (pi_packages p) @
     map (\<lambda>s. (staged_skill tx s, skill_path (sk_folder s))) (pi_skills p)"

definition stage_folders :: "string \<Rightarrow> prepared_import \<Rightarrow> import_step list" where
  "stage_folders tx p =
     map (\<lambda>a. Stage_folder (staged_package tx a) (pa_files a)) (pi_packages p) @
     map (\<lambda>s. Stage_folder (staged_skill tx s) (sk_files s)) (pi_skills p)"

lemma stage_steps_eq:
  "stage_steps tx p = stage_folders tx p @ map (Claim_folder \<circ> fst) (import_moves tx p) @
     map (\<lambda>m. Publish_folder (fst m) (snd m)) (import_moves tx p)"
  by (simp add: stage_steps_def stage_folders_def import_moves_def comp_def)

lemma journal_asset_moves: "journal_asset_paths (prepared_journal tx p) = map snd (import_moves tx p)"
  by (simp add: journal_asset_paths_def prepared_journal_def import_moves_def comp_def)

lemma moves_staged: "m \<in> set (import_moves tx p) \<Longrightarrow> staged tx (fst m) \<and> \<not> staged tx (snd m)"
  by (auto simp: import_moves_def staged_def staged_package_def staged_skill_def staging_path_def package_path_def
      skill_path_def imports_directory_def python_packages_directory_def skill_packages_directory_def)

lemma folders_staged: "Stage_folder q files \<in> set (stage_folders tx p) \<Longrightarrow> staged tx q"
  by (auto simp: stage_folders_def staged_def staged_package_def staged_skill_def staging_path_def)

text \<open>Outside the staging folder an import only adds folders it has claimed, where none were.\<close>

definition claims_only :: "string \<Rightarrow> path set \<Rightarrow> (path, folder) dict \<Rightarrow> (path, folder) dict \<Rightarrow> bool" where
  "claims_only tx targets f f' \<longleftrightarrow>
     (\<forall>q. \<not> staged tx q \<longrightarrow> map_of f' q = map_of f q \<or>
        q \<in> targets \<and> map_of f q = None \<and> (\<exists>files. map_of f' q = Some files \<and> claimed tx files))"

definition all_claimed :: "string \<Rightarrow> path set \<Rightarrow> (path, folder) dict \<Rightarrow> bool" where
  "all_claimed tx ps f \<longleftrightarrow> (\<forall>q \<in> ps. \<forall>files. map_of f q = Some files \<longrightarrow> claimed tx files)"

lemma run_steps_append:
  "run_steps tx fault (xs @ ys) d =
     (case run_steps tx fault xs d of
        (d', Some e) \<Rightarrow> (d', Some e)
      | (d', None) \<Rightarrow> run_steps tx (map_option (\<lambda>n. n - length xs) fault) ys d')"
proof (induction xs arbitrary: fault d)
  case Nil
  then show ?case by (cases fault) auto
next
  case (Cons x xs)
  then show ?case by (cases fault) (auto split: sum.splits)
qed

lemma run_steps_inv:
  assumes "\<And>s d d'. s \<in> set ss \<Longrightarrow> P d \<Longrightarrow> import_step_on tx s d = Inr d' \<Longrightarrow> P d'" and "P d"
  shows "P (fst (run_steps tx fault ss d))"
  using assms
proof (induction ss arbitrary: fault d)
  case (Cons s ss)
  show ?case
  proof (cases "import_step_on tx s d")
    case (Inl e)
    with Cons.prems(2) show ?thesis by simp
  next
    case (Inr d')
    have "P d'" by (rule Cons.prems(1) [OF _ Cons.prems(2) Inr]) simp
    then have "P (fst (run_steps tx (map_option (\<lambda>n. n - 1) fault) ss d'))"
      by (intro Cons.IH) (auto intro: Cons.prems(1))
    with Inr Cons.prems(2) show ?thesis by simp
  qed
qed simp

lemma run_steps_rest:
  assumes "\<And>s j. s \<in> set ss \<Longrightarrow> s \<noteq> Write_journal j"
  shows "im_repository (fst (run_steps tx fault ss d)) = im_repository d \<and>
     im_journals (fst (run_steps tx fault ss d)) = im_journals d"
proof (rule run_steps_inv [where P = "\<lambda>d'. im_repository d' = im_repository d \<and> im_journals d' = im_journals d"])
  fix s d1 d'
  assume "s \<in> set ss" "im_repository d1 = im_repository d \<and> im_journals d1 = im_journals d"
    "import_step_on tx s d1 = Inr d'"
  with assms [of s] show "im_repository d' = im_repository d \<and> im_journals d' = im_journals d"
    by (cases s) (auto simp: import_step_on_def res_Inr split: if_splits option.splits)
qed simp

lemma claims_only_cong:
  "(\<And>q. \<not> staged tx q \<Longrightarrow> map_of f2 q = map_of f1 q) \<Longrightarrow> claims_only tx targets f f1 \<Longrightarrow> claims_only tx targets f f2"
  by (simp add: claims_only_def)

lemma stage_claims_only:
  assumes "\<And>s. s \<in> set ss \<Longrightarrow> (\<exists>q files. s = Stage_folder q files \<and> staged tx q) \<or> (\<exists>q. s = Claim_folder q \<and> staged tx q)"
    and "claims_only tx targets f (im_folders d)"
  shows "claims_only tx targets f (im_folders (fst (run_steps tx fault ss d)))"
proof (rule run_steps_inv [where P = "\<lambda>d'. claims_only tx targets f (im_folders d')"])
  fix s d1 d'
  assume s: "s \<in> set ss" and old: "claims_only tx targets f (im_folders d1)" and step: "import_step_on tx s d1 = Inr d'"
  from assms(1) [OF s] step have "map_of (im_folders d') q = map_of (im_folders d1) q" if "\<not> staged tx q" for q
    using that by (auto simp: import_step_on_def claim_import_asset_def res_Inr dict_get_set
        split: if_splits option.splits)
  then show "claims_only tx targets f (im_folders d')" using old by (rule claims_only_cong)
qed (rule assms(2))

lemma claims_done:
  assumes "run_steps tx fault (map Claim_folder ps) d = (d', None)" and "all_claimed tx Q (im_folders d)"
  shows "all_claimed tx (set ps \<union> Q) (im_folders d')"
  using assms
proof (induction ps arbitrary: fault d Q)
  case (Cons p ps)
  obtain d1 where d1: "import_step_on tx (Claim_folder p) d = Inr d1"
    using Cons.prems(1) by (cases "import_step_on tx (Claim_folder p) d") (auto split: if_splits)
  then have rest: "run_steps tx (map_option (\<lambda>n. n - 1) fault) (map Claim_folder ps) d1 = (d', None)"
    using Cons.prems(1) by (simp split: if_splits)
  obtain files where files: "im_folders d1 = AList.update p (AList.update (asset_claim tx) tx files) (im_folders d)"
    using d1 by (auto simp: import_step_on_def claim_import_asset_def res_Inr split: if_splits option.splits)
  have "all_claimed tx (insert p Q) (im_folders d1)"
    using Cons.prems(2) by (auto simp: all_claimed_def claimed_def files dict_get_set)
  from Cons.IH [OF rest this] show ?case by (simp add: Un_insert_right)
qed simp

lemma publish_step:
  assumes m: "staged tx (fst m)" "\<not> staged tx (snd m)" "snd m \<in> targets"
    and old: "claims_only tx targets f (im_folders d)" "all_claimed tx (insert (fst m) Q) (im_folders d)"
    and step: "import_step_on tx (Publish_folder (fst m) (snd m)) d = Inr d'"
  shows "claims_only tx targets f (im_folders d') \<and> all_claimed tx Q (im_folders d')"
proof -
  obtain files where files: "map_of (im_folders d) (fst m) = Some files" "map_of (im_folders d) (snd m) = None"
    "im_folders d' = AList.update (snd m) files (AList.delete (fst m) (im_folders d))"
    using step by (auto simp: import_step_on_def split: if_splits option.splits)
  have c: "claimed tx files" using files(1) old(2) by (auto simp: all_claimed_def)
  have get: "map_of (im_folders d') q =
      (if q = snd m then Some files else if q = fst m then None else map_of (im_folders d) q)" for q
    by (simp add: files(3) dict_get_set dict_get_pop)
  have fresh: "map_of f (snd m) = None" using m(2) old(1) files(2) by (force simp: claims_only_def)
  have "map_of (im_folders d') q = map_of f q \<or>
      q \<in> targets \<and> map_of f q = None \<and> (\<exists>files. map_of (im_folders d') q = Some files \<and> claimed tx files)"
    if q: "\<not> staged tx q" for q
  proof (cases "q = snd m")
    case True
    with c fresh m(3) get show ?thesis by simp
  next
    case False
    moreover have "q \<noteq> fst m" using q m(1) by blast
    ultimately show ?thesis using old(1) q unfolding claims_only_def get by simp
  qed
  moreover have "all_claimed tx Q (im_folders d')"
    using old(2) c by (simp add: all_claimed_def get)
  ultimately show ?thesis by (simp add: claims_only_def)
qed

lemma publish_claims_only:
  assumes "\<forall>m \<in> set ms. staged tx (fst m) \<and> \<not> staged tx (snd m) \<and> snd m \<in> targets"
    and "claims_only tx targets f (im_folders d)" and "all_claimed tx (fst ` set ms) (im_folders d)"
  shows "claims_only tx targets f
    (im_folders (fst (run_steps tx fault (map (\<lambda>m. Publish_folder (fst m) (snd m)) ms) d)))"
  using assms
proof (induction ms arbitrary: fault d)
  case (Cons m ms)
  show ?case
  proof (cases "import_step_on tx (Publish_folder (fst m) (snd m)) d")
    case (Inl e)
    with Cons.prems(2) show ?thesis by simp
  next
    case (Inr d')
    have "claims_only tx targets f (im_folders d') \<and> all_claimed tx (fst ` set ms) (im_folders d')"
      by (rule publish_step [OF _ _ _ Cons.prems(2) _ Inr]) (use Cons.prems in auto)
    with Cons.IH [of d'] Cons.prems(1,2) Inr show ?thesis by simp
  qed
qed simp

text \<open>So at any moment of a commit, and after a failing step.\<close>

lemma stage_steps_claims_only:
  assumes "claims_only tx (snd ` set (import_moves tx p)) f (im_folders d)"
  shows "claims_only tx (snd ` set (import_moves tx p)) f (im_folders (fst (run_steps tx fault (stage_steps tx p) d)))"
proof -
  let ?ms = "import_moves tx p" let ?T = "snd ` set (import_moves tx p)"
  let ?r1 = "run_steps tx fault (stage_folders tx p) d"
  let ?f1 = "map_option (\<lambda>n. n - length (stage_folders tx p)) fault"
  let ?claims = "map Claim_folder (map fst ?ms)"
  let ?r2 = "run_steps tx ?f1 ?claims (fst ?r1)"
  let ?f2 = "map_option (\<lambda>n. n - length ?claims) ?f1"
  let ?pub = "map (\<lambda>m. Publish_folder (fst m) (snd m)) ?ms"
  have one: "claims_only tx ?T f (im_folders (fst ?r1))"
    by (rule stage_claims_only [OF _ assms]) (auto simp: stage_folders_def dest: folders_staged, auto simp: staged_def
        staged_package_def staged_skill_def staging_path_def)
  have two: "claims_only tx ?T f (im_folders (fst ?r2))"
    by (rule stage_claims_only [OF _ one]) (auto dest: moves_staged)
  have three: "claims_only tx ?T f (im_folders (fst (run_steps tx ?f2 ?pub (fst ?r2))))" if "snd ?r2 = None"
  proof (rule publish_claims_only [OF _ two])
    have "?r2 = (fst ?r2, None)" using that by (metis prod.collapse)
    from claims_done [OF this, of "{}"]
    show "all_claimed tx (fst ` set ?ms) (im_folders (fst ?r2))" by (simp add: all_claimed_def)
  qed (auto dest: moves_staged)
  show ?thesis
    unfolding stage_steps_eq map_map [symmetric] run_steps_append
    using one two three by (auto split: prod.splits option.splits)
qed


lemma claims_only_refl: "claims_only tx targets f f"
  by (simp add: claims_only_def)

lemma remove_owned_get: "map_of (remove_owned_tree (staging_path tx) f) q = (if staged tx q then None else map_of f q)"
proof -
  have "length (staging_path tx) = 3" by (simp add: staging_path_def)
  then show ?thesis unfolding remove_owned_tree_def staged_def by (induction f) auto
qed

lemma cleanup_claimed_get:
  "map_of (cleanup_claimed_asset p tx True f) q =
     (if q = p \<and> (\<exists>files. map_of f q = Some files \<and> claimed tx files) then None else map_of f q)"
  by (auto simp: cleanup_claimed_asset_def claimed_def dict_get_pop split: option.splits)

lemma cleanup_claims_get:
  "map_of (fold (\<lambda>p. cleanup_claimed_asset p tx True) ps f) q =
     (if q \<in> set ps \<and> (\<exists>files. map_of f q = Some files \<and> claimed tx files) then None else map_of f q)"
proof (induction ps arbitrary: f)
  case (Cons p ps)
  show ?case by (simp add: Cons.IH cleanup_claimed_get) blast
qed simp

text \<open>A repository no folder of which belongs to the transaction.\<close>

definition unclaimed :: "string \<Rightarrow> (path, folder) dict \<Rightarrow> bool" where
  "unclaimed tx f \<longleftrightarrow> (\<forall>q files. map_of f q = Some files \<longrightarrow> \<not> staged tx q \<and> \<not> claimed tx files)"

lemma cleanup_restores_folders:
  assumes un: "unclaimed tx f" and co: "claims_only tx (set ps) f f'"
  shows "map_of (remove_owned_tree (staging_path tx) (fold (\<lambda>p. cleanup_claimed_asset p tx True) ps f')) q = map_of f q"
proof (cases "staged tx q")
  case True
  then have "map_of f q = None" using un by (cases "map_of f q") (auto simp: unclaimed_def)
  with True show ?thesis by (simp add: remove_owned_get)
next
  case False
  with co consider "map_of f' q = map_of f q"
    | "q \<in> set ps" "map_of f q = None" "\<exists>files. map_of f' q = Some files \<and> claimed tx files"
    by (auto simp: claims_only_def)
  then show ?thesis
  proof cases
    case 1
    moreover have "\<not> (\<exists>files. map_of f q = Some files \<and> claimed tx files)" using un by (auto simp: unclaimed_def)
    ultimately show ?thesis using False by (auto simp: remove_owned_get cleanup_claims_get)
  qed (use False in \<open>simp add: remove_owned_get cleanup_claims_get\<close>)
qed

section \<open>Configuration files\<close>

text \<open>
  An import that passed its checks: the repository is in order, the identities of the imported
  entities are new, and the configuration with them passes the snapshot check.
\<close>

definition import_ready ::
  "'f yaml_library \<Rightarrow> to_text \<Rightarrow> configuration_entity list \<Rightarrow> (string, json) dict \<Rightarrow> 'f config_repository \<Rightarrow> bool" where
  "import_ready lib tx es candidate rp \<longleftrightarrow>
     text_law tx \<and> stored lib tx rp \<and> (\<forall>e \<in> set es. proper_entity e \<and> is_configuration_id (ce_id e)) \<and>
     ce_id ` set (iter_configuration_entities tx (rp_config rp)) \<inter> ce_id ` set es = {} \<and>
     append_imported_records es (rp_config rp) = Inr candidate \<and> checked tx candidate"

lemma entity_ids:
  assumes "text_law tx" and "checked tx config"
  shows "ce_id ` set (iter_configuration_entities tx config) = record_id ` set (all_records config)"
proof -
  let ?es = "iter_configuration_entities tx config"
  have recs: "set (all_records config) = ce_payload ` set ?es"
    using mset_eq_setD [OF entity_records [of tx config]] by simp
  have "ce_id e = record_id (ce_payload e)" if "e \<in> set ?es" for e
  proof -
    have w: "with_id (ce_payload e)" using checked_records(1) [OF assms(2)] recs that by blast
    have "ce_id e = text_field tx ''id'' (ce_payload e)"
      using that by (auto simp: iter_configuration_entities_def entity_of_def split: json.splits)
    then show ?thesis using w assms(1) by (simp add: text_field_def with_id_def text_law_def)
  qed
  then show ?thesis unfolding recs image_image by (intro image_cong) auto
qed

lemma fresh_file:
  assumes law: "text_law tx" and st: "stored lib tx rp" and q: "managed_path q"
    and stem: "stem_of q \<notin> ce_id ` set (iter_configuration_entities tx (rp_config rp))"
  shows "read_file (rp_store rp) q = None"
proof -
  have ok: "checked tx (rp_config rp)" using st by (simp add: stored_def)
  have "stem_of ` fst ` set (config_documents tx (rp_config rp)) = record_id ` set (all_records (rp_config rp))"
    using mset_eq_setD [OF documents_stems [OF law ok]] by (simp add: image_image comp_def)
  also have "\<dots> = ce_id ` set (iter_configuration_entities tx (rp_config rp))"
    using entity_ids [OF law ok] by simp
  finally have "map_of (config_documents tx (rp_config rp)) q = None"
    using stem by (auto simp: map_of_eq_None_iff)
  with st q show ?thesis by (simp add: stored_def exact_def)
qed

text \<open>The files of the imported entities are new, and all the others keep their document.\<close>

lemma import_documents:
  assumes "import_ready lib tx es candidate rp"
  shows "\<exists>D. set (config_documents tx candidate) = set (config_documents tx (rp_config rp)) \<union> D \<and>
      fst ` D = entity_file ` set es"
    and "e \<in> set es \<Longrightarrow> read_file (rp_store rp) (entity_file e) = None"
proof -
  note r = assms [unfolded import_ready_def]
  have "ce_id e \<noteq> []" if "e \<in> set es" for e using r that empty_not_id by metis
  with r append_records_documents [of tx es "rp_config rp" candidate]
  show "\<exists>D. set (config_documents tx candidate) = set (config_documents tx (rp_config rp)) \<union> D \<and>
      fst ` D = entity_file ` set es" by auto
  assume e: "e \<in> set es"
  have "stem_of (entity_file e) = ce_id e" by (simp add: entity_file_def)
  with r e show "read_file (rp_store rp) (entity_file e) = None"
    by (intro fresh_file [of tx lib]) (auto simp: managed_entity_file)
qed

lemma import_flush_op:
  assumes ready: "import_ready lib tx es candidate rp" and op: "op \<in> set (flush_ops lib tx candidate (rp_store rp))"
  shows "(\<exists>d. op = Make_dir d) \<or> (\<exists>p d. (p, d) \<in> set (config_documents tx candidate) \<and> op = Write_file p (yaml_dump lib d))"
proof -
  have "\<not> (managed_path p \<and> p \<notin> fst ` set (config_documents tx candidate))" if "p \<in> set (map fst (cs_files (rp_store rp)))" for p
  proof
    assume p: "managed_path p \<and> p \<notin> fst ` set (config_documents tx candidate)"
    have "read_file (rp_store rp) p \<noteq> None" using that by (auto simp: read_file_def map_of_eq_None_iff)
    then have "p \<in> fst ` set (config_documents tx (rp_config rp))"
      using ready p by (auto simp: import_ready_def stored_def exact_def map_of_eq_None_iff) (metis map_of_eq_None_iff option.distinct(1))
    with import_documents(1) [OF ready] p show False by blast
  qed
  then have none: "filter (\<lambda>p. managed_path p \<and> p \<notin> fst ` set (config_documents tx candidate))
      (map fst (cs_files (rp_store rp))) = []" by (simp only: filter_empty_conv) blast
  show ?thesis using op unfolding flush_ops_def Let_def none by auto
qed


lemma import_partial_read:
  assumes ready: "import_ready lib tx es candidate rp" and p: "p \<notin> entity_file ` set es"
  shows "read_file (apply_ops (take n (flush_ops lib tx candidate (rp_store rp))) (rp_store rp)) p = read_file (rp_store rp) p"
proof -
  note r = ready [unfolded import_ready_def stored_def exact_def]
  have written: "Some (yaml_dump lib d) = read_file (rp_store rp) p" if d: "(p, d) \<in> set (config_documents tx candidate)" for d
  proof -
    have "(p, d) \<in> set (config_documents tx (rp_config rp))"
      using import_documents(1) [OF ready] d p by force
    moreover have "distinct (map fst (config_documents tx (rp_config rp)))" using documents_distinct r by blast
    ultimately have "map_of (config_documents tx (rp_config rp)) p = Some d" by simp
    moreover have "managed_path p" by (rule documents_managed [OF d])
    ultimately show ?thesis using r by simp
  qed
  have main: "read_file (apply_ops ops st) p = read_file (rp_store rp) p"
    if "set ops \<subseteq> set (flush_ops lib tx candidate (rp_store rp))" "read_file st p = read_file (rp_store rp) p" for ops st
    using that
  proof (induction ops arbitrary: st)
    case (Cons op ops)
    have "read_file (apply_op op st) p = read_file (rp_store rp) p"
    proof (cases "op_path op = Some p")
      case True
      then obtain d where "(p, d) \<in> set (config_documents tx candidate)" "op = Write_file p (yaml_dump lib d)"
        using import_flush_op [OF ready, of op] Cons.prems(1) by (auto simp: op_path_def)
      with written show ?thesis by (simp add: read_file_def dict_get_set)
    next
      case False
      with Cons.prems(2) show ?thesis by (simp add: read_other)
    qed
    with Cons.IH [of "apply_op op st"] Cons.prems(1) show ?case by (simp add: apply_ops_def)
  qed (simp add: apply_ops_def)
  show ?thesis by (rule main) (rule set_take_subset, rule refl)
qed

lemma unlinks_read: "read_file (apply_ops (map Unlink_file ps) st) q = (if q \<in> set ps then None else read_file st q)"
  by (simp add: apply_unlinks st_files.read_unlinks)

definition journal_record_of :: "configuration_entity \<Rightarrow> journal_record" where
  "journal_record_of e = \<lparr>jr_kind = ce_kind e, jr_target_id = ce_id e,
     jr_component_type = (if ce_component_type e = [] then None else Some (ce_component_type e))\<rparr>"

lemma journal_records: "ij_records (prepared_journal tx p) = map journal_record_of (pi_entities p)"
  by (simp add: prepared_journal_def journal_record_of_def)

lemma journal_file:
  "proper_entity e \<Longrightarrow> configuration_path (journal_record_of e) =
     (if ce_kind e = Mcp_tool then [''workflows'', ce_id e @ yaml_suffix] else entity_file e)"
  by (cases "ce_kind e")
    (auto simp: configuration_path_def journal_record_of_def entity_file_def entity_dir_def proper_entity_def Let_def)

lemma run_steps_late: "length ss \<le> k \<Longrightarrow> run_steps tx (Some k) ss d = run_steps tx None ss d"
  by (induction ss arbitrary: k d) (auto split: sum.splits)

lemma run_steps_repository: "im_repository (fst (run_steps tx fault ss d)) = im_repository d"
proof (rule run_steps_inv [where P = "\<lambda>d'. im_repository d' = im_repository d"])
  fix s and d1 d' :: "'a import_disk"
  assume "im_repository d1 = im_repository d" "import_step_on tx s d1 = Inr d'"
  then show "im_repository d' = im_repository d"
    by (cases s) (auto simp: import_step_on_def res_Inr split: if_splits option.splits)
qed simp

section \<open>Recovery\<close>

lemma crashed_folders:
  assumes "im_folders d = f"
  shows "claims_only tx (snd ` set (import_moves tx p)) f (im_folders (crashed_import lib txt tx candidate p k d))"
proof -
  let ?j = "prepared_journal tx p"
  have step: "im_folders (fst (run_steps tx fault (Write_journal ?j # ss) d)) =
      im_folders (if fault = Some 0 then d else fst (run_steps tx (map_option (\<lambda>n. n - 1) fault) ss
        (d\<lparr>im_journals := AList.update tx ?j (im_journals d)\<rparr>)))" for fault ss
    by (simp add: import_step_on_def prepared_journal_def)
  have start: "claims_only tx (snd ` set (import_moves tx p)) f (im_folders d)"
    "claims_only tx (snd ` set (import_moves tx p)) f
      (im_folders (d\<lparr>im_journals := AList.update tx ?j (im_journals d)\<rparr>))"
    using assms claims_only_refl by simp_all
  have "claims_only tx (snd ` set (import_moves tx p)) f
      (im_folders (fst (run_steps tx (Some k) (Write_journal ?j # stage_steps tx p) d)))"
    unfolding step using start(1) stage_steps_claims_only [OF start(2)] by simp
  then show ?thesis by (simp add: crashed_import_def Let_def map_store_def)
qed

lemma stage_no_journal: "s \<in> set (stage_steps tx p) \<Longrightarrow> s \<noteq> Write_journal j"
  by (auto simp: stage_steps_def)

text \<open>Until the second journal is written, a crash leaves the first one and a part of the flush.\<close>

lemma crashed_state:
  fixes d :: "'f import_disk"
  assumes "0 < k" and "k \<le> Suc (length (stage_steps tx p)) + length (flush_ops lib txt candidate (rp_store (im_repository d)))"
    and "im_journals d = []"
  shows "im_journals (crashed_import lib txt tx candidate p k d) = [(tx, prepared_journal tx p)]"
    and "\<exists>n. rp_store (im_repository (crashed_import lib txt tx candidate p k d)) =
      apply_ops (take n (flush_ops lib txt candidate (rp_store (im_repository d)))) (rp_store (im_repository d))"
proof -
  let ?j = "prepared_journal tx p"
  let ?r = "run_steps tx (Some k) (Write_journal ?j # stage_steps tx p) d"
  let ?d1 = "d\<lparr>im_journals := AList.update tx ?j (im_journals d)\<rparr>"
  have r: "?r = run_steps tx (Some (k - 1)) (stage_steps tx p) ?d1"
    using assms(1) by (simp add: import_step_on_def prepared_journal_def)
  have rest: "im_repository (fst ?r) = im_repository d" "im_journals (fst ?r) = [(tx, ?j)]"
    unfolding r using run_steps_rest [of "stage_steps tx p" tx "Some (k - 1)" ?d1] stage_no_journal assms(3) by auto
  have n: "k - length (Write_journal ?j # stage_steps tx p) \<le> length (flush_ops lib txt candidate (rp_store (im_repository d)))"
    using assms(2) by simp
  show "im_journals (crashed_import lib txt tx candidate p k d) = [(tx, ?j)]"
    unfolding crashed_import_def Let_def using n rest by (simp only: map_store_def if_True) simp
  show "\<exists>n. rp_store (im_repository (crashed_import lib txt tx candidate p k d)) =
      apply_ops (take n (flush_ops lib txt candidate (rp_store (im_repository d)))) (rp_store (im_repository d))"
  proof (cases "snd ?r = None")
    case True
    then show ?thesis
      unfolding crashed_import_def Let_def using n rest
      by (intro exI [of _ "k - length (Write_journal ?j # stage_steps tx p)"]) (simp only: map_store_def, simp)
  next
    case False
    then show ?thesis
      unfolding crashed_import_def Let_def using rest by (intro exI [of _ 0]) (simp add: apply_ops_def)
  qed
qed

lemma recover_single:
  "im_journals d = [(tx, prepared_journal tx p)] \<Longrightarrow>
     recover_configuration_imports d = Inr (cleanup_import_journal (prepared_journal tx p) d)"
  by (simp add: recover_configuration_imports_def sort_by_def prepared_journal_def)

lemma cleanup_prepared:
  fixes d :: "'f import_disk"
  shows "read_file (rp_store (im_repository (cleanup_import_journal (prepared_journal tx p) d))) q =
      (if q \<in> configuration_path ` journal_record_of ` set (pi_entities p) then None
       else read_file (rp_store (im_repository d)) q)"
    "im_folders (cleanup_import_journal (prepared_journal tx p) d) =
      remove_owned_tree (staging_path tx)
        (fold (\<lambda>q. cleanup_claimed_asset q tx True) (map snd (import_moves tx p)) (im_folders d))"
    "im_journals (cleanup_import_journal (prepared_journal tx p) d) = AList.delete tx (im_journals d)"
proof -
  have j: "ij_transaction_id (prepared_journal tx p) = tx" "ij_state (prepared_journal tx p) = Prepared"
    by (simp_all add: prepared_journal_def)
  have paths: "map (\<lambda>r. Unlink_file (configuration_path r)) (ij_records (prepared_journal tx p)) =
      map Unlink_file (map (configuration_path \<circ> journal_record_of) (pi_entities p))"
    by (simp add: journal_records)
  show "read_file (rp_store (im_repository (cleanup_import_journal (prepared_journal tx p) d))) q =
      (if q \<in> configuration_path ` journal_record_of ` set (pi_entities p) then None
       else read_file (rp_store (im_repository d)) q)"
    unfolding cleanup_import_journal_def Let_def j paths
    by (simp add: map_store_def unlinks_read image_image del: map_map)
  show "im_folders (cleanup_import_journal (prepared_journal tx p) d) =
      remove_owned_tree (staging_path tx)
        (fold (\<lambda>q. cleanup_claimed_asset q tx True) (map snd (import_moves tx p)) (im_folders d))"
    "im_journals (cleanup_import_journal (prepared_journal tx p) d) = AList.delete tx (im_journals d)"
    unfolding cleanup_import_journal_def Let_def j journal_asset_moves by (simp_all add: map_store_def)
qed


text \<open>
  C35: an import that is cut off at any point before its second journal - while it stages, claims
  and moves its package folders, or in the middle of the flush of the configuration - is undone
  completely by the recovery at the next start: every file of the repository reads as before the
  import, every package folder is as it was, and no journal is left.  This holds for imports
  without MCP Tools.
\<close>

theorem crash_recovery_restores:
  fixes d :: "'f import_disk"
  assumes ready: "import_ready lib txt (pi_entities p) candidate (im_repository d)"
    and clean: "unclaimed tx (im_folders d)" "im_journals d = []"
    and mcp: "\<forall>e \<in> set (pi_entities p). ce_kind e \<noteq> Mcp_tool"
    and k: "k \<le> Suc (length (stage_steps tx p)) + length (flush_ops lib txt candidate (rp_store (im_repository d)))"
  shows "\<exists>d'. recover_configuration_imports (crashed_import lib txt tx candidate p k d) = Inr d' \<and>
    (\<forall>q. read_file (rp_store (im_repository d')) q = read_file (rp_store (im_repository d)) q) \<and>
    (\<forall>q. map_of (im_folders d') q = map_of (im_folders d) q) \<and> im_journals d' = []"
proof (cases "k = 0")
  case True
  then show ?thesis
    using clean(2) by (simp add: crashed_import_def map_store_def recover_configuration_imports_def sort_by_def)
next
  case False
  let ?c = "crashed_import lib txt tx candidate p k d"
  let ?d = "cleanup_import_journal (prepared_journal tx p) ?c"
  have journals: "im_journals ?c = [(tx, prepared_journal tx p)]"
    using crashed_state(1) [OF _ k clean(2)] False by simp
  obtain n where n: "rp_store (im_repository ?c) =
      apply_ops (take n (flush_ops lib txt candidate (rp_store (im_repository d)))) (rp_store (im_repository d))"
    using crashed_state(2) [OF _ k clean(2)] False by auto
  have files: "configuration_path ` journal_record_of ` set (pi_entities p) = entity_file ` set (pi_entities p)"
    using ready mcp journal_file by (auto simp: import_ready_def image_image intro!: image_cong)
  have "read_file (rp_store (im_repository ?d)) q = read_file (rp_store (im_repository d)) q" for q
  proof (cases "q \<in> entity_file ` set (pi_entities p)")
    case True
    then show ?thesis using import_documents(2) [OF ready] by (auto simp: cleanup_prepared files)
  next
    case False
    then show ?thesis unfolding cleanup_prepared files n using import_partial_read [OF ready] by simp
  qed
  moreover have "map_of (im_folders ?d) q = map_of (im_folders d) q" for q
    unfolding cleanup_prepared
    by (rule cleanup_restores_folders [OF clean(1)]) (use crashed_folders [OF refl] in simp)
  moreover have "im_journals ?d = []" by (simp add: cleanup_prepared journals)
  ultimately show ?thesis using recover_single [OF journals] by blast
qed

text \<open>
  C36: with an MCP Tool this fails.  When the process dies after the configuration was written and
  before the second journal, the recovery looks for the tool under \<open>workflows\<close>, where it never is:
  its file stays in \<open>mcp_tools\<close> and the tool is part of the configuration at the next start.
\<close>

theorem crash_recovery_leaves_mcp_tool:
  fixes d :: "'f import_disk"
  assumes ready: "import_ready lib txt (pi_entities p) candidate (im_repository d)"
    and clean: "im_journals d = []"
    and e: "e \<in> set (pi_entities p)" "ce_kind e = Mcp_tool"
    and steps: "snd (run_steps tx None (Write_journal (prepared_journal tx p) # stage_steps tx p) d) = None"
    and k: "k = Suc (length (stage_steps tx p)) + length (flush_ops lib txt candidate (rp_store (im_repository d)))"
  shows "\<exists>d'. recover_configuration_imports (crashed_import lib txt tx candidate p k d) = Inr d' \<and>
    read_file (rp_store (im_repository d)) [''mcp_tools'', ce_id e @ yaml_suffix] = None \<and>
    read_file (rp_store (im_repository d')) [''mcp_tools'', ce_id e @ yaml_suffix] \<noteq> None"
proof -
  let ?c = "crashed_import lib txt tx candidate p k d"
  let ?st = "rp_store (im_repository d)"
  let ?fp = "[''mcp_tools'', ce_id e @ yaml_suffix]"
  let ?steps = "Write_journal (prepared_journal tx p) # stage_steps tx p"
  have place: "entity_file e = ?fp" using e(2) by (simp add: entity_file_def entity_dir_def)
  have journals: "im_journals ?c = [(tx, prepared_journal tx p)]"
    using crashed_state(1) [OF _ _ clean, of k tx p lib "txt" candidate] k by simp
  have run: "run_steps tx (Some k) ?steps d = run_steps tx None ?steps d"
    by (rule run_steps_late) (simp add: k)
  have repo: "im_repository (fst (run_steps tx (Some k) ?steps d)) = im_repository d"
    by (rule run_steps_repository)
  have "rp_store (im_repository ?c) = flush_until lib txt None candidate ?st"
    using steps repo run unfolding crashed_import_def Let_def k
    by (simp only: map_store_def flush_until_def) (simp add: Let_def)
  moreover have "map_of (config_documents txt candidate) ?fp \<noteq> None"
  proof -
    obtain D where D: "set (config_documents txt candidate) = set (config_documents txt (rp_config (im_repository d))) \<union> D"
      "fst ` D = entity_file ` set (pi_entities p)" using import_documents(1) [OF ready] by blast
    have "?fp \<in> fst ` D" unfolding D(2) using e(1) place by (metis image_eqI)
    then show ?thesis unfolding map_of_eq_None_iff D(1) by blast
  qed
  ultimately have "read_file (rp_store (im_repository ?c)) ?fp \<noteq> None"
    using ready flush_until_read [of "txt" candidate lib ?st ?fp] managed_entity_file [of e]
    by (simp add: import_ready_def place)
  moreover have "?fp \<notin> configuration_path ` journal_record_of ` set (pi_entities p)"
    by (auto simp: configuration_path_def Let_def split: entity_kind.splits)
  ultimately have "read_file (rp_store (im_repository (cleanup_import_journal (prepared_journal tx p) ?c))) ?fp \<noteq> None"
    by (simp add: cleanup_prepared)
  moreover have "read_file ?st ?fp = None" using import_documents(2) [OF ready e(1)] place by simp
  ultimately show ?thesis using recover_single [OF journals] by blast
qed

end
