(* ===== verification/Import_Commit.thy ===== *)
theory Import_Commit
  imports Import_Recovery
begin

text \<open>
  Imports that run to their end in the process: a commit either fails and changes nothing, or
  succeeds and leaves the new configuration with its package folders in place.
\<close>

section \<open>Published folders\<close>

lemma publish_done:
  assumes "run_steps tx fault (map (\<lambda>m. Publish_folder (fst m) (snd m)) ms) d = (d', None)"
    and "\<forall>m \<in> set ms. staged tx (fst m) \<and> \<not> staged tx (snd m)"
    and "\<forall>q \<in> Q. \<not> staged tx q \<and> map_of (im_folders d) q \<noteq> None"
  shows "\<forall>q \<in> snd ` set ms \<union> Q. map_of (im_folders d') q \<noteq> None"
  using assms
proof (induction ms arbitrary: fault d Q)
  case (Cons m ms)
  obtain d1 where d1: "import_step_on tx (Publish_folder (fst m) (snd m)) d = Inr d1"
    using Cons.prems(1) by (cases "import_step_on tx (Publish_folder (fst m) (snd m)) d") (auto split: if_splits)
  then have rest: "run_steps tx (map_option (\<lambda>n. n - 1) fault) (map (\<lambda>m. Publish_folder (fst m) (snd m)) ms) d1 = (d', None)"
    using Cons.prems(1) by (simp split: if_splits)
  obtain files where files: "im_folders d1 = AList.update (snd m) files (AList.delete (fst m) (im_folders d))"
    using d1 by (auto simp: import_step_on_def split: if_splits option.splits)
  have "\<forall>q \<in> insert (snd m) Q. \<not> staged tx q \<and> map_of (im_folders d1) q \<noteq> None"
    using Cons.prems(2,3) by (auto simp: files dict_get_set dict_get_pop)
  from Cons.IH [OF rest _ this] Cons.prems(2) show ?case by simp
qed simp

lemma publish_absent:
  assumes "run_steps tx fault (map (\<lambda>m. Publish_folder (fst m) (snd m)) ms) d = (d', None)"
    and "\<forall>m \<in> set ms. staged tx (fst m) \<and> \<not> staged tx (snd m)" and "\<not> staged tx q" and "q \<in> snd ` set ms"
  shows "map_of (im_folders d) q = None"
  using assms
proof (induction ms arbitrary: fault d)
  case (Cons m ms)
  obtain d1 where d1: "import_step_on tx (Publish_folder (fst m) (snd m)) d = Inr d1"
    using Cons.prems(1) by (cases "import_step_on tx (Publish_folder (fst m) (snd m)) d") (auto split: if_splits)
  then have rest: "run_steps tx (map_option (\<lambda>n. n - 1) fault) (map (\<lambda>m. Publish_folder (fst m) (snd m)) ms) d1 = (d', None)"
    using Cons.prems(1) by (simp split: if_splits)
  obtain files where files: "map_of (im_folders d) (snd m) = None"
      "im_folders d1 = AList.update (snd m) files (AList.delete (fst m) (im_folders d))"
    using d1 by (auto simp: import_step_on_def split: if_splits option.splits)
  show ?case
  proof (cases "q = snd m")
    case False
    with Cons.prems(4) have "q \<in> snd ` set ms" by auto
    with Cons.IH [OF rest] Cons.prems(2,3) have "map_of (im_folders d1) q = None" by simp
    moreover have "q \<noteq> fst m" using Cons.prems(2,3) by auto
    ultimately show ?thesis using False by (simp add: files dict_get_set dict_get_pop)
  qed (use files in simp)
qed simp

lemma run_steps_split:
  assumes "run_steps tx fault (xs @ ys) d = (d', None)"
  obtains d1 where "run_steps tx fault xs d = (d1, None)"
    "run_steps tx (map_option (\<lambda>n. n - length xs) fault) ys d1 = (d', None)"
  using assms unfolding run_steps_append by (auto split: prod.splits option.splits)

text \<open>After all steps, each target holds a folder of the transaction, and none was there before.\<close>

lemma stage_steps_done:
  assumes run: "run_steps tx fault (stage_steps tx p) d = (d', None)" and q: "q \<in> snd ` set (import_moves tx p)"
  shows "map_of (im_folders d) q = None \<and> (\<exists>files. map_of (im_folders d') q = Some files \<and> claimed tx files)"
proof -
  let ?T = "snd ` set (import_moves tx p)"
  have unstaged: "\<not> staged tx q" using q moves_staged by auto
  have ms: "\<forall>m \<in> set (import_moves tx p). staged tx (fst m) \<and> \<not> staged tx (snd m)" using moves_staged by blast
  obtain d2 fault2 where d2: "run_steps tx fault2 (map (\<lambda>m. Publish_folder (fst m) (snd m)) (import_moves tx p)) d2 = (d', None)"
    "run_steps tx fault (stage_folders tx p @ map (Claim_folder \<circ> fst) (import_moves tx p)) d = (d2, None)"
    using run unfolding stage_steps_eq append_assoc [symmetric] by (rule run_steps_split) blast
  have "claims_only tx {} (im_folders d) (im_folders (fst (run_steps tx fault
      (stage_folders tx p @ map (Claim_folder \<circ> fst) (import_moves tx p)) d)))"
    by (rule stage_claims_only [OF _ claims_only_refl])
      (auto simp: stage_folders_def staged_def staged_package_def staged_skill_def staging_path_def
        dest: moves_staged [unfolded staged_def staging_path_def])
  then have same: "map_of (im_folders d2) q = map_of (im_folders d) q"
    using unstaged by (simp add: d2(2) claims_only_def)
  have absent: "map_of (im_folders d) q = None"
    using publish_absent [OF d2(1) ms unstaged q] same by simp
  have "map_of (im_folders d') q \<noteq> None" using publish_done [OF d2(1) ms, of "{}"] q by blast
  moreover have "claims_only tx ?T (im_folders d) (im_folders d')"
    using stage_steps_claims_only [OF claims_only_refl, of tx p d fault] run by simp
  ultimately show ?thesis using absent unstaged by (auto simp: claims_only_def)
qed

lemma cleanup_committed_get:
  "map_of (fold (\<lambda>p. cleanup_claimed_asset p tx False) ps f) q =
     (case map_of f q of
        Some files \<Rightarrow> Some (if q \<in> set ps \<and> claimed tx files then AList.delete (asset_claim tx) files else files)
      | None \<Rightarrow> None)"
proof (induction ps arbitrary: f)
  case (Cons p ps)
  have one: "map_of (cleanup_claimed_asset p tx False f) q =
      (case map_of f q of
         Some files \<Rightarrow> Some (if q = p \<and> claimed tx files then AList.delete (asset_claim tx) files else files)
       | None \<Rightarrow> None)"
    by (auto simp: cleanup_claimed_asset_def claimed_def dict_get_set split: option.splits)
  show ?case
    by (simp add: Cons.IH one split: option.splits) (auto simp: claimed_def dict_get_pop)
qed (simp split: option.splits)


section \<open>The commit\<close>

lemma journal_file_fresh:
  assumes law: "text_law tx" and st: "stored lib tx rp" and e: "e \<in> set es"
    and ids: "ce_id ` set (iter_configuration_entities tx (rp_config rp)) \<inter> ce_id ` set es = {}"
  shows "read_file (rp_store rp) (configuration_path (journal_record_of e)) = None"
proof (rule fresh_file [OF law st])
  have s: "stem_of [a, i @ yaml_suffix] = i" "stem_of [a, b, i @ yaml_suffix] = i" for a b i
    by (simp_all add: stem_of_def)
  have "stem_of (configuration_path (journal_record_of e)) = ce_id e"
    by (simp add: configuration_path_def journal_record_of_def Let_def s split: entity_kind.splits)
  with ids e show "stem_of (configuration_path (journal_record_of e)) \<notin> ce_id ` set (iter_configuration_entities tx (rp_config rp))"
    by auto
  show "managed_path (configuration_path (journal_record_of e))"
    by (simp add: configuration_path_def managed_path_def managed_roots_def Let_def split: entity_kind.splits)
qed

definition same_disk :: "'f import_disk \<Rightarrow> 'f import_disk \<Rightarrow> bool" where
  "same_disk d d' \<longleftrightarrow>
     rp_config (im_repository d') = rp_config (im_repository d) \<and>
     (\<forall>q. read_file (rp_store (im_repository d')) q = read_file (rp_store (im_repository d)) q) \<and>
     (\<forall>q. map_of (im_folders d') q = map_of (im_folders d) q) \<and>
     (\<forall>t. map_of (im_journals d') t = map_of (im_journals d) t)"

lemma cleanup_undoes:
  fixes d :: "'f import_disk"
  assumes law: "text_law txt" and st: "stored lib txt (im_repository d)" and un: "unclaimed tx (im_folders d)"
    and ids: "ce_id ` set (iter_configuration_entities txt (rp_config (im_repository d))) \<inter> ce_id ` set (pi_entities p) = {}"
    and j: "map_of (im_journals d) tx = None"
    and conf: "rp_config (im_repository d2) = rp_config (im_repository d)"
      "read_file (rp_store (im_repository d2)) = read_file (rp_store (im_repository d))"
    and folders: "claims_only tx (snd ` set (import_moves tx p)) (im_folders d) (im_folders d2)"
    and journals: "im_journals d2 = AList.update tx (prepared_journal tx p) (im_journals d)"
  shows "same_disk d (cleanup_import_journal (prepared_journal tx p) d2)"
proof -
  let ?d = "cleanup_import_journal (prepared_journal tx p) d2"
  have "read_file (rp_store (im_repository ?d)) q = read_file (rp_store (im_repository d)) q" for q
    using journal_file_fresh [OF law st _ ids] by (auto simp: cleanup_prepared conf)
  moreover have "map_of (im_folders ?d) q = map_of (im_folders d) q" for q
    unfolding cleanup_prepared by (rule cleanup_restores_folders [OF un]) (use folders in simp)
  moreover have "map_of (im_journals ?d) t = map_of (im_journals d) t" for t
    using j by (auto simp: cleanup_prepared journals dict_get_pop dict_get_set)
  moreover have "rp_config (im_repository ?d) = rp_config (im_repository d)"
    by (simp add: cleanup_import_journal_def Let_def map_store_def conf)
  ultimately show ?thesis by (simp add: same_disk_def)
qed

definition import_applied ::
  "'f yaml_library \<Rightarrow> to_text \<Rightarrow> string \<Rightarrow> prepared_import \<Rightarrow> 'f import_disk \<Rightarrow> 'f import_disk \<Rightarrow> bool" where
  "import_applied lib txt tx p d d' \<longleftrightarrow>
     stored lib txt (im_repository d') \<and>
     (\<exists>changed. append_imported_records (pi_entities p) (rp_config (im_repository d)) = Inr changed \<and>
        normalize_config changed = Inr (rp_config (im_repository d'))) \<and>
     (\<forall>q \<in> snd ` set (import_moves tx p). map_of (im_folders d) q = None \<and>
        (\<exists>files. map_of (im_folders d') q = Some files \<and> \<not> claimed tx files)) \<and>
     (\<forall>q. q \<notin> snd ` set (import_moves tx p) \<longrightarrow> map_of (im_folders d') q = map_of (im_folders d) q) \<and>
     (\<forall>t. map_of (im_journals d') t = map_of (im_journals d) t)"

lemma cleanup_applies:
  fixes d d3 :: "'f import_disk"
  assumes un: "unclaimed tx (im_folders d)" and j: "map_of (im_journals d) tx = None"
    and moved: "\<forall>q \<in> snd ` set (import_moves tx p). map_of (im_folders d) q = None \<and>
        (\<exists>files. map_of (im_folders d3) q = Some files \<and> claimed tx files)"
    and folders: "claims_only tx (snd ` set (import_moves tx p)) (im_folders d) (im_folders d3)"
    and journals: "im_journals d3 = AList.update tx j1 (AList.update tx j2 (im_journals d))"
    and conf: "stored lib txt (im_repository d3)"
      "append_imported_records (pi_entities p) (rp_config (im_repository d)) = Inr changed"
      "normalize_config changed = Inr (rp_config (im_repository d3))"
  shows "import_applied lib txt tx p d (cleanup_import_journal ((prepared_journal tx p)\<lparr>ij_state := Committed\<rparr>) d3)"
proof -
  let ?j = "(prepared_journal tx p)\<lparr>ij_state := Committed\<rparr>" let ?T = "snd ` set (import_moves tx p)"
  let ?d = "cleanup_import_journal ?j d3"
  have parts: "ij_transaction_id ?j = tx" "ij_state ?j = Committed" "journal_asset_paths ?j = map snd (import_moves tx p)"
    using journal_asset_moves [of tx p] by (simp_all add: prepared_journal_def journal_asset_paths_def)
  have d: "im_repository ?d = im_repository d3" "im_journals ?d = AList.delete tx (im_journals d3)"
    "im_folders ?d = remove_owned_tree (staging_path tx)
        (fold (\<lambda>q. cleanup_claimed_asset q tx False) (map snd (import_moves tx p)) (im_folders d3))"
    unfolding cleanup_import_journal_def Let_def parts by simp_all
  have unstaged: "\<not> staged tx q" if "q \<in> ?T" for q using that moves_staged by auto
  have "map_of (im_folders d) q = None \<and> (\<exists>files. map_of (im_folders ?d) q = Some files \<and> \<not> claimed tx files)"
    if q: "q \<in> ?T" for q
  proof -
    obtain files where files: "map_of (im_folders d3) q = Some files" "claimed tx files" "map_of (im_folders d) q = None"
      using moved q by blast
    moreover have "q \<in> set (map snd (import_moves tx p))" using q by simp
    ultimately have "map_of (im_folders ?d) q = Some (AList.delete (asset_claim tx) files)"
      using unstaged [OF q] unfolding d remove_owned_get cleanup_committed_get by (simp only: option.case if_True simp_thms if_False)
    with files(3) show ?thesis by (simp add: claimed_def dict_get_pop)
  qed
  moreover have "map_of (im_folders ?d) q = map_of (im_folders d) q" if q: "q \<notin> ?T" for q
  proof (cases "staged tx q")
    case True
    then have "map_of (im_folders d) q = None" using un by (cases "map_of (im_folders d) q") (auto simp: unclaimed_def)
    with True show ?thesis by (simp add: d remove_owned_get)
  next
    case False
    then have "map_of (im_folders d3) q = map_of (im_folders d) q" using folders q by (auto simp: claims_only_def)
    with False q show ?thesis unfolding d remove_owned_get cleanup_committed_get by (auto split: option.splits)
  qed
  moreover have "map_of (im_journals ?d) t = map_of (im_journals d) t" for t
    using j by (auto simp: d journals dict_get_pop dict_get_set)
  ultimately show ?thesis using conf by (simp add: import_applied_def d)
qed




section \<open>Imports on a small repository\<close>

definition demo_skill :: configuration_entity where
  "demo_skill = \<lparr>ce_id = ''0123abcd-0123-4123-8123-0123456789ab'', ce_kind = Component, ce_name = ''Notes'',
     ce_payload = [(''id'', JStr ''0123abcd-0123-4123-8123-0123456789ab''), (''name'', JStr ''Notes''),
       (''skill_package'', JObj [(''folder'', JStr ''Notes'')])], ce_component_type = ''skill''\<rparr>"

definition demo_mcp_tool :: configuration_entity where
  "demo_mcp_tool = \<lparr>ce_id = ''1123abcd-0123-4123-8123-0123456789ab'', ce_kind = Mcp_tool, ce_name = ''search'',
     ce_payload = [(''id'', JStr ''1123abcd-0123-4123-8123-0123456789ab''), (''name'', JStr ''search''),
       (''enabled'', JBool True)], ce_component_type = []\<rparr>"

definition demo_import :: "configuration_entity list \<Rightarrow> prepared_import" where
  "demo_import es = \<lparr>pi_bundle_sha256 = ''00'', pi_entities = es, pi_packages = [],
     pi_skills = [\<lparr>sk_target_id = ce_id demo_skill, sk_folder = ''Notes'', sk_files = [(''SKILL.md'', ''Take notes.'')]\<rparr>]\<rparr>"

definition demo_disk :: "json import_disk" where
  "demo_disk = \<lparr>im_repository = demo_repository [], im_folders = [([''skill_packages'', ''Other''], [])], im_journals = []\<rparr>"

definition demo_tx :: string where
  "demo_tx = ''2123abcd-0123-4123-8123-0123456789ab''"

definition demo_candidate :: "configuration_entity list \<Rightarrow> (string, json) dict" where
  "demo_candidate es = (case append_imported_records es empty_config of Inr c \<Rightarrow> c | Inl _ \<Rightarrow> [])"

lemma demo_unclaimed: "unclaimed demo_tx (im_folders demo_disk)"
  by (auto simp: unclaimed_def demo_disk_def staged_def staging_path_def imports_directory_def claimed_def)

lemma demo_ready:
  assumes "es = [demo_skill] \<or> es = [demo_skill, demo_mcp_tool]"
  shows "import_ready demo_yaml demo_text es (demo_candidate es) (im_repository demo_disk)"
proof -
  have ok: "checked demo_text (demo_candidate [demo_skill])" "checked demo_text (demo_candidate [demo_skill, demo_mcp_tool])"
    unfolding checked_def by code_simp+
  have app: "append_imported_records [demo_skill] empty_config = Inr (demo_candidate [demo_skill])"
    "append_imported_records [demo_skill, demo_mcp_tool] empty_config = Inr (demo_candidate [demo_skill, demo_mcp_tool])"
    by code_simp+
  have ids: "is_configuration_id (ce_id demo_skill)" "is_configuration_id (ce_id demo_mcp_tool)" by code_simp+
  have proper: "proper_entity demo_skill" "proper_entity demo_mcp_tool"
    by (simp_all add: proper_entity_def demo_skill_def demo_mcp_tool_def)
  have empty: "iter_configuration_entities demo_text empty_config = []" by code_simp
  show ?thesis
    using assms ok app ids proper demo_text_law demo_stored
    by (auto simp: import_ready_def demo_disk_def demo_repository_def empty)
qed

lemma crash_recovery_restores_witness:
  "\<exists>d'. recover_configuration_imports
      (crashed_import demo_yaml demo_text demo_tx (demo_candidate [demo_skill]) (demo_import [demo_skill]) 4 demo_disk) = Inr d' \<and>
    (\<forall>q. map_of (im_folders d') q = map_of (im_folders demo_disk) q) \<and> im_journals d' = []"
proof -
  have ready: "import_ready demo_yaml demo_text (pi_entities (demo_import [demo_skill])) (demo_candidate [demo_skill]) (im_repository demo_disk)"
    using demo_ready by (simp add: demo_import_def)
  have mcp: "\<forall>e \<in> set (pi_entities (demo_import [demo_skill])). ce_kind e \<noteq> Mcp_tool"
    by (simp add: demo_import_def demo_skill_def)
  have steps: "length (stage_steps demo_tx (demo_import [demo_skill])) = 3"
    by (simp add: stage_steps_def demo_import_def)
  have "im_journals demo_disk = []" by (simp add: demo_disk_def)
  from crash_recovery_restores [OF ready demo_unclaimed this mcp, of 4] steps show ?thesis by auto
qed

lemma crash_recovery_leaves_mcp_tool_witness:
  "\<exists>k d'. recover_configuration_imports
      (crashed_import demo_yaml demo_text demo_tx (demo_candidate [demo_skill, demo_mcp_tool])
        (demo_import [demo_skill, demo_mcp_tool]) k demo_disk) = Inr d' \<and>
    read_file (rp_store (im_repository d')) [''mcp_tools'', ce_id demo_mcp_tool @ yaml_suffix] \<noteq> None"
proof -
  let ?p = "demo_import [demo_skill, demo_mcp_tool]"
  have ready: "import_ready demo_yaml demo_text (pi_entities ?p) (demo_candidate [demo_skill, demo_mcp_tool]) (im_repository demo_disk)"
    using demo_ready by (simp add: demo_import_def)
  have clean: "im_journals demo_disk = []" by (simp add: demo_disk_def)
  have e: "demo_mcp_tool \<in> set (pi_entities ?p)" "ce_kind demo_mcp_tool = Mcp_tool"
    by (simp_all add: demo_import_def demo_mcp_tool_def)
  have steps: "snd (run_steps demo_tx None (Write_journal (prepared_journal demo_tx ?p) # stage_steps demo_tx ?p) demo_disk) = None"
    by code_simp
  from crash_recovery_leaves_mcp_tool [OF ready clean e steps refl] show ?thesis by blast
qed

definition no_faults :: import_faults where
  "no_faults = \<lparr>if_step = None, if_flush = None, if_journal = False, if_rollback = None\<rparr>"


end
