(* ===== verification/Bundle_Archive.thy ===== *)
theory Bundle_Archive
  imports Bundle_Planning
begin

text \<open>
  \<open>configuration/bundles/archive.py\<close>: the paths a bundle may use, the digest of a file tree, the
  checks of an archive and of its declared assets, and the files an asset is written to.  Contents
  are byte strings; the ZIP reader, SHA-256 and the JSON form of a manifest are parameters.
\<close>

section \<open>Paths\<close>

definition reserved_stems :: "string list" where
  "reserved_stems =
     [''con'', ''prn'', ''aux'', ''nul''] @
     map (\<lambda>i. ''com'' @ nat_str i) [1..<10] @ map (\<lambda>i. ''lpt'' @ nat_str i) [1..<10]"

definition is_windows_reserved_name :: "string \<Rightarrow> bool" where
  "is_windows_reserved_name v \<longleftrightarrow> casefold (first_part v) \<in> map char_nat ` set reserved_stems"

definition invalid_filename_characters :: string where
  "invalid_filename_characters = [CHR 0x22] @ ''*<>?|''"

text \<open>\<open>PurePosixPath\<close> of a relative path: its segments, and the text it is written as.\<close>

definition posix_parts :: "string \<Rightarrow> string list" where
  "posix_parts s = filter (\<lambda>p. p \<noteq> [] \<and> p \<noteq> ''.'') (split_on (CHR ''/'') s)"

definition posix_text :: "string \<Rightarrow> string" where
  "posix_text s = (if posix_parts s = [] then ''.'' else join ''/'' (posix_parts s))"

definition segment_error :: "string \<Rightarrow> string option" where
  "segment_error s =
     (if s \<in> {[], ''.'', ''..''} \<or> ends_with '' '' s \<or> ends_with ''.'' s \<or>
         (\<exists>c \<in> set s. char_nat c < 32 \<or> c \<in> set invalid_filename_characters)
      then Some ''bundle paths contain an unsafe segment''
      else if is_windows_reserved_name s then Some ''bundle paths contain a reserved filesystem name''
      else None)"

definition path_error :: bundle_error where
  "path_error = Archive_error ''bundle paths must be normalized relative POSIX paths''"

definition validate_relative_path :: "string \<Rightarrow> bool \<Rightarrow> bundle_error + string" where
  "validate_relative_path v directory =
     (let n = (if directory \<and> ends_with ''/'' v then butlast v else v) in
      if n = [] \<or> CHR 0x5C \<in> set n \<or> CHR 0x00 \<in> set n \<or> CHR '':'' \<in> set n then Inl path_error
      else if hd n = CHR ''/'' \<or> posix_text n \<noteq> n then Inl path_error
      else (case find (\<lambda>s. segment_error s \<noteq> None) (posix_parts n) of
              None \<Rightarrow> Inr v
            | Some s \<Rightarrow> Inl (Archive_error (the (segment_error s)))))"

section \<open>The digest of a tree\<close>

definition be8 :: "nat \<Rightarrow> string" where
  "be8 n = map (\<lambda>i. char_of (n div 256 ^ (7 - i) mod 256)) [0..<8]"

text \<open>UTF-8 of code points below 256.\<close>

definition utf8_char :: "char \<Rightarrow> string" where
  "utf8_char c =
     (let n = char_nat c in if n < 128 then [c] else [char_of (192 + n div 64), char_of (128 + n mod 64)])"

definition utf8 :: "string \<Rightarrow> string" where
  "utf8 s = concat (map utf8_char s)"

definition tree_entry :: "string \<times> string \<Rightarrow> string" where
  "tree_entry f = be8 (length (utf8 (fst f))) @ utf8 (fst f) @ be8 (length (snd f)) @ snd f"

definition tree_bytes :: "(string, string) dict \<Rightarrow> string" where
  "tree_bytes files = concat (map tree_entry (sort_by fst files))"

definition canonical_tree_sha256 :: "(string \<Rightarrow> string) \<Rightarrow> (string, string) dict \<Rightarrow> string" where
  "canonical_tree_sha256 sha files = sha (tree_bytes files)"

section \<open>Folders\<close>

text \<open>Python compares lists of texts at their first difference; a sort by such keys.\<close>

fun insert_tuple :: "('a \<Rightarrow> string list) \<Rightarrow> 'a \<Rightarrow> 'a list \<Rightarrow> 'a list" where
  "insert_tuple key x [] = [x]"
| "insert_tuple key x (y # ys) =
     (if tuple_less_eq (key x) (key y) then x # y # ys else y # insert_tuple key x ys)"

definition sort_tuples :: "('a \<Rightarrow> string list) \<Rightarrow> 'a list \<Rightarrow> 'a list" where
  "sort_tuples key xs = foldr (insert_tuple key) xs []"

text \<open>What is below a folder on the disk: for every path its parts, whether it is a link or
  reparse point, and the bytes of a file.\<close>

record tree_node =
  tn_parts :: "string list"
  tn_link :: bool
  tn_content :: "string option"

record disk_folder =
  df_name :: string
  df_is_dir :: bool
  df_link :: bool
  df_nodes :: "tree_node list"

definition file_suffix :: "string \<Rightarrow> string" where
  "file_suffix name =
     (let tail = takeWhile (\<lambda>c. c \<noteq> CHR ''.'') (rev name); i = length name - Suc (length tail) in
      if length tail < length name \<and> 0 < i \<and> tail \<noteq> [] then drop i name else [])"

definition python_runtime_file :: "string list \<Rightarrow> bool" where
  "python_runtime_file parts \<longleftrightarrow>
     ''__pycache__'' \<in> set parts \<or> casefold (file_suffix (last parts)) = map char_nat ''.pyc''"

fun snapshot_nodes ::
  "bool \<Rightarrow> tree_node list \<Rightarrow> (string, string) dict \<Rightarrow> bundle_error + (string, string) dict" where
  "snapshot_nodes exclude [] files = Inr files"
| "snapshot_nodes exclude (n # ns) files =
     (if tn_link n then Inl (Archive_error ''asset folders may not contain links or reparse points'')
      else (case tn_content n of
              None \<Rightarrow> snapshot_nodes exclude ns files
            | Some content \<Rightarrow>
                if exclude \<and> python_runtime_file (tn_parts n) then snapshot_nodes exclude ns files
                else bind_res (validate_relative_path (join ''/'' (tn_parts n)) False) (\<lambda>r.
                       snapshot_nodes exclude ns (AList.update r content files))))"

definition snapshot_directory :: "bool \<Rightarrow> disk_folder \<Rightarrow> bundle_error + (string, string) dict" where
  "snapshot_directory exclude folder =
     (if \<not> df_is_dir folder \<or> df_link folder
      then Inl (Archive_error (''asset folder is unavailable: '' @ df_name folder))
      else snapshot_nodes exclude (sort_tuples tn_parts (df_nodes folder)) [])"

section \<open>Archives\<close>

text \<open>An entry of an archive; the content is missing if the reader fails on it.\<close>

record zip_entry =
  ze_name :: string
  ze_external_attr :: nat
  ze_content :: "string option"

text \<open>The ZIP format, the JSON form of a manifest (decoded to a manifest of the right shape) and
  SHA-256.\<close>

record archive_library =
  ar_write :: "zip_entry list \<Rightarrow> string"
  ar_read :: "string \<Rightarrow> zip_entry list option"
  ar_canonical :: "bundle_manifest \<Rightarrow> string"
  ar_decode :: "string \<Rightarrow> bundle_manifest option"
  ar_sha256 :: "string \<Rightarrow> string"

record parsed_bundle =
  pb_manifest :: bundle_manifest
  pb_files :: "(string, string) dict"
  pb_bundle_sha256 :: string
  pb_manifest_sha256 :: string

definition manifest_name :: string where
  "manifest_name = ''manifest.json''"

text \<open>\<open>(S_IFREG | 0o600) << 16\<close>: a regular file, readable and writable by its owner.\<close>

definition regular_attr :: nat where
  "regular_attr = 33152 * 65536"

definition bundle_entry :: "string \<times> string \<Rightarrow> bundle_error + zip_entry" where
  "bundle_entry f =
     bind_res (validate_relative_path (fst f) False) (\<lambda>_.
       Inr \<lparr>ze_name = fst f, ze_external_attr = regular_attr, ze_content = Some (snd f)\<rparr>)"

definition build_bundle ::
  "archive_library \<Rightarrow> bundle_manifest \<Rightarrow> (string, string) dict \<Rightarrow> bundle_error + string" where
  "build_bundle lib m files =
     bind_res (map_res bundle_entry (sort_by fst (dict_merge [(manifest_name, ar_canonical lib m)] files)))
       (\<lambda>zs. Inr (ar_write lib zs))"

text \<open>The upper half of the attributes is the Unix mode, whose upper four bits are the file type
  (8 a regular file, 10 a link); bit 10 of the lower half marks a reparse point.\<close>

definition special_entry :: "nat \<Rightarrow> bool" where
  "special_entry attr \<longleftrightarrow>
     (let file_type = attr div 65536 div 4096 mod 16; dos = attr mod 65536 in
      file_type = 10 \<or> file_type \<noteq> 0 \<and> file_type \<noteq> 8 \<or> odd (dos div 1024))"

definition unreadable :: bundle_error where
  "unreadable = Archive_error ''configuration bundle is not a readable ZIP archive''"

fun read_entries ::
  "zip_entry list \<Rightarrow> (string, string) dict \<Rightarrow> bundle_error + (string, string) dict" where
  "read_entries [] files = Inr files"
| "read_entries (z # zs) files =
     bind_res (validate_relative_path (ze_name z) (ends_with ''/'' (ze_name z))) (\<lambda>_.
     bind_res (require (\<not> ends_with ''/'' (ze_name z))
       (Archive_error ''bundle archives must not contain directory entries'')) (\<lambda>_.
     bind_res (require (casefold (ze_name z) \<notin> casefold ` fst ` set files)
       (Archive_error ''bundle archive paths must be unique'')) (\<lambda>_.
     bind_res (require (\<not> special_entry (ze_external_attr z))
       (Archive_error ''bundle archive may not contain links or reparse points'')) (\<lambda>_.
       (case ze_content z of
          None \<Rightarrow> Inl unreadable
        | Some content \<Rightarrow> read_entries zs (AList.update (ze_name z) content files))))))"

definition path_prefixes :: "string \<Rightarrow> string list" where
  "path_prefixes name =
     (let parts = posix_parts name in map (\<lambda>i. join ''/'' (take i parts)) [1..<length parts])"

definition read_archive :: "archive_library \<Rightarrow> string \<Rightarrow> bundle_error + (string, string) dict" where
  "read_archive lib content =
     (case ar_read lib content of
        None \<Rightarrow> Inl unreadable
      | Some entries \<Rightarrow>
          bind_res (read_entries entries []) (\<lambda>files.
          bind_res (require (\<forall>f \<in> set files. set (path_prefixes (fst f)) \<inter> fst ` set files = {})
            (Archive_error ''bundle archive paths cannot be both files and directories'')) (\<lambda>_.
            Inr files)))"

definition manifest_valid :: "bundle_manifest \<Rightarrow> bool" where
  "manifest_valid m \<longleftrightarrow>
     root_error (bm_root m) = None \<and> list_all (\<lambda>r. record_error r = None) (bm_records m) \<and>
     validate_identities m = None"

definition read_manifest :: "archive_library \<Rightarrow> string \<Rightarrow> bundle_error + bundle_manifest" where
  "read_manifest lib bytes =
     (case ar_decode lib bytes of
        None \<Rightarrow> Inl (Archive_error ''configuration bundle manifest does not satisfy the current contract'')
      | Some m \<Rightarrow>
          bind_res (require (manifest_valid m)
            (Archive_error ''configuration bundle manifest does not satisfy the current contract'')) (\<lambda>_.
          bind_res (require (bytes = ar_canonical lib m)
            (Archive_error ''configuration bundle manifest must use canonical JSON'')) (\<lambda>_.
            Inr m)))"

definition asset_files :: "string \<Rightarrow> (string, string) dict \<Rightarrow> (string, string) dict" where
  "asset_files pre files =
     map (\<lambda>f. (drop (length pre) (fst f), snd f)) (filter (\<lambda>f. starts_with pre (fst f)) files)"

text \<open>An asset of the manifest against the files below its path; the paths it accounts for.\<close>

definition check_asset ::
  "archive_library \<Rightarrow> (string, string) dict \<Rightarrow> bundle_asset \<Rightarrow> bundle_error + string list" where
  "check_asset lib files a =
     bind_res (validate_relative_path (ba_path a) True) (\<lambda>pre.
     bind_res (require (ends_with ''/'' pre) (Archive_error ''bundle asset paths must name directories'')) (\<lambda>_.
     let matches = asset_files pre files in
     bind_res (require (\<not> (matches = [] \<and> ba_kind a \<noteq> Skill_package \<or> [] \<in> fst ` set matches))
       (Archive_error ''bundle asset directory is empty or invalid'')) (\<lambda>_.
     bind_res (require (canonical_tree_sha256 (ar_sha256 lib) matches = ba_sha256 a)
       (Archive_error ''bundle asset hash does not match its manifest'')) (\<lambda>_.
       Inr (map (\<lambda>f. pre @ fst f) matches)))))"

definition parse_bundle :: "archive_library \<Rightarrow> string \<Rightarrow> bundle_error + parsed_bundle" where
  "parse_bundle lib content =
     bind_res (read_archive lib content) (\<lambda>files.
       (case map_of files manifest_name of
          None \<Rightarrow> Inl (Archive_error ''configuration bundle is missing manifest.json'')
        | Some bytes \<Rightarrow>
            bind_res (read_manifest lib bytes) (\<lambda>m.
            bind_res (map_res (check_asset lib files) (bm_assets m)) (\<lambda>paths.
            bind_res (require (fst ` set files = insert manifest_name (set (concat paths)))
              (Archive_error ''bundle archive contains undeclared files'')) (\<lambda>_.
              Inr \<lparr>pb_manifest = m, pb_files = files, pb_bundle_sha256 = ar_sha256 lib content,
                   pb_manifest_sha256 = ar_sha256 lib bytes\<rparr>)))))"

text \<open>The files a tree is written to, in the order of their paths.\<close>

definition materialize_files ::
  "string list \<Rightarrow> (string, string) dict \<Rightarrow> bundle_error + (string list \<times> string) list" where
  "materialize_files dir files =
     map_res (\<lambda>f. bind_res (validate_relative_path (fst f) False) (\<lambda>r. Inr (dir @ posix_parts r, snd f)))
       (sort_by fst files)"

end
