(* ===== verification/Archive_Paths.thy ===== *)
theory Archive_Paths
  imports Bundle_Archive
begin

text \<open>
  What the path check of a bundle accepts, and the byte form of a file tree: it determines the
  tree.
\<close>

section \<open>Splitting and joining\<close>

lemma join_split: "join [sep] (split_on sep s) = s"
proof (induction s)
  case (Cons c cs)
  obtain w ws where "split_on sep cs = w # ws" by (cases "split_on sep cs") auto
  with Cons show ?case by (cases ws) auto
qed simp

lemma split_on_parts: "p \<in> set (split_on sep s) \<Longrightarrow> sep \<notin> set p"
proof (induction s arbitrary: p)
  case (Cons c cs)
  obtain w ws where "split_on sep cs = w # ws" by (cases "split_on sep cs") auto
  with Cons show ?case by (auto split: if_splits)
qed simp

lemma split_on_append: "sep \<notin> set p \<Longrightarrow> split_on sep (p @ sep # s) = p # split_on sep s"
  by (induction p) auto

lemma split_join: "ps \<noteq> [] \<Longrightarrow> \<forall>p \<in> set ps. sep \<notin> set p \<Longrightarrow> split_on sep (join [sep] ps) = ps"
  by (induction "[sep]" ps rule: join.induct) (auto simp: split_on_append split_on_single)

lemma join_set: "set (join sep ps) \<subseteq> set sep \<union> \<Union> (set ` set ps)"
  by (induction sep ps rule: join.induct) auto

lemma join_set_parts: "p \<in> set ps \<Longrightarrow> set p \<subseteq> set (join sep ps)"
  by (induction sep ps rule: join.induct) auto

lemma join_hd: "p \<noteq> [] \<Longrightarrow> hd (join sep (p # ps)) = hd p"
  by (cases ps) auto

lemma join_append: "a \<noteq> [] \<Longrightarrow> b \<noteq> [] \<Longrightarrow> join sep (a @ b) = join sep a @ sep @ join sep b"
proof (induction sep a rule: join.induct)
  case (2 sep x)
  then show ?case by (cases b) auto
qed auto

lemma join_empty: "\<forall>p \<in> set ps. p \<noteq> [] \<Longrightarrow> ps \<noteq> [] \<Longrightarrow> join sep ps \<noteq> []"
  by (induction sep ps rule: join.induct) auto

section \<open>Safe paths\<close>

text \<open>A segment that names a file inside its directory on every platform.\<close>

definition safe_segment :: "string \<Rightarrow> bool" where
  "safe_segment s \<longleftrightarrow>
     s \<notin> {[], ''.'', ''..''} \<and> \<not> ends_with '' '' s \<and> \<not> ends_with ''.'' s \<and>
     (\<forall>c \<in> set s. 32 \<le> char_nat c \<and> c \<notin> set ([CHR 0x22] @ ''*<>?|'')) \<and>
     \<not> is_windows_reserved_name s \<and>
     CHR ''/'' \<notin> set s \<and> CHR 0x5C \<notin> set s \<and> CHR 0x00 \<notin> set s \<and> CHR '':'' \<notin> set s"

definition safe_path :: "string \<Rightarrow> bool" where
  "safe_path v \<longleftrightarrow> (\<exists>segs. segs \<noteq> [] \<and> v = join ''/'' segs \<and> list_all safe_segment segs)"

lemma segment_error_None:
  "segment_error s = None \<longleftrightarrow>
     s \<notin> {[], ''.'', ''..''} \<and> \<not> ends_with '' '' s \<and> \<not> ends_with ''.'' s \<and>
     (\<forall>c \<in> set s. 32 \<le> char_nat c \<and> c \<notin> set invalid_filename_characters) \<and> \<not> is_windows_reserved_name s"
  unfolding segment_error_def not_le [symmetric] by (simp split: if_splits)

lemma safe_segment_iff:
  "safe_segment s \<longleftrightarrow>
     segment_error s = None \<and> CHR ''/'' \<notin> set s \<and> CHR 0x5C \<notin> set s \<and> CHR 0x00 \<notin> set s \<and> CHR '':'' \<notin> set s"
  unfolding safe_segment_def segment_error_None invalid_filename_characters_def by (simp only: conj_assoc)

lemma safe_segment_nonempty: "safe_segment s \<Longrightarrow> s \<noteq> [] \<and> s \<noteq> ''.'' \<and> s \<noteq> ''..''"
  unfolding safe_segment_iff segment_error_None by simp

lemma posix_parts_join:
  assumes "segs \<noteq> []" and "list_all safe_segment segs"
  shows "posix_parts (join ''/'' segs) = segs"
proof -
  have "split_on (CHR ''/'') (join ''/'' segs) = segs"
    using assms by (intro split_join) (auto simp: list_all_iff safe_segment_iff)
  moreover have "filter (\<lambda>p. p \<noteq> [] \<and> p \<noteq> ''.'') segs = segs"
    using assms(2) safe_segment_nonempty by (simp add: filter_id_conv list_all_iff)
  ultimately show ?thesis by (simp only: posix_parts_def)
qed

lemma posix_parts_slash: "p \<in> set (posix_parts n) \<Longrightarrow> CHR ''/'' \<notin> set p"
  using split_on_parts [of p "CHR ''/''" n] by (simp add: posix_parts_def)

lemma find_segment_error:
  "(case find (\<lambda>s. segment_error s \<noteq> None) ps of None \<Rightarrow> Inr v | Some s \<Rightarrow> Inl (f s)) = Inr r \<longleftrightarrow>
     r = v \<and> (\<forall>s \<in> set ps. segment_error s = None)"
proof (cases "find (\<lambda>s. segment_error s \<noteq> None) ps")
  case None
  then have "\<forall>s \<in> set ps. segment_error s = None" by (simp add: find_None_iff)
  with None show ?thesis by (simp only: option.case) auto
next
  case (Some s)
  then have "s \<in> set ps" "segment_error s \<noteq> None" by (auto simp: find_Some_iff)
  with Some show ?thesis by (simp only: option.case) auto
qed

definition path_text :: "bool \<Rightarrow> string \<Rightarrow> string" where
  "path_text directory v = (if directory \<and> ends_with ''/'' v then butlast v else v)"

lemma validate_iff:
  "validate_relative_path v d = Inr r \<longleftrightarrow> r = v \<and> (path_text d v = ''.'' \<or> safe_path (path_text d v))"
proof -
  define n where "n = path_text d v"
  have start: "validate_relative_path v d = Inr r \<longleftrightarrow>
      (n \<noteq> [] \<and> CHR 0x5C \<notin> set n \<and> CHR 0x00 \<notin> set n \<and> CHR '':'' \<notin> set n) \<and>
      (hd n \<noteq> CHR ''/'' \<and> posix_text n = n) \<and> r = v \<and> (\<forall>s \<in> set (posix_parts n). segment_error s = None)"
    unfolding validate_relative_path_def n_def [unfolded path_text_def, symmetric] Let_def
    using find_segment_error [of v "\<lambda>s. Archive_error (the (segment_error s))" "posix_parts n" r]
    by (simp split: if_splits)
  have char: "\<forall>p \<in> set ps. c \<notin> set p \<Longrightarrow> c \<notin> set sep \<Longrightarrow> c \<notin> set (join sep ps)" for c sep ps
    using join_set [of sep ps] by blast
  have "safe_path n"
    if a: "CHR 0x5C \<notin> set n" "CHR 0x00 \<notin> set n" "CHR '':'' \<notin> set n" "posix_text n = n"
      "\<forall>s \<in> set (posix_parts n). segment_error s = None" "n \<noteq> ''.''"
  proof -
    have ps: "posix_parts n \<noteq> []" "n = join ''/'' (posix_parts n)"
      using a(4,6) by (auto simp: posix_text_def split: if_splits)
    have "safe_segment p" if p: "p \<in> set (posix_parts n)" for p
    proof -
      have "set p \<subseteq> set n" using join_set_parts [OF p, of "''/''"] ps(2) by simp
      with a posix_parts_slash [OF p] p show ?thesis unfolding safe_segment_iff by blast
    qed
    with ps show ?thesis unfolding safe_path_def list_all_iff by blast
  qed
  moreover have "(n \<noteq> [] \<and> CHR 0x5C \<notin> set n \<and> CHR 0x00 \<notin> set n \<and> CHR '':'' \<notin> set n) \<and>
      (hd n \<noteq> CHR ''/'' \<and> posix_text n = n) \<and> (\<forall>s \<in> set (posix_parts n). segment_error s = None)"
    if "safe_path n"
  proof -
    obtain segs where segs: "segs \<noteq> []" "n = join ''/'' segs" "list_all safe_segment segs"
      using \<open>safe_path n\<close> unfolding safe_path_def by blast
    have parts: "posix_parts n = segs" unfolding segs(2) by (rule posix_parts_join [OF segs(1,3)])
    obtain p ps where cons: "segs = p # ps" using segs(1) by (cases segs) auto
    then have p: "p \<noteq> []" "CHR ''/'' \<notin> set p"
      using segs(3) safe_segment_nonempty by (auto simp: safe_segment_iff)
    then have "hd n = hd p" unfolding segs(2) cons by (intro join_hd)
    then have "hd n \<noteq> CHR ''/''" using p by (metis list.set_sel(1))
    moreover have "n \<noteq> []" unfolding segs(2) using segs safe_segment_nonempty
      by (intro join_empty) (auto simp: list_all_iff)
    moreover have "c \<notin> set n" if "c \<in> {CHR 0x5C, CHR 0x00, CHR '':''}" for c
      unfolding segs(2) using segs(3) that by (intro char) (auto simp: list_all_iff safe_segment_iff)
    moreover have "posix_text n = n" using parts segs by (simp add: posix_text_def)
    ultimately show ?thesis using segs(3) parts by (simp add: list_all_iff safe_segment_iff)
  qed
  moreover have "posix_text ''.'' = ''.''" "posix_parts ''.'' = []" by code_simp+
  ultimately show ?thesis unfolding start n_def [symmetric] by (cases "n = ''.''") auto
qed

lemma validate_file: "validate_relative_path v False = Inr r \<longleftrightarrow> r = v \<and> (v = ''.'' \<or> safe_path v)"
  unfolding validate_iff path_text_def by simp

lemma safe_path_parts: "safe_path v \<Longrightarrow> posix_parts v \<noteq> [] \<and> list_all safe_segment (posix_parts v) \<and> v = join ''/'' (posix_parts v)"
  unfolding safe_path_def using posix_parts_join by auto

section \<open>The bytes of a tree\<close>

lemma digits_mod:
  fixes m n b :: nat
  assumes "\<forall>k < K. m div b ^ k mod b = n div b ^ k mod b"
  shows "m mod b ^ K = n mod b ^ K"
  using assms
proof (induction K)
  case (Suc K)
  have "x mod b ^ Suc K = b ^ K * (x div b ^ K mod b) + x mod b ^ K" for x
    using mod_mult2_eq [of x "b ^ K" b] by (simp add: mult.commute)
  with Suc show ?case by simp
qed simp

lemma be8_length [simp]: "length (be8 n) = 8"
  by (simp add: be8_def)

lemma be8_inject:
  assumes "be8 m = be8 n" and "m < 2 ^ 64" and "n < 2 ^ 64"
  shows "m = n"
proof -
  have "m div 256 ^ k mod 256 = n div 256 ^ k mod 256" if "k < 8" for k
  proof -
    have "be8 m ! (7 - k) = be8 n ! (7 - k)" using assms(1) by simp
    then have "(char_of (m div 256 ^ k mod 256) :: char) = char_of (n div 256 ^ k mod 256)"
      using that nth_upt [of 0 "7 - k" 8] by (simp add: be8_def)
    then have "(of_char (char_of (m div 256 ^ k mod 256) :: char) :: nat) =
        of_char (char_of (n div 256 ^ k mod 256) :: char)" by (rule arg_cong)
    then show ?thesis by simp
  qed
  then have "m mod 256 ^ 8 = n mod 256 ^ 8" by (intro digits_mod) blast
  moreover have "(256 :: nat) ^ 8 = 2 ^ 64" by simp
  ultimately show ?thesis using assms(2,3) by (simp only: mod_less)
qed

lemma utf8_char_inject: "utf8_char a @ x = utf8_char b @ y \<Longrightarrow> a = b \<and> x = y"
proof -
  assume eq: "utf8_char a @ x = utf8_char b @ y"
  have lt: "char_nat c < 256" for c :: char
    by simp
  have hd: "char_nat (hd (utf8_char c)) = (if char_nat c < 128 then char_nat c else 192 + char_nat c div 64)" for c
  proof -
    have "192 + char_nat c div 64 < 256" using lt [of c] by arith
    then show ?thesis by (simp add: utf8_char_def Let_def)
  qed
  have nth: "128 \<le> char_nat c \<Longrightarrow> char_nat (utf8_char c ! 1) = 128 + char_nat c mod 64" for c
    using lt [of c] by (simp add: utf8_char_def Let_def)
  have len: "length (utf8_char c) = (if char_nat c < 128 then 1 else 2)" for c
    by (simp add: utf8_char_def Let_def)
  have ne: "utf8_char c \<noteq> []" for c by (simp add: utf8_char_def Let_def)
  have "hd (utf8_char a) = hd (utf8_char b)" using eq ne by (metis hd_append2)
  then have h: "char_nat (hd (utf8_char a)) = char_nat (hd (utf8_char b))" by simp
  then have same: "char_nat a < 128 \<longleftrightarrow> char_nat b < 128" unfolding hd by (simp split: if_splits)
  then have parts: "utf8_char a = utf8_char b" "x = y" using eq len by (auto simp: append_eq_append_conv)
  have "char_nat a = char_nat b"
  proof (cases "char_nat a < 128")
    case True
    with same h show ?thesis unfolding hd by simp
  next
    case False
    with same h have "char_nat a div 64 = char_nat b div 64" unfolding hd by simp
    moreover have "char_nat a mod 64 = char_nat b mod 64"
      using nth [of a] nth [of b] False same parts(1) by simp
    ultimately show ?thesis by (metis div_mult_mod_eq)
  qed
  with parts(2) show ?thesis by (simp add: of_char_eq_iff)
qed

lemma utf8_inject: "utf8 s = utf8 t \<Longrightarrow> s = t"
proof (induction s arbitrary: t)
  case Nil
  then show ?case by (cases t) (auto simp: utf8_def utf8_char_def Let_def split: if_splits)
next
  case (Cons c s)
  then obtain d t' where t: "t = d # t'"
    by (cases t) (auto simp: utf8_def utf8_char_def Let_def split: if_splits)
  with Cons.prems have "utf8_char c @ utf8 s = utf8_char d @ utf8 t'" by (simp add: utf8_def)
  from utf8_char_inject [OF this] Cons.IH t show ?case by blast
qed

text \<open>A file whose path and content have lengths that fit into eight bytes.\<close>

definition entry_fits :: "string \<times> string \<Rightarrow> bool" where
  "entry_fits f \<longleftrightarrow> length (utf8 (fst f)) < 2 ^ 64 \<and> length (snd f) < 2 ^ 64"

lemma framed_inject:
  assumes "be8 (length a) @ a @ x = be8 (length b) @ b @ y" and "length a < 2 ^ 64" and "length b < 2 ^ 64"
  shows "a = b \<and> x = y"
proof -
  from assms(1) have "be8 (length a) = be8 (length b)" and rest: "a @ x = b @ y"
    by (auto simp: append_eq_append_conv)
  then have "length a = length b" using be8_inject assms(2,3) by blast
  with rest show ?thesis by simp
qed

lemma tree_entry_inject:
  assumes "tree_entry f @ x = tree_entry g @ y" and "entry_fits f" and "entry_fits g"
  shows "f = g \<and> x = y"
proof -
  have "be8 (length (utf8 (fst f))) @ utf8 (fst f) @ be8 (length (snd f)) @ snd f @ x =
      be8 (length (utf8 (fst g))) @ utf8 (fst g) @ be8 (length (snd g)) @ snd g @ y"
    using assms(1) by (simp add: tree_entry_def)
  from framed_inject [OF this] have p: "utf8 (fst f) = utf8 (fst g)"
    and rest: "be8 (length (snd f)) @ snd f @ x = be8 (length (snd g)) @ snd g @ y"
    using assms(2,3) by (auto simp: entry_fits_def)
  from framed_inject [OF rest] have "snd f = snd g \<and> x = y" using assms(2,3) by (auto simp: entry_fits_def)
  with utf8_inject [OF p] show ?thesis by (simp add: prod_eq_iff)
qed

lemma tree_entry_nonempty: "tree_entry f \<noteq> []"
proof -
  have "length (tree_entry f) \<ge> 8" by (simp add: tree_entry_def)
  then show ?thesis by auto
qed

lemma entries_inject:
  "concat (map tree_entry fs) = concat (map tree_entry gs) \<Longrightarrow> list_all entry_fits fs \<Longrightarrow> list_all entry_fits gs \<Longrightarrow> fs = gs"
proof (induction fs arbitrary: gs)
  case Nil
  then show ?case using tree_entry_nonempty by (cases gs) (auto simp del: concat_eq_Nil_conv)
next
  case (Cons f fs)
  then obtain g gs' where gs: "gs = g # gs'" using tree_entry_nonempty by (cases gs) auto
  with Cons.prems have "tree_entry f @ concat (map tree_entry fs) = tree_entry g @ concat (map tree_entry gs')"
    "entry_fits f" "entry_fits g" by auto
  from tree_entry_inject [OF this] Cons gs show ?case by auto
qed

lemma tree_bytes_inject:
  assumes "tree_bytes fs = tree_bytes gs" and "wf_dict fs" and "wf_dict gs"
    and "list_all entry_fits fs" and "list_all entry_fits gs"
  shows "map_of fs = map_of gs"
proof -
  have set: "set (sort_by fst hs) = set hs" for hs :: "(string, string) dict"
    by (metis set_mset_mset sort_by_mset)
  have "sort_by fst fs = sort_by fst gs"
    using assms(1,4,5) unfolding tree_bytes_def by (intro entries_inject) (simp_all add: list_all_iff set)
  then have "set fs = set gs" using set by metis
  with assms(2,3) show ?thesis by (simp add: wf_dict_def map_of_inject_set)
qed

lemma tree_bytes_cong:
  assumes "map_of fs = map_of gs" and "wf_dict fs" and "wf_dict gs"
  shows "tree_bytes fs = tree_bytes gs"
proof -
  have "set fs = set gs" using assms by (simp add: wf_dict_def map_of_inject_set)
  then have "mset fs = mset gs"
    using assms(2,3) unfolding wf_dict_def by (metis distinct_map set_eq_iff_mset_eq_distinct)
  then have "sort_by fst fs = sort_by fst gs" using assms(2) unfolding wf_dict_def by (rule sort_by_cong)
  then show ?thesis by (simp add: tree_bytes_def)
qed

end
