(* ===== verification/Archive_Safety.thy ===== *)
theory Archive_Safety
  imports Archive_Paths
begin

text \<open>
  What an accepted bundle is: its file names are safe relative paths that do not collide on any
  platform, every file is the manifest or part of a declared asset whose digest matches, and
  the files of an asset are written below the folder of the asset only.
\<close>

section \<open>The entries\<close>

definition entry_ok :: "zip_entry \<Rightarrow> bool" where
  "entry_ok z \<longleftrightarrow> (ze_name z = ''.'' \<or> safe_path (ze_name z)) \<and> \<not> special_entry (ze_external_attr z) \<and>
     ze_content z \<noteq> None"

definition entry_file :: "zip_entry \<Rightarrow> string \<times> string" where
  "entry_file z = (ze_name z, the (ze_content z))"

definition folded_names :: "(string, string) dict \<Rightarrow> nat list list" where
  "folded_names files = map (casefold \<circ> fst) files"

lemma folded_names_simps [simp]:
  "folded_names [] = []"
  "folded_names (fs @ gs) = folded_names fs @ folded_names gs"
  "set (folded_names fs) = casefold ` fst ` set fs"
  by (auto simp: folded_names_def)

lemma ends_with_slash: "ends_with ''/'' v \<longleftrightarrow> v \<noteq> [] \<and> last v = CHR ''/''"
  unfolding ends_with_def suffix_def by (metis append_butlast_last_id last_snoc snoc_eq_iff_butlast)

lemma join_last: "ps \<noteq> [] \<Longrightarrow> \<forall>p \<in> set ps. p \<noteq> [] \<Longrightarrow> last (join sep ps) = last (last ps)"
proof (induction sep ps rule: join.induct)
  case (3 sep x y ys)
  then have "join sep (y # ys) \<noteq> []" by (intro join_empty) auto
  with 3 show ?case by auto
qed auto

lemma safe_path_slash: "safe_path v \<Longrightarrow> \<not> ends_with ''/'' v"
proof
  assume "safe_path v" and slash: "ends_with ''/'' v"
  then obtain segs where segs: "segs \<noteq> []" "v = join ''/'' segs" "list_all safe_segment segs"
    unfolding safe_path_def by blast
  have ne: "\<forall>s \<in> set segs. s \<noteq> [] \<and> CHR ''/'' \<notin> set s"
    using segs(3) safe_segment_nonempty unfolding list_all_iff safe_segment_iff by blast
  have l: "last segs \<noteq> []" "CHR ''/'' \<notin> set (last segs)"
    using bspec [OF ne last_in_set [OF segs(1)]] by blast+
  have "last v = last (last segs)" unfolding segs(2) using segs(1) ne by (intro join_last) blast+
  with l slash show False unfolding ends_with_slash by (metis last_in_set)
qed

lemma dict_fresh: "casefold k \<notin> casefold ` fst ` set d \<Longrightarrow> AList.update k v d = d @ [(k, v)]"
  by (induction d) auto

lemma read_entries_iff:
  assumes "distinct (folded_names files)"
  shows "read_entries zs files = Inr out \<longleftrightarrow>
     list_all entry_ok zs \<and> out = files @ map entry_file zs \<and> distinct (folded_names out)"
  using assms
proof (induction zs files rule: read_entries.induct)
  case (1 files)
  then show ?case by auto
next
  case (2 z zs files)
  let ?name = "ze_name z"
  have dot: "\<not> ends_with ''/'' ''.''" by code_simp
  have path: "validate_relative_path ?name (ends_with ''/'' ?name) = Inr ?name \<and> \<not> ends_with ''/'' ?name \<longleftrightarrow>
      ?name = ''.'' \<or> safe_path ?name"
  proof (cases "ends_with ''/'' ?name")
    case True
    then have "?name \<noteq> ''.''" "\<not> safe_path ?name" using dot safe_path_slash by metis+
    with True show ?thesis by simp
  next
    case False
    then show ?thesis using validate_file [of ?name ?name] by simp
  qed
  have same: "validate_relative_path ?name d = Inr r \<Longrightarrow> r = ?name" for d r by (simp add: validate_iff)
  show ?case
  proof (cases "entry_ok z \<and> casefold ?name \<notin> casefold ` fst ` set files")
    case True
    then obtain c where c: "ze_content z = Some c" by (auto simp: entry_ok_def)
    have p: "validate_relative_path ?name (ends_with ''/'' ?name) = Inr ?name" "\<not> ends_with ''/'' ?name"
    proof -
      have "?name = ''.'' \<or> safe_path ?name" using True unfolding entry_ok_def by (elim conjE) assumption
      note ok = iffD2 [OF path this]
      show "validate_relative_path ?name (ends_with ''/'' ?name) = Inr ?name" by (rule conjunct1 [OF ok])
      show "\<not> ends_with ''/'' ?name" by (rule conjunct2 [OF ok])
    qed
    have upd: "AList.update ?name c files = files @ [(?name, c)]" by (rule dict_fresh [OF conjunct2 [OF True]])
    have sp: "\<not> special_entry (ze_external_attr z)" using True unfolding entry_ok_def by (elim conjE)
    have run: "read_entries (z # zs) files = read_entries zs (AList.update ?name c files)"
      using conjunct2 [OF True] p c sp by simp
    have dist: "distinct (folded_names (AList.update ?name c files))"
      using 2(2) True unfolding upd by (simp add: folded_names_def image_image)
    have IH: "read_entries zs (AList.update ?name c files) = Inr out \<longleftrightarrow>
        list_all entry_ok zs \<and> out = AList.update ?name c files @ map entry_file zs \<and> distinct (folded_names out)"
      by (rule 2(1) [OF p(1) _ _ _ c dist]) (use p(2) sp conjunct2 [OF True] in simp_all)
    have "entry_file z = (?name, c)" using c by (simp add: entry_file_def)
    then show ?thesis unfolding run IH unfolding upd using True by simp
  next
    case False
    have "read_entries (z # zs) files \<noteq> Inr out"
    proof
      assume "read_entries (z # zs) files = Inr out"
      then have "validate_relative_path ?name (ends_with ''/'' ?name) = Inr ?name" "\<not> ends_with ''/'' ?name"
        "casefold ?name \<notin> casefold ` fst ` set files" "\<not> special_entry (ze_external_attr z)" "ze_content z \<noteq> None"
        using same unfolding read_entries.simps bind_res_eq_Inr by (force split: option.splits)+
      with path False show False by (auto simp: entry_ok_def)
    qed
    moreover have "\<not> (list_all entry_ok (z # zs) \<and> out = files @ map entry_file (z # zs) \<and> distinct (folded_names out))"
      using False by (auto simp: entry_file_def)
    ultimately show ?thesis by blast
  qed
qed

lemma folded_distinct: "distinct (folded_names fs) \<Longrightarrow> wf_dict fs"
  unfolding folded_names_def wf_dict_def by (metis distinct_map map_map)

section \<open>The assets\<close>

lemma split_on_append2: "split_on sep (a @ sep # b) = split_on sep a @ split_on sep b"
  by (induction a) (auto simp: split_on_Cons hd_append split: list.splits)

text \<open>What remains of a safe path behind a directory is a safe path.\<close>

lemma safe_path_rest:
  assumes "safe_path (pre @ rest)" and "ends_with ''/'' pre" and "rest \<noteq> []"
  shows "safe_path rest"
proof -
  obtain segs where segs: "segs \<noteq> []" "pre @ rest = join ''/'' segs" "list_all safe_segment segs"
    using assms(1) unfolding safe_path_def by blast
  obtain p where p: "pre = p @ ''/''" using assms(2) by (auto simp: ends_with_def suffix_def)
  have "segs = split_on (CHR ''/'') (pre @ rest)"
    unfolding segs(2) using segs(1,3) by (subst split_join) (auto simp: list_all_iff safe_segment_iff)
  also have "\<dots> = split_on (CHR ''/'') p @ split_on (CHR ''/'') rest"
    unfolding p using split_on_append2 by simp
  finally have "list_all safe_segment (split_on (CHR ''/'') rest)" using segs(3) by simp
  then show ?thesis
    unfolding safe_path_def using join_split [of "CHR ''/''" rest] split_on_nonempty by metis
qed

lemma asset_files_set:
  "f \<in> set (asset_files pre files) \<longleftrightarrow> (pre @ fst f, snd f) \<in> set files"
  by (force simp: asset_files_def starts_with_def prefix_def image_iff)

lemma asset_files_wf: "wf_dict files \<Longrightarrow> wf_dict (asset_files pre files)"
proof -
  assume "wf_dict files"
  then show ?thesis
  proof (induction files)
    case (Cons f files)
    have "fst g = drop (length pre) (fst f) \<Longrightarrow> g \<in> set (asset_files pre files) \<Longrightarrow> starts_with pre (fst f) \<Longrightarrow> fst f \<in> fst ` set files" for g
    proof -
      assume "fst g = drop (length pre) (fst f)" "g \<in> set (asset_files pre files)" "starts_with pre (fst f)"
      then have "(fst f, snd g) \<in> set files" unfolding asset_files_set by (auto simp: starts_with_def prefix_def)
      then show ?thesis by (rule image_eqI [rotated]) simp
    qed
    then have clash: "starts_with pre (fst f) \<Longrightarrow> fst f \<notin> fst ` set files \<Longrightarrow>
        drop (length pre) (fst f) \<notin> fst ` set (asset_files pre files)"
      by (metis imageE)
    have "asset_files pre (f # files) =
        (if starts_with pre (fst f) then [(drop (length pre) (fst f), snd f)] else []) @ asset_files pre files"
      by (simp add: asset_files_def)
    with Cons clash show ?case by (simp add: wf_dict_def)
  qed (simp add: asset_files_def)
qed

lemma check_asset_Inr:
  "check_asset lib files a = Inr paths \<longleftrightarrow>
     (path_text True (ba_path a) = ''.'' \<or> safe_path (path_text True (ba_path a))) \<and> ends_with ''/'' (ba_path a) \<and>
     \<not> (asset_files (ba_path a) files = [] \<and> ba_kind a \<noteq> Skill_package \<or>
        [] \<in> fst ` set (asset_files (ba_path a) files)) \<and>
     canonical_tree_sha256 (ar_sha256 lib) (asset_files (ba_path a) files) = ba_sha256 a \<and>
     paths = map (\<lambda>f. ba_path a @ fst f) (asset_files (ba_path a) files)"
  unfolding check_asset_def Let_def by (auto simp: bind_res_eq_Inr validate_iff)

lemma materialize_safe:
  assumes "\<forall>f \<in> set files. safe_path (fst f)"
  shows "\<exists>out. materialize_files dir files = Inr out \<and>
     set out = (\<lambda>f. (dir @ posix_parts (fst f), snd f)) ` set files"
proof -
  let ?g = "\<lambda>f. (dir @ posix_parts (fst f), snd f)"
  have gen: "\<forall>f \<in> set fs. safe_path (fst f) \<Longrightarrow>
      map_res (\<lambda>f. bind_res (validate_relative_path (fst f) False) (\<lambda>r. Inr (dir @ posix_parts r, snd f))) fs =
      Inr (map ?g fs)" for fs
  proof (induction fs)
    case (Cons f fs)
    then have "validate_relative_path (fst f) False = Inr (fst f)" by (simp add: validate_file)
    with Cons show ?case by simp
  qed simp
  have set: "set (sort_by fst files) = set files" by (metis set_mset_mset sort_by_mset)
  with gen [of "sort_by fst files"] assms show ?thesis unfolding materialize_files_def by simp
qed

section \<open>Accepted bundles\<close>

lemma parse_bundle_Inr:
  assumes "parse_bundle lib content = Inr pb"
  obtains entries paths where "ar_read lib content = Some entries" and "list_all entry_ok entries"
    and "pb_files pb = map entry_file entries" and "distinct (folded_names (pb_files pb))"
    and "\<forall>f \<in> set (pb_files pb). set (path_prefixes (fst f)) \<inter> fst ` set (pb_files pb) = {}"
    and "map_of (pb_files pb) manifest_name = Some (ar_canonical lib (pb_manifest pb))"
    and "manifest_valid (pb_manifest pb)"
    and "map_res (check_asset lib (pb_files pb)) (bm_assets (pb_manifest pb)) = Inr paths"
    and "fst ` set (pb_files pb) = insert manifest_name (set (concat paths))"
proof -
  from assms obtain files bytes m paths where files: "read_archive lib content = Inr files"
    and bytes: "map_of files manifest_name = Some bytes" and m: "read_manifest lib bytes = Inr m"
    and paths: "map_res (check_asset lib files) (bm_assets m) = Inr paths"
    and all: "fst ` set files = insert manifest_name (set (concat paths))"
    and pb: "pb_files pb = files" "pb_manifest pb = m"
    unfolding parse_bundle_def by (auto simp: bind_res_eq_Inr split: option.splits)
  from files obtain entries where entries: "ar_read lib content = Some entries" "read_entries entries [] = Inr files"
    "\<forall>f \<in> set files. set (path_prefixes (fst f)) \<inter> fst ` set files = {}"
    unfolding read_archive_def by (auto simp: bind_res_eq_Inr split: option.splits)
  have ok: "list_all entry_ok entries" "files = map entry_file entries" "distinct (folded_names files)"
    using entries(2) read_entries_iff [of "[]" entries files] by auto
  have "manifest_valid m" "bytes = ar_canonical lib m"
    using m unfolding read_manifest_def by (auto simp: bind_res_eq_Inr split: option.splits)
  with entries ok bytes paths all pb show thesis by (intro that) simp_all
qed

lemma accepted_file:
  assumes "parse_bundle lib content = Inr pb" and "f \<in> set (pb_files pb)"
  shows "safe_path (fst f) \<and>
     (fst f = manifest_name \<or> (\<exists>a \<in> set (bm_assets (pb_manifest pb)). starts_with (ba_path a) (fst f)))"
proof -
  from assms(1) obtain entries paths where e: "list_all entry_ok entries" "pb_files pb = map entry_file entries"
    "map_res (check_asset lib (pb_files pb)) (bm_assets (pb_manifest pb)) = Inr paths"
    "fst ` set (pb_files pb) = insert manifest_name (set (concat paths))"
    by (rule parse_bundle_Inr)
  have ok: "fst f = ''.'' \<or> safe_path (fst f)"
  proof -
    obtain z where "z \<in> set entries" "f = entry_file z" using e(2) assms(2) by auto
    then show ?thesis using e(1) unfolding list_all_iff entry_ok_def entry_file_def by (metis fst_conv)
  qed
  have "fst f \<in> insert manifest_name (set (concat paths))" using e(4) assms(2) by blast
  then consider "fst f = manifest_name" | ps where "ps \<in> set paths" "fst f \<in> set ps"
    unfolding set_concat by blast
  then show ?thesis
  proof cases
    case 1
    moreover have "manifest_name \<noteq> ''.''" by code_simp
    ultimately have "fst f \<noteq> ''.''" by metis
    then have "safe_path (fst f)" using ok by (metis (mono_tags))
    with 1 show ?thesis by blast
  next
    case 2
    then obtain a where a: "a \<in> set (bm_assets (pb_manifest pb))" "check_asset lib (pb_files pb) a = Inr ps"
      using map_res_result [OF e(3)] by blast
    then have slash: "ends_with ''/'' (ba_path a)" and pre: "starts_with (ba_path a) (fst f)"
      using 2(2) unfolding check_asset_Inr by (auto simp: starts_with_def)
    then have "CHR ''/'' \<in> set (fst f)"
      by (auto simp: ends_with_def suffix_def starts_with_def prefix_def)
    moreover have "CHR ''/'' \<notin> set ''.''" by code_simp
    ultimately have "fst f \<noteq> ''.''" by metis
    then have "safe_path (fst f)" using ok by (metis (mono_tags))
    with a(1) pre show ?thesis by blast
  qed
qed

lemma accepted_asset:
  assumes "parse_bundle lib content = Inr pb" and "a \<in> set (bm_assets (pb_manifest pb))"
  shows "canonical_tree_sha256 (ar_sha256 lib) (asset_files (ba_path a) (pb_files pb)) = ba_sha256 a \<and>
     (\<forall>f \<in> set (asset_files (ba_path a) (pb_files pb)). safe_path (fst f))"
proof -
  from assms(1) obtain paths where e:
    "map_res (check_asset lib (pb_files pb)) (bm_assets (pb_manifest pb)) = Inr paths"
    by (rule parse_bundle_Inr)
  then obtain ps where "check_asset lib (pb_files pb) a = Inr ps"
    using map_res_arg assms(2) by fast
  then have c: "ends_with ''/'' (ba_path a)" "[] \<notin> fst ` set (asset_files (ba_path a) (pb_files pb))"
    "canonical_tree_sha256 (ar_sha256 lib) (asset_files (ba_path a) (pb_files pb)) = ba_sha256 a"
    unfolding check_asset_Inr by simp_all
  have "safe_path (fst f)" if f: "f \<in> set (asset_files (ba_path a) (pb_files pb))" for f
  proof (rule safe_path_rest [OF _ c(1)])
    show "safe_path (ba_path a @ fst f)"
      using accepted_file [OF assms(1)] f unfolding asset_files_set by force
    show "fst f \<noteq> []" using c(2) f by force
  qed
  with c(3) show ?thesis by blast
qed

text \<open>No file of an accepted bundle is the directory of another one.\<close>

lemma path_prefixes_set:
  assumes "safe_path v"
  shows "u \<in> set (path_prefixes v) \<longleftrightarrow>
     (\<exists>i. 1 \<le> i \<and> i < length (posix_parts v) \<and> u = join ''/'' (take i (posix_parts v)))"
  by (auto simp: path_prefixes_def Let_def)

lemma no_directory_clash:
  assumes "parse_bundle lib content = Inr pb" and "f \<in> set (pb_files pb)" and "g \<in> set (pb_files pb)"
  shows "\<not> strict_prefix (posix_parts (fst f)) (posix_parts (fst g))"
proof
  assume pre: "strict_prefix (posix_parts (fst f)) (posix_parts (fst g))"
  have f: "safe_path (fst f)" and g: "safe_path (fst g)" using accepted_file [OF assms(1)] assms(2,3) by blast+
  obtain zs where zs: "posix_parts (fst g) = posix_parts (fst f) @ zs" "zs \<noteq> []"
    using pre by (auto simp: strict_prefix_def prefix_def)
  let ?i = "length (posix_parts (fst f))"
  have "fst f = join ''/'' (take ?i (posix_parts (fst g)))"
    using safe_path_parts [OF f] zs by simp
  moreover have "1 \<le> ?i" "?i < length (posix_parts (fst g))"
    using safe_path_parts [OF f] zs by (auto simp: Suc_le_eq)
  ultimately have "fst f \<in> set (path_prefixes (fst g))" using path_prefixes_set [OF g] by blast
  moreover from assms(1) have "set (path_prefixes (fst g)) \<inter> fst ` set (pb_files pb) = {}"
    by (rule parse_bundle_Inr) (use assms(3) in blast)
  ultimately show False using assms(2) by blast
qed

text \<open>
  C37: the files of an accepted bundle cannot escape or collide: every name is a relative path of
  safe segments, names differ by more than case, no file is the directory of another, each file
  is the manifest or part of a declared asset, the digest of every asset matches, and the files
  of an asset are written, without error, to safe paths below the folder of the asset.
\<close>

theorem accepted_bundle_safe:
  assumes "parse_bundle lib content = Inr pb"
  shows "list_all (\<lambda>f. safe_path (fst f)) (pb_files pb) \<and>
    distinct (map (casefold \<circ> fst) (pb_files pb)) \<and>
    (\<forall>f \<in> set (pb_files pb). \<forall>g \<in> set (pb_files pb). \<not> strict_prefix (posix_parts (fst f)) (posix_parts (fst g))) \<and>
    (\<forall>f \<in> set (pb_files pb). fst f = manifest_name \<or>
       (\<exists>a \<in> set (bm_assets (pb_manifest pb)). starts_with (ba_path a) (fst f))) \<and>
    (\<forall>a \<in> set (bm_assets (pb_manifest pb)).
       canonical_tree_sha256 (ar_sha256 lib) (asset_files (ba_path a) (pb_files pb)) = ba_sha256 a \<and>
       (\<exists>out. materialize_files dir (asset_files (ba_path a) (pb_files pb)) = Inr out \<and>
          (\<forall>w \<in> set out. \<exists>segs. fst w = dir @ segs \<and> segs \<noteq> [] \<and> list_all safe_segment segs)))"
proof (intro conjI ballI)
  show "list_all (\<lambda>f. safe_path (fst f)) (pb_files pb)"
    using accepted_file [OF assms] by (simp add: list_all_iff)
  show "distinct (map (casefold \<circ> fst) (pb_files pb))"
    using assms by (rule parse_bundle_Inr) (simp add: folded_names_def)
next
  fix f assume f: "f \<in> set (pb_files pb)"
  show "fst f = manifest_name \<or> (\<exists>a \<in> set (bm_assets (pb_manifest pb)). starts_with (ba_path a) (fst f))"
    using accepted_file [OF assms f] by blast
  fix g assume "g \<in> set (pb_files pb)"
  then show "\<not> strict_prefix (posix_parts (fst f)) (posix_parts (fst g))" by (rule no_directory_clash [OF assms f])
next
  fix a assume a: "a \<in> set (bm_assets (pb_manifest pb))"
  let ?files = "asset_files (ba_path a) (pb_files pb)"
  note acc = accepted_asset [OF assms a]
  then show "canonical_tree_sha256 (ar_sha256 lib) ?files = ba_sha256 a" by blast
  obtain out where out: "materialize_files dir ?files = Inr out"
    "set out = (\<lambda>f. (dir @ posix_parts (fst f), snd f)) ` set ?files"
    using materialize_safe acc by blast
  have "\<forall>w \<in> set out. \<exists>segs. fst w = dir @ segs \<and> segs \<noteq> [] \<and> list_all safe_segment segs"
    unfolding out(2) using acc safe_path_parts by fastforce
  with out(1) show "\<exists>out. materialize_files dir ?files = Inr out \<and>
      (\<forall>w \<in> set out. \<exists>segs. fst w = dir @ segs \<and> segs \<noteq> [] \<and> list_all safe_segment segs)" by blast
qed

text \<open>A bundle of one skill, in a toy archive format and with a constant digest.\<close>

definition demo_asset :: bundle_asset where
  "demo_asset = \<lparr>ba_kind = Skill_package, ba_owner_source_id = ''s'', ba_path = ''assets/skill_packages/s/'',
     ba_sha256 = ''0''\<rparr>"

definition demo_manifest :: bundle_manifest where
  "demo_manifest =
     \<lparr>bm_root = \<lparr>bo_kind = Component, bo_source_id = ''s'', bo_component_type = Some ''skill''\<rparr>,
      bm_records = [\<lparr>br_kind = Component, br_source_id = ''s'', br_name = ''S'', br_component_type = Some ''skill'',
        br_payload = [(''skill_package'', JObj [(''folder'', JStr ''S'')])]\<rparr>],
      bm_assets = [demo_asset]\<rparr>"

definition demo_entries :: "zip_entry list" where
  "demo_entries =
     [\<lparr>ze_name = ''assets/skill_packages/s/SKILL.md'', ze_external_attr = regular_attr, ze_content = Some ''x''\<rparr>,
      \<lparr>ze_name = ''manifest.json'', ze_external_attr = regular_attr, ze_content = Some ''m''\<rparr>]"

definition demo_library :: archive_library where
  "demo_library =
     \<lparr>ar_write = (\<lambda>_. ''zip''), ar_read = (\<lambda>_. Some demo_entries), ar_canonical = (\<lambda>_. ''m''),
      ar_decode = (\<lambda>_. Some demo_manifest), ar_sha256 = (\<lambda>_. ''0'')\<rparr>"

definition demo_files :: "(string, string) dict" where
  "demo_files = [(''assets/skill_packages/s/SKILL.md'', ''x''), (''manifest.json'', ''m'')]"

lemma demo_read: "read_archive demo_library ''zip'' = Inr demo_files"
proof -
  have names: "list_all (\<lambda>n. validate_relative_path n False = Inr n) [''assets/skill_packages/s/SKILL.md'', ''manifest.json'']" by code_simp
  have "\<not> special_entry regular_attr" by (simp add: special_entry_def regular_attr_def)
  with names have "list_all entry_ok demo_entries"
    unfolding demo_entries_def by (simp add: entry_ok_def validate_file)
  moreover have files: "demo_files = map entry_file demo_entries"
    by (simp add: demo_files_def demo_entries_def entry_file_def)
  moreover have "distinct (folded_names demo_files)" by code_simp
  ultimately have "read_entries demo_entries [] = Inr demo_files"
    using read_entries_iff [of "[]" demo_entries demo_files] by simp
  moreover have "\<forall>f \<in> set demo_files. set (path_prefixes (fst f)) \<inter> fst ` set demo_files = {}" by code_simp
  ultimately show ?thesis by (simp add: read_archive_def demo_library_def)
qed

lemma demo_check: "check_asset demo_library demo_files demo_asset = Inr [''assets/skill_packages/s/SKILL.md'']"
proof -
  have "validate_relative_path (ba_path demo_asset) True = Inr (ba_path demo_asset)"
    "ends_with ''/'' (ba_path demo_asset)" by code_simp+
  moreover have "asset_files (ba_path demo_asset) demo_files = [(''SKILL.md'', ''x'')]" by code_simp
  ultimately show ?thesis
    by (simp add: check_asset_def canonical_tree_sha256_def demo_library_def) (simp add: demo_asset_def)
qed

definition demo_parsed :: parsed_bundle where
  "demo_parsed = \<lparr>pb_manifest = demo_manifest, pb_files = demo_files, pb_bundle_sha256 = ''0'', pb_manifest_sha256 = ''0''\<rparr>"

lemma demo_parse: "parse_bundle demo_library ''zip'' = Inr demo_parsed"
proof -
  have "manifest_valid demo_manifest" by code_simp
  then have "read_manifest demo_library ''m'' = Inr demo_manifest"
    by (simp add: read_manifest_def demo_library_def)
  moreover have "map_of demo_files manifest_name = Some ''m''" by code_simp
  moreover have "fst ` set demo_files = insert manifest_name (set (concat [[''assets/skill_packages/s/SKILL.md'']]))"
    by code_simp
  moreover have "bm_assets demo_manifest = [demo_asset]" by (simp add: demo_manifest_def)
  moreover have "ar_sha256 demo_library = (\<lambda>_. ''0'')" by (simp add: demo_library_def)
  ultimately show ?thesis
    by (simp add: parse_bundle_def demo_read demo_check demo_parsed_def)
qed

theorem accepted_bundle_safe_witness:
  "parse_bundle demo_library ''zip'' = Inr demo_parsed \<and> distinct (map (casefold \<circ> fst) demo_files)"
proof -
  have "distinct (map (casefold \<circ> fst) (pb_files demo_parsed))"
    by (rule conjunct1 [OF conjunct2 [OF accepted_bundle_safe [OF demo_parse, of "[]"]]])
  with demo_parse show ?thesis by (simp add: demo_parsed_def)
qed

end
