(* ===== verification/Archive_Roundtrip.thy ===== *)
theory Archive_Roundtrip
  imports Archive_Safety
begin

text \<open>
  Bundles that are built and read again: the archive of a manifest whose assets are declared is
  accepted and gives back the manifest and the files.  The digest of a tree identifies it.
\<close>

section \<open>The digest identifies the tree\<close>

text \<open>
  C38: the digest of a file tree depends on its files only, not on their order, and two trees
  have the same digest only if they have the same paths with the same contents (as far as
  SHA-256 tells the two byte sequences apart).
\<close>

theorem tree_digest_identifies:
  assumes "wf_dict fs" and "wf_dict gs" and "list_all entry_fits fs" and "list_all entry_fits gs"
    and collision_free: "sha (tree_bytes fs) = sha (tree_bytes gs) \<Longrightarrow> tree_bytes fs = tree_bytes gs"
  shows "canonical_tree_sha256 sha fs = canonical_tree_sha256 sha gs \<longleftrightarrow> map_of fs = map_of gs"
  unfolding canonical_tree_sha256_def
  using assms tree_bytes_inject tree_bytes_cong by metis

theorem tree_digest_identifies_witness:
  "canonical_tree_sha256 (\<lambda>s. s) [(''a'', ''bc'')] \<noteq> canonical_tree_sha256 (\<lambda>s. s) [(''ab'', ''c'')]"
proof -
  have "list_all entry_fits [(''a'', ''bc'')]" "list_all entry_fits [(''ab'', ''c'')]"
    by (simp_all add: entry_fits_def utf8_def utf8_char_def)
  moreover have "map_of [(''a'', ''bc'')] ''a'' \<noteq> map_of [(''ab'', ''c'')] ''a''" by simp
  then have "map_of [(''a'', ''bc'')] \<noteq> map_of [(''ab'', ''c'')]" by metis
  ultimately show ?thesis
    using tree_digest_identifies [of "[(''a'', ''bc'')]" "[(''ab'', ''c'')]" "\<lambda>s. s"] by (simp add: wf_dict_def)
qed

section \<open>Building and parsing\<close>

definition bundle_files :: "archive_library \<Rightarrow> bundle_manifest \<Rightarrow> (string, string) dict \<Rightarrow> (string, string) dict" where
  "bundle_files lib m files = sort_by fst (dict_merge [(manifest_name, ar_canonical lib m)] files)"

definition stored_entry :: "string \<times> string \<Rightarrow> zip_entry" where
  "stored_entry f = \<lparr>ze_name = fst f, ze_external_attr = regular_attr, ze_content = Some (snd f)\<rparr>"

text \<open>Every file belongs to an asset of the manifest, with its digest.\<close>

definition assets_declared :: "archive_library \<Rightarrow> bundle_manifest \<Rightarrow> (string, string) dict \<Rightarrow> bool" where
  "assets_declared lib m files \<longleftrightarrow>
     (\<forall>a \<in> set (bm_assets m).
        validate_relative_path (ba_path a) True = Inr (ba_path a) \<and> ends_with ''/'' (ba_path a) \<and>
        \<not> starts_with (ba_path a) manifest_name \<and>
        (asset_files (ba_path a) files = [] \<longrightarrow> ba_kind a = Skill_package) \<and>
        [] \<notin> fst ` set (asset_files (ba_path a) files) \<and>
        ba_sha256 a = canonical_tree_sha256 (ar_sha256 lib) (asset_files (ba_path a) files)) \<and>
     (\<forall>f \<in> set files. \<exists>a \<in> set (bm_assets m). starts_with (ba_path a) (fst f))"

lemma stored_entry_file [simp]: "entry_file (stored_entry f) = f"
  by (simp add: entry_file_def stored_entry_def)

lemma regular_not_special [simp]: "\<not> special_entry regular_attr"
  by (simp add: special_entry_def regular_attr_def)

lemma bundle_entry_Inr:
  "bundle_entry f = Inr z \<longleftrightarrow> (fst f = ''.'' \<or> safe_path (fst f)) \<and> z = stored_entry f"
  unfolding bundle_entry_def stored_entry_def by (auto simp: bind_res_eq_Inr validate_file)

lemma map_bundle_entry:
  "map_res bundle_entry fs = Inr zs \<Longrightarrow> zs = map stored_entry fs \<and> list_all entry_ok zs"
proof (induction fs arbitrary: zs)
  case (Cons f fs)
  then obtain z zs' where z: "bundle_entry f = Inr z" "map_res bundle_entry fs = Inr zs'" "zs = z # zs'"
    by (auto simp: bind_res_eq_Inr)
  have "entry_ok z" using z(1) unfolding bundle_entry_Inr by (simp add: entry_ok_def stored_entry_def)
  moreover have "zs' = map stored_entry fs" "list_all entry_ok zs'" using Cons.IH [OF z(2)] by blast+
  ultimately show ?case using z(1,3) unfolding bundle_entry_Inr by simp
qed simp

lemma manifest_not_asset:
  "assets_declared lib m files \<Longrightarrow> manifest_name \<notin> fst ` set files"
  unfolding assets_declared_def by force

lemma bundle_files_set:
  assumes "wf_dict files" and "assets_declared lib m files"
  shows "set (bundle_files lib m files) = insert (manifest_name, ar_canonical lib m) (set files)"
    and "wf_dict (bundle_files lib m files)"
proof -
  have wf: "wf_dict ([(manifest_name, ar_canonical lib m)] @ files)"
    using assms manifest_not_asset by (auto simp: wf_dict_def)
  have eq: "bundle_files lib m files = sort_by fst ((manifest_name, ar_canonical lib m) # files)"
    unfolding bundle_files_def dict_merge_fresh [OF wf] by simp
  have ms: "mset (bundle_files lib m files) = mset ((manifest_name, ar_canonical lib m) # files)"
    unfolding eq by (rule sort_by_mset)
  then show "set (bundle_files lib m files) = insert (manifest_name, ar_canonical lib m) (set files)"
    using mset_eq_setD [OF ms] by simp
  have "mset (map fst (bundle_files lib m files)) = mset (map fst ((manifest_name, ar_canonical lib m) # files))"
    using ms by (metis mset_map)
  then show "wf_dict (bundle_files lib m files)"
    using wf unfolding wf_dict_def by (metis append_Cons append_Nil mset_eq_imp_distinct_iff)
qed

lemma asset_files_bundle:
  assumes "wf_dict files" and "assets_declared lib m files" and "a \<in> set (bm_assets m)"
  shows "set (asset_files (ba_path a) (bundle_files lib m files)) = set (asset_files (ba_path a) files)"
proof -
  have "ba_path a @ p \<noteq> manifest_name" for p
    using assms(2,3) unfolding assets_declared_def starts_with_def prefix_def by metis
  then show ?thesis
    by (auto simp: asset_files_set bundle_files_set [OF assms(1,2)])
qed

lemma check_declared:
  assumes "wf_dict files" and "assets_declared lib m files" and "a \<in> set (bm_assets m)"
  shows "check_asset lib (bundle_files lib m files) a =
    Inr (map (\<lambda>f. ba_path a @ fst f) (asset_files (ba_path a) (bundle_files lib m files)))"
proof -
  let ?A = "asset_files (ba_path a) files" and ?B = "asset_files (ba_path a) (bundle_files lib m files)"
  note set = asset_files_bundle [OF assms]
  have wf: "wf_dict ?A" "wf_dict ?B"
    using asset_files_wf assms(1) bundle_files_set(2) [OF assms(1,2)] by blast+
  then have "map_of ?A = map_of ?B" using set by (simp add: wf_dict_def map_of_inject_set)
  then have "tree_bytes ?A = tree_bytes ?B" using wf by (rule tree_bytes_cong)
  moreover have "?A = [] \<longleftrightarrow> ?B = []" using set by (metis set_empty)
  moreover have "validate_relative_path (ba_path a) True = Inr (ba_path a) \<and> ends_with ''/'' (ba_path a) \<and>
        (?A = [] \<longrightarrow> ba_kind a = Skill_package) \<and> [] \<notin> fst ` set ?A \<and>
        ba_sha256 a = canonical_tree_sha256 (ar_sha256 lib) ?A"
    using assms(2,3) unfolding assets_declared_def by blast
  ultimately show ?thesis
    unfolding check_asset_def Let_def by (simp add: canonical_tree_sha256_def set)
qed

lemma map_res_all: "\<forall>x \<in> set xs. f x = Inr (g x) \<Longrightarrow> map_res f xs = Inr (map g xs)"
  by (induction xs) auto

lemma build_parse:
  assumes built: "build_bundle lib m files = Inr content"
    and zip: "ar_read lib content = Some (map stored_entry (bundle_files lib m files))"
    and json: "ar_decode lib (ar_canonical lib m) = Some m" and valid: "manifest_valid m"
    and wf: "wf_dict files" and declared: "assets_declared lib m files"
    and unique: "distinct (folded_names (bundle_files lib m files))"
    and no_dir: "\<forall>f \<in> set (bundle_files lib m files).
       set (path_prefixes (fst f)) \<inter> fst ` set (bundle_files lib m files) = {}"
  shows "parse_bundle lib content =
    Inr \<lparr>pb_manifest = m, pb_files = bundle_files lib m files, pb_bundle_sha256 = ar_sha256 lib content,
         pb_manifest_sha256 = ar_sha256 lib (ar_canonical lib m)\<rparr>"
proof -
  let ?F = "bundle_files lib m files"
  note set = bundle_files_set [OF wf declared]
  obtain zs where "map_res bundle_entry ?F = Inr zs"
    using built unfolding build_bundle_def bundle_files_def by (auto simp: bind_res_eq_Inr)
  then have "list_all entry_ok (map stored_entry ?F)" using map_bundle_entry by blast
  moreover have "map entry_file (map stored_entry ?F) = ?F" by (simp add: comp_def)
  ultimately have "read_entries (map stored_entry ?F) [] = Inr ?F"
    using read_entries_iff [of "[]" "map stored_entry ?F" ?F] unique by simp
  then have archive: "read_archive lib content = Inr ?F"
    unfolding read_archive_def zip by (simp add: no_dir)
  have manifest: "map_of ?F manifest_name = Some (ar_canonical lib m)"
    using set unfolding wf_dict_def by (intro map_of_is_SomeI) auto
  have read: "read_manifest lib (ar_canonical lib m) = Inr m"
    by (simp add: read_manifest_def json valid)
  let ?g = "\<lambda>a. map (\<lambda>f. ba_path a @ fst f) (asset_files (ba_path a) ?F)"
  have assets: "map_res (check_asset lib ?F) (bm_assets m) = Inr (map ?g (bm_assets m))"
    by (rule map_res_all) (use check_declared [OF wf declared] in blast)
  have "fst ` set ?F = insert manifest_name (set (concat (map ?g (bm_assets m))))"
  proof
    show "fst ` set ?F \<subseteq> insert manifest_name (set (concat (map ?g (bm_assets m))))"
    proof
      fix n assume "n \<in> fst ` set ?F"
      then consider "n = manifest_name" | f where "f \<in> set files" "n = fst f" using set(1) by auto
      then show "n \<in> insert manifest_name (set (concat (map ?g (bm_assets m))))"
      proof cases
        case 2
        then obtain a p where a: "a \<in> set (bm_assets m)" "fst f = ba_path a @ p"
          using declared unfolding assets_declared_def starts_with_def prefix_def by blast
        then have "(p, snd f) \<in> set (asset_files (ba_path a) ?F)"
          unfolding asset_files_set using 2 set(1) by (metis fst_conv insertI2 prod.collapse snd_conv)
        then have "n \<in> set (?g a)" using a(2) 2(2) by force
        with a(1) show ?thesis by auto
      qed simp
    qed
    show "insert manifest_name (set (concat (map ?g (bm_assets m)))) \<subseteq> fst ` set ?F"
      using set(1) by (force simp: asset_files_set)
  qed
  with manifest read assets show ?thesis
    unfolding parse_bundle_def archive by simp
qed


lemma demo_bundle_files: "bundle_files demo_library demo_manifest [(''assets/skill_packages/s/SKILL.md'', ''x'')] = demo_files"
proof -
  have "ar_canonical demo_library demo_manifest = ''m''" by (simp add: demo_library_def)
  moreover have "sort_by fst (dict_merge [(manifest_name, ''m'')] [(''assets/skill_packages/s/SKILL.md'', ''x'')]) = demo_files"
    by code_simp
  ultimately show ?thesis by (simp only: bundle_files_def)
qed


end
