(* ===== verification/Bundle_Export.thy ===== *)
theory Bundle_Export
  imports Archive_Roundtrip Configuration_Store
begin

text \<open>
  \<open>configuration/bundles/exporting.py\<close> and \<open>validate_asset_ownership\<close> of \<open>assets.py\<close>: the closure of
  a root in the configuration, its records, the snapshots of the package folders, the manifest
  and the archive; and the check of the assets on import.
\<close>

section \<open>The closure of a root\<close>

datatype export_error =
    Export_error string
  | Export_archive bundle_error
  | Export_scan string
  | Export_invalid string

definition lift_archive :: "bundle_error + 'a \<Rightarrow> export_error + 'a" where
  "lift_archive r = (case r of Inl e \<Rightarrow> Inl (Export_archive e) | Inr x \<Rightarrow> Inr x)"

definition export_errors :: "export_error closure_errors" where
  "export_errors =
     \<lparr>cl_omitted = (\<lambda>p. Export_error (''configuration reference is missing: '' @ p)),
      cl_mistyped = (\<lambda>p. Export_error (''configuration reference has the wrong type: '' @ p))\<rparr>"

definition entity_key :: "configuration_entity \<Rightarrow> string list" where
  "entity_key e = [kind_text (ce_kind e), ce_component_type e, ce_id e]"

definition configuration_closure ::
  "to_text \<Rightarrow> (string, json) dict \<Rightarrow> bundle_root \<Rightarrow> export_error + configuration_entity list" where
  "configuration_closure txt config rt =
     (let by_id = entities_by_id (iter_configuration_entities txt config) in
      case map_of by_id (bo_source_id rt) of
        None \<Rightarrow> Inl (Export_error ''configuration bundle root does not exist'')
      | Some e \<Rightarrow>
          if ce_kind e \<noteq> bo_kind rt \<or>
             bo_kind rt = Component \<and> Some (ce_component_type e) \<noteq> bo_component_type rt
          then Inl (Export_error ''configuration bundle root kind or type is incorrect'')
          else bind_res (closure_loop export_errors txt by_id [e] []) (\<lambda>included.
                 Inr (sort_tuples entity_key (map (\<lambda>i. the (map_of by_id i)) included))))"

section \<open>Records and the snapshot\<close>

text \<open>The constructor of \<open>BundleRecord\<close> checks the identifier and normalises the name.\<close>

definition make_record ::
  "entity_kind \<Rightarrow> string option \<Rightarrow> string \<Rightarrow> string \<Rightarrow> (string, json) dict \<Rightarrow> export_error + bundle_record" where
  "make_record kind ctype source_id name payload =
     bind_res (require (is_configuration_id source_id) (Export_invalid ''source_id'')) (\<lambda>_.
     (case normalize_configuration_name name of
        Inl _ \<Rightarrow> Inl (Export_invalid ''name'')
      | Inr n \<Rightarrow>
          let r = \<lparr>br_kind = kind, br_source_id = source_id, br_name = n, br_component_type = ctype,
                   br_payload = payload\<rparr> in
          (case record_error r of None \<Rightarrow> Inr r | Some msg \<Rightarrow> Inl (Export_invalid msg))))"

definition export_record :: "to_text \<Rightarrow> configuration_entity \<Rightarrow> export_error + bundle_record" where
  "export_record txt e =
     (let payload = AList.delete ''id'' (ce_payload e); f = name_field (ce_kind e) in
      make_record (ce_kind e) (if ce_component_type e = [] then None else Some (ce_component_type e))
        (ce_id e) (text_field txt f payload) (AList.delete f payload))"

definition add_component_record ::
  "configuration_entity \<Rightarrow> (string, (string, json) dict list) dict \<Rightarrow> (string, (string, json) dict list) dict" where
  "add_component_record e types =
     AList.update (ce_component_type e)
       ((case map_of types (ce_component_type e) of None \<Rightarrow> [] | Some rs \<Rightarrow> rs) @ [ce_payload e]) types"

definition kind_records :: "entity_kind \<Rightarrow> configuration_entity list \<Rightarrow> json" where
  "kind_records k es = JList (map (\<lambda>e. JObj (ce_payload e)) (filter (\<lambda>e. ce_kind e = k) es))"

definition snapshot_config :: "configuration_entity list \<Rightarrow> (string, json) dict" where
  "snapshot_config es =
     [(''config_version'', JInt config_version),
      (''components'', JObj (map (\<lambda>(t, rs). (t, JList (map JObj rs)))
         (fold add_component_record (components_of es) []))),
      (''external_agents'', kind_records External_agent es),
      (''main_agents'', kind_records Main_agent es),
      (''mcp_tools'', kind_records Mcp_tool es),
      (''subagents'', kind_records Subagent es),
      (''workflows'', kind_records Workflow es)]"

section \<open>The assets\<close>

text \<open>
  What the exporter meets outside: the first error of the validation of a snapshot, the folders
  when they are read first and read again, and the scan of a staged Python package.
\<close>

record export_host =
  xh_report :: "(string, json) dict \<Rightarrow> (string \<times> string) option"
  xh_before :: "string list \<Rightarrow> disk_folder"
  xh_after :: "string list \<Rightarrow> disk_folder"
  xh_scan :: "string \<Rightarrow> string \<Rightarrow> (string, string) dict \<Rightarrow> string option"

definition stable_snapshot ::
  "archive_library \<Rightarrow> string \<Rightarrow> bool \<Rightarrow> disk_folder \<Rightarrow> ((string, string) dict \<Rightarrow> export_error + unit) \<Rightarrow>
   disk_folder \<Rightarrow> export_error + (string, string) dict" where
  "stable_snapshot lib changed exclude before check after =
     bind_res (lift_archive (snapshot_directory exclude before)) (\<lambda>files.
     bind_res (check files) (\<lambda>_.
     bind_res (lift_archive (snapshot_directory exclude after)) (\<lambda>again.
     bind_res (require (canonical_tree_sha256 (ar_sha256 lib) files = canonical_tree_sha256 (ar_sha256 lib) again)
       (Export_error changed)) (\<lambda>_.
       Inr files))))"

definition stage_and_scan ::
  "export_host \<Rightarrow> configuration_entity \<Rightarrow> (string, string) dict \<Rightarrow> export_error + unit" where
  "stage_and_scan host e files =
     bind_res (lift_archive (materialize_files [ce_id e] files)) (\<lambda>_.
       (case xh_scan host (ce_component_type e) (ce_id e) files of
          None \<Rightarrow> Inr () | Some msg \<Rightarrow> Inl (Export_scan msg)))"

definition python_prefix :: "string \<Rightarrow> string" where
  "python_prefix i = ''assets/python_packages/'' @ i @ ''/''"

definition skill_prefix :: "string \<Rightarrow> string" where
  "skill_prefix i = ''assets/skill_packages/'' @ i @ ''/''"

type_synonym asset_state = "bundle_asset list \<times> (string, string) dict"

definition add_asset ::
  "archive_library \<Rightarrow> asset_kind \<Rightarrow> string \<Rightarrow> string \<Rightarrow> (string, string) dict \<Rightarrow> asset_state \<Rightarrow> asset_state" where
  "add_asset lib kind owner pre files st =
     (fst st @ [\<lparr>ba_kind = kind, ba_owner_source_id = owner, ba_path = pre,
                 ba_sha256 = canonical_tree_sha256 (ar_sha256 lib) files\<rparr>],
      dict_merge (snd st) (map (\<lambda>f. (pre @ fst f, snd f)) files))"

definition package_folder_name :: "to_text \<Rightarrow> configuration_entity \<Rightarrow> string" where
  "package_folder_name txt e =
     (case map_of (ce_payload e) ''python_package'' of
        None \<Rightarrow> text_field txt ''folder'' []
      | Some (JObj d) \<Rightarrow> text_field txt ''folder'' d
      | Some _ \<Rightarrow> [])"

definition package_folder_ok :: "string \<Rightarrow> bool" where
  "package_folder_ok name \<longleftrightarrow> normalize_configuration_name name = Inr name"

definition export_package ::
  "to_text \<Rightarrow> archive_library \<Rightarrow> export_host \<Rightarrow> configuration_entity \<Rightarrow> asset_state \<Rightarrow> export_error + asset_state" where
  "export_package txt lib host e st =
     (case map_of package_directories (ce_component_type e) of
        None \<Rightarrow> Inr st
      | Some directory \<Rightarrow>
          let name = package_folder_name txt e; folder = [''packages'', directory, name] in
          bind_res (require (name = ce_name e)
            (Export_error ''Python package folder does not match its Component name'')) (\<lambda>_.
          bind_res (require (package_folder_ok name \<and> df_is_dir (xh_before host folder) \<and> \<not> df_link (xh_before host folder))
            (Export_error (''Python package is missing for configuration '' @ ce_id e))) (\<lambda>_.
          bind_res (stable_snapshot lib (''Python package changed while it was exported: '' @ ce_id e) True
              (xh_before host folder) (stage_and_scan host e) (xh_after host folder)) (\<lambda>files.
            Inr (add_asset lib Python_package (ce_id e) (python_prefix (ce_id e)) files st)))))"

definition export_skill ::
  "archive_library \<Rightarrow> export_host \<Rightarrow> configuration_entity \<Rightarrow> asset_state \<Rightarrow> export_error + asset_state" where
  "export_skill lib host e st =
     (if ce_component_type e \<noteq> ''skill'' then Inr st
      else
        let folder = [''skills'', ce_name e] in
        bind_res (require (folder_is ''skill_package'' (ce_name e) (ce_payload e))
          (Export_error ''Skill package folder does not match its Component name'')) (\<lambda>_.
        bind_res (require (df_is_dir (xh_before host folder) \<and> \<not> df_link (xh_before host folder))
          (Export_error (''Skill package is missing for configuration '' @ ce_id e))) (\<lambda>_.
        bind_res (stable_snapshot lib (''Skill package changed while it was exported: '' @ ce_id e) False
            (xh_before host folder) (\<lambda>_. Inr ()) (xh_after host folder)) (\<lambda>files.
          Inr (add_asset lib Skill_package (ce_id e) (skill_prefix (ce_id e)) files st)))))"

fun export_assets ::
  "to_text \<Rightarrow> archive_library \<Rightarrow> export_host \<Rightarrow> configuration_entity list \<Rightarrow> asset_state \<Rightarrow>
   export_error + asset_state" where
  "export_assets txt lib host [] st = Inr st"
| "export_assets txt lib host (e # es) st =
     (if ce_kind e \<noteq> Component then export_assets txt lib host es st
      else bind_res (export_package txt lib host e st) (\<lambda>st1.
           bind_res (export_skill lib host e st1) (export_assets txt lib host es)))"

section \<open>The bundle\<close>

definition strip_chars :: "char list \<Rightarrow> string \<Rightarrow> string" where
  "strip_chars cs s =
     rev (dropWhile (\<lambda>c. c \<in> set cs) (rev (dropWhile (\<lambda>c. c \<in> set cs) s)))"

definition bundle_download_filename :: "string \<Rightarrow> string \<Rightarrow> string" where
  "bundle_download_filename name fallback =
     (let safe = strip_chars ''-.'' (map (\<lambda>c. if alnum_char c \<or> c \<in> set ''-_.'' then c else CHR ''-'') (str_strip name));
          base = (if safe = [] then fallback else safe) in
      (if is_windows_reserved_name base then ''configuration-'' @ base else base) @ ''.agent-shell-config.zip'')"

definition unsupported_component :: "configuration_entity \<Rightarrow> bool" where
  "unsupported_component e \<longleftrightarrow> ce_kind e = Component \<and> ce_component_type e \<notin> set managed_component_types"

definition make_manifest ::
  "bundle_root \<Rightarrow> bundle_record list \<Rightarrow> bundle_asset list \<Rightarrow> export_error + bundle_manifest" where
  "make_manifest rt records assets =
     (let m = \<lparr>bm_root = rt, bm_records = records, bm_assets = sort_tuples asset_key assets\<rparr> in
      case validate_identities m of None \<Rightarrow> Inr m | Some msg \<Rightarrow> Inl (Export_invalid msg))"

text \<open>What goes into the archive: the manifest and the files of the assets.\<close>

definition export_parts ::
  "to_text \<Rightarrow> archive_library \<Rightarrow> export_host \<Rightarrow> (string, json) dict \<Rightarrow> bundle_root \<Rightarrow>
   export_error + bundle_manifest \<times> (string, string) dict" where
  "export_parts txt lib host config rt =
     bind_res (configuration_closure txt config rt) (\<lambda>entities.
     (case find unsupported_component entities of
        Some e \<Rightarrow> Inl (Export_error (''configuration component type is unsupported: '' @ ce_component_type e))
      | None \<Rightarrow>
     (case xh_report host (snapshot_config entities) of
        Some (path, message) \<Rightarrow>
          Inl (Export_error (''configuration closure is invalid: '' @ path @ '': '' @ message))
      | None \<Rightarrow>
          bind_res (map_res (export_record txt) entities) (\<lambda>records.
          bind_res (export_assets txt lib host entities ([], [])) (\<lambda>(assets, files).
          bind_res (make_manifest rt records assets) (\<lambda>m.
            Inr (m, files)))))))"

record exported_bundle =
  xb_content :: string
  xb_filename :: string

definition export_bundle ::
  "to_text \<Rightarrow> archive_library \<Rightarrow> export_host \<Rightarrow> (string, json) dict \<Rightarrow> bundle_root \<Rightarrow>
   export_error + exported_bundle" where
  "export_bundle txt lib host config rt =
     bind_res (export_parts txt lib host config rt) (\<lambda>(m, files).
       (case find (\<lambda>r. br_source_id r = bo_source_id rt) (bm_records m) of
          None \<Rightarrow> Inl (Export_error ''StopIteration'')
        | Some r \<Rightarrow>
            bind_res (lift_archive (build_bundle lib m files)) (\<lambda>content.
              Inr \<lparr>xb_content = content,
                   xb_filename = bundle_download_filename (br_name r) (kind_text (bo_kind rt))\<rparr>)))"

section \<open>Ownership of the assets on import\<close>

definition assets_of_kind :: "asset_kind \<Rightarrow> bundle_asset list \<Rightarrow> (string, bundle_asset) dict" where
  "assets_of_kind k as = dict_of (map (\<lambda>a. (ba_owner_source_id a, a)) (filter (\<lambda>a. ba_kind a = k) as))"

definition validate_asset_ownership ::
  "parsed_bundle \<Rightarrow> (string, string) dict \<Rightarrow> string list \<Rightarrow>
   bundle_error + (string, bundle_asset) dict \<times> (string, bundle_asset) dict" where
  "validate_asset_ownership parsed component_types skill_owners =
     (let packages = assets_of_kind Python_package (bm_assets (pb_manifest parsed));
          skills = assets_of_kind Skill_package (bm_assets (pb_manifest parsed));
          expected = fst ` set (filter (\<lambda>kv. map_of package_directories (snd kv) \<noteq> None) component_types) in
      bind_res (require (fst ` set packages = expected)
        (Archive_error ''bundle Python package assets do not match package-backed records'')) (\<lambda>_.
      bind_res (require (fst ` set skills = set skill_owners)
        (Archive_error ''bundle Skill package assets do not match Skill Component records'')) (\<lambda>_.
      bind_res (require (\<forall>kv \<in> set packages. ba_path (snd kv) = python_prefix (fst kv))
        (Archive_error ''bundle Python package asset path is not canonical'')) (\<lambda>_.
      bind_res (require (\<forall>kv \<in> set skills. ba_path (snd kv) = skill_prefix (fst kv))
        (Archive_error ''bundle Skill package asset path is not canonical'')) (\<lambda>_.
        Inr (packages, skills))))))"

end
