(* ===== verification/Export_Closure.thy ===== *)
theory Export_Closure
  imports Bundle_Export
begin

text \<open>
  The records of an export: they are the entities that the root reaches, each as it was, so the
  closure check of the import accepts them.
\<close>

section \<open>Sorting by tuples\<close>

lemma insert_tuple_mset [simp]: "mset (insert_tuple key x xs) = add_mset x (mset xs)"
  by (induction xs) auto

lemma sort_tuples_mset [simp]: "mset (sort_tuples key xs) = mset xs"
  by (induction xs) (auto simp: sort_tuples_def)

lemma sort_tuples_set [simp]: "set (sort_tuples key xs) = set xs"
  by (metis set_mset_mset sort_tuples_mset)

lemma sort_tuples_distinct: "distinct (map f (sort_tuples key xs)) \<longleftrightarrow> distinct (map f xs)"
proof -
  have "mset (map f (sort_tuples key xs)) = mset (map f xs)" by simp
  then show ?thesis by (rule mset_eq_imp_distinct_iff)
qed

section \<open>The entities of an export\<close>

lemma closure_loop_distinct:
  "closure_loop errs txt by_id pending reached = Inr R \<Longrightarrow> distinct reached \<Longrightarrow> distinct R"
proof (induction errs "txt" by_id pending reached rule: closure_loop.induct)
  case (1 errs tx by_id pending reached)
  show ?case
  proof (cases "pending = []")
    case True
    with 1(3,4) show ?thesis by (simp add: closure_loop.simps)
  next
    case False
    show ?thesis
    proof (cases "ce_id (last pending) \<in> set reached")
      case True
      then have "closure_loop errs tx by_id (butlast pending) reached = Inr R"
        using 1(3) False by (subst (asm) closure_loop.simps) (simp add: Let_def)
      then show ?thesis using 1(1) [OF False refl True] 1(4) by blast
    next
      case new: False
      from 1(3) False new obtain ts where ts:
        "closure_targets errs by_id (iter_configuration_references tx (last pending)) = Inr ts"
        "closure_loop errs tx by_id (butlast pending @ ts) (reached @ [ce_id (last pending)]) = Inr R"
        by (subst (asm) closure_loop.simps) (auto simp: Let_def bind_res_eq_Inr)
      from 1(2) [OF False refl new ts(1) ts(2)] 1(4) new show ?thesis by simp
    qed
  qed
qed

text \<open>Every payload is the one of a sound entity: identity and name are its texts.\<close>

definition texts :: "to_text \<Rightarrow> bool" where
  "texts txt \<longleftrightarrow> (\<forall>s. txt (JStr s) = s)"

definition entity_reads :: "to_text \<Rightarrow> configuration_entity \<Rightarrow> bool" where
  "entity_reads txt e \<longleftrightarrow> ce_id e = text_field txt ''id'' (ce_payload e) \<and>
     ce_name e = text_field txt (name_field (ce_kind e)) (ce_payload e) \<and>
     (ce_kind e = Component \<longleftrightarrow> ce_component_type e \<noteq> [])"

definition component_types_named :: "(string, json) dict \<Rightarrow> bool" where
  "component_types_named config \<longleftrightarrow>
     (case field ''components'' config of JObj types \<Rightarrow> [] \<notin> fst ` set types | _ \<Rightarrow> True)"

lemma entity_of_reads:
  "entity_reads txt (entity_of txt k t (name_field k) r) \<longleftrightarrow> (k = Component \<longleftrightarrow> t \<noteq> [])"
  by (simp add: entity_reads_def entity_of_def)

lemma iter_reads:
  assumes "component_types_named config" and "e \<in> set (iter_configuration_entities txt config)"
  shows "entity_reads txt e"
proof -
  have f: "name_field Component = ''name''" "name_field Main_agent = ''name''" "name_field Subagent = ''component_name''"
    "name_field External_agent = ''name''" "name_field Workflow = ''name''" "name_field Mcp_tool = ''name''"
    by (simp_all add: name_field_def)
  note read = entity_of_reads [of "txt" Component, unfolded f] entity_of_reads [of "txt" Main_agent, unfolded f]
    entity_of_reads [of "txt" Subagent, unfolded f] entity_of_reads [of "txt" External_agent, unfolded f]
    entity_of_reads [of "txt" Workflow, unfolded f] entity_of_reads [of "txt" Mcp_tool, unfolded f]
  have comp: "JObj types = field ''components'' config \<Longrightarrow> ([], v) \<notin> set types" for types v
    using assms(1) by (force simp: component_types_named_def split: json.splits)
  from assms(2) show ?thesis
    unfolding iter_configuration_entities_def
    by (auto simp: read split: json.splits dest: comp)
qed

lemma sound_id:
  assumes "texts txt" and "entity_reads txt e" and "entity_id_of e = Some i"
  shows "ce_id e = i \<and> map_of (ce_payload e) ''id'' = Some (JStr i) \<and> is_configuration_id i"
  using assms by (auto simp: entity_id_of_def entity_reads_def text_field_def texts_def
      split: option.splits json.splits if_splits)

lemma sound_name:
  assumes "texts txt" and "entity_reads txt e" and "well_named e"
  shows "map_of (ce_payload e) (name_field (ce_kind e)) = Some (JStr (ce_name e)) \<and>
    normalize_configuration_name (ce_name e) = Inr (ce_name e)"
  using assms by (auto simp: well_named_def entity_reads_def text_field_def texts_def)

text \<open>The facts an export relies on, per entity.\<close>

definition exportable :: "configuration_entity \<Rightarrow> bool" where
  "exportable e \<longleftrightarrow> wf_dict (ce_payload e) \<and> is_configuration_id (ce_id e) \<and> map_of (ce_payload e) ''id'' = Some (JStr (ce_id e)) \<and>
     map_of (ce_payload e) (name_field (ce_kind e)) = Some (JStr (ce_name e)) \<and>
     normalize_configuration_name (ce_name e) = Inr (ce_name e) \<and> (ce_kind e = Component \<longleftrightarrow> ce_component_type e \<noteq> [])"

lemma sound_exportable:
  assumes "texts txt" and "component_types_named config"
    and "sound_entities txt (iter_configuration_entities txt config)"
    and "e \<in> set (iter_configuration_entities txt config)" and "wf_dict (ce_payload e)"
  shows "exportable e"
proof -
  have reads: "entity_reads txt e" using iter_reads [OF assms(2,4)] .
  have "entity_id_of e = Some (payload_id e)" "well_named e"
    using assms(3,4) unfolding sound_entities_def by blast+
  with sound_id [OF assms(1) reads] sound_name [OF assms(1) reads] reads assms(5) show ?thesis
    by (simp add: exportable_def entity_reads_def)
qed

lemma sound_distinct_ids:
  assumes "texts txt" and "component_types_named config"
    and "sound_entities txt (iter_configuration_entities txt config)"
  shows "distinct (map ce_id (iter_configuration_entities txt config))"
proof -
  have "ce_id e = payload_id e" if e: "e \<in> set (iter_configuration_entities txt config)" for e
  proof -
    have "entity_id_of e = Some (payload_id e)" using assms(3) e unfolding sound_entities_def by blast
    from sound_id [OF assms(1) iter_reads [OF assms(2) e] this] show ?thesis by blast
  qed
  then have "map ce_id (iter_configuration_entities txt config) = map payload_id (iter_configuration_entities txt config)"
    by simp
  moreover have "distinct (map payload_id (iter_configuration_entities txt config))"
    using assms(3) unfolding sound_entities_def by blast
  ultimately show ?thesis by (simp only:)
qed

lemma configuration_closure_spec:
  assumes dist: "distinct (map ce_id (iter_configuration_entities txt config))"
    and closure: "configuration_closure txt config rt = Inr es"
  shows "\<exists>r \<in> set (iter_configuration_entities txt config). ce_id r = bo_source_id rt \<and>
     set es = {e. (r, e) \<in> (bundle_edge txt (iter_configuration_entities txt config))\<^sup>*} \<and>
     distinct (map ce_id es) \<and> set es \<subseteq> set (iter_configuration_entities txt config) \<and>
     (\<forall>e \<in> set es. resolved txt (entities_by_id (iter_configuration_entities txt config)) e)"
proof -
  let ?all = "iter_configuration_entities txt config" let ?m = "entities_by_id ?all"
  note get = entities_by_id_get [OF dist]
  from closure obtain r R where r: "map_of ?m (bo_source_id rt) = Some r"
    and R: "closure_loop export_errors txt ?m [r] [] = Inr R"
    and es: "es = sort_tuples entity_key (map (\<lambda>i. the (map_of ?m i)) R)"
    unfolding configuration_closure_def Let_def
    by (auto simp: bind_res_eq_Inr split: option.splits if_splits)
  have r': "r \<in> set ?all" "ce_id r = bo_source_id rt" using r get by auto
  let ?reach = "{e. (r, e) \<in> (bundle_edge txt ?all)\<^sup>*}"
  have spec: "set R = ce_id ` ?reach" "\<forall>e \<in> ?reach. resolved txt ?m e"
    using closure_loop_reach [OF dist r'(1), of "txt" export_errors] R by auto
  have sub: "?reach \<subseteq> set ?all"
    using closure_rel_bundle [OF dist _ r'(1)] reachable_iff [OF dist r'(1)] by blast
  have look: "the (map_of ?m (ce_id e)) = e" if "e \<in> ?reach" for e
  proof -
    have "map_of ?m (ce_id e) = Some e" using sub that by (intro iffD2 [OF get]) blast
    then show ?thesis by simp
  qed
  have "set es = (\<lambda>i. the (map_of ?m i)) ` set R" unfolding es by simp
  also have "\<dots> = ?reach" unfolding spec(1) image_image using look by force
  finally have set: "set es = ?reach" .
  have "map ce_id (map (\<lambda>i. the (map_of ?m i)) R) = R"
    unfolding map_map by (rule map_idI) (use spec(1) look in auto)
  moreover have "distinct R" using closure_loop_distinct [OF R] by simp
  ultimately have "distinct (map ce_id es)" unfolding es sort_tuples_distinct by (simp only:)
  with r' set spec(2) sub show ?thesis by auto
qed

section \<open>Records and back\<close>

lemma references_cong:
  assumes "ce_id a = ce_id b" "ce_kind a = ce_kind b" "ce_name a = ce_name b"
    "ce_component_type a = ce_component_type b" "map_of (ce_payload a) = map_of (ce_payload b)"
  shows "iter_configuration_references txt a = iter_configuration_references txt b"
proof -
  have f: "field k (ce_payload a) = field k (ce_payload b)" for k by (simp add: field_def assms(5))
  have mk: "mk_reference a = mk_reference b" by (intro ext) (simp add: mk_reference_def assms)
  have o: "object_or_empty k (ce_payload a) = object_or_empty k (ce_payload b)" for k
    by (simp add: object_or_empty_def assms(5))
  have l: "list_references b (ce_payload a) = list_references b (ce_payload b)"
    by (intro ext) (simp add: list_references_def f)
  have l': "list_references a d = list_references b d" for d
    by (intro ext) (simp add: list_references_def mk)
  have s: "scalar_reference a = scalar_reference b"
    by (intro ext) (simp add: scalar_reference_def f mk)
  have c: "command_node_references a = command_node_references b"
    by (intro ext) (auto simp: command_node_references_def mk split: option.splits)
  have g: "graph_references a = graph_references b"
    by (intro ext) (unfold graph_references_def o c, rule refl)
  have ov: "override_references txt a = override_references txt b"
    by (intro ext) (simp add: override_references_def mk)
  show ?thesis
    by (simp add: iter_configuration_references_def component_references_def main_agent_references_def
        subagent_references_def workflow_references_def mcp_tool_references_def assms(2,4) l l' s g o ov
        cong: option.case_cong entity_kind.case_cong)
qed

definition same_entity :: "configuration_entity \<Rightarrow> configuration_entity \<Rightarrow> bool" where
  "same_entity a b \<longleftrightarrow> ce_id a = ce_id b \<and> ce_kind a = ce_kind b \<and> ce_name a = ce_name b \<and>
     ce_component_type a = ce_component_type b \<and> map_of (ce_payload a) = map_of (ce_payload b)"

lemma export_record_entity:
  assumes "texts txt" and "exportable e" and "export_record txt e = Inr r"
  shows "same_entity (source_entity r) e \<and> br_source_id r = ce_id e \<and> record_error r = None"
proof -
  let ?f = "name_field (ce_kind e)" let ?p = "AList.delete ''id'' (ce_payload e)"
  have f: "?f \<noteq> ''id''" by (simp add: name_field_def)
  have name: "text_field txt ?f ?p = ce_name e"
    using assms(1,2) f by (simp add: text_field_def dict_get_pop exportable_def texts_def)
  have r: "r = \<lparr>br_kind = ce_kind e, br_source_id = ce_id e, br_name = ce_name e,
      br_component_type = (if ce_component_type e = [] then None else Some (ce_component_type e)),
      br_payload = AList.delete ?f ?p\<rparr> \<and> record_error r = None"
    using assms(2,3) unfolding export_record_def Let_def name make_record_def
    by (auto simp: exportable_def bind_res_eq_Inr Let_def split: option.splits)
  have wf: "wf_dict (AList.delete ?f ?p)" using assms(2) by (simp add: exportable_def)
  have own: "map_of (ce_payload e) ''id'' = Some (JStr (ce_id e))" "map_of (ce_payload e) ?f = Some (JStr (ce_name e))"
    using assms(2) by (simp_all add: exportable_def)
  have "map_of (ce_payload (source_entity r)) k = map_of (ce_payload e) k" for k
  proof -
    have "map_of (ce_payload (source_entity r)) k =
        (if k = ''id'' then Some (JStr (ce_id e))
         else case map_of (AList.delete ?f ?p) k of
                None \<Rightarrow> map_of [(?f, JStr (ce_name e))] k | Some v \<Rightarrow> Some v)"
      using r wf by (simp add: source_entity_def dict_get_set dict_merge_get_wf)
    also have "\<dots> = map_of (ce_payload e) k"
      using own f by (simp add: dict_get_pop split: option.splits)
    finally show ?thesis .
  qed
  then have "map_of (ce_payload (source_entity r)) = map_of (ce_payload e)" by (rule ext)
  moreover have "record_error r = None" using r by blast
  ultimately show ?thesis using conjunct1 [OF r] by (auto simp: same_entity_def source_entity_def type_text_def)
qed

end
