(* ===== verification/Export_Assets.thy ===== *)
theory Export_Assets
  imports Export_Closure
begin

text \<open>
  The assets of an export: each has its own directory in the archive, whose files are those of
  the snapshot its digest was computed from.
\<close>

section \<open>Directories of assets\<close>

fun asset_prefix :: "asset_kind \<Rightarrow> string \<Rightarrow> string" where
  "asset_prefix Python_package i = python_prefix i"
| "asset_prefix Skill_package i = skill_prefix i"

lemma slash_cut: "c \<notin> set i \<Longrightarrow> c \<notin> set j \<Longrightarrow> i @ c # p = j @ c # q \<Longrightarrow> i = j \<and> p = q"
proof (induction i arbitrary: j)
  case Nil
  then show ?case by (cases j) auto
next
  case (Cons x i)
  then show ?case by (cases j) auto
qed

lemma asset_prefix_inject:
  assumes "CHR ''/'' \<notin> set i" and "CHR ''/'' \<notin> set j" and "asset_prefix k i @ p = asset_prefix k' j @ q"
  shows "k = k' \<and> i = j \<and> p = q"
proof -
  have "k = k'"
    using assms(3) by (cases k; cases k') (simp_all add: python_prefix_def skill_prefix_def)
  moreover from this have "i @ CHR ''/'' # p = j @ CHR ''/'' # q"
    using assms(3) by (cases k') (simp_all add: python_prefix_def skill_prefix_def)
  ultimately show ?thesis using slash_cut [OF assms(1,2)] by blast
qed

lemma id_chars: "is_configuration_id i \<Longrightarrow> c \<in> set i \<Longrightarrow> hex_class c \<or> c = CHR ''-''"
proof -
  assume i: "is_configuration_id i" and c: "c \<in> set i"
  then obtain ps where ps: "split_on (CHR ''-'') i = ps" "list_all hex_class (concat ps)"
    unfolding is_configuration_id_def by (auto split: list.splits)
  have "set i \<subseteq> set ''-'' \<union> \<Union> (set ` set ps)"
    using join_split [of "CHR ''-''" i] join_set [of "''-''" ps] ps(1) by simp
  with c ps(2) show ?thesis by (auto simp: list_all_iff)
qed

lemma id_length: "is_configuration_id i \<Longrightarrow> 8 \<le> length i"
proof -
  assume "is_configuration_id i"
  then obtain a b c d e where ps: "split_on (CHR ''-'') i = [a, b, c, d, e]" "length a = 8"
    unfolding is_configuration_id_def by (auto split: list.splits)
  have "i = join ''-'' [a, b, c, d, e]" using join_split [of "CHR ''-''" i] ps(1) by simp
  with ps(2) show ?thesis by simp
qed

lemma id_char_range: "is_configuration_id i \<Longrightarrow> c \<in> set i \<Longrightarrow>
    char_nat c = 45 \<or> 48 \<le> char_nat c \<and> char_nat c \<le> 57 \<or> 97 \<le> char_nat c \<and> char_nat c \<le> 102"
  by (drule (1) id_chars) (auto simp: hex_class_def digit_class_def)

lemma id_not_char:
  assumes "is_configuration_id i"
    and "\<not> (char_nat c = 45 \<or> 48 \<le> char_nat c \<and> char_nat c \<le> 57 \<or> 97 \<le> char_nat c \<and> char_nat c \<le> 102)"
  shows "c \<notin> set i"
  using id_char_range [OF assms(1)] assms(2) by blast

lemma id_no_slash: "is_configuration_id i \<Longrightarrow> CHR ''/'' \<notin> set i"
  by (rule id_not_char) simp_all

lemma id_casefold: "is_configuration_id i \<Longrightarrow> casefold i = map char_nat i"
proof -
  assume i: "is_configuration_id i"
  have "fold_char c = [char_nat c]" if "c \<in> set i" for c
    using id_char_range [OF i that] by (auto simp: fold_char_def upper_char_def Let_def)
  then have "set s \<subseteq> set i \<Longrightarrow> concat (map fold_char s) = map char_nat s" for s
    by (induction s) auto
  then show ?thesis by (simp add: casefold_def)
qed

lemma id_safe: "is_configuration_id i \<Longrightarrow> safe_segment i"
proof -
  assume i: "is_configuration_id i"
  note len = id_length [OF i] and no = id_not_char [OF i]
  have dot: "CHR ''.'' \<notin> set i" and blank: "CHR '' '' \<notin> set i" by (rule no; simp)+
  have "first_part i = i" using dot by (auto simp: first_part_def takeWhile_eq_all_conv)
  moreover have short: "list_all (\<lambda>r. length r \<le> 4) reserved_stems" by code_simp
  moreover have "casefold i \<notin> map char_nat ` set reserved_stems"
  proof
    assume "casefold i \<in> map char_nat ` set reserved_stems"
    then obtain r where "r \<in> set reserved_stems" "map char_nat i = map char_nat r"
      unfolding id_casefold [OF i] by blast
    then have "length i \<le> 4" using short by (metis length_map list_all_iff)
    with len show False by simp
  qed
  ultimately have reserved: "\<not> is_windows_reserved_name i" by (simp add: is_windows_reserved_name_def)
  have chars: "32 \<le> char_nat c \<and> c \<notin> set invalid_filename_characters" if c: "c \<in> set i" for c
  proof -
    have "list_all (\<lambda>c. \<not> (char_nat c = 45 \<or> 48 \<le> char_nat c \<and> char_nat c \<le> 57 \<or>
        97 \<le> char_nat c \<and> char_nat c \<le> 102)) invalid_filename_characters" by code_simp
    then show ?thesis using id_char_range [OF i c] unfolding list_all_iff by auto
  qed
  have ends: "\<not> ends_with [x] i" if "x \<notin> set i" for x
    using that by (auto simp: ends_with_def suffix_def)
  have "i \<notin> {[], ''.'', ''..''}" using len by auto
  then have "segment_error i = None"
    unfolding segment_error_None using ends [OF dot] ends [OF blank] chars reserved by blast
  then show ?thesis unfolding safe_segment_iff by (auto simp: no)
qed

section \<open>Files below a directory\<close>

lemma map_of_prefixed:
  "map_of (map (\<lambda>f. (pre @ fst f, snd f)) s) k =
     (if starts_with pre k then map_of s (drop (length pre) k) else None)"
  by (induction s) (auto simp: starts_with_def prefix_def)

lemma prefixed_wf: "wf_dict s \<Longrightarrow> wf_dict (map (\<lambda>f. (pre @ fst f, snd f)) s)"
  by (induction s) (auto simp: wf_dict_def)

lemma safe_path_nonempty: "v = ''.'' \<or> safe_path v \<Longrightarrow> v \<noteq> []"
proof (erule disjE)
  assume "safe_path v"
  then obtain segs where segs: "segs \<noteq> []" "v = join ''/'' segs" "list_all safe_segment segs"
    unfolding safe_path_def by blast
  have "p \<noteq> []" if p: "p \<in> set segs" for p
  proof -
    have "safe_segment p" using segs(3) p by (simp only: list_all_iff)
    then show ?thesis by (rule conjunct1 [OF safe_segment_nonempty])
  qed
  then have "\<forall>p \<in> set segs. p \<noteq> []" by (rule ballI)
  from join_empty [OF this segs(1)] show "v \<noteq> []" unfolding segs(2) .
qed simp

lemma snapshot_nodes_wf:
  "snapshot_nodes ex ns files = Inr out \<Longrightarrow> wf_dict files \<Longrightarrow> map_of files [] = None \<Longrightarrow>
     wf_dict out \<and> map_of out [] = None"
proof (induction ex ns files rule: snapshot_nodes.induct)
  case (2 ex n ns files)
  show ?case
  proof (cases "tn_content n")
    case None
    with 2 show ?thesis by (auto split: if_splits)
  next
    case (Some c)
    show ?thesis
    proof (cases "ex \<and> python_runtime_file (tn_parts n)")
      case True
      with 2 Some show ?thesis by (auto split: if_splits)
    next
      case False
      then obtain r where r: "validate_relative_path (join ''/'' (tn_parts n)) False = Inr r"
        and rest: "snapshot_nodes ex ns (AList.update r c files) = Inr out" and link: "\<not> tn_link n"
        using 2(4) Some by (auto simp: bind_res_eq_Inr split: if_splits)
      have "r \<noteq> []"
        using safe_path_nonempty [OF conjunct2 [OF iffD1 [OF validate_file r]]] conjunct1 [OF iffD1 [OF validate_file r]]
        by (simp only: not_False_eq_True)
      then show ?thesis
        using 2(3) [OF link Some False r rest] 2(5,6) by (simp add: dict_get_set)
    qed
  qed
qed simp

lemma snapshot_wf: "snapshot_directory ex d = Inr files \<Longrightarrow> wf_dict files \<and> map_of files [] = None"
  by (auto simp: snapshot_directory_def split: if_splits dest: snapshot_nodes_wf)

lemma stable_snapshot_wf:
  "stable_snapshot lib msg ex b check a = Inr files \<Longrightarrow>
     wf_dict files \<and> map_of files [] = None \<and> check files = Inr ()"
  unfolding stable_snapshot_def lift_archive_def
  by (auto simp: bind_res_eq_Inr dest: snapshot_wf split: sum.splits)

section \<open>The invariant of the assets\<close>

definition asset_matches :: "archive_library \<Rightarrow> (string, string) dict \<Rightarrow> bundle_asset \<Rightarrow> bool" where
  "asset_matches lib files a \<longleftrightarrow>
     (\<exists>s. (\<forall>p. map_of files (ba_path a @ p) = map_of s p) \<and> wf_dict s \<and> map_of s [] = None \<and>
        (s = [] \<longrightarrow> ba_kind a = Skill_package) \<and> ba_sha256 a = canonical_tree_sha256 (ar_sha256 lib) s)"

definition owned :: "asset_state \<Rightarrow> (asset_kind \<times> string) set" where
  "owned st = (\<lambda>a. (ba_kind a, ba_owner_source_id a)) ` set (fst st)"

definition asset_state_ok :: "archive_library \<Rightarrow> asset_state \<Rightarrow> bool" where
  "asset_state_ok lib st \<longleftrightarrow>
     wf_dict (snd st) \<and>
     (\<forall>a \<in> set (fst st). is_configuration_id (ba_owner_source_id a) \<and>
        ba_path a = asset_prefix (ba_kind a) (ba_owner_source_id a) \<and> asset_matches lib (snd st) a) \<and>
     (\<forall>f \<in> set (snd st). \<exists>a \<in> set (fst st). starts_with (ba_path a) (fst f))"

lemma owned_simps [simp]:
  "owned ([], fs) = {}"
  "owned (add_asset lib k i pre files st) = insert (k, i) (owned st)"
  by (auto simp: owned_def add_asset_def)

lemma add_asset_ok:
  assumes ok: "asset_state_ok lib st" and new: "(k, i) \<notin> owned st" and i: "is_configuration_id i"
    and files: "wf_dict files" "map_of files [] = None" "files = [] \<longrightarrow> k = Skill_package"
  shows "asset_state_ok lib (add_asset lib k i (asset_prefix k i) files st)"
proof -
  let ?pre = "asset_prefix k i" let ?new = "map (\<lambda>f. (?pre @ fst f, snd f)) files"
  let ?F = "dict_merge (snd st) ?new"
  let ?a = "\<lparr>ba_kind = k, ba_owner_source_id = i, ba_path = ?pre,
      ba_sha256 = canonical_tree_sha256 (ar_sha256 lib) files\<rparr>"
  have get: "map_of ?F n = (case (if starts_with ?pre n then map_of files (drop (length ?pre) n) else None) of
      None \<Rightarrow> map_of (snd st) n | Some v \<Rightarrow> Some v)" for n
    using dict_merge_get_wf [OF prefixed_wf [OF files(1), of ?pre]] by (simp add: map_of_prefixed)
  have old: "map_of ?F (ba_path a @ p) = map_of (snd st) (ba_path a @ p)" if a: "a \<in> set (fst st)" for a p
  proof -
    have path: "is_configuration_id (ba_owner_source_id a)" "ba_path a = asset_prefix (ba_kind a) (ba_owner_source_id a)"
      using ok a unfolding asset_state_ok_def by blast+
    have "(ba_kind a, ba_owner_source_id a) \<noteq> (k, i)" using new a unfolding owned_def by blast
    then have "\<not> starts_with ?pre (ba_path a @ p)"
      unfolding starts_with_def prefix_def path(2)
      using asset_prefix_inject [OF id_no_slash [OF path(1)] id_no_slash [OF i]] by blast
    then show ?thesis unfolding get by simp
  qed
  have none: "map_of (snd st) (?pre @ p) = None" for p
  proof (rule ccontr)
    assume "map_of (snd st) (?pre @ p) \<noteq> None"
    then obtain c where "(?pre @ p, c) \<in> set (snd st)" using map_of_SomeD by fastforce
    then obtain a where a: "a \<in> set (fst st)" "starts_with (ba_path a) (?pre @ p)"
      using ok unfolding asset_state_ok_def by fastforce
    then have path: "is_configuration_id (ba_owner_source_id a)" "ba_path a = asset_prefix (ba_kind a) (ba_owner_source_id a)"
      using ok unfolding asset_state_ok_def by blast+
    obtain q where "?pre @ p = asset_prefix (ba_kind a) (ba_owner_source_id a) @ q"
      using a(2) path(2) by (auto simp: starts_with_def prefix_def)
    then have "(k, i) = (ba_kind a, ba_owner_source_id a)"
      using asset_prefix_inject [OF id_no_slash [OF i] id_no_slash [OF path(1)]] by blast
    with new a(1) show False unfolding owned_def by blast
  qed
  have "map_of ?F (?pre @ p) = map_of files p" for p
    unfolding get using none [of p] by (simp add: starts_with_def split: option.splits)
  then have "asset_matches lib ?F ?a"
    unfolding asset_matches_def by (intro exI [of _ files]) (use files in simp)
  moreover have "asset_matches lib ?F a" if "a \<in> set (fst st)" for a
    using ok that old [OF that] unfolding asset_state_ok_def asset_matches_def by metis
  moreover have "\<exists>a \<in> set (fst st @ [?a]). starts_with (ba_path a) (fst f)" if f: "f \<in> set ?F" for f
  proof -
    have "map_of ?F (fst f) \<noteq> None" using f by (metis map_of_eq_None_iff image_eqI)
    then have "starts_with ?pre (fst f) \<or> map_of (snd st) (fst f) \<noteq> None"
      unfolding get by (auto split: if_splits)
    then show ?thesis
    proof
      assume "map_of (snd st) (fst f) \<noteq> None"
      then obtain c where "(fst f, c) \<in> set (snd st)" using map_of_SomeD by fastforce
      then show ?thesis using ok unfolding asset_state_ok_def by fastforce
    qed simp
  qed
  ultimately show ?thesis
    using ok i unfolding asset_state_ok_def add_asset_def by auto
qed

section \<open>The loop over the entities\<close>

text \<open>A package without files has no \<open>package.json\<close>, which the scan refuses.\<close>

definition scan_law :: "export_host \<Rightarrow> bool" where
  "scan_law host \<longleftrightarrow> (\<forall>t i. xh_scan host t i [] \<noteq> None)"

definition python_typed :: "configuration_entity \<Rightarrow> bool" where
  "python_typed e \<longleftrightarrow> ce_kind e = Component \<and> map_of package_directories (ce_component_type e) \<noteq> None"

definition skill_typed :: "configuration_entity \<Rightarrow> bool" where
  "skill_typed e \<longleftrightarrow> ce_kind e = Component \<and> ce_component_type e = ''skill''"

definition expected_assets :: "configuration_entity list \<Rightarrow> (asset_kind \<times> string) set" where
  "expected_assets es =
     {(Python_package, ce_id e) |e. e \<in> set es \<and> python_typed e} \<union>
     {(Skill_package, ce_id e) |e. e \<in> set es \<and> skill_typed e}"

lemma export_package_ok:
  assumes run: "export_package txt lib host e st = Inr st'" and law: "scan_law host"
    and ok: "asset_state_ok lib st" and i: "is_configuration_id (ce_id e)"
    and new: "(Python_package, ce_id e) \<notin> owned st"
  shows "asset_state_ok lib st' \<and>
    (if map_of package_directories (ce_component_type e) \<noteq> None
     then owned st' = insert (Python_package, ce_id e) (owned st) \<and> package_folder_name txt e = ce_name e
     else owned st' = owned st)"
proof (cases "map_of package_directories (ce_component_type e)")
  case None
  with run ok show ?thesis by (simp add: export_package_def)
next
  case (Some d)
  from run Some obtain b a files msg where files: "stable_snapshot lib msg True b (stage_and_scan host e) a = Inr files"
    and st': "st' = add_asset lib Python_package (ce_id e) (python_prefix (ce_id e)) files st"
    and name: "package_folder_name txt e = ce_name e"
    unfolding export_package_def by (auto simp: Let_def bind_res_eq_Inr)
  note snap = stable_snapshot_wf [OF files]
  have "files \<noteq> []"
  proof
    assume "files = []"
    with snap have "stage_and_scan host e [] = Inr ()" by simp
    then have "xh_scan host (ce_component_type e) (ce_id e) [] = None"
      unfolding stage_and_scan_def by (auto simp: bind_res_eq_Inr split: option.splits)
    with law show False unfolding scan_law_def by blast
  qed
  then show ?thesis
    using add_asset_ok [OF ok new i, of files] snap Some name unfolding st' by simp
qed

lemma export_skill_ok:
  assumes run: "export_skill lib host e st = Inr st'" and ok: "asset_state_ok lib st"
    and i: "is_configuration_id (ce_id e)" and new: "(Skill_package, ce_id e) \<notin> owned st"
  shows "asset_state_ok lib st' \<and>
    (if ce_component_type e = ''skill''
     then owned st' = insert (Skill_package, ce_id e) (owned st) \<and> folder_is ''skill_package'' (ce_name e) (ce_payload e)
     else owned st' = owned st)"
proof (cases "ce_component_type e = ''skill''")
  case False
  with run ok show ?thesis by (simp add: export_skill_def)
next
  case True
  from run True obtain b a files msg where files: "stable_snapshot lib msg False b (\<lambda>_. Inr ()) a = Inr files"
    and st': "st' = add_asset lib Skill_package (ce_id e) (skill_prefix (ce_id e)) files st"
    and name: "folder_is ''skill_package'' (ce_name e) (ce_payload e)"
    unfolding export_skill_def by (auto simp: Let_def bind_res_eq_Inr)
  then show ?thesis
    using add_asset_ok [OF ok new i, of files] stable_snapshot_wf [OF files] True unfolding st' by simp
qed

lemma disjoint_step: "B \<subseteq> {x} \<Longrightarrow> x \<notin> D \<Longrightarrow> A \<inter> D = {} \<Longrightarrow> (A \<union> B) \<inter> D = {}"
  by blast

lemma export_assets_ok:
  assumes "export_assets txt lib host es st = Inr st'" and "scan_law host" and "asset_state_ok lib st"
    and "\<forall>e \<in> set es. is_configuration_id (ce_id e)" and "distinct (map ce_id es)"
    and "snd ` owned st \<inter> ce_id ` set es = {}"
  shows "asset_state_ok lib st' \<and> owned st' = owned st \<union> expected_assets es \<and>
    (\<forall>e \<in> set es. (python_typed e \<longrightarrow> package_folder_name txt e = ce_name e) \<and>
       (skill_typed e \<longrightarrow> folder_is ''skill_package'' (ce_name e) (ce_payload e)))"
  using assms
proof (induction "txt" lib host es st rule: export_assets.induct)
  case (1 tx lib host st)
  then show ?case by (simp add: expected_assets_def)
next
  case (2 tx lib host e es st)
  show ?case
  proof (cases "ce_kind e = Component")
    case False
    have "expected_assets (e # es) = expected_assets es"
      using False by (auto simp: expected_assets_def python_typed_def skill_typed_def)
    with 2(1) [OF False] 2(3-8) False show ?thesis by (auto simp: python_typed_def skill_typed_def)
  next
    case True
    then obtain st1 st2 where st1: "export_package tx lib host e st = Inr st1"
      and st2: "export_skill lib host e st1 = Inr st2" and rest: "export_assets tx lib host es st2 = Inr st'"
      using 2(3) by (auto simp: bind_res_eq_Inr)
    have i: "is_configuration_id (ce_id e)" using 2(6) by simp
    have fresh: "(k, ce_id e) \<notin> owned st" for k using 2(8) by force
    note p = export_package_ok [OF st1 2(4) 2(5) i fresh]
    have "(Skill_package, ce_id e) \<notin> owned st1" using p fresh by (auto split: if_splits)
    note s = export_skill_ok [OF st2 conjunct1 [OF p] i this]
    have owned2: "owned st2 = owned st \<union> expected_assets [e]"
      using p s True by (auto simp: expected_assets_def python_typed_def skill_typed_def split: if_splits)
    have ids: "snd ` expected_assets [e] \<subseteq> {ce_id e}" by (auto simp: expected_assets_def)
    have "ce_id e \<notin> ce_id ` set es" "snd ` owned st \<inter> ce_id ` set es = {}" using 2(7,8) by auto
    then have "snd ` owned st2 \<inter> ce_id ` set es = {}"
      unfolding owned2 image_Un by (rule disjoint_step [OF ids])
    have comp: "\<not> ce_kind e \<noteq> Component" and tail: "\<forall>e \<in> set es. is_configuration_id (ce_id e)" "distinct (map ce_id es)"
      using True 2(6,7) by simp_all
    note IH = 2(2) [OF comp st1 st2 rest 2(4) conjunct1 [OF s] tail \<open>snd ` owned st2 \<inter> ce_id ` set es = {}\<close>]
    have "expected_assets (e # es) = expected_assets [e] \<union> expected_assets es"
      by (auto simp: expected_assets_def)
    with IH owned2 p s show ?thesis by (auto simp: python_typed_def skill_typed_def split: if_splits)
  qed
qed

end
