(* ===== verification/Export_Acceptance.thy ===== *)
theory Export_Acceptance
  imports Export_Assets
begin

text \<open>
  Export and import meet: what the exporter writes, the import reads, with complete records and
  assets that belong to them.
\<close>

section \<open>The closure check of the exported records\<close>

lemma same_references: "same_entity a b \<Longrightarrow> iter_configuration_references txt a = iter_configuration_references txt b"
  unfolding same_entity_def by (rule references_cong) simp_all

lemma same_matches: "same_entity a b \<Longrightarrow> matches_reference a r \<longleftrightarrow> matches_reference b r"
  by (simp add: same_entity_def matches_reference_def)

lemma list_all2_right: "list_all2 P xs ys \<Longrightarrow> y \<in> set ys \<Longrightarrow> \<exists>x \<in> set xs. P x y"
  by (metis in_set_conv_nth list_all2_conv_all_nth)

lemma list_all2_left: "list_all2 P xs ys \<Longrightarrow> x \<in> set xs \<Longrightarrow> \<exists>y \<in> set ys. P x y"
  by (metis in_set_conv_nth list_all2_conv_all_nth)

lemma closure_transfer:
  assumes dist: "distinct (map ce_id all)" and r: "r \<in> set all"
    and es: "set es = {e. (r, e) \<in> (bundle_edge txt all)\<^sup>*}" "distinct (map ce_id es)" "set es \<subseteq> set all"
    and res: "\<forall>e \<in> set es. resolved txt (entities_by_id all) e"
    and same: "list_all2 same_entity ents es"
  shows "validate_complete_closure txt ents (ce_id r) = Inr ()"
proof -
  note get = entities_by_id_get [OF dist]
  have ids: "map ce_id ents = map ce_id es"
    using same by (auto simp: list_all2_conv_all_nth same_entity_def intro: nth_equalityI)
  then have dist': "distinct (map ce_id ents)" using es(2) by simp
  have "r \<in> set es" using es(1) by simp
  then obtain r' where r': "r' \<in> set ents" "same_entity r' r" using list_all2_right [OF same] by blast
  have target: "\<exists>t \<in> set es. ce_id t = cr_target_id x \<and> matches_reference t x"
    if a: "a \<in> set es" and x: "x \<in> set (iter_configuration_references txt a)" for a x
  proof -
    obtain t where t: "t \<in> set all" "ce_id t = cr_target_id x" "matches_reference t x"
      using res a x unfolding resolved_def get by blast
    then have "(a, t) \<in> bundle_edge txt all" using a x es(3) unfolding bundle_edge_def by auto
    then have "t \<in> set es" using a es(1) by (auto intro: rtrancl_into_rtrancl)
    with t show ?thesis by blast
  qed
  have complete: "complete_references txt ents"
    unfolding complete_references_def
  proof (intro ballI)
    fix a' x assume a': "a' \<in> set ents" and x: "x \<in> set (iter_configuration_references txt a')"
    obtain a where a: "a \<in> set es" "same_entity a' a" using list_all2_left [OF same a'] by blast
    then obtain t where t: "t \<in> set es" "ce_id t = cr_target_id x" "matches_reference t x"
      using target x same_references by metis
    obtain t' where "t' \<in> set ents" "same_entity t' t" using list_all2_right [OF same t(1)] by blast
    with t show "\<exists>b \<in> set ents. ce_id b = cr_target_id x \<and> matches_reference b x"
      using same_matches by (metis same_entity_def)
  qed
  have reach: "\<exists>y' \<in> set ents. same_entity y' y \<and> (r', y') \<in> (bundle_edge txt ents)\<^sup>*"
    if "(r, y) \<in> (bundle_edge txt all)\<^sup>*" for y
    using that
  proof (induction rule: rtrancl_induct)
    case base
    with r' show ?case by blast
  next
    case (step y z)
    then obtain y' where y': "y' \<in> set ents" "same_entity y' y" "(r', y') \<in> (bundle_edge txt ents)\<^sup>*" by blast
    have "z \<in> set es" using step(1,2) es(1) by (auto intro: rtrancl_into_rtrancl)
    then obtain z' where z': "z' \<in> set ents" "same_entity z' z" using list_all2_right [OF same] by blast
    obtain x where "x \<in> set (iter_configuration_references txt y)" "cr_target_id x = ce_id z"
      using step(2) unfolding bundle_edge_def by blast
    then have "(y', z') \<in> bundle_edge txt ents"
      using y' z' same_references [OF y'(2)] unfolding bundle_edge_def same_entity_def by auto
    with y'(3) z' show ?case by (blast intro: rtrancl_into_rtrancl)
  qed
  have "(r', e') \<in> (bundle_edge txt ents)\<^sup>*" if e': "e' \<in> set ents" for e'
  proof -
    obtain e where e: "e \<in> set es" "same_entity e' e" using list_all2_left [OF same e'] by blast
    then obtain y' where y': "y' \<in> set ents" "same_entity y' e" "(r', y') \<in> (bundle_edge txt ents)\<^sup>*"
      using reach es(1) by blast
    then have "ce_id y' = ce_id e'" using e(2) by (simp add: same_entity_def)
    then have "y' = e'" using dist' y'(1) e' by (auto simp: distinct_map dest: inj_onD)
    with y'(3) show ?thesis by blast
  qed
  with complete have "validate_complete_closure txt ents (ce_id r') = Inr ()"
    unfolding closure_check_iff [OF dist' r'(1)] by blast
  then show ?thesis using r'(2) by (simp add: same_entity_def)
qed

section \<open>Loading the exported records\<close>

lemma dict_of_id: "distinct (map fst kvs) \<Longrightarrow> dict_of kvs = kvs"
  using dict_merge_Nil [of kvs] by (simp add: wf_dict_def dict_of_def dict_merge_def)

lemma dict_of_subset: "set (dict_of kvs) \<subseteq> set kvs"
proof (induction kvs rule: rev_induct)
  case (snoc kv kvs)
  then show ?case using set_dict_set_subset [of "fst kv" "snd kv" "dict_of kvs"] by auto
qed simp

lemma dict_of_keys: "fst ` set (dict_of kvs) = fst ` set kvs"
proof -
  have "k \<in> fst ` set (dict_of kvs) \<longleftrightarrow> k \<in> fst ` set kvs" for k
    using dict_get_of_None [of kvs k] by (simp add: map_of_eq_None_iff)
  then show ?thesis by blast
qed

lemma components_same:
  "list_all2 same_entity ents es \<Longrightarrow> list_all2 same_entity (components_of ents) (components_of es)"
  unfolding components_of_def
  by (induction rule: list_all2_induct) (auto simp: same_entity_def)

lemma same_map:
  "list_all2 same_entity ents es \<Longrightarrow> (\<And>a b. same_entity a b \<Longrightarrow> f a = f b) \<Longrightarrow> map f ents = map f es"
  by (induction rule: list_all2_induct) auto

text \<open>What the contracts of the components promise, where the export relies on it.\<close>

definition contract_fields :: "configuration_entity \<Rightarrow> bool" where
  "contract_fields e \<longleftrightarrow>
     (ce_component_type e = ''model-requirement'' \<longrightarrow>
        list_all (\<lambda>kv. fst kv \<in> {''id'', ''name'', ''description''}) (ce_payload e)) \<and>
     (\<forall>d v. map_of (ce_payload e) ''python_package'' = Some (JObj d) \<longrightarrow> map_of d ''folder'' = Some v \<longrightarrow>
        (\<exists>s. v = JStr s))"

lemma check_component_same: "same_entity a b \<Longrightarrow> check_component a = check_component b"
proof -
  assume s: "same_entity a b"
  have "fst ` set (ce_payload a) = fst ` set (ce_payload b)"
    using s unfolding same_entity_def by (metis dom_map_of_conv_image_fst)
  then have fields: "list_all (\<lambda>kv. fst kv \<in> A) (ce_payload a) \<longleftrightarrow> list_all (\<lambda>kv. fst kv \<in> A) (ce_payload b)" for A
    unfolding list_all_iff by (metis (no_types, lifting) image_iff)
  have folder: "folder_is k n (ce_payload a) \<longleftrightarrow> folder_is k n (ce_payload b)" for k n
    using s by (simp add: folder_is_def same_entity_def)
  have e: "ce_component_type a = ce_component_type b" "ce_name a = ce_name b"
    using s by (simp_all add: same_entity_def)
  show ?thesis unfolding check_component_def e folder fields by (rule refl)
qed

lemma exported_component_checks:
  assumes "texts txt" and "exportable e" and "contract_fields e" and "ce_kind e = Component"
    and package: "python_typed e \<longrightarrow> package_folder_name txt e = ce_name e"
    and skill: "skill_typed e \<longrightarrow> folder_is ''skill_package'' (ce_name e) (ce_payload e)"
  shows "check_component e = Inr ()"
proof -
  have name: "ce_name e \<noteq> []" using assms(2) by (auto simp: exportable_def normalize_iff)
  have "folder_is ''python_package'' (ce_name e) (ce_payload e)" if "python_typed e"
  proof -
    have n: "package_folder_name txt e = ce_name e" using package that by blast
    show ?thesis
    proof (cases "\<exists>d. map_of (ce_payload e) ''python_package'' = Some (JObj d)")
      case True
      then obtain d where d: "map_of (ce_payload e) ''python_package'' = Some (JObj d)" by blast
      then have folder: "text_field txt ''folder'' d = ce_name e" using n by (simp add: package_folder_name_def)
      show ?thesis
      proof (cases "map_of d ''folder''")
        case None
        with folder name assms(1) show ?thesis by (simp add: text_field_def texts_def)
      next
        case (Some v)
        then obtain s where "v = JStr s" using assms(3) d unfolding contract_fields_def by blast
        with Some folder d assms(1) show ?thesis by (simp add: text_field_def texts_def folder_is_def)
      qed
    next
      case False
      then have "package_folder_name txt e = []"
        using assms(1) by (auto simp: package_folder_name_def text_field_def texts_def split: option.splits json.splits)
      with n name show ?thesis by simp
    qed
  qed
  then have python: "map_of package_directories (ce_component_type e) \<noteq> None \<longrightarrow>
      folder_is ''python_package'' (ce_name e) (ce_payload e)"
    using assms(4) unfolding python_typed_def by blast
  have skills: "ce_component_type e = ''skill'' \<longrightarrow> folder_is ''skill_package'' (ce_name e) (ce_payload e)"
    using assms(4) skill unfolding skill_typed_def by blast
  have "ce_component_type e = ''model-requirement'' \<longrightarrow>
      list_all (\<lambda>kv. fst kv \<in> {''id'', ''name'', ''description''}) (ce_payload e)"
    using assms(3) unfolding contract_fields_def by blast
  with python skills show ?thesis unfolding check_component_def by (simp only: split: if_split) blast
qed

definition record_set_of :: "configuration_entity list \<Rightarrow> bundle_record_set" where
  "record_set_of ents =
     \<lparr>rs_entities = ents, rs_component_types = map (\<lambda>e. (ce_id e, ce_component_type e)) (components_of ents),
      rs_component_records = dict_of (map (\<lambda>e. (ce_id e,
        (ce_component_type e, ce_name e, AList.delete ''name'' (AList.delete ''id'' (ce_payload e)))))
        (components_of ents)),
      rs_skill_package_owners = map ce_id (filter (\<lambda>e. ce_component_type e = ''skill'') (components_of ents))\<rparr>"

lemma load_records:
  assumes closure: "validate_complete_closure txt (map source_entity (bm_records m)) (bo_source_id (bm_root m)) = Inr ()"
    and dist: "distinct (map ce_id (map source_entity (bm_records m)))"
    and supported: "\<forall>e \<in> set (map source_entity (bm_records m)). \<not> unsupported_component e"
    and checks: "\<forall>e \<in> set (components_of (map source_entity (bm_records m))). check_component e = Inr ()"
  shows "load_bundle_record_set txt m = Inr (record_set_of (map source_entity (bm_records m)))"
proof -
  let ?ents = "map source_entity (bm_records m)"
  let ?types = "map (\<lambda>e. (ce_id e, ce_component_type e)) (components_of ?ents)"
  have "distinct (map ce_id (components_of ?ents))"
    unfolding components_of_def using dist by (rule distinct_map_filter)
  then have types: "dict_of ?types = ?types" by (intro dict_of_id) (simp add: comp_def)
  have "t \<in> set managed_component_types" if "t \<in> set (map snd ?types)" for t
    using supported that by (auto simp: unsupported_component_def components_of_def)
  then have none: "filter (\<lambda>t. t \<notin> set managed_component_types) (map snd ?types) = []"
    by (simp add: filter_empty_conv)
  obtain us where "map_res check_component (components_of ?ents) = Inr us"
    using map_res_all [of "components_of ?ents" check_component "\<lambda>_. ()"] checks by blast
  with closure types none show ?thesis
    by (simp add: load_bundle_record_set_def record_set_of_def Let_def sort_by_def)
qed

section \<open>Ownership and declaration of the assets\<close>

lemma asset_files_get: "map_of (asset_files pre files) p = map_of files (pre @ p)"
proof (induction files)
  case (Cons f files)
  have "asset_files pre (f # files) =
      (if starts_with pre (fst f) then [(drop (length pre) (fst f), snd f)] else []) @ asset_files pre files"
    by (simp add: asset_files_def)
  moreover have "starts_with pre (fst f) \<Longrightarrow> p = drop (length pre) (fst f) \<longleftrightarrow> pre @ p = fst f"
    by (auto simp: starts_with_def prefix_def)
  moreover have "\<not> starts_with pre (fst f) \<Longrightarrow> pre @ p \<noteq> fst f"
    unfolding starts_with_def prefix_def by metis
  ultimately show ?case using Cons by simp
qed (simp add: asset_files_def)

lemma asset_prefix_path: "is_configuration_id i \<Longrightarrow>
    safe_path (path_text True (asset_prefix k i)) \<and> ends_with ''/'' (asset_prefix k i) \<and>
    \<not> starts_with (asset_prefix k i) manifest_name"
proof -
  assume i: "is_configuration_id i"
  have words: "safe_segment ''assets''" "safe_segment ''python_packages''" "safe_segment ''skill_packages''"
    by code_simp+
  have "safe_path (join ''/'' [''assets'', w, i])" if "safe_segment w" for w
    unfolding safe_path_def by (intro exI [of _ "[''assets'', w, i]"]) (use words that id_safe [OF i] in simp)
  from this [OF words(2)] this [OF words(3)] show ?thesis
    by (cases k) (simp_all add: python_prefix_def skill_prefix_def path_text_def ends_with_slash butlast_append
        starts_with_def manifest_name_def)
qed

lemma assets_are_declared:
  assumes ok: "asset_state_ok lib st" and assets: "set (bm_assets m) = set (fst st)"
  shows "assets_declared lib m (snd st)"
proof -
  have wf: "wf_dict (snd st)" using ok by (simp add: asset_state_ok_def)
  have "validate_relative_path (ba_path a) True = Inr (ba_path a) \<and> ends_with ''/'' (ba_path a) \<and>
        \<not> starts_with (ba_path a) manifest_name \<and>
        (asset_files (ba_path a) (snd st) = [] \<longrightarrow> ba_kind a = Skill_package) \<and>
        [] \<notin> fst ` set (asset_files (ba_path a) (snd st)) \<and>
        ba_sha256 a = canonical_tree_sha256 (ar_sha256 lib) (asset_files (ba_path a) (snd st))"
    if a: "a \<in> set (fst st)" for a
  proof -
    have i: "is_configuration_id (ba_owner_source_id a)" "ba_path a = asset_prefix (ba_kind a) (ba_owner_source_id a)"
      "asset_matches lib (snd st) a"
      using ok a unfolding asset_state_ok_def by blast+
    then obtain s where s: "\<forall>p. map_of (snd st) (ba_path a @ p) = map_of s p" "wf_dict s" "map_of s [] = None"
      "s = [] \<longrightarrow> ba_kind a = Skill_package" "ba_sha256 a = canonical_tree_sha256 (ar_sha256 lib) s"
      unfolding asset_matches_def by blast
    have eq: "map_of (asset_files (ba_path a) (snd st)) = map_of s"
      using s(1) by (intro ext) (simp add: asset_files_get)
    then have "tree_bytes s = tree_bytes (asset_files (ba_path a) (snd st))"
      using tree_bytes_cong s(2) asset_files_wf [OF wf] by metis
    then have "ba_sha256 a = canonical_tree_sha256 (ar_sha256 lib) (asset_files (ba_path a) (snd st))"
      using s(5) by (simp add: canonical_tree_sha256_def)
    moreover have "asset_files (ba_path a) (snd st) = [] \<longleftrightarrow> s = []"
      using eq by (simp add: dict_empty_iff)
    moreover have "[] \<notin> fst ` set (asset_files (ba_path a) (snd st))"
      using eq s(3) by (metis map_of_eq_None_iff)
    moreover have "validate_relative_path (ba_path a) True = Inr (ba_path a)"
      unfolding validate_iff using asset_prefix_path [OF i(1)] i(2) by simp
    ultimately show ?thesis using asset_prefix_path [OF i(1), of "ba_kind a"] s(4) unfolding i(2) [symmetric] by blast
  qed
  moreover have "\<forall>f \<in> set (snd st). \<exists>a \<in> set (fst st). starts_with (ba_path a) (fst f)"
    using ok unfolding asset_state_ok_def by blast
  ultimately show ?thesis unfolding assets_declared_def assets by blast
qed

lemma assets_of_kind_keys:
  "fst ` set (assets_of_kind k as) = {i. (k, i) \<in> (\<lambda>a. (ba_kind a, ba_owner_source_id a)) ` set as}"
  unfolding assets_of_kind_def dict_of_keys by force

lemma assets_of_kind_mem:
  "kv \<in> set (assets_of_kind k as) \<Longrightarrow> snd kv \<in> set as \<and> ba_kind (snd kv) = k \<and> fst kv = ba_owner_source_id (snd kv)"
  using dict_of_subset unfolding assets_of_kind_def by fastforce

lemma ownership_accepted:
  assumes ok: "asset_state_ok lib st" and assets: "set (bm_assets (pb_manifest pb)) = set (fst st)"
    and own: "owned st = expected_assets es" and same: "list_all2 same_entity ents es"
  shows "\<exists>ps. validate_asset_ownership pb (rs_component_types (record_set_of ents))
      (rs_skill_package_owners (record_set_of ents)) = Inr ps"
proof -
  let ?as = "bm_assets (pb_manifest pb)"
  have keys: "fst ` set (assets_of_kind k ?as) = {i. (k, i) \<in> expected_assets es}" for k
    unfolding assets_of_kind_keys assets using own unfolding owned_def by simp
  have comps: "e \<in> set (components_of es) \<longleftrightarrow> e \<in> set es \<and> ce_kind e = Component" for e
    by (auto simp: components_of_def)
  have types: "rs_component_types (record_set_of ents) = map (\<lambda>e. (ce_id e, ce_component_type e)) (components_of es)"
    unfolding record_set_of_def using components_same [OF same]
    by (simp add: list_all2_conv_all_nth same_entity_def list_eq_iff_nth_eq)
  have owners: "rs_skill_package_owners (record_set_of ents) =
      map fst (filter (\<lambda>kv. snd kv = ''skill'') (rs_component_types (record_set_of ents)))"
    unfolding record_set_of_def by (simp add: filter_map comp_def)
  have packages: "fst ` set (assets_of_kind Python_package ?as) =
      fst ` set (filter (\<lambda>kv. map_of package_directories (snd kv) \<noteq> None) (rs_component_types (record_set_of ents)))"
    unfolding keys types by (force simp: expected_assets_def python_typed_def comps)
  have skills: "fst ` set (assets_of_kind Skill_package ?as) = set (rs_skill_package_owners (record_set_of ents))"
    unfolding keys owners types by (force simp: expected_assets_def skill_typed_def comps)
  have paths: "ba_path (snd kv) = asset_prefix k (fst kv)" if "kv \<in> set (assets_of_kind k ?as)" for k kv
    using assets_of_kind_mem [OF that] ok assets unfolding asset_state_ok_def by auto
  from packages skills paths [of _ Python_package] paths [of _ Skill_package] show ?thesis
    unfolding validate_asset_ownership_def Let_def by simp
qed

section \<open>From export to import\<close>

text \<open>What the ZIP and JSON formats promise: the entries and the manifest are read as written.\<close>

definition reads_back :: "archive_library \<Rightarrow> string \<Rightarrow> bundle_manifest \<Rightarrow> (string, string) dict \<Rightarrow> bool" where
  "reads_back lib content m files \<longleftrightarrow>
     ar_read lib content = Some (map stored_entry (bundle_files lib m files)) \<and>
     ar_decode lib (ar_canonical lib m) = Some m"

text \<open>No two names in the archive differ by case only, and none is the directory of another.\<close>

definition names_separate :: "(string, string) dict \<Rightarrow> bool" where
  "names_separate files \<longleftrightarrow> distinct (folded_names files) \<and>
     (\<forall>f \<in> set files. set (path_prefixes (fst f)) \<inter> fst ` set files = {})"

lemma make_manifest_Inr:
  "make_manifest rt records assets = Inr m \<Longrightarrow>
     bm_root m = rt \<and> bm_records m = records \<and> set (bm_assets m) = set assets \<and> validate_identities m = None"
  by (auto simp: make_manifest_def Let_def split: option.splits)

lemma snapshot_facts:
  assumes "validate_configuration_snapshot txt config version = Inr ()"
  shows "sound_entities txt (iter_configuration_entities txt config) \<and> component_types_named config"
proof -
  obtain st where st: "check_entities txt (iter_configuration_entities txt config)
      \<lparr>ss_ids = [], ss_names = [], ss_namespaces = []\<rparr> = Inr st" and sections: "check_sections config = Inr ()"
    using assms by (auto simp: validate_configuration_snapshot_def bind_res_eq_Inr)
  have "component_types_named config"
  proof (cases "\<exists>types. field ''components'' config = JObj types")
    case True
    then obtain types us where types: "field ''components'' config = JObj types"
      and us: "map_res check_component_section types = Inr us"
      using sections by (auto simp: check_sections_def bind_res_eq_Inr)
    have "component_type_ok (fst kv)" if "kv \<in> set types" for kv
      using map_res_arg [OF us that] by (auto simp: check_component_section_def split: if_splits)
    then show ?thesis using types by (force simp: component_types_named_def component_type_ok_def)
  qed (auto simp: component_types_named_def split: json.splits)
  with st check_entities_start show ?thesis by blast
qed

lemma records_entities:
  assumes "texts txt" and "\<forall>e \<in> set es. exportable e" and "map_res (export_record txt) es = Inr records"
  shows "list_all2 same_entity (map source_entity records) es \<and> list_all (\<lambda>r. record_error r = None) records"
  using assms(2,3)
proof (induction es arbitrary: records)
  case (Cons e es)
  then obtain r rs where r: "export_record txt e = Inr r" "map_res (export_record txt) es = Inr rs" "records = r # rs"
    by (auto simp: bind_res_eq_Inr)
  have "exportable e" using Cons.prems(1) by simp
  from export_record_entity [OF assms(1) this r(1)] Cons.IH [OF _ r(2)] Cons.prems(1) r(3) show ?case by simp
qed simp


text \<open>An agent with its system prompt; nothing of them lives in a folder.\<close>

definition prompt_id :: string where
  "prompt_id = ''00000000-0000-4000-8000-000000000001''"

definition agent_id :: string where
  "agent_id = ''00000000-0000-4000-8000-000000000002''"

definition shared_config :: "(string, json) dict" where
  "shared_config =
     [(''config_version'', JInt 2),
      (''components'', JObj [(''system-prompt'', JList [JObj [(''id'', JStr prompt_id), (''name'', JStr ''P'')]])]),
      (''external_agents'', JList []),
      (''main_agents'', JList [JObj [(''id'', JStr agent_id), (''name'', JStr ''A''),
         (''capability_refs'', JList [JObj [(''type'', JStr ''system-prompt''), (''block_id'', JStr prompt_id)]])]]),
      (''mcp_tools'', JList []), (''subagents'', JList []), (''workflows'', JList [])]"

definition shared_root :: bundle_root where
  "shared_root = \<lparr>bo_kind = Main_agent, bo_source_id = agent_id, bo_component_type = None\<rparr>"

definition shared_manifest :: bundle_manifest where
  "shared_manifest =
     \<lparr>bm_root = shared_root,
      bm_records =
        [\<lparr>br_kind = Component, br_source_id = prompt_id, br_name = ''P'', br_component_type = Some ''system-prompt'',
           br_payload = []\<rparr>,
         \<lparr>br_kind = Main_agent, br_source_id = agent_id, br_name = ''A'', br_component_type = None,
           br_payload = [(''capability_refs'', JList [JObj [(''type'', JStr ''system-prompt''), (''block_id'', JStr prompt_id)]])]\<rparr>],
      bm_assets = []\<rparr>"

definition empty_folder :: disk_folder where
  "empty_folder = \<lparr>df_name = ''f'', df_is_dir = False, df_link = False, df_nodes = []\<rparr>"

definition shared_host :: export_host where
  "shared_host = \<lparr>xh_report = (\<lambda>_. None), xh_before = (\<lambda>_. empty_folder), xh_after = (\<lambda>_. empty_folder),
     xh_scan = (\<lambda>_ _ _. Some ''package.json'')\<rparr>"

definition shared_library :: archive_library where
  "shared_library =
     \<lparr>ar_write = (\<lambda>_. ''zip''), ar_read = (\<lambda>_. Some [stored_entry (manifest_name, ''m'')]), ar_canonical = (\<lambda>_. ''m''),
      ar_decode = (\<lambda>_. Some shared_manifest), ar_sha256 = (\<lambda>_. ''0'')\<rparr>"

lemma shared_parts: "export_parts plain_text lib shared_host shared_config shared_root = Inr (shared_manifest, [])"
  by code_simp

lemma shared_files: "bundle_files shared_library shared_manifest [] = [(manifest_name, ''m'')]"
  by (simp add: bundle_files_def shared_library_def dict_merge_def sort_by_def)


end
