(* ===== verification/Lifecycle_Server.thy ===== *)
theory Lifecycle_Server
  imports Event_Origin Workflow_State Workflow_Compiler Configuration_Identity
begin

text \<open>
  What \<open>runtime/langgraph_lifecycle.py\<close> stands on: calls to the Agent Server, the loops that read a
  collection page by page, and the namespaces, records and Run relations of a Lifecycle
  (\<open>runtime/lifecycle_store.py\<close>, \<open>runtime/run_calls.py\<close>, \<open>storage/workflow_lifecycle_settings.py\<close>).

  The Agent Server and the local files of a Lifecycle are not part of the repository's own logic:
  they are a record of operations over a world of any type \<open>'w\<close>, each of which returns or raises and
  may change the world.  A computation is a function of the world; it may also not return (the loops
  over pages end only when the server sends a short page), which is the result \<open>None\<close>.
\<close>

section \<open>Errors\<close>

text \<open>An exception of a call: its status, that of its response, its text and its class.\<close>

record call_error =
  ce_status :: "int option"
  ce_response_status :: "int option"
  ce_text :: string
  ce_class :: string

datatype lifecycle_error =
    Client_failed call_error
  | Lifecycle_not_found string
  | Run_not_found string
  | Session_not_found string
  | Lifecycle_active string
  | Lifecycle_unavailable string
  | Runtime_failed string
  | Value_failed string
  | Type_failed string
  | Lookup_failed string
  | Key_failed string

definition is_not_found :: "call_error \<Rightarrow> bool" where
  "is_not_found e \<longleftrightarrow> ce_status e = Some 404 \<or> ce_response_status e = Some 404"

text \<open>An exception of the program's own has no status of a response.\<close>

fun exception_not_found :: "lifecycle_error \<Rightarrow> bool" where
  "exception_not_found (Client_failed e) = is_not_found e"
| "exception_not_found _ = False"

fun exception_text :: "lifecycle_error \<Rightarrow> string" where
  "exception_text (Client_failed e) = (if ce_text e \<noteq> [] then ce_text e else ce_class e)"
| "exception_text (Lifecycle_not_found t) = (if t \<noteq> [] then t else ''LangGraphLifecycleNotFound'')"
| "exception_text (Run_not_found t) = (if t \<noteq> [] then t else ''LangGraphRunNotFound'')"
| "exception_text (Session_not_found t) = (if t \<noteq> [] then t else ''LangGraphExternalAgentSessionNotFound'')"
| "exception_text (Lifecycle_active t) = (if t \<noteq> [] then t else ''LangGraphLifecycleActive'')"
| "exception_text (Lifecycle_unavailable t) = (if t \<noteq> [] then t else ''LangGraphLifecycleUnavailable'')"
| "exception_text (Runtime_failed t) = (if t \<noteq> [] then t else ''RuntimeError'')"
| "exception_text (Value_failed t) = (if t \<noteq> [] then t else ''ValueError'')"
| "exception_text (Type_failed t) = (if t \<noteq> [] then t else ''TypeError'')"
| "exception_text (Lookup_failed t) = (if t \<noteq> [] then t else ''LookupError'')"
| "exception_text (Key_failed t) = (if t \<noteq> [] then t else ''KeyError'')"

record unavailable =
  ua_code :: string
  ua_message :: string

definition unavailable_for :: "string \<Rightarrow> lifecycle_error \<Rightarrow> unavailable" where
  "unavailable_for code e = \<lparr>ua_code = code, ua_message = exception_text e\<rparr>"

section \<open>Computations over a world\<close>

type_synonym ('w, 'a) call = "'w \<Rightarrow> (call_error + 'a) \<times> 'w"
type_synonym ('w, 'a) io = "'w \<Rightarrow> ((lifecycle_error + 'a) \<times> 'w) option"
type_synonym obj = "(string, json) dict"

definition return_io :: "'a \<Rightarrow> ('w, 'a) io" where
  "return_io x w = Some (Inr x, w)"

definition raise_io :: "lifecycle_error \<Rightarrow> ('w, 'a) io" where
  "raise_io e w = Some (Inl e, w)"

definition bind_io :: "('w, 'a) io \<Rightarrow> ('a \<Rightarrow> ('w, 'b) io) \<Rightarrow> ('w, 'b) io" where
  "bind_io m f w =
     (case m w of
        None \<Rightarrow> None
      | Some (Inl e, w1) \<Rightarrow> Some (Inl e, w1)
      | Some (Inr x, w1) \<Rightarrow> f x w1)"

definition call_io :: "('w, 'a) call \<Rightarrow> ('w, 'a) io" where
  "call_io c w =
     (case c w of
        (Inl e, w1) \<Rightarrow> Some (Inl (Client_failed e), w1)
      | (Inr x, w1) \<Rightarrow> Some (Inr x, w1))"

definition lift_res :: "lifecycle_error + 'a \<Rightarrow> ('w, 'a) io" where
  "lift_res r w = Some (r, w)"

text \<open>\<open>try\<close>: the error of a computation as its value.\<close>

definition attempt_io :: "('w, 'a) io \<Rightarrow> ('w, lifecycle_error + 'a) io" where
  "attempt_io m w = (case m w of None \<Rightarrow> None | Some (r, w1) \<Rightarrow> Some (Inr r, w1))"

fun each_io :: "('a \<Rightarrow> ('w, unit) io) \<Rightarrow> 'a list \<Rightarrow> ('w, unit) io" where
  "each_io f [] = return_io ()"
| "each_io f (x # xs) = bind_io (f x) (\<lambda>_. each_io f xs)"

fun map_io :: "('a \<Rightarrow> ('w, 'b) io) \<Rightarrow> 'a list \<Rightarrow> ('w, 'b list) io" where
  "map_io f [] = return_io []"
| "map_io f (x # xs) = bind_io (f x) (\<lambda>y. bind_io (map_io f xs) (\<lambda>ys. return_io (y # ys)))"

fun fold_io :: "('s \<Rightarrow> 'a \<Rightarrow> ('w, 's) io) \<Rightarrow> 's \<Rightarrow> 'a list \<Rightarrow> ('w, 's) io" where
  "fold_io f s [] = return_io s"
| "fold_io f s (x # xs) = bind_io (f s x) (\<lambda>s1. fold_io f s1 xs)"

text \<open>
  \<open>while True\<close>: a page of at most a hundred entries at an offset, what is done with it, and
  another one unless the page was short.
\<close>

partial_function (option) read_pages ::
  "(nat \<Rightarrow> nat \<Rightarrow> ('w, 'a list) call) \<Rightarrow> ('a list \<Rightarrow> lifecycle_error + 'b list) \<Rightarrow> nat \<Rightarrow> 'b list \<Rightarrow> 'w \<Rightarrow>
   ((lifecycle_error + 'b list) \<times> 'w) option" where
  [code]:
  "read_pages fetch process offset acc w =
     (case fetch 100 offset w of
        (Inl e, w1) \<Rightarrow> Some (Inl (Client_failed e), w1)
      | (Inr page, w1) \<Rightarrow>
          (case process page of
             Inl e \<Rightarrow> Some (Inl e, w1)
           | Inr ys \<Rightarrow>
               if length page < 100 then Some (Inr (acc @ ys), w1)
               else read_pages fetch process (offset + length page) (acc @ ys) w1))"

definition all_pages :: "(nat \<Rightarrow> nat \<Rightarrow> ('w, 'a list) call) \<Rightarrow> ('a list \<Rightarrow> lifecycle_error + 'b list) \<Rightarrow> ('w, 'b list) io" where
  "all_pages fetch process = read_pages fetch process 0 []"

section \<open>The Agent Server and the local files of a Lifecycle\<close>

record 'w agent_server =
  threads_search :: "string option \<Rightarrow> nat \<Rightarrow> nat \<Rightarrow> ('w, obj list) call"
  threads_get :: "string \<Rightarrow> ('w, obj) call"
  threads_delete :: "string \<Rightarrow> ('w, unit) call"
  threads_get_state :: "string \<Rightarrow> ('w, json) call"
  threads_get_history :: "string \<Rightarrow> nat \<Rightarrow> obj option \<Rightarrow> ('w, obj list) call"
  runs_list :: "string \<Rightarrow> nat \<Rightarrow> nat \<Rightarrow> ('w, obj list) call"
  runs_get :: "string \<Rightarrow> string \<Rightarrow> ('w, obj) call"
  runs_cancel :: "string \<Rightarrow> string \<Rightarrow> ('w, unit) call"
  assistants_get_graph :: "string \<Rightarrow> ('w, json) call"
  store_get_item :: "string list \<Rightarrow> string \<Rightarrow> ('w, json) call"
  store_list_namespaces :: "string list \<Rightarrow> nat \<Rightarrow> nat \<Rightarrow> ('w, string list list) call"
  store_search_items :: "string list \<Rightarrow> nat \<Rightarrow> nat \<Rightarrow> ('w, obj list) call"
  store_delete_item :: "string list \<Rightarrow> string \<Rightarrow> ('w, unit) call"
  local_sessions :: "string \<Rightarrow> ('w, obj list) call"
  local_session :: "string \<Rightarrow> string \<Rightarrow> ('w, json) call"
  local_model_calls :: "string \<Rightarrow> ('w, json list) call"
  local_archive :: "string \<Rightarrow> ('w, string option) call"
  remove_local_state :: "string \<Rightarrow> ('w, unit) call"
  discard_model_calls :: "string \<Rightarrow> ('w, unit) call"

section \<open>Names and records in the store\<close>

definition lifecycle_root :: string where
  "lifecycle_root = ''workflow-lifecycle''"

definition lifecycle_record_key :: string where
  "lifecycle_record_key = ''lifecycle''"

definition start_error_key :: string where
  "start_error_key = ''start-error''"

definition configuration_key :: string where
  "configuration_key = ''snapshot''"

definition lifecycle_namespace :: "string \<Rightarrow> string \<Rightarrow> lifecycle_error + string list" where
  "lifecycle_namespace lid part =
     (if lid = [] then Inl (Value_failed ''lifecycle_id must not be empty'')
      else Inr [lifecycle_root, lid, part])"

definition lifecycle_input_namespace :: "string \<Rightarrow> lifecycle_error + string list" where
  "lifecycle_input_namespace lid = lifecycle_namespace lid ''input''"

definition lifecycle_record_namespace :: "string \<Rightarrow> lifecycle_error + string list" where
  "lifecycle_record_namespace lid = lifecycle_namespace lid ''metadata''"

definition lifecycle_configuration_namespace :: "string \<Rightarrow> lifecycle_error + string list" where
  "lifecycle_configuration_namespace lid = lifecycle_namespace lid ''configuration''"

definition lifecycle_runs_namespace :: "string \<Rightarrow> lifecycle_error + string list" where
  "lifecycle_runs_namespace lid = lifecycle_namespace lid ''runs''"

definition lifecycle_filesystem_namespace :: "string \<Rightarrow> lifecycle_error + string list" where
  "lifecycle_filesystem_namespace lid = lifecycle_namespace lid ''filesystem''"

text \<open>The request of a Lifecycle as it is stored, and its messages read back.\<close>

definition build_lifecycle_request_envelope :: "obj \<Rightarrow> obj \<Rightarrow> obj" where
  "build_lifecycle_request_envelope request metadata =
     [(''schema_version'', JInt 1), (''request'', JObj request), (''metadata'', JObj metadata)]"

definition lifecycle_request_messages :: "json \<Rightarrow> json" where
  "lifecycle_request_messages v =
     (case v of
        JObj d \<Rightarrow> (case mapping_get d ''request'' of JObj r \<Rightarrow> mapping_get r ''messages'' | _ \<Rightarrow> JNull)
      | _ \<Rightarrow> JNull)"

lemma envelope_messages:
  "lifecycle_request_messages (JObj (build_lifecycle_request_envelope request metadata)) = mapping_get request ''messages''"
  by (simp add: lifecycle_request_messages_def build_lifecycle_request_envelope_def mapping_get_def)

record lifecycle_record =
  lr_lifecycle_id :: string
  lr_request_id :: string
  lr_created_at :: int
  lr_subject_kind :: string
  lr_subject_id :: string
  lr_subject_name :: string

record run_relation =
  rel_lifecycle_id :: string
  rel_graph_kind :: string
  rel_operation_id :: string
  rel_caller_run_id :: string
  rel_resource_id :: string
  rel_resource_name :: string
  rel_on_disconnect :: string
  rel_assistant_id :: string
  rel_thread_id :: string
  rel_run_id :: string

text \<open>
  The model library's parsing of a stored value, \<open>datetime\<close> parsing and notation (a time is a
  number of microseconds in UTC; one without an offset is taken as UTC), the text of a value
  without a text of its own, whether an exception is an \<open>OSError\<close> or \<open>ValueError\<close>, and
  percent-encoding with no safe characters.
\<close>

record frozen_snapshot =
  snap_config :: obj
  snap_value :: json

record lifecycle_library =
  parse_record :: "json \<Rightarrow> lifecycle_record option"
  parse_relation :: "json \<Rightarrow> run_relation option"
  parse_configuration :: "json \<Rightarrow> frozen_snapshot option"
  parse_time :: "string \<Rightarrow> int option"
  iso_format :: "int \<Rightarrow> string"
  value_repr :: "json \<Rightarrow> string"
  os_or_value_error :: "call_error \<Rightarrow> bool"
  quote_all :: "string \<Rightarrow> string"

text \<open>What the service holds: its client, and whether it has a data root and a model-call archive.\<close>

record 'w lifecycle_service =
  sv_client :: "'w agent_server"
  sv_library :: lifecycle_library
  sv_data_root :: bool
  sv_model_calls :: bool

definition field_text :: "lifecycle_library \<Rightarrow> obj \<Rightarrow> string \<Rightarrow> string" where
  "field_text lib d k = text_or (value_repr lib) (mapping_get d k) []"

definition required_text :: "lifecycle_library \<Rightarrow> obj \<Rightarrow> string \<Rightarrow> lifecycle_error + string" where
  "required_text lib d k =
     (case map_of d k of None \<Rightarrow> Inl (Key_failed k) | Some v \<Rightarrow> Inr (py_text (value_repr lib) v))"

section \<open>Runs and their relations\<close>

definition active_statuses :: "string list" where
  "active_statuses = [''pending'', ''running'']"

definition terminal_statuses :: "string list" where
  "terminal_statuses = [''error'', ''success'', ''timeout'', ''interrupted'']"

text \<open>A status that is a list or mapping cannot be looked up in a set: \<open>TypeError\<close>.\<close>

definition official_status :: "obj \<Rightarrow> lifecycle_error + string" where
  "official_status run =
     (case mapping_get run ''status'' of
        JStr s \<Rightarrow>
          if s \<in> set (active_statuses @ terminal_statuses) then Inr s
          else Inl (Runtime_failed ''LangGraph Server returned an unsupported Run status'')
      | JList xs \<Rightarrow> Inl (Type_failed ''unhashable type'')
      | JObj d \<Rightarrow> Inl (Type_failed ''unhashable type'')
      | _ \<Rightarrow> Inl (Runtime_failed ''LangGraph Server returned an unsupported Run status''))"

definition is_active :: "string \<Rightarrow> bool" where
  "is_active s \<longleftrightarrow> s \<in> set active_statuses"

definition relation_of_item :: "lifecycle_library \<Rightarrow> obj \<Rightarrow> lifecycle_error + run_relation" where
  "relation_of_item lib item =
     (case mapping_get item ''value'' of
        JObj d \<Rightarrow>
          (case parse_relation lib (JObj d) of
             None \<Rightarrow> Inl (Value_failed ''ValidationError'') | Some r \<Rightarrow> Inr r)
      | _ \<Rightarrow> Inl (Runtime_failed ''the Lifecycle Run relation is invalid''))"

definition select_kind :: "string option \<Rightarrow> run_relation list \<Rightarrow> run_relation list" where
  "select_kind kind rs = filter (\<lambda>r. kind = None \<or> kind = Some (rel_graph_kind r)) rs"

definition search_lifecycle_run_relations ::
  "lifecycle_library \<Rightarrow> 'w agent_server \<Rightarrow> string \<Rightarrow> string option \<Rightarrow> ('w, run_relation list) io" where
  "search_lifecycle_run_relations lib c lid kind =
     bind_io (lift_res (lifecycle_runs_namespace lid)) (\<lambda>ns.
     bind_io (all_pages (store_search_items c ns)
        (\<lambda>page. bind_res (map_res (relation_of_item lib) page) (\<lambda>rs. Inr (select_kind kind rs)))) (\<lambda>rs.
     return_io (sort_by rel_run_id rs)))"

definition select_run_relations :: "run_relation list \<Rightarrow> string list option \<Rightarrow> run_relation list" where
  "select_run_relations rs run_ids =
     filter (\<lambda>r. case run_ids of None \<Rightarrow> True | Some ids \<Rightarrow> rel_run_id r \<in> set ids) rs"

section \<open>Retention settings\<close>

definition default_retained :: int where
  "default_retained = 20"

definition retained_lifecycles :: "json \<Rightarrow> lifecycle_error + int" where
  "retained_lifecycles v =
     (case v of
        JInt i \<Rightarrow>
          if i < 0 then Inl (Value_failed ''retained_lifecycles must be at least 0'') else Inr i
      | _ \<Rightarrow> Inl (Value_failed ''retained_lifecycles must be an integer''))"

definition settings_snapshot :: "obj \<Rightarrow> lifecycle_error + int" where
  "settings_snapshot system =
     (let section_value = (case map_of system ''workflow_lifecycles'' of None \<Rightarrow> JObj [] | Some v \<Rightarrow> v) in
      retained_lifecycles
        (case section_value of
           JObj d \<Rightarrow> (case map_of d ''retained_lifecycles'' of None \<Rightarrow> JInt default_retained | Some v \<Rightarrow> v)
         | _ \<Rightarrow> JInt default_retained))"

text \<open>
  \<open>update\<close>: the value is checked before it is written; a section that is no mapping has no
  \<open>__setitem__\<close> and the update of the configuration fails.
\<close>

definition settings_update :: "int \<Rightarrow> obj \<Rightarrow> lifecycle_error + obj" where
  "settings_update i system =
     bind_res (retained_lifecycles (JInt i)) (\<lambda>v.
       case dict_setdefault ''workflow_lifecycles'' (JObj []) system of system1 \<Rightarrow>
       case map_of system1 ''workflow_lifecycles'' of
         Some (JObj d) \<Rightarrow>
           Inr (dict_set ''workflow_lifecycles'' (JObj (dict_set ''retained_lifecycles'' (JInt v) d)) system1)
       | _ \<Rightarrow> Inl (Value_failed ''workflow_lifecycles''))"

end
