(* ===== verification/Lifecycle_Observation.thy ===== *)
theory Lifecycle_Observation
  imports Lifecycle_Server
begin

text \<open>
  \<open>LangGraphLifecycleService\<close> of \<open>runtime/langgraph_lifecycle.py\<close>, the reading side: the record of
  a Lifecycle, its threads, Runs and relations as one observation in which what could not be read
  is kept as an error, the summary with the status, and the listing.
\<close>

section \<open>Status of a Lifecycle\<close>

definition error_statuses :: "string list" where
  "error_statuses = [''error'', ''timeout'']"

definition status_of_runs :: "string list \<Rightarrow> nat \<Rightarrow> string" where
  "status_of_runs statuses unavailable_count =
     (if statuses = [] then (if unavailable_count \<noteq> 0 then ''unavailable'' else ''pending'')
      else if list_ex is_active statuses then ''running''
      else if list_ex (\<lambda>s. s \<in> set error_statuses) statuses then ''error''
      else if list_ex (\<lambda>s. s = ''interrupted'') statuses then ''interrupted''
      else if unavailable_count \<noteq> 0 then ''unavailable''
      else ''success'')"

definition lifecycle_status :: "obj list \<Rightarrow> nat \<Rightarrow> bool \<Rightarrow> lifecycle_error + string" where
  "lifecycle_status runs unavailable_count start_error =
     (if start_error then Inr ''error''
      else bind_res (map_res official_status runs) (\<lambda>statuses. Inr (status_of_runs statuses unavailable_count)))"

section \<open>Sorting\<close>

fun insert_with :: "('a \<Rightarrow> 'a \<Rightarrow> bool) \<Rightarrow> 'a \<Rightarrow> 'a list \<Rightarrow> 'a list" where
  "insert_with le x [] = [x]"
| "insert_with le x (y # ys) = (if le x y then x # y # ys else y # insert_with le x ys)"

definition sort_with :: "('a \<Rightarrow> 'a \<Rightarrow> bool) \<Rightarrow> 'a list \<Rightarrow> 'a list" where
  "sort_with le xs = foldr (insert_with le) xs []"

definition pair_less_eq :: "string \<times> string \<Rightarrow> string \<times> string \<Rightarrow> bool" where
  "pair_less_eq p q = (if fst p = fst q then str_less_eq (snd p) (snd q) else str_less_eq (fst p) (fst q))"

text \<open>The order of lists of strings, and of casefolded texts (lists of code points).\<close>

fun namespace_less_eq :: "string list \<Rightarrow> string list \<Rightarrow> bool" where
  "namespace_less_eq [] ys = True"
| "namespace_less_eq (x # xs) [] = False"
| "namespace_less_eq (x # xs) (y # ys) = (if x = y then namespace_less_eq xs ys else str_less_eq x y)"

fun codes_less_eq :: "nat list \<Rightarrow> nat list \<Rightarrow> bool" where
  "codes_less_eq [] ys = True"
| "codes_less_eq (x # xs) [] = False"
| "codes_less_eq (x # xs) (y # ys) = (x < y \<or> x = y \<and> codes_less_eq xs ys)"

section \<open>Reading the server\<close>

definition thread_runs :: "'w agent_server \<Rightarrow> string \<Rightarrow> ('w, obj list) io" where
  "thread_runs c tid = all_pages (runs_list c tid) Inr"

text \<open>The threads of one Lifecycle, or every thread that names a Lifecycle.\<close>

definition lifecycle_threads :: "'w agent_server \<Rightarrow> string option \<Rightarrow> ('w, obj list) io" where
  "lifecycle_threads c lid =
     all_pages (threads_search c lid)
       (\<lambda>page. Inr (filter (\<lambda>t. lid \<noteq> None \<or>
          json_truthy (mapping_get (mapping_or_empty (mapping_get t ''metadata'')) ''lifecycle_id'')) page))"

definition parsed_record :: "lifecycle_library \<Rightarrow> string \<Rightarrow> json \<Rightarrow> lifecycle_error + lifecycle_record option" where
  "parsed_record lib lid item =
     (case item of
        JObj d \<Rightarrow>
          (case parse_record lib (mapping_get d ''value'') of
             None \<Rightarrow> Inl (Value_failed ''ValidationError'')
           | Some r \<Rightarrow>
               if lr_lifecycle_id r \<noteq> lid
               then Inl (Runtime_failed ''Lifecycle record identity does not match its namespace'')
               else Inr (Some r))
      | _ \<Rightarrow> Inr None)"

definition lifecycle_record_of :: "'w lifecycle_service \<Rightarrow> string \<Rightarrow> ('w, lifecycle_record option) io" where
  "lifecycle_record_of sv lid =
     bind_io (lift_res (lifecycle_record_namespace lid)) (\<lambda>ns.
     bind_io (call_io (store_get_item (sv_client sv) ns lifecycle_record_key)) (\<lambda>item.
     lift_res (parsed_record (sv_library sv) lid item)))"

definition list_namespaces :: "'w agent_server \<Rightarrow> string list \<Rightarrow> ('w, string list list) io" where
  "list_namespaces c prefix_path = all_pages (store_list_namespaces c prefix_path) Inr"

definition search_all_items :: "'w agent_server \<Rightarrow> string list \<Rightarrow> ('w, obj list) io" where
  "search_all_items c ns = all_pages (store_search_items c ns) Inr"

definition lifecycle_namespaces :: "'w agent_server \<Rightarrow> string option \<Rightarrow> ('w, string list list) io" where
  "lifecycle_namespaces c lid =
     bind_io (list_namespaces c (lifecycle_root # (case lid of None \<Rightarrow> [] | Some l \<Rightarrow> [l]))) (\<lambda>namespaces.
     bind_io (map_io (\<lambda>ns. bind_io (call_io (store_search_items c ns 1 0))
        (\<lambda>items. return_io (if items \<noteq> [] then [ns] else []))) namespaces) (\<lambda>populated.
     return_io (concat populated)))"

definition record_owner :: "string list \<Rightarrow> lifecycle_error + string list" where
  "record_owner ns =
     (if length ns = 3
      then bind_res (lifecycle_record_namespace (ns ! 1)) (\<lambda>own. Inr (if ns = own then [ns ! 1] else []))
      else Inr [])"

definition lifecycle_records :: "'w lifecycle_service \<Rightarrow> ('w, (string, lifecycle_record) dict) io" where
  "lifecycle_records sv =
     bind_io (list_namespaces (sv_client sv) [lifecycle_root]) (\<lambda>namespaces.
     bind_io (lift_res (map_res record_owner namespaces)) (\<lambda>owners.
     fold_io (\<lambda>records lid.
        bind_io (lifecycle_record_of sv lid) (\<lambda>found.
          return_io (case found of None \<Rightarrow> records | Some r \<Rightarrow> dict_set lid r records)))
       [] (unique_values (concat owners))))"

section \<open>One observation of a Lifecycle\<close>

record run_entry =
  en_run_id :: string
  en_run :: "obj option"
  en_relation :: "run_relation option"
  en_request_count :: "int option"
  en_request_count_error :: "unavailable option"
  en_error :: "unavailable option"

record thread_group =
  tg_thread_id :: string
  tg_thread :: "obj option"
  tg_runs :: "run_entry list"
  tg_error :: "unavailable option"

record lifecycle_observation =
  ob_lifecycle :: lifecycle_record
  ob_threads :: "obj list"
  ob_groups :: "thread_group list"
  ob_entries :: "run_entry list"
  ob_sessions :: "obj list"
  ob_relations :: "run_relation list"
  ob_failures :: "lifecycle_error list"
  ob_start_error :: "obj option"

definition observed_runs :: "run_entry list \<Rightarrow> obj list" where
  "observed_runs es = concat (map (\<lambda>e. case en_run e of None \<Rightarrow> [] | Some r \<Rightarrow> [r]) es)"

text \<open>
  \<open>run_request_counts\<close> of \<open>storage/model_call_archive.py\<close> over the archived lines: those that are
  mappings with a Run identity, counted by it.
\<close>

definition count_call :: "(string, int) dict \<Rightarrow> json \<Rightarrow> (string, int) dict" where
  "count_call counts line =
     (case line of
        JObj d \<Rightarrow>
          (case mapping_get d ''run_id'' of
             JStr rid \<Rightarrow>
               if rid = [] then counts
               else dict_set rid ((case map_of counts rid of None \<Rightarrow> 0 | Some n \<Rightarrow> n) + 1) counts
           | _ \<Rightarrow> counts)
      | _ \<Rightarrow> counts)"

definition run_request_counts :: "json list \<Rightarrow> (string, int) dict" where
  "run_request_counts records = foldl count_call [] records"

text \<open>The counts are optional; when the archive cannot be read, they are unknown with the reason.\<close>

definition request_counts ::
  "'w lifecycle_service \<Rightarrow> string \<Rightarrow> bool \<Rightarrow> ('w, (string, int) dict option \<times> unavailable option) io" where
  "request_counts sv lid include =
     (if include \<and> sv_model_calls sv then
        bind_io (attempt_io (call_io (local_model_calls (sv_client sv) lid))) (\<lambda>r.
          case r of
            Inr records \<Rightarrow> return_io (Some (run_request_counts records), None)
          | Inl (Client_failed e) \<Rightarrow>
              if os_or_value_error (sv_library sv) e
              then return_io (None, Some (unavailable_for ''model_request_count_unavailable'' (Client_failed e)))
              else raise_io (Client_failed e)
          | Inl e \<Rightarrow> raise_io e)
      else return_io (Some [], None))"

definition parsed_start_error :: "json \<Rightarrow> lifecycle_error + obj option" where
  "parsed_start_error item =
     (case item of
        JObj d \<Rightarrow>
          (case mapping_get d ''value'' of
             JObj v \<Rightarrow> Inr (Some v)
           | _ \<Rightarrow> Inl (Runtime_failed ''Lifecycle start-error record is invalid''))
      | _ \<Rightarrow> Inr None)"

definition start_error_of :: "'w lifecycle_service \<Rightarrow> string \<Rightarrow> ('w, obj option) io" where
  "start_error_of sv lid =
     bind_io (lift_res (lifecycle_input_namespace lid)) (\<lambda>ns.
     bind_io (call_io (store_get_item (sv_client sv) ns start_error_key)) (\<lambda>item.
     lift_res (parsed_start_error item)))"

text \<open>What is read so far: threads, the ids seen, the errors by thread and the failed reads.\<close>

record reading =
  rd_threads :: "obj list"
  rd_known :: "string list"
  rd_errors :: "(string, unavailable) dict"
  rd_failures :: "lifecycle_error list"
  rd_runs :: "(string, obj list) dict"

definition add_failure :: "lifecycle_error \<Rightarrow> lifecycle_error list \<Rightarrow> lifecycle_error list" where
  "add_failure e failures = (if exception_not_found e then failures else failures @ [e])"

definition read_failed :: "string \<Rightarrow> string \<Rightarrow> lifecycle_error \<Rightarrow> reading \<Rightarrow> reading" where
  "read_failed code tid e rd =
     rd\<lparr>rd_errors := dict_set tid (unavailable_for code e) (rd_errors rd),
        rd_failures := add_failure e (rd_failures rd)\<rparr>"

definition read_thread :: "'w agent_server \<Rightarrow> reading \<Rightarrow> string \<Rightarrow> ('w, reading) io" where
  "read_thread c rd tid =
     (if tid \<in> set (rd_known rd) then return_io rd
      else bind_io (attempt_io (call_io (threads_get c tid))) (\<lambda>r.
        let rd1 = (case r of
              Inr t \<Rightarrow> rd\<lparr>rd_threads := rd_threads rd @ [t]\<rparr>
            | Inl e \<Rightarrow> read_failed ''thread_unavailable'' tid e rd)
        in return_io (rd1\<lparr>rd_known := rd_known rd1 @ [tid]\<rparr>)))"

definition read_runs :: "'w lifecycle_service \<Rightarrow> reading \<Rightarrow> obj \<Rightarrow> ('w, reading) io" where
  "read_runs sv rd t =
     bind_io (lift_res (required_text (sv_library sv) t ''thread_id'')) (\<lambda>tid.
     bind_io (attempt_io (thread_runs (sv_client sv) tid)) (\<lambda>r.
       return_io (case r of
           Inr runs \<Rightarrow> rd\<lparr>rd_runs := dict_set tid runs (rd_runs rd)\<rparr>
         | Inl e \<Rightarrow> read_failed ''runs_unavailable'' tid e (rd\<lparr>rd_runs := dict_set tid [] (rd_runs rd)\<rparr>))))"

definition request_count_of :: "(string, int) dict option \<Rightarrow> string \<Rightarrow> int option" where
  "request_count_of counts rid =
     map_option (\<lambda>d. case map_of d rid of None \<Rightarrow> 0 | Some n \<Rightarrow> n) counts"

definition listed_entry ::
  "lifecycle_library \<Rightarrow> (string, run_relation) dict \<Rightarrow> (string, int) dict option \<times> unavailable option \<Rightarrow>
   obj \<Rightarrow> run_entry" where
  "listed_entry lib relations counts run =
     (let rid = field_text lib run ''run_id'' in
      \<lparr>en_run_id = rid, en_run = Some run, en_relation = map_of relations rid,
       en_request_count = request_count_of (fst counts) rid, en_request_count_error = snd counts, en_error = None\<rparr>)"

definition missing_entry ::
  "'w agent_server \<Rightarrow> string list \<Rightarrow> (string, int) dict option \<times> unavailable option \<Rightarrow>
   run_entry list \<times> lifecycle_error list \<Rightarrow> run_relation \<Rightarrow> ('w, run_entry list \<times> lifecycle_error list) io" where
  "missing_entry c observed counts st rel =
     (if rel_run_id rel \<in> set observed then return_io st
      else bind_io (attempt_io (call_io (runs_get c (rel_thread_id rel) (rel_run_id rel)))) (\<lambda>r.
        let entry = \<lparr>en_run_id = rel_run_id rel,
                     en_run = (case r of Inr run \<Rightarrow> Some run | Inl e \<Rightarrow> None),
                     en_relation = Some rel,
                     en_request_count = request_count_of (fst counts) (rel_run_id rel),
                     en_request_count_error = snd counts,
                     en_error = (case r of Inr run \<Rightarrow> None | Inl e \<Rightarrow> Some (unavailable_for ''run_unavailable'' e))\<rparr>
        in return_io (fst st @ [entry], (case r of Inr run \<Rightarrow> snd st | Inl e \<Rightarrow> add_failure e (snd st)))))"

definition entry_thread_id :: "lifecycle_library \<Rightarrow> run_entry \<Rightarrow> string" where
  "entry_thread_id lib e =
     (let v = (case en_run e of None \<Rightarrow> JStr [] | Some run \<Rightarrow> mapping_get run ''thread_id'') in
      if json_truthy v then py_text (value_repr lib) v
      else (case en_relation e of None \<Rightarrow> [] | Some rel \<Rightarrow> rel_thread_id rel))"

definition entry_key :: "lifecycle_library \<Rightarrow> run_entry \<Rightarrow> string \<times> string" where
  "entry_key lib e =
     ((case en_run e of None \<Rightarrow> [] | Some run \<Rightarrow> field_text lib run ''created_at''), en_run_id e)"

definition thread_groups ::
  "lifecycle_library \<Rightarrow> obj list \<Rightarrow> run_entry list \<Rightarrow> (string, unavailable) dict \<Rightarrow> thread_group list" where
  "thread_groups lib threads entries errors =
     (let threads_by_id = dict_of (map (\<lambda>t. (field_text lib t ''thread_id'', t)) threads);
          key = (\<lambda>tid. ((case map_of threads_by_id tid of None \<Rightarrow> [] | Some t \<Rightarrow> field_text lib t ''created_at''), tid))
      in map (\<lambda>tid. \<lparr>tg_thread_id = tid, tg_thread = map_of threads_by_id tid,
                    tg_runs = sort_with (\<lambda>a b. pair_less_eq (entry_key lib a) (entry_key lib b))
                       (filter (\<lambda>e. entry_thread_id lib e = tid) entries),
                    tg_error = map_of errors tid\<rparr>)
          (sort_with (\<lambda>a b. pair_less_eq (key a) (key b))
            (remdups (map fst threads_by_id @ map (entry_thread_id lib) entries))))"

definition observe_lifecycle ::
  "'w lifecycle_service \<Rightarrow> lifecycle_record \<Rightarrow> obj list \<Rightarrow> bool \<Rightarrow> ('w, lifecycle_observation) io" where
  "observe_lifecycle sv lifecycle threads include =
     (let c = sv_client sv; lib = sv_library sv; lid = lr_lifecycle_id lifecycle in
      bind_io (search_lifecycle_run_relations lib c lid None) (\<lambda>relations.
      bind_io (request_counts sv lid include) (\<lambda>counts.
      bind_io (call_io (local_sessions c lid)) (\<lambda>sessions.
      bind_io (start_error_of sv lid) (\<lambda>start_error.
      bind_io (fold_io (read_thread c)
          \<lparr>rd_threads = threads, rd_known = map (\<lambda>t. field_text lib t ''thread_id'') threads,
           rd_errors = [], rd_failures = [], rd_runs = []\<rparr>
          (unique_values (map rel_thread_id relations))) (\<lambda>rd.
      bind_io (fold_io (read_runs sv) rd (rd_threads rd)) (\<lambda>rd1.
      let listed = map (listed_entry lib (dict_of (map (\<lambda>r. (rel_run_id r, r)) relations)) counts)
                     (concat (map snd (rd_runs rd1))) in
      bind_io (fold_io (missing_entry c (map en_run_id listed) counts) (listed, rd_failures rd1) relations)
        (\<lambda>(entries, failures).
      return_io
        \<lparr>ob_lifecycle = lifecycle, ob_threads = rd_threads rd1,
         ob_groups = thread_groups lib (rd_threads rd1) entries (rd_errors rd1),
         ob_entries = entries, ob_sessions = sessions, ob_relations = relations,
         ob_failures = failures, ob_start_error = start_error\<rparr>))))))))"

section \<open>Summary\<close>

text \<open>A time of a field, when it has one.\<close>

definition utc_time :: "lifecycle_library \<Rightarrow> json \<Rightarrow> lifecycle_error + int option" where
  "utc_time lib v =
     (if v = JNull \<or> v = JStr [] then Inr None
      else (case parse_time lib (py_text (value_repr lib) v) of
              None \<Rightarrow> Inl (Value_failed ''Invalid isoformat string'') | Some t \<Rightarrow> Inr (Some t)))"

definition times_of :: "lifecycle_library \<Rightarrow> json list \<Rightarrow> lifecycle_error + int list" where
  "times_of lib vs = bind_res (map_res (utc_time lib) vs) (\<lambda>ts. Inr (List.map_filter id ts))"

record subject =
  su_graph_kind :: string
  su_id :: string
  su_name :: string

definition add_subject ::
  "(string \<times> string, subject) dict \<Rightarrow> run_relation \<Rightarrow> lifecycle_error + (string \<times> string, subject) dict" where
  "add_subject subjects rel =
     (let s = \<lparr>su_graph_kind = rel_graph_kind rel, su_id = rel_resource_id rel, su_name = rel_resource_name rel\<rparr>;
          identity = (rel_graph_kind rel, rel_resource_id rel) in
      case map_of subjects identity of
        None \<Rightarrow> Inr (dict_set identity s subjects)
      | Some s0 \<Rightarrow>
          if s0 \<noteq> s then Inl (Runtime_failed ''Lifecycle Graph subject identity is inconsistent'')
          else Inr (dict_set identity s subjects))"

fun add_subjects ::
  "(string \<times> string, subject) dict \<Rightarrow> run_relation list \<Rightarrow> lifecycle_error + (string \<times> string, subject) dict" where
  "add_subjects subjects [] = Inr subjects"
| "add_subjects subjects (r # rs) = bind_res (add_subject subjects r) (\<lambda>s1. add_subjects s1 rs)"

definition subject_less_eq :: "subject \<Rightarrow> subject \<Rightarrow> bool" where
  "subject_less_eq a b =
     (let ka = casefold (su_graph_kind a); kb = casefold (su_graph_kind b);
          na = casefold (su_name a); nb = casefold (su_name b) in
      if ka \<noteq> kb then codes_less_eq ka kb
      else if na \<noteq> nb then codes_less_eq na nb
      else codes_less_eq (casefold (su_id a)) (casefold (su_id b)))"

record summary =
  sm_lifecycle_id :: string
  sm_request_id :: string
  sm_created_at :: string
  sm_updated_at :: string
  sm_status :: string
  sm_subjects :: "subject list"
  sm_start_error :: "obj option"
  sm_run_count :: nat
  sm_active_run_count :: nat
  sm_error_run_count :: nat

definition update_times :: "lifecycle_library \<Rightarrow> lifecycle_observation \<Rightarrow> lifecycle_error + int list" where
  "update_times lib ob =
     times_of lib
       (map (\<lambda>t. mapping_get t ''updated_at'') (ob_threads ob) @
        concat (map (\<lambda>s. [mapping_get s ''finished_at'', mapping_get s ''started_at'']) (ob_sessions ob)) @
        (case ob_start_error ob of
           None \<Rightarrow> [] | Some d \<Rightarrow> if d = [] then [] else [mapping_get d ''occurred_at'']))"

definition unavailable_runs :: "run_entry list \<Rightarrow> nat" where
  "unavailable_runs es = length (filter (\<lambda>e. en_run e = None) es)"

definition summary_of :: "lifecycle_library \<Rightarrow> lifecycle_observation \<Rightarrow> lifecycle_error + summary" where
  "summary_of lib ob =
     (let lifecycle = ob_lifecycle ob;
          runs = observed_runs (ob_entries ob);
          entry = \<lparr>su_graph_kind = lr_subject_kind lifecycle, su_id = lr_subject_id lifecycle,
                   su_name = lr_subject_name lifecycle\<rparr> in
      bind_res (update_times lib ob) (\<lambda>times.
      bind_res (add_subjects [((su_graph_kind entry, su_id entry), entry)] (ob_relations ob)) (\<lambda>subjects.
      bind_res (map_res official_status runs) (\<lambda>statuses.
      bind_res (lifecycle_status runs (unavailable_runs (ob_entries ob)) (ob_start_error ob \<noteq> None)) (\<lambda>status.
      Inr \<lparr>sm_lifecycle_id = lr_lifecycle_id lifecycle, sm_request_id = lr_request_id lifecycle,
           sm_created_at = iso_format lib (lr_created_at lifecycle),
           sm_updated_at = iso_format lib (foldl max (lr_created_at lifecycle) times),
           sm_status = status,
           sm_subjects = sort_with subject_less_eq (map snd subjects),
           sm_start_error = ob_start_error ob,
           sm_run_count = length (ob_entries ob),
           sm_active_run_count = length (filter is_active statuses),
           sm_error_run_count = length (filter (\<lambda>s. s \<in> set error_statuses) statuses)\<rparr>)))))"

section \<open>Listing\<close>

definition thread_lifecycle :: "lifecycle_library \<Rightarrow> obj \<Rightarrow> string" where
  "thread_lifecycle lib t = field_text lib (mapping_or_empty (mapping_get t ''metadata'')) ''lifecycle_id''"

definition summarize ::
  "'w lifecycle_service \<Rightarrow> obj list \<Rightarrow> string \<times> lifecycle_record \<Rightarrow> ('w, summary) io" where
  "summarize sv threads kr =
     bind_io (observe_lifecycle sv (snd kr)
        (filter (\<lambda>t. thread_lifecycle (sv_library sv) t = fst kr) threads) False) (\<lambda>ob.
     lift_res (summary_of (sv_library sv) ob))"

fun occurs_in :: "'a list \<Rightarrow> 'a list \<Rightarrow> bool" where
  "occurs_in p [] = (p = [])"
| "occurs_in p (x # xs) = (prefix p (x # xs) \<or> occurs_in p xs)"

definition search_text :: "summary \<Rightarrow> string" where
  "search_text s =
     join '' '' ([sm_lifecycle_id s, sm_request_id s] @
       concat (map (\<lambda>u. [su_graph_kind u, su_id u, su_name u]) (sm_subjects s)))"

definition matches_query :: "string \<Rightarrow> summary \<Rightarrow> bool" where
  "matches_query query s \<longleftrightarrow>
     casefold (str_strip query) = [] \<or> occurs_in (casefold (str_strip query)) (casefold (search_text s))"

text \<open>Newest first: a reversed sort keeps the order of equal keys.\<close>

definition newest_first :: "summary list \<Rightarrow> summary list" where
  "newest_first ss =
     rev (sort_with (\<lambda>a b. pair_less_eq (sm_created_at a, sm_lifecycle_id a) (sm_created_at b, sm_lifecycle_id b))
            (rev ss))"

definition list_all_lifecycles :: "'w lifecycle_service \<Rightarrow> string \<Rightarrow> ('w, summary list) io" where
  "list_all_lifecycles sv query =
     bind_io (lifecycle_records sv) (\<lambda>records.
     bind_io (lifecycle_threads (sv_client sv) None) (\<lambda>threads.
     bind_io (map_io (summarize sv threads) records) (\<lambda>summaries.
     return_io (newest_first (filter (matches_query query) summaries)))))"

record lifecycle_page =
  lp_items :: "summary list"
  lp_page :: int
  lp_page_size :: int
  lp_total :: int
  lp_total_pages :: int

text \<open>\<open>xs[a:b]\<close>, where a negative bound counts from the end.\<close>

definition slice_bound :: "int \<Rightarrow> nat \<Rightarrow> nat" where
  "slice_bound i n = (if i < 0 then nat (i + int n) else min (nat i) n)"

definition list_slice :: "int \<Rightarrow> int \<Rightarrow> 'a list \<Rightarrow> 'a list" where
  "list_slice a b xs = drop (slice_bound a (length xs)) (take (slice_bound b (length xs)) xs)"

definition page_of :: "int \<Rightarrow> int \<Rightarrow> summary list \<Rightarrow> lifecycle_page" where
  "page_of page page_size summaries =
     (let total = int (length summaries); offset = (page - 1) * page_size in
      \<lparr>lp_items = list_slice offset (offset + page_size) summaries,
       lp_page = page, lp_page_size = page_size, lp_total = total,
       lp_total_pages = max 1 ((total + page_size - 1) div page_size)\<rparr>)"

definition list_page :: "'w lifecycle_service \<Rightarrow> int \<Rightarrow> int \<Rightarrow> string \<Rightarrow> ('w, lifecycle_page) io" where
  "list_page sv page page_size query =
     bind_io (list_all_lifecycles sv query) (\<lambda>summaries. return_io (page_of page page_size summaries))"

end
