(* ===== verification/Lifecycle_Views.thy ===== *)
theory Lifecycle_Views
  imports Lifecycle_Observation
begin

text \<open>
  The views of one Lifecycle in \<open>runtime/langgraph_lifecycle.py\<close> (snapshot, store, graph, state,
  history) and the monitoring archive of \<open>export\<close> and \<open>runtime/lifecycle_monitoring_archive.py\<close>.
\<close>

section \<open>Frozen configuration\<close>

definition configuration_snapshot :: "'w lifecycle_service \<Rightarrow> string \<Rightarrow> ('w, frozen_snapshot) io" where
  "configuration_snapshot sv lid =
     bind_io (lift_res (lifecycle_configuration_namespace lid)) (\<lambda>ns.
     bind_io (call_io (store_get_item (sv_client sv) ns configuration_key)) (\<lambda>item.
     lift_res (case mapping_get (mapping_or_empty item) ''value'' of
        JObj d \<Rightarrow>
          (case parse_configuration (sv_library sv) (JObj d) of
             None \<Rightarrow> Inl (Value_failed ''ValidationError'') | Some s \<Rightarrow> Inr s)
      | _ \<Rightarrow> Inl (Runtime_failed ''The Lifecycle configuration snapshot is unavailable.''))))"

fun objects_of :: "json list \<Rightarrow> obj list" where
  "objects_of [] = []"
| "objects_of (JObj d # xs) = d # objects_of xs"
| "objects_of (_ # xs) = objects_of xs"

definition snapshot_workflow :: "frozen_snapshot \<Rightarrow> string \<Rightarrow> lifecycle_error + obj \<times> obj" where
  "snapshot_workflow s wid =
     (case mapping_get (snap_config s) ''workflows'' of
        JList ws \<Rightarrow>
          (case find (\<lambda>d. map_of d ''id'' = Some (JStr wid)) (objects_of ws) of
             None \<Rightarrow> Inl (Lookup_failed (''Workflow '' @ wid @ '' is not in the Lifecycle snapshot.''))
           | Some d \<Rightarrow>
               (case (mapping_get d ''definition'', mapping_get d ''layout'') of
                  (JObj df, JObj ly) \<Rightarrow> Inr (df, ly)
                | _ \<Rightarrow> Inl (Value_failed ''The Lifecycle Workflow document is invalid.'')))
      | _ \<Rightarrow> Inl (Value_failed ''The Lifecycle Workflow snapshot is invalid.''))"

definition snapshot_commands :: "lifecycle_library \<Rightarrow> frozen_snapshot \<Rightarrow> (string \<times> string) list" where
  "snapshot_commands lib s =
     (case mapping_get (mapping_or_empty (mapping_get (snap_config s) ''components'')) ''command'' of
        JList cs \<Rightarrow>
          List.map_filter (\<lambda>d.
            case (map_of d ''id'', map_of d ''name'') of
              (Some i, Some n) \<Rightarrow> Some (py_text (value_repr lib) i, py_text (value_repr lib) n)
            | _ \<Rightarrow> None) (objects_of cs)
      | _ \<Rightarrow> [])"

section \<open>Snapshot, sessions and store\<close>

record lifecycle_view =
  lv_summary :: summary
  lv_threads :: "thread_group list"
  lv_sessions :: "obj list"

definition require_record :: "'w lifecycle_service \<Rightarrow> string \<Rightarrow> ('w, lifecycle_record) io" where
  "require_record sv lid =
     bind_io (lifecycle_record_of sv lid) (\<lambda>found.
       case found of None \<Rightarrow> raise_io (Lifecycle_not_found lid) | Some r \<Rightarrow> return_io r)"

definition lifecycle_snapshot :: "'w lifecycle_service \<Rightarrow> string \<Rightarrow> ('w, lifecycle_view) io" where
  "lifecycle_snapshot sv lid =
     bind_io (require_record sv lid) (\<lambda>r.
     bind_io (lifecycle_threads (sv_client sv) (Some lid)) (\<lambda>threads.
     bind_io (observe_lifecycle sv r threads True) (\<lambda>ob.
     bind_io (lift_res (summary_of (sv_library sv) ob)) (\<lambda>s.
     return_io \<lparr>lv_summary = s, lv_threads = ob_groups ob, lv_sessions = ob_sessions ob\<rparr>))))"

definition external_agent_session :: "'w lifecycle_service \<Rightarrow> string \<Rightarrow> string \<Rightarrow> ('w, json) io" where
  "external_agent_session sv lid sid =
     bind_io (require_record sv lid) (\<lambda>_.
     bind_io (call_io (local_session (sv_client sv) lid sid)) (\<lambda>v.
       if v = JNull then raise_io (Session_not_found sid) else return_io v))"

type_synonym store_group = "string list \<times> obj list"

definition store_data :: "'w agent_server \<Rightarrow> string \<Rightarrow> ('w, store_group list) io" where
  "store_data c lid =
     bind_io (lifecycle_namespaces c (Some lid)) (\<lambda>namespaces.
     map_io (\<lambda>ns. bind_io (search_all_items c ns) (\<lambda>items. return_io (ns, items)))
       (sort_with namespace_less_eq namespaces))"

definition lifecycle_store :: "'w lifecycle_service \<Rightarrow> string \<Rightarrow> ('w, store_group list) io" where
  "lifecycle_store sv lid = bind_io (require_record sv lid) (\<lambda>_. store_data (sv_client sv) lid)"

section \<open>Views of one Run\<close>

definition require_relation :: "'w lifecycle_service \<Rightarrow> string \<Rightarrow> string \<Rightarrow> ('w, run_relation) io" where
  "require_relation sv lid rid =
     bind_io (require_record sv lid) (\<lambda>_.
     bind_io (search_lifecycle_run_relations (sv_library sv) (sv_client sv) lid None) (\<lambda>relations.
       case find (\<lambda>r. rel_run_id r = rid) relations of
         None \<Rightarrow> raise_io (Run_not_found rid) | Some r \<Rightarrow> return_io r))"

text \<open>A view keeps the failure of its own read: the value, or the reason it is unavailable.\<close>

definition optional_io :: "string \<Rightarrow> ('w, 'a) io \<Rightarrow> ('w, unavailable + 'a) io" where
  "optional_io code m =
     bind_io (attempt_io m) (\<lambda>r.
       return_io (case r of Inl e \<Rightarrow> Inl (unavailable_for code e) | Inr x \<Rightarrow> Inr x))"

datatype graph_content =
    Agent_graph json
  | Workflow_graph obj obj "node_kind_spec list" "(string \<times> string) list"

definition graph_content_of :: "'w lifecycle_service \<Rightarrow> string \<Rightarrow> run_relation \<Rightarrow> ('w, graph_content) io" where
  "graph_content_of sv lid rel =
     (if rel_graph_kind rel = ''workflow''
      then bind_io (configuration_snapshot sv lid) (\<lambda>s.
           bind_io (lift_res (snapshot_workflow s (rel_resource_id rel))) (\<lambda>(df, ly).
           return_io (Workflow_graph df ly node_catalog (snapshot_commands (sv_library sv) s))))
      else bind_io (call_io (assistants_get_graph (sv_client sv) (rel_assistant_id rel))) (\<lambda>g.
           return_io (Agent_graph g)))"

record 'a run_view =
  rv_run_id :: string
  rv_relation :: run_relation
  rv_value :: "unavailable + 'a"

definition run_view_of ::
  "'w lifecycle_service \<Rightarrow> string \<Rightarrow> string \<Rightarrow> string \<Rightarrow> (run_relation \<Rightarrow> ('w, 'a) io) \<Rightarrow> ('w, 'a run_view) io" where
  "run_view_of sv lid rid code m =
     bind_io (require_relation sv lid rid) (\<lambda>rel.
     bind_io (optional_io code (m rel)) (\<lambda>v.
     return_io \<lparr>rv_run_id = rid, rv_relation = rel, rv_value = v\<rparr>))"

definition lifecycle_graph :: "'w lifecycle_service \<Rightarrow> string \<Rightarrow> string \<Rightarrow> ('w, graph_content run_view) io" where
  "lifecycle_graph sv lid rid =
     run_view_of sv lid rid ''graph_unavailable'' (graph_content_of sv lid)"

definition visible_state :: "run_relation \<Rightarrow> json \<Rightarrow> json" where
  "visible_state rel st =
     (case st of
        JObj d \<Rightarrow>
          (case mapping_get d ''values'' of
             JObj vs \<Rightarrow>
               if rel_graph_kind rel = ''workflow''
               then JObj (dict_set ''values'' (JObj (flatten_workflow_state (JObj vs))) d) else st
           | _ \<Rightarrow> st)
      | _ \<Rightarrow> st)"

definition lifecycle_state :: "'w lifecycle_service \<Rightarrow> string \<Rightarrow> string \<Rightarrow> ('w, json run_view) io" where
  "lifecycle_state sv lid rid =
     run_view_of sv lid rid ''state_unavailable''
       (\<lambda>rel. bind_io (call_io (threads_get_state (sv_client sv) (rel_thread_id rel))) (\<lambda>st.
          return_io (visible_state rel st)))"

definition lifecycle_history ::
  "'w lifecycle_service \<Rightarrow> string \<Rightarrow> string \<Rightarrow> nat \<Rightarrow> ('w, obj list run_view) io" where
  "lifecycle_history sv lid rid limit =
     run_view_of sv lid rid ''history_unavailable''
       (\<lambda>rel. call_io (threads_get_history (sv_client sv) (rel_thread_id rel) limit None))"

text \<open>The whole history, page by page, each from the checkpoint of the last entry before.\<close>

definition next_checkpoint :: "obj list \<Rightarrow> lifecycle_error + obj" where
  "next_checkpoint page =
     (case mapping_get (last page) ''checkpoint'' of
        JObj d \<Rightarrow> Inr d
      | _ \<Rightarrow> Inl (Runtime_failed ''LangGraph history page omits its checkpoint cursor''))"

partial_function (option) read_history ::
  "(obj option \<Rightarrow> ('w, obj list) call) \<Rightarrow> obj option \<Rightarrow> obj list \<Rightarrow> 'w \<Rightarrow>
   ((lifecycle_error + obj list) \<times> 'w) option" where
  [code]:
  "read_history fetch cursor acc w =
     (case fetch cursor w of
        (Inl e, w1) \<Rightarrow> Some (Inl (Client_failed e), w1)
      | (Inr page, w1) \<Rightarrow>
          if length page < 100 then Some (Inr (acc @ page), w1)
          else (case next_checkpoint page of
                  Inl e \<Rightarrow> Some (Inl e, w1)
                | Inr d \<Rightarrow> read_history fetch (Some d) (acc @ page) w1))"

definition full_history :: "'w agent_server \<Rightarrow> string \<Rightarrow> ('w, obj list) io" where
  "full_history c tid = read_history (threads_get_history c tid 100) None []"

section \<open>Monitoring archive\<close>

datatype export_value =
    X_view lifecycle_view
  | X_store "store_group list"
  | X_json json
  | X_document obj obj
  | X_history "obj list"
  | X_bytes string

type_synonym export_result = "string \<times> unavailable option"

record export_draft =
  xd_files :: "(string, export_value) dict"
  xd_results :: "export_result list"

definition add_file :: "string \<Rightarrow> export_value \<Rightarrow> export_draft \<Rightarrow> export_draft" where
  "add_file path v d =
     d\<lparr>xd_files := dict_set path v (xd_files d), xd_results := xd_results d @ [(path, None)]\<rparr>"

definition add_error :: "string \<Rightarrow> unavailable \<Rightarrow> export_draft \<Rightarrow> export_draft" where
  "add_error path u d = d\<lparr>xd_results := xd_results d @ [(path, Some u)]\<rparr>"

definition capture ::
  "string \<Rightarrow> ('a \<Rightarrow> export_value) \<Rightarrow> ('w, 'a) io \<Rightarrow> export_draft \<Rightarrow> ('w, 'a option \<times> export_draft) io" where
  "capture path wrap m d =
     bind_io (attempt_io m) (\<lambda>r.
       return_io (case r of
           Inl e \<Rightarrow> (None, add_error path (unavailable_for ''unavailable'' e) d)
         | Inr x \<Rightarrow> (Some x, add_file path (wrap x) d)))"

definition sorted_values :: "string list \<Rightarrow> string list" where
  "sorted_values xs = sort_by (\<lambda>x. x) (remdups xs)"

definition capture_assistant ::
  "'w lifecycle_service \<Rightarrow> export_draft \<Rightarrow> string \<Rightarrow> ('w, export_draft) io" where
  "capture_assistant sv d aid =
     bind_io (capture (''assistants/'' @ quote_all (sv_library sv) aid @ ''/graph.json'') X_json
        (call_io (assistants_get_graph (sv_client sv) aid)) d) (\<lambda>r. return_io (snd r))"

definition capture_workflow ::
  "'w lifecycle_service \<Rightarrow> frozen_snapshot \<Rightarrow> export_draft \<Rightarrow> string \<Rightarrow> ('w, export_draft) io" where
  "capture_workflow sv s d wid =
     bind_io (capture (''workflows/'' @ quote_all (sv_library sv) wid @ ''/graph.json'')
        (\<lambda>(df, ly). X_document df ly) (lift_res (snapshot_workflow s wid)) d) (\<lambda>r. return_io (snd r))"

definition capture_thread ::
  "'w lifecycle_service \<Rightarrow> export_draft \<Rightarrow> thread_group \<Rightarrow> ('w, export_draft) io" where
  "capture_thread sv d g =
     (let c = sv_client sv; tid = tg_thread_id g; path = ''threads/'' @ quote_all (sv_library sv) tid in
      case tg_thread g of
        None \<Rightarrow>
          return_io (add_error path
            (case tg_error g of
               None \<Rightarrow> \<lparr>ua_code = ''thread_unavailable'', ua_message = ''The official Thread is unavailable.''\<rparr>
             | Some u \<Rightarrow> u) d)
      | Some t \<Rightarrow>
          bind_io (capture (path @ ''/state.json'') X_json (call_io (threads_get_state c tid)) d) (\<lambda>r1.
          bind_io (capture (path @ ''/history.json'') X_history (full_history c tid) (snd r1)) (\<lambda>r2.
          return_io (snd r2))))"

definition agent_assistants :: "run_relation list \<Rightarrow> string list" where
  "agent_assistants rs =
     sorted_values (map rel_assistant_id
       (filter (\<lambda>r. rel_assistant_id r \<noteq> [] \<and> rel_graph_kind r = ''agent'') rs))"

definition relation_workflows :: "run_relation list \<Rightarrow> string list" where
  "relation_workflows rs =
     sorted_values (map rel_resource_id (filter (\<lambda>r. rel_graph_kind r = ''workflow'') rs))"

record export_manifest =
  xm_lifecycle_id :: string
  xm_exported_at :: string
  xm_lifecycle_status :: string
  xm_files :: "export_result list"

record monitoring_archive =
  ma_filename :: string
  ma_manifest :: export_manifest
  ma_entries :: "(string \<times> export_value) list"

definition safe_char :: "char \<Rightarrow> char" where
  "safe_char ch = (if alnum_char ch \<or> ch \<in> set ''._-'' then ch else CHR ''_'')"

definition build_monitoring_archive ::
  "string \<Rightarrow> export_manifest \<Rightarrow> (string, export_value) dict \<Rightarrow> monitoring_archive" where
  "build_monitoring_archive lid m files =
     \<lparr>ma_filename = ''lifecycle-monitoring-'' @ map safe_char lid @ ''.zip'',
      ma_manifest = m, ma_entries = sort_by fst files\<rparr>"

definition manifest_entry :: string where
  "manifest_entry = ''manifest.json''"

text \<open>The names of the archive's entries, in the order they are written.\<close>

definition archive_names :: "monitoring_archive \<Rightarrow> string list" where
  "archive_names a = manifest_entry # map fst (ma_entries a)"

definition export_contents ::
  "'w lifecycle_service \<Rightarrow> string \<Rightarrow> lifecycle_observation \<Rightarrow> lifecycle_view \<Rightarrow> ('w, export_draft) io" where
  "export_contents sv lid ob view =
     (let c = sv_client sv;
          d0 = add_file ''snapshot.json'' (X_view view) \<lparr>xd_files = [], xd_results = []\<rparr> in
      bind_io (capture ''store.json'' X_store (store_data c lid) d0) (\<lambda>r1.
      bind_io (capture ''configuration/snapshot.json'' (\<lambda>s. X_json (snap_value s))
         (configuration_snapshot sv lid) (snd r1)) (\<lambda>r2.
      bind_io (fold_io (capture_assistant sv) (snd r2) (agent_assistants (ob_relations ob))) (\<lambda>d3.
      bind_io (case fst r2 of
          None \<Rightarrow> return_io d3
        | Some s \<Rightarrow> fold_io (capture_workflow sv s) d3 (relation_workflows (ob_relations ob))) (\<lambda>d4.
      fold_io (capture_thread sv) d4 (ob_groups ob))))))"

definition export_lifecycle ::
  "'w lifecycle_service \<Rightarrow> string \<Rightarrow> string \<Rightarrow> ('w, monitoring_archive) io" where
  "export_lifecycle sv exported_at lid =
     (let c = sv_client sv in
      bind_io (require_record sv lid) (\<lambda>r.
      bind_io (lifecycle_threads c (Some lid)) (\<lambda>threads.
      bind_io (observe_lifecycle sv r threads True) (\<lambda>ob.
      bind_io (lift_res (summary_of (sv_library sv) ob)) (\<lambda>s.
      bind_io (export_contents sv lid ob
         \<lparr>lv_summary = s, lv_threads = ob_groups ob, lv_sessions = ob_sessions ob\<rparr>) (\<lambda>d.
      bind_io (if sv_model_calls sv
               then bind_io (call_io (local_archive c lid)) (\<lambda>content.
                    return_io (case content of
                        None \<Rightarrow> d | Some b \<Rightarrow> add_file ''model-calls.jsonl'' (X_bytes b) d))
               else return_io d) (\<lambda>d1.
      return_io (build_monitoring_archive lid
        \<lparr>xm_lifecycle_id = lid, xm_exported_at = exported_at, xm_lifecycle_status = sm_status s,
         xm_files = xd_results d1\<rparr> (xd_files d1)))))))))"

end
