(* ===== verification/Lifecycle_Deletion.thy ===== *)
theory Lifecycle_Deletion
  imports Lifecycle_Views
begin

text \<open>
  The writing side of \<open>LangGraphLifecycleService\<close> in \<open>runtime/langgraph_lifecycle.py\<close>: cancelling
  the active Runs of a Lifecycle, deleting a Lifecycle with everything it owns, deleting every
  Lifecycle of a search, and the retention of the newest ones.
\<close>

definition entry_active :: "run_entry \<Rightarrow> lifecycle_error + bool" where
  "entry_active e =
     (case en_run e of
        None \<Rightarrow> Inr False
      | Some run \<Rightarrow> bind_res (official_status run) (\<lambda>s. Inr (is_active s)))"

section \<open>Cancelling\<close>

definition cancel_entry ::
  "'w agent_server \<Rightarrow> (string, run_relation) dict \<Rightarrow> nat \<Rightarrow> run_entry \<Rightarrow> ('w, nat) io" where
  "cancel_entry c relations cancelled e =
     (case map_of relations (en_run_id e) of
        None \<Rightarrow> return_io cancelled
      | Some rel \<Rightarrow>
          bind_io (lift_res (entry_active e)) (\<lambda>active.
            if active
            then bind_io (call_io (runs_cancel c (rel_thread_id rel) (rel_run_id rel))) (\<lambda>_.
                 return_io (cancelled + 1))
            else return_io cancelled))"

definition cancel_active :: "'w lifecycle_service \<Rightarrow> string \<Rightarrow> ('w, nat) io" where
  "cancel_active sv lid =
     bind_io (require_record sv lid) (\<lambda>r.
     bind_io (lifecycle_threads (sv_client sv) (Some lid)) (\<lambda>threads.
     bind_io (observe_lifecycle sv r threads False) (\<lambda>ob.
       if ob_failures ob \<noteq> []
       then raise_io (Lifecycle_unavailable
              ''Cannot cancel a Lifecycle while its official Thread/Run status is unavailable'')
       else fold_io (cancel_entry (sv_client sv)
                       (dict_of (map (\<lambda>rel. (rel_run_id rel, rel)) (ob_relations ob))))
              0 (ob_entries ob))))"

section \<open>Deleting one Lifecycle\<close>

text \<open>
  The namespaces of a Lifecycle with that of its record last: the sort by a truth value keeps the
  order of the others.
\<close>

definition record_last :: "string list \<Rightarrow> string list list \<Rightarrow> string list list" where
  "record_last ns nss = filter (\<lambda>x. x \<noteq> ns) nss @ filter (\<lambda>x. x = ns) nss"

definition delete_item_of ::
  "'w lifecycle_service \<Rightarrow> string list \<Rightarrow> obj \<Rightarrow> ('w, unit) io" where
  "delete_item_of sv ns item =
     bind_io (lift_res (required_text (sv_library sv) item ''key'')) (\<lambda>k.
     call_io (store_delete_item (sv_client sv) ns k))"

definition delete_namespace :: "'w lifecycle_service \<Rightarrow> string list \<Rightarrow> ('w, unit) io" where
  "delete_namespace sv ns =
     bind_io (search_all_items (sv_client sv) ns) (\<lambda>items. each_io (delete_item_of sv ns) items)"

definition delete_store_prefix :: "'w lifecycle_service \<Rightarrow> string \<Rightarrow> ('w, unit) io" where
  "delete_store_prefix sv lid =
     bind_io (list_namespaces (sv_client sv) [lifecycle_root, lid]) (\<lambda>namespaces.
     bind_io (lift_res (lifecycle_record_namespace lid)) (\<lambda>own.
     each_io (delete_namespace sv) (record_last own namespaces)))"

definition delete_thread :: "'w lifecycle_service \<Rightarrow> obj \<Rightarrow> ('w, unit) io" where
  "delete_thread sv t =
     bind_io (lift_res (required_text (sv_library sv) t ''thread_id'')) (\<lambda>tid.
     call_io (threads_delete (sv_client sv) tid))"

text \<open>\<open>any(... for run in runs)\<close> stops at the first active Run.\<close>

fun any_active :: "obj list \<Rightarrow> lifecycle_error + bool" where
  "any_active [] = Inr False"
| "any_active (run # runs) =
     bind_res (official_status run) (\<lambda>s. if is_active s then Inr True else any_active runs)"

definition delete_owned :: "'w lifecycle_service \<Rightarrow> string \<Rightarrow> obj list \<Rightarrow> ('w, unit) io" where
  "delete_owned sv lid threads =
     bind_io (each_io (delete_thread sv) threads) (\<lambda>_.
     bind_io (if sv_data_root sv then call_io (remove_local_state (sv_client sv) lid) else return_io ()) (\<lambda>_.
     bind_io (if sv_model_calls sv then call_io (discard_model_calls (sv_client sv) lid) else return_io ()) (\<lambda>_.
     delete_store_prefix sv lid)))"

definition delete_lifecycle :: "'w lifecycle_service \<Rightarrow> string \<Rightarrow> ('w, nat) io" where
  "delete_lifecycle sv lid =
     bind_io (require_record sv lid) (\<lambda>r.
     bind_io (lifecycle_threads (sv_client sv) (Some lid)) (\<lambda>threads.
     bind_io (observe_lifecycle sv r threads False) (\<lambda>ob.
       if ob_failures ob \<noteq> []
       then raise_io (Lifecycle_unavailable
              ''Cannot delete a Lifecycle while its official Thread/Run status is unavailable'')
       else bind_io (lift_res (any_active (observed_runs (ob_entries ob)))) (\<lambda>active.
         if active then raise_io (Lifecycle_active lid)
         else bind_io (delete_owned sv lid (ob_threads ob)) (\<lambda>_.
              return_io (length (ob_threads ob)))))))"

section \<open>Deleting many\<close>

record deletion_counts =
  dc_matched :: nat
  dc_deleted :: nat
  dc_skipped_active :: nat
  dc_skipped_unavailable :: nat

definition delete_counted ::
  "'w lifecycle_service \<Rightarrow> deletion_counts \<Rightarrow> summary \<Rightarrow> ('w, deletion_counts) io" where
  "delete_counted sv n item =
     bind_io (attempt_io (delete_lifecycle sv (sm_lifecycle_id item))) (\<lambda>r.
       case r of
         Inr _ \<Rightarrow> return_io (n\<lparr>dc_deleted := dc_deleted n + 1\<rparr>)
       | Inl (Lifecycle_active _) \<Rightarrow> return_io (n\<lparr>dc_skipped_active := dc_skipped_active n + 1\<rparr>)
       | Inl (Lifecycle_unavailable _) \<Rightarrow>
           return_io (n\<lparr>dc_skipped_unavailable := dc_skipped_unavailable n + 1\<rparr>)
       | Inl e \<Rightarrow> raise_io e)"

definition delete_matching :: "'w lifecycle_service \<Rightarrow> string \<Rightarrow> ('w, deletion_counts) io" where
  "delete_matching sv query =
     bind_io (list_all_lifecycles sv query) (\<lambda>items.
     fold_io (delete_counted sv)
       \<lparr>dc_matched = length items, dc_deleted = 0, dc_skipped_active = 0, dc_skipped_unavailable = 0\<rparr> items)"

section \<open>Retention\<close>

definition settled_statuses :: "string list" where
  "settled_statuses = [''success'', ''error'', ''interrupted'']"

definition has_settled :: "summary \<Rightarrow> bool" where
  "has_settled s \<longleftrightarrow> sm_status s \<in> set settled_statuses"

definition delete_expired :: "'w lifecycle_service \<Rightarrow> summary \<Rightarrow> ('w, unit) io" where
  "delete_expired sv item =
     bind_io (attempt_io (delete_lifecycle sv (sm_lifecycle_id item))) (\<lambda>r.
       case r of
         Inr _ \<Rightarrow> return_io ()
       | Inl (Lifecycle_active _) \<Rightarrow> return_io ()
       | Inl (Lifecycle_unavailable _) \<Rightarrow> return_io ()
       | Inl e \<Rightarrow> raise_io e)"

definition expired :: "int \<Rightarrow> summary list \<Rightarrow> summary list" where
  "expired retained items = drop (nat retained) (filter has_settled items)"

definition enforce_retention :: "'w lifecycle_service \<Rightarrow> obj option \<Rightarrow> ('w, unit) io" where
  "enforce_retention sv system =
     (case system of
        None \<Rightarrow> raise_io (Runtime_failed ''Workflow Lifecycle settings are unavailable'')
      | Some cfg \<Rightarrow>
          bind_io (lift_res (settings_snapshot cfg)) (\<lambda>retained.
          bind_io (list_all_lifecycles sv []) (\<lambda>items.
          each_io (delete_expired sv) (expired retained items))))"

end
