(* ===== verification/Lifecycle_Laws.thy ===== *)
theory Lifecycle_Laws
  imports Lifecycle_Deletion
begin

text \<open>
  What the Lifecycle service relies on of the Agent Server, stated over a view of the server's
  state, and the rules by which a computation of the service is read against that view.  The laws
  are those of a server nobody else writes to meanwhile: a read keeps the view and answers from it
  or fails, a write changes its own target or fails.  A \<open>calm\<close> server does not fail, except that it
  reports what does not exist.
\<close>

section \<open>Computations that read\<close>

text \<open>
  From a world with the view \<open>v\<close>, the computation returns, leaves the view as it was, and its error
  satisfies \<open>E\<close> or its value \<open>Q\<close>.
\<close>

definition reads_as ::
  "('w \<Rightarrow> 'v) \<Rightarrow> 'v \<Rightarrow> (lifecycle_error \<Rightarrow> bool) \<Rightarrow> ('w, 'a) io \<Rightarrow> ('a \<Rightarrow> bool) \<Rightarrow> bool" where
  "reads_as view v E m Q \<longleftrightarrow>
     (\<forall>w. view w = v \<longrightarrow>
        (\<exists>r w1. m w = Some (r, w1) \<and> view w1 = v \<and> (case r of Inl e \<Rightarrow> E e | Inr x \<Rightarrow> Q x)))"

lemma reads_asD:
  assumes "reads_as view v E m Q" and "view w = v"
  obtains (error) e w1 where "m w = Some (Inl e, w1)" "view w1 = v" "E e"
        | (returned) x w1 where "m w = Some (Inr x, w1)" "view w1 = v" "Q x"
  using assms unfolding reads_as_def by (metis (no_types, lifting) sum.case sum.exhaust)

lemma reads_return: "Q x \<Longrightarrow> reads_as view v E (return_io x) Q"
  by (simp add: reads_as_def return_io_def)

lemma reads_raise: "E e \<Longrightarrow> reads_as view v E (raise_io e) Q"
  by (simp add: reads_as_def raise_io_def)

lemma reads_lift: "(case r of Inl e \<Rightarrow> E e | Inr x \<Rightarrow> Q x) \<Longrightarrow> reads_as view v E (lift_res r) Q"
  by (simp add: reads_as_def lift_res_def)

lemma reads_bind:
  assumes m: "reads_as view v E m R" and f: "\<And>x. R x \<Longrightarrow> reads_as view v E (f x) Q"
  shows "reads_as view v E (bind_io m f) Q"
  unfolding reads_as_def
proof (intro allI impI)
  fix w assume w: "view w = v"
  from m w show "\<exists>r w1. bind_io m f w = Some (r, w1) \<and> view w1 = v \<and> (case r of Inl e \<Rightarrow> E e | Inr x \<Rightarrow> Q x)"
  proof (cases rule: reads_asD)
    case (error e w1)
    then show ?thesis by (simp add: bind_io_def)
  next
    case (returned x w1)
    then show ?thesis using f [of x] by (auto simp: bind_io_def reads_as_def)
  qed
qed

lemma reads_weaken:
  assumes m: "reads_as view v E m Q" and "\<And>x. Q x \<Longrightarrow> R x" and "\<And>e. E e \<Longrightarrow> F e"
  shows "reads_as view v F m R"
  unfolding reads_as_def
proof (intro allI impI)
  fix w assume w: "view w = v"
  from m w show "\<exists>r w1. m w = Some (r, w1) \<and> view w1 = v \<and> (case r of Inl e \<Rightarrow> F e | Inr x \<Rightarrow> R x)"
    by (cases rule: reads_asD) (use assms in auto)
qed

lemma reads_attempt:
  assumes m: "reads_as view v E m Q"
  shows "reads_as view v F (attempt_io m) (\<lambda>r. case r of Inl e \<Rightarrow> E e | Inr x \<Rightarrow> Q x)"
  unfolding reads_as_def
proof (intro allI impI)
  fix w assume w: "view w = v"
  from m w show "\<exists>r w1. attempt_io m w = Some (r, w1) \<and> view w1 = v \<and>
      (case r of Inl e \<Rightarrow> F e | Inr s \<Rightarrow> (case s of Inl e \<Rightarrow> E e | Inr x \<Rightarrow> Q x))"
    by (cases rule: reads_asD) (auto simp: attempt_io_def)
qed

lemma reads_fold:
  assumes "I s" and "\<And>s x. I s \<Longrightarrow> x \<in> set xs \<Longrightarrow> reads_as view v E (f s x) I"
  shows "reads_as view v E (fold_io f s xs) I"
  using assms
proof (induction xs arbitrary: s)
  case Nil
  then show ?case by (simp add: reads_return)
next
  case (Cons x xs)
  then show ?case by (auto intro!: reads_bind [where R = I])
qed

text \<open>A loop with the list of what is done.\<close>

lemma reads_fold_done:
  assumes step: "\<And>s ys x zs. xs = ys @ x # zs \<Longrightarrow> I ys s \<Longrightarrow> reads_as view v E (f s x) (I (ys @ [x]))"
    and start: "I [] s"
  shows "reads_as view v E (fold_io f s xs) (I xs)"
proof -
  have "reads_as view v E (fold_io f s zs) (I xs)" if "xs = ys @ zs" "I ys s" for ys zs s
    using that
  proof (induction zs arbitrary: ys s)
    case Nil
    then show ?case by (simp add: reads_return)
  next
    case (Cons x zs)
    show ?case
      unfolding fold_io.simps
    proof (rule reads_bind)
      show "reads_as view v E (f s x) (I (ys @ [x]))" using step Cons.prems by blast
      show "reads_as view v E (fold_io f s1 zs) (I xs)" if "I (ys @ [x]) s1" for s1
        using Cons.IH [of "ys @ [x]" s1] Cons.prems(1) that by simp
    qed
  qed
  from this [of "[]" xs s] show ?thesis using start by simp
qed

lemma reads_map:
  assumes "\<And>x. x \<in> set xs \<Longrightarrow> reads_as view v E (f x) (Q x)"
  shows "reads_as view v E (map_io f xs) (\<lambda>ys. list_all2 Q xs ys)"
  using assms
proof (induction xs)
  case Nil
  then show ?case by (simp add: reads_return)
next
  case (Cons x xs)
  then show ?case
    by (auto intro!: reads_bind [where R = "Q x"] reads_bind [where R = "list_all2 Q xs"] reads_return)
qed

section \<open>Calls that answer from the view\<close>

definition keeps :: "('w \<Rightarrow> 'v) \<Rightarrow> ('w, 'a) call \<Rightarrow> bool" where
  "keeps view c \<longleftrightarrow> (\<forall>w. view (snd (c w)) = view w)"

definition answers :: "bool \<Rightarrow> ('w \<Rightarrow> 'v) \<Rightarrow> ('w, 'a) call \<Rightarrow> ('v \<Rightarrow> 'a) \<Rightarrow> bool" where
  "answers calm view c f \<longleftrightarrow>
     (\<forall>w. view (snd (c w)) = view w \<and>
        (case fst (c w) of Inl e \<Rightarrow> \<not> calm | Inr x \<Rightarrow> x = f (view w)))"

lemma reads_answer:
  assumes "answers calm view c f"
  shows "reads_as view v (\<lambda>e. \<not> calm) (call_io c) (\<lambda>x. x = f v)"
  unfolding reads_as_def
proof (intro allI impI)
  fix w assume w: "view w = v"
  have a: "view (snd (c w)) = view w" "case fst (c w) of Inl e \<Rightarrow> \<not> calm | Inr x \<Rightarrow> x = f (view w)"
    using assms unfolding answers_def by blast+
  then show "\<exists>r w1. call_io c w = Some (r, w1) \<and> view w1 = v \<and> (case r of Inl e \<Rightarrow> \<not> calm | Inr x \<Rightarrow> x = f v)"
    using w by (cases "c w"; cases "fst (c w)") (auto simp: call_io_def)
qed

lemma reads_keeps:
  assumes "keeps view c" and "\<And>w e. view w = v \<Longrightarrow> fst (c w) = Inl e \<Longrightarrow> E (Client_failed e)"
    and "\<And>w x. view w = v \<Longrightarrow> fst (c w) = Inr x \<Longrightarrow> Q x"
  shows "reads_as view v E (call_io c) Q"
  unfolding reads_as_def
proof (intro allI impI)
  fix w assume w: "view w = v"
  obtain r w1 where c: "c w = (r, w1)" by (cases "c w")
  have "view w1 = v" using assms(1) w c unfolding keeps_def by (metis snd_conv)
  then show "\<exists>r w1. call_io c w = Some (r, w1) \<and> view w1 = v \<and> (case r of Inl e \<Rightarrow> E e | Inr x \<Rightarrow> Q x)"
    using assms(2, 3) [OF w] c by (cases r) (auto simp: call_io_def)
qed

section \<open>Reading page by page\<close>

definition page_slice :: "nat \<Rightarrow> nat \<Rightarrow> 'a list \<Rightarrow> 'a list" where
  "page_slice limit offset xs = take limit (drop offset xs)"

text \<open>A processing of pages that does not depend on where the pages are cut.\<close>

definition page_additive :: "('a list \<Rightarrow> lifecycle_error + 'b list) \<Rightarrow> bool" where
  "page_additive p \<longleftrightarrow> p [] = Inr [] \<and>
     (\<forall>xs ys. p (xs @ ys) = bind_res (p xs) (\<lambda>a. bind_res (p ys) (\<lambda>b. Inr (a @ b))))"

lemma additive_Inr: "page_additive Inr"
  by (simp add: page_additive_def)

lemma additive_filter: "page_additive (\<lambda>page. Inr (filter P page))"
  by (simp add: page_additive_def)

lemma map_res_append:
  "map_res f (xs @ ys) = bind_res (map_res f xs) (\<lambda>a. bind_res (map_res f ys) (\<lambda>b. Inr (a @ b)))"
  by (induction xs) (auto simp: bind_res_assoc bind_res_def split: sum.splits)

lemma additive_map_res:
  "page_additive (\<lambda>page. bind_res (map_res f page) (\<lambda>ys. Inr (filter P ys)))"
  by (auto simp: page_additive_def map_res_append bind_res_def split: sum.splits)

lemma read_pages_all:
  assumes fetch: "\<And>offset. answers calm view (fetch 100 offset) (\<lambda>v. page_slice 100 offset (f v))"
    and add: "page_additive p" and err: "\<And>e. p (f v) = Inl e \<Longrightarrow> E e"
    and fails: "\<And>e offset w. view w = v \<Longrightarrow> fst (fetch 100 offset w) = Inl e \<Longrightarrow> E (Client_failed e)"
  shows "p (take offset (f v)) = Inr acc \<Longrightarrow>
    reads_as view v E (read_pages fetch p offset acc) (\<lambda>ys. p (f v) = Inr ys)"
proof (induction "length (f v) - offset" arbitrary: offset acc rule: less_induct)
  case less
  show ?case unfolding reads_as_def
  proof (intro allI impI)
    fix w assume w: "view w = v"
    let ?page = "page_slice 100 offset (f v)"
    have split: "take (offset + length ?page) (f v) = take offset (f v) @ ?page"
      by (cases "length (f v) - offset \<le> 100") (auto simp: page_slice_def take_add min_def)
    have ans: "view (snd (fetch 100 offset w)) = v"
      "case fst (fetch 100 offset w) of Inl e \<Rightarrow> \<not> calm | Inr x \<Rightarrow> x = ?page"
      using fetch [of offset] w unfolding answers_def by force+
    obtain r w1 where r: "fetch 100 offset w = (r, w1)" by (cases "fetch 100 offset w")
    show "\<exists>r w1. read_pages fetch p offset acc w = Some (r, w1) \<and> view w1 = v \<and>
        (case r of Inl e \<Rightarrow> E e | Inr ys \<Rightarrow> p (f v) = Inr ys)"
    proof (cases r)
      case (Inl e)
      then show ?thesis using r ans fails [OF w, of offset e] by (simp add: read_pages.simps)
    next
      case (Inr page)
      with r ans have page: "page = ?page" and w1: "view w1 = v" by auto
      have pf: "p (f v) = bind_res (p (take offset (f v) @ ?page)) (\<lambda>a.
          bind_res (p (drop (offset + length ?page) (f v))) (\<lambda>b. Inr (a @ b)))"
        using add split unfolding page_additive_def by (metis append_take_drop_id)
      have pp: "p (take offset (f v) @ ?page) = bind_res (p ?page) (\<lambda>b. Inr (acc @ b))"
        using add less.prems unfolding page_additive_def by simp
      show ?thesis
      proof (cases "p page")
        case (Inl e)
        then have "p (f v) = Inl e" using pf pp page by simp
        then show ?thesis using r Inr \<open>p page = Inl e\<close> err w1 by (simp add: read_pages.simps)
      next
        case (Inr ys)
        have acc: "p (take (offset + length page) (f v)) = Inr (acc @ ys)"
          using pp Inr page split by simp
        show ?thesis
        proof (cases "length page < 100")
          case True
          then have "length (f v) \<le> offset + length page"
            using page by (auto simp: page_slice_def)
          then have "p (f v) = Inr (acc @ ys)" using acc by simp
          then show ?thesis using r \<open>r = Inr page\<close> Inr True w1 by (simp add: read_pages.simps)
        next
          case False
          then have "length (f v) - (offset + length page) < length (f v) - offset"
            using page by (auto simp: page_slice_def split: if_splits)
          from less.hyps [OF this acc] w1 have "\<exists>r w2. read_pages fetch p (offset + length page) (acc @ ys) w1 = Some (r, w2) \<and>
              view w2 = v \<and> (case r of Inl e \<Rightarrow> E e | Inr ys \<Rightarrow> p (f v) = Inr ys)"
            unfolding reads_as_def by blast
          then show ?thesis using r \<open>r = Inr page\<close> Inr False by (simp add: read_pages.simps)
        qed
      qed
    qed
  qed
qed

lemma all_pages_all:
  assumes "\<And>offset. answers calm view (fetch 100 offset) (\<lambda>v. page_slice 100 offset (f v))"
    and "page_additive p" and "\<And>e. p (f v) = Inl e \<Longrightarrow> E e"
    and "\<And>e offset w. view w = v \<Longrightarrow> fst (fetch 100 offset w) = Inl e \<Longrightarrow> E (Client_failed e)"
  shows "reads_as view v E (all_pages fetch p) (\<lambda>ys. p (f v) = Inr ys)"
  unfolding all_pages_def
  by (rule read_pages_all [of calm]) (use assms in \<open>auto simp: page_additive_def\<close>)

lemma all_pages_calm:
  assumes fetch: "\<And>offset. answers calm view (fetch 100 offset) (\<lambda>v. page_slice 100 offset (f v))"
    and "page_additive p" and "\<And>e. p (f v) = Inl e \<Longrightarrow> \<not> calm"
  shows "reads_as view v (\<lambda>e. \<not> calm) (all_pages fetch p) (\<lambda>ys. p (f v) = Inr ys)"
proof (rule all_pages_all)
  show "\<not> calm" if "fst (fetch 100 offset w) = Inl e" for e offset w
    using fetch [of offset] that unfolding answers_def by (metis sum.simps(5))
qed (use assms in auto)

section \<open>The state of the server\<close>

text \<open>
  Threads, the Runs of each thread, and the store: its items by namespace and the namespaces it
  lists (every one that has an item, possibly others).
\<close>

record server_view =
  vw_threads :: "obj list"
  vw_runs :: "string \<Rightarrow> obj list"
  vw_items :: "string list \<Rightarrow> obj list"
  vw_namespaces :: "string list list"

definition stored_text :: "string \<Rightarrow> obj \<Rightarrow> string" where
  "stored_text k d = (case map_of d k of Some (JStr s) \<Rightarrow> s | _ \<Rightarrow> [])"

definition has_text :: "string \<Rightarrow> obj \<Rightarrow> bool" where
  "has_text k d \<longleftrightarrow> map_of d k = Some (JStr (stored_text k d)) \<and> stored_text k d \<noteq> []"

abbreviation thread_id_of :: "obj \<Rightarrow> string" where
  "thread_id_of \<equiv> stored_text ''thread_id''"

abbreviation run_id_of :: "obj \<Rightarrow> string" where
  "run_id_of \<equiv> stored_text ''run_id''"

abbreviation item_key :: "obj \<Rightarrow> string" where
  "item_key \<equiv> stored_text ''key''"

definition thread_of_lifecycle :: "string \<Rightarrow> obj \<Rightarrow> bool" where
  "thread_of_lifecycle lid t \<longleftrightarrow>
     map_of (mapping_or_empty (mapping_get t ''metadata'')) ''lifecycle_id'' = Some (JStr lid)"

definition listed_threads :: "string option \<Rightarrow> server_view \<Rightarrow> obj list" where
  "listed_threads lid v =
     (case lid of None \<Rightarrow> vw_threads v | Some l \<Rightarrow> filter (thread_of_lifecycle l) (vw_threads v))"

definition namespaces_under :: "string list \<Rightarrow> server_view \<Rightarrow> string list list" where
  "namespaces_under p v = filter (prefix p) (vw_namespaces v)"

definition item_at :: "string list \<Rightarrow> string \<Rightarrow> server_view \<Rightarrow> json" where
  "item_at ns k v =
     (case find (\<lambda>i. item_key i = k) (vw_items v ns) of None \<Rightarrow> JNull | Some i \<Rightarrow> JObj i)"

text \<open>Threads, Runs and items are named by nonempty texts, threads and items once each.\<close>

definition view_ok :: "server_view \<Rightarrow> bool" where
  "view_ok v \<longleftrightarrow>
     (\<forall>t \<in> set (vw_threads v). has_text ''thread_id'' t) \<and> distinct (map thread_id_of (vw_threads v)) \<and>
     (\<forall>tid. \<forall>r \<in> set (vw_runs v tid). has_text ''run_id'' r) \<and>
     (\<forall>ns. \<forall>i \<in> set (vw_items v ns). has_text ''key'' i) \<and> (\<forall>ns. distinct (map item_key (vw_items v ns))) \<and>
     distinct (vw_namespaces v) \<and> (\<forall>ns. vw_items v ns \<noteq> [] \<longrightarrow> ns \<in> set (vw_namespaces v))"

section \<open>Laws of the server\<close>

text \<open>A call for one object: the object, or \<open>404\<close> when there is none.\<close>

definition finds :: "bool \<Rightarrow> ('w \<Rightarrow> 'v) \<Rightarrow> ('w, 'a) call \<Rightarrow> ('v \<Rightarrow> 'a \<Rightarrow> bool) \<Rightarrow> bool" where
  "finds calm view c matches \<longleftrightarrow>
     keeps view c \<and>
     (\<forall>w. case fst (c w) of
        Inr x \<Rightarrow> matches (view w) x
      | Inl e \<Rightarrow> if is_not_found e then \<not> (\<exists>x. matches (view w) x) else \<not> calm)"

definition is_thread :: "string \<Rightarrow> server_view \<Rightarrow> obj \<Rightarrow> bool" where
  "is_thread tid v t \<longleftrightarrow> t \<in> set (vw_threads v) \<and> thread_id_of t = tid"

definition is_run :: "string \<Rightarrow> string \<Rightarrow> server_view \<Rightarrow> obj \<Rightarrow> bool" where
  "is_run tid rid v r \<longleftrightarrow> r \<in> set (vw_runs v tid) \<and> run_id_of r = rid"

definition thread_laws :: "bool \<Rightarrow> ('w \<Rightarrow> server_view) \<Rightarrow> 'w agent_server \<Rightarrow> bool" where
  "thread_laws calm view c \<longleftrightarrow>
     (\<forall>lid offset. answers calm view (threads_search c lid 100 offset)
        (\<lambda>v. page_slice 100 offset (listed_threads lid v))) \<and>
     (\<forall>tid. finds calm view (threads_get c tid) (is_thread tid)) \<and>
     (\<forall>tid offset. answers False view (runs_list c tid 100 offset) (\<lambda>v. page_slice 100 offset (vw_runs v tid))) \<and>
     (\<forall>tid offset w e t. fst (runs_list c tid 100 offset w) = Inl e \<longrightarrow> is_thread tid (view w) t \<longrightarrow>
        \<not> is_not_found e \<and> \<not> calm) \<and>
     (\<forall>tid rid. finds calm view (runs_get c tid rid) (is_run tid rid))"

definition store_laws :: "bool \<Rightarrow> ('w \<Rightarrow> server_view) \<Rightarrow> 'w agent_server \<Rightarrow> bool" where
  "store_laws calm view c \<longleftrightarrow>
     (\<forall>ns k. answers calm view (store_get_item c ns k) (item_at ns k)) \<and>
     (\<forall>p offset. answers calm view (store_list_namespaces c p 100 offset)
        (\<lambda>v. page_slice 100 offset (namespaces_under p v))) \<and>
     (\<forall>ns offset. answers calm view (store_search_items c ns 100 offset)
        (\<lambda>v. page_slice 100 offset (vw_items v ns)))"

text \<open>
  A write either took effect or did not, whatever it reports; one that returns did.  Deleting a
  thread deletes its Runs; deleting an item may end the listing of its namespace.
\<close>

definition thread_removed :: "string \<Rightarrow> server_view \<Rightarrow> server_view" where
  "thread_removed tid v =
     v\<lparr>vw_threads := filter (\<lambda>t. thread_id_of t \<noteq> tid) (vw_threads v), vw_runs := (vw_runs v)(tid := [])\<rparr>"

definition item_removed :: "string list \<Rightarrow> string \<Rightarrow> server_view \<Rightarrow> server_view \<Rightarrow> bool" where
  "item_removed ns k v v1 \<longleftrightarrow>
     vw_threads v1 = vw_threads v \<and> vw_runs v1 = vw_runs v \<and>
     vw_items v1 = (vw_items v)(ns := filter (\<lambda>i. item_key i \<noteq> k) (vw_items v ns)) \<and>
     set (vw_namespaces v1) \<subseteq> set (vw_namespaces v)"

definition writes ::
  "bool \<Rightarrow> ('w \<Rightarrow> 'v) \<Rightarrow> ('w, unit) call \<Rightarrow> ('v \<Rightarrow> 'v \<Rightarrow> bool) \<Rightarrow> ('v \<Rightarrow> bool) \<Rightarrow> bool" where
  "writes calm view c done_by present \<longleftrightarrow>
     (\<forall>w. case fst (c w) of
        Inr _ \<Rightarrow> done_by (view w) (view (snd (c w)))
      | Inl e \<Rightarrow> (view (snd (c w)) = view w \<or> done_by (view w) (view (snd (c w)))) \<and> (calm \<longrightarrow> \<not> present (view w)))"

definition write_laws :: "bool \<Rightarrow> ('w \<Rightarrow> server_view) \<Rightarrow> 'w agent_server \<Rightarrow> bool" where
  "write_laws calm view c \<longleftrightarrow>
     (\<forall>tid. writes calm view (threads_delete c tid) (\<lambda>v v1. v1 = thread_removed tid v) (\<lambda>v. \<exists>t. is_thread tid v t)) \<and>
     (\<forall>ns k. writes calm view (store_delete_item c ns k) (item_removed ns k) (\<lambda>v. item_at ns k v \<noteq> JNull))"

text \<open>What is on the local disk is not part of the view.\<close>

definition local_laws :: "bool \<Rightarrow> ('w \<Rightarrow> server_view) \<Rightarrow> 'w agent_server \<Rightarrow> bool" where
  "local_laws calm view c \<longleftrightarrow>
     (\<forall>lid. keeps view (local_sessions c lid)) \<and> (\<forall>lid. keeps view (remove_local_state c lid)) \<and>
     (\<forall>lid. keeps view (discard_model_calls c lid)) \<and> (\<forall>lid. keeps view (local_model_calls c lid)) \<and>
     (calm \<longrightarrow> (\<forall>lid w. (\<exists>x. fst (local_sessions c lid w) = Inr x) \<and> (\<exists>x. fst (remove_local_state c lid w) = Inr x) \<and>
        (\<exists>x. fst (discard_model_calls c lid w) = Inr x) \<and> (\<exists>x. fst (local_model_calls c lid w) = Inr x)))"

definition server_laws :: "bool \<Rightarrow> ('w \<Rightarrow> server_view) \<Rightarrow> 'w agent_server \<Rightarrow> bool" where
  "server_laws calm view c \<longleftrightarrow>
     (\<forall>w. view_ok (view w)) \<and> thread_laws calm view c \<and> store_laws calm view c \<and>
     write_laws calm view c \<and> local_laws calm view c"

section \<open>What the reads of the service return\<close>

lemma lawful_view: "server_laws calm view c \<Longrightarrow> view_ok (view w)"
  by (simp add: server_laws_def)

lemma list_namespaces_reads:
  assumes "server_laws calm view c"
  shows "reads_as view v (\<lambda>e. \<not> calm) (list_namespaces c p) (\<lambda>nss. nss = namespaces_under p v)"
proof -
  have "reads_as view v (\<lambda>e. \<not> calm) (list_namespaces c p) (\<lambda>nss. Inr (namespaces_under p v) = (Inr nss :: lifecycle_error + _))"
    unfolding list_namespaces_def
    by (rule all_pages_calm) (use assms in \<open>auto simp: server_laws_def store_laws_def additive_Inr\<close>)
  then show ?thesis by (rule reads_weaken) auto
qed

lemma search_all_items_reads:
  assumes "server_laws calm view c"
  shows "reads_as view v (\<lambda>e. \<not> calm) (search_all_items c ns) (\<lambda>items. items = vw_items v ns)"
proof -
  have "reads_as view v (\<lambda>e. \<not> calm) (search_all_items c ns) (\<lambda>items. Inr (vw_items v ns) = (Inr items :: lifecycle_error + _))"
    unfolding search_all_items_def
    by (rule all_pages_calm [where f = "\<lambda>v. vw_items v ns"])
       (use assms in \<open>auto simp: server_laws_def store_laws_def additive_Inr\<close>)
  then show ?thesis by (rule reads_weaken) auto
qed

lemma lifecycle_threads_reads:
  assumes "server_laws calm view c"
  shows "reads_as view v (\<lambda>e. \<not> calm) (lifecycle_threads c lid)
    (\<lambda>ts. ts = filter (\<lambda>t. lid \<noteq> None \<or>
       json_truthy (mapping_get (mapping_or_empty (mapping_get t ''metadata'')) ''lifecycle_id'')) (listed_threads lid v))"
proof -
  let ?p = "\<lambda>page. Inr (filter (\<lambda>t. lid \<noteq> None \<or>
       json_truthy (mapping_get (mapping_or_empty (mapping_get t ''metadata'')) ''lifecycle_id'')) page) :: lifecycle_error + obj list"
  have "reads_as view v (\<lambda>e. \<not> calm) (lifecycle_threads c lid) (\<lambda>ts. ?p (listed_threads lid v) = Inr ts)"
    unfolding lifecycle_threads_def
    by (rule all_pages_calm [OF _ additive_filter]) (use assms in \<open>auto simp: server_laws_def thread_laws_def\<close>)
  then show ?thesis by (rule reads_weaken) auto
qed

lemma own_threads_reads:
  assumes "server_laws calm view c"
  shows "reads_as view v (\<lambda>e. \<not> calm) (lifecycle_threads c (Some lid))
    (\<lambda>ts. ts = filter (thread_of_lifecycle lid) (vw_threads v))"
  using lifecycle_threads_reads [OF assms, of v "Some lid"]
  by (rule reads_weaken) (simp_all add: listed_threads_def)

text \<open>The Runs of a thread: the failure to read those of a thread that exists is not a \<open>404\<close>.\<close>

lemma thread_runs_reads:
  assumes laws: "server_laws calm view c"
  shows "reads_as view v (\<lambda>e. \<forall>t. is_thread tid v t \<longrightarrow> \<not> exception_not_found e \<and> \<not> calm)
    (thread_runs c tid) (\<lambda>runs. runs = vw_runs v tid)"
proof -
  have "reads_as view v (\<lambda>e. \<forall>t. is_thread tid v t \<longrightarrow> \<not> exception_not_found e \<and> \<not> calm)
      (thread_runs c tid) (\<lambda>runs. Inr (vw_runs v tid) = (Inr runs :: lifecycle_error + _))"
    unfolding thread_runs_def
    by (rule all_pages_all [where f = "\<lambda>v. vw_runs v tid" and calm = False])
       (use laws in \<open>auto simp: server_laws_def thread_laws_def additive_Inr\<close>)
  then show ?thesis by (rule reads_weaken) auto
qed

text \<open>The Run relations of a Lifecycle as the store holds them, and whether each parses.\<close>

definition relations_in :: "lifecycle_library \<Rightarrow> string \<Rightarrow> server_view \<Rightarrow> lifecycle_error + run_relation list" where
  "relations_in lib lid v =
     bind_res (lifecycle_runs_namespace lid) (\<lambda>ns.
     bind_res (map_res (relation_of_item lib) (vw_items v ns)) (\<lambda>rs. Inr (sort_by rel_run_id rs)))"

lemma relations_reads:
  assumes laws: "server_laws calm view c" and E: "\<And>e. relations_in lib lid v = Inl e \<Longrightarrow> E e"
    and "\<And>e. \<not> calm \<Longrightarrow> E e"
  shows "reads_as view v E (search_lifecycle_run_relations lib c lid None) (\<lambda>rs. relations_in lib lid v = Inr rs)"
proof (cases "lifecycle_runs_namespace lid")
  case (Inl e)
  then show ?thesis using E [of e]
    by (simp add: search_lifecycle_run_relations_def relations_in_def bind_io_def lift_res_def reads_as_def)
next
  case (Inr ns)
  let ?p = "\<lambda>page. bind_res (map_res (relation_of_item lib) page) (\<lambda>rs. Inr (filter (\<lambda>r. True) rs))"
  have kind: "select_kind None rs = rs" for rs by (simp add: select_kind_def)
  have "reads_as view v E (all_pages (store_search_items c ns) ?p) (\<lambda>rs. ?p (vw_items v ns) = Inr rs)"
  proof (rule all_pages_all [where f = "\<lambda>v. vw_items v ns" and calm = calm, OF _ additive_map_res])
    show "answers calm view (store_search_items c ns 100 offset) (\<lambda>v. page_slice 100 offset (vw_items v ns))" for offset
      using laws by (simp add: server_laws_def store_laws_def)
    then show "E (Client_failed e)" if "fst (store_search_items c ns 100 offset w) = Inl e" for e offset w
      using that assms(3) unfolding answers_def by (metis sum.simps(5))
    show "E e" if "?p (vw_items v ns) = Inl e" for e
      using that E [of e] Inr by (auto simp: relations_in_def bind_res_eq_Inl)
  qed
  then have "reads_as view v E (bind_io (all_pages (store_search_items c ns) ?p) (\<lambda>rs. return_io (sort_by rel_run_id rs)))
      (\<lambda>rs. relations_in lib lid v = Inr rs)"
    by (rule reads_bind) (auto simp: relations_in_def Inr bind_res_eq_Inr intro!: reads_return)
  then show ?thesis
    by (simp add: search_lifecycle_run_relations_def Inr lift_res_def bind_io_def reads_as_def kind)
qed

end
