(* ===== verification/Lifecycle_Reading.thy ===== *)
theory Lifecycle_Reading
  imports Lifecycle_Laws
begin

text \<open>
  What one observation of a Lifecycle guarantees when the server keeps its laws: with no failed
  read, every thread of the Lifecycle and every Run of it has been seen, and nothing was changed.
\<close>

lemma has_text_field: "has_text k d \<Longrightarrow> field_text lib d k = stored_text k d"
  by (simp add: has_text_def field_text_def mapping_get_def text_or_def)

lemma has_text_required: "has_text k d \<Longrightarrow> required_text lib d k = Inr (stored_text k d)"
  by (simp add: has_text_def required_text_def)

lemma view_thread: "view_ok v \<Longrightarrow> t \<in> set (vw_threads v) \<Longrightarrow> has_text ''thread_id'' t"
  by (simp add: view_ok_def)

lemma view_thread_unique:
  "view_ok v \<Longrightarrow> s \<in> set (vw_threads v) \<Longrightarrow> t \<in> set (vw_threads v) \<Longrightarrow> thread_id_of s = thread_id_of t \<Longrightarrow> s = t"
  unfolding view_ok_def by (meson distinct_map inj_onD)

section \<open>The record of a Lifecycle\<close>

definition record_in :: "lifecycle_library \<Rightarrow> string \<Rightarrow> server_view \<Rightarrow> lifecycle_error + lifecycle_record option" where
  "record_in lib lid v =
     bind_res (lifecycle_record_namespace lid) (\<lambda>ns. parsed_record lib lid (item_at ns lifecycle_record_key v))"

lemma record_reads:
  assumes laws: "server_laws calm view (sv_client sv)"
  shows "reads_as view v (\<lambda>e. \<not> calm \<or> record_in (sv_library sv) lid v = Inl e) (lifecycle_record_of sv lid)
    (\<lambda>found. record_in (sv_library sv) lid v = Inr found)"
proof (cases "lifecycle_record_namespace lid")
  case (Inl e)
  then show ?thesis by (simp add: lifecycle_record_of_def bind_io_def lift_res_def reads_as_def record_in_def)
next
  case (Inr ns)
  have ans: "reads_as view v (\<lambda>e. \<not> calm \<or> record_in (sv_library sv) lid v = Inl e)
      (call_io (store_get_item (sv_client sv) ns lifecycle_record_key)) (\<lambda>x. x = item_at ns lifecycle_record_key v)"
    by (rule reads_weaken [OF reads_answer [of calm]])
       (use laws in \<open>auto simp: server_laws_def store_laws_def\<close>)
  have "reads_as view v (\<lambda>e. \<not> calm \<or> record_in (sv_library sv) lid v = Inl e)
      (bind_io (call_io (store_get_item (sv_client sv) ns lifecycle_record_key))
         (\<lambda>item. lift_res (parsed_record (sv_library sv) lid item)))
      (\<lambda>found. record_in (sv_library sv) lid v = Inr found)"
    by (rule reads_bind [OF ans]) (auto simp: record_in_def Inr intro!: reads_lift split: sum.splits)
  then show ?thesis
    by (simp add: lifecycle_record_of_def Inr lift_res_def bind_io_def reads_as_def)
qed

lemma require_record_reads:
  assumes laws: "server_laws calm view (sv_client sv)"
  shows "reads_as view v (\<lambda>e. \<not> calm \<or> (\<forall>r. record_in (sv_library sv) lid v \<noteq> Inr (Some r))) (require_record sv lid)
    (\<lambda>r. record_in (sv_library sv) lid v = Inr (Some r))"
  unfolding require_record_def
proof (rule reads_bind [OF reads_weaken [OF record_reads [OF laws]]])
  show "record_in (sv_library sv) lid v = Inr x \<Longrightarrow> record_in (sv_library sv) lid v = Inr x" for x .
  show "\<not> calm \<or> record_in (sv_library sv) lid v = Inl e \<Longrightarrow>
      \<not> calm \<or> (\<forall>r. record_in (sv_library sv) lid v \<noteq> Inr (Some r))" for e by auto
  show "reads_as view v (\<lambda>e. \<not> calm \<or> (\<forall>r. record_in (sv_library sv) lid v \<noteq> Inr (Some r)))
      (case found of None \<Rightarrow> raise_io (Lifecycle_not_found lid) | Some r \<Rightarrow> return_io r)
      (\<lambda>r. record_in (sv_library sv) lid v = Inr (Some r))"
    if "record_in (sv_library sv) lid v = Inr found" for found
    using that by (cases found) (auto intro: reads_return reads_raise)
qed

lemma parsed_record_id: "parsed_record lib lid item = Inr (Some r) \<Longrightarrow> lr_lifecycle_id r = lid"
  by (cases item) (auto simp: parsed_record_def split: option.splits if_splits)

lemma record_in_id: "record_in lib lid v = Inr (Some r) \<Longrightarrow> lr_lifecycle_id r = lid"
  using parsed_record_id by (auto simp: record_in_def bind_res_eq_Inr)

section \<open>Threads\<close>

definition threads_seen :: "bool \<Rightarrow> server_view \<Rightarrow> obj list \<Rightarrow> string list \<Rightarrow> reading \<Rightarrow> bool" where
  "threads_seen calm v threads done rd \<longleftrightarrow>
     set threads \<subseteq> set (rd_threads rd) \<and> set (rd_threads rd) \<subseteq> set (vw_threads v) \<and>
     distinct (map thread_id_of (rd_threads rd)) \<and>
     set (map thread_id_of (rd_threads rd)) \<subseteq> set (rd_known rd) \<and> set done \<subseteq> set (rd_known rd) \<and>
     (\<forall>t \<in> set (rd_threads rd). thread_id_of t \<in> thread_id_of ` set threads \<union> set done) \<and>
     (rd_failures rd = [] \<longrightarrow> (\<forall>tid \<in> set (rd_known rd). \<forall>t. is_thread tid v t \<longrightarrow> t \<in> set (rd_threads rd))) \<and>
     (calm \<longrightarrow> rd_failures rd = []) \<and> rd_runs rd = []"

lemma add_failure_empty: "add_failure e fs = [] \<longleftrightarrow> exception_not_found e \<and> fs = []"
  by (simp add: add_failure_def)

lemma failed_thread_seen:
  assumes seen: "threads_seen calm v threads done rd"
    and absent: "exception_not_found e \<Longrightarrow> \<not> (\<exists>t. is_thread tid v t)"
    and failed: "\<not> exception_not_found e \<Longrightarrow> \<not> calm"
  shows "threads_seen calm v threads (done @ [tid])
    ((read_failed code tid e rd)\<lparr>rd_known := rd_known (read_failed code tid e rd) @ [tid]\<rparr>)"
proof -
  let ?rd = "(read_failed code tid e rd)\<lparr>rd_known := rd_known (read_failed code tid e rd) @ [tid]\<rparr>"
  have upd: "rd_threads ?rd = rd_threads rd" "rd_known ?rd = rd_known rd @ [tid]"
    "rd_failures ?rd = add_failure e (rd_failures rd)" "rd_runs ?rd = rd_runs rd"
    by (simp_all add: read_failed_def)
  show ?thesis
    unfolding threads_seen_def upd add_failure_empty
    using assms unfolding threads_seen_def by (intro conjI) auto
qed

lemma added_thread_seen:
  assumes seen: "threads_seen calm v threads done rd" and "t \<in> set (vw_threads v)" and tid: "thread_id_of t = tid"
    and new: "thread_id_of t \<notin> thread_id_of ` set (rd_threads rd)"
    and all: "rd_failures rd = [] \<Longrightarrow>
      \<forall>k \<in> set (rd_known rd @ [tid]). \<forall>s. is_thread k v s \<longrightarrow> s \<in> set (rd_threads rd @ [t])"
  shows "threads_seen calm v threads (done @ [tid])
    (rd\<lparr>rd_threads := rd_threads rd @ [t],
       rd_known := rd_known (rd\<lparr>rd_threads := rd_threads rd @ [t]\<rparr>) @ [tid]\<rparr>)"
proof -
  let ?rd = "rd\<lparr>rd_threads := rd_threads rd @ [t],
       rd_known := rd_known (rd\<lparr>rd_threads := rd_threads rd @ [t]\<rparr>) @ [tid]\<rparr>"
  have upd: "rd_threads ?rd = rd_threads rd @ [t]" "rd_known ?rd = rd_known rd @ [tid]"
    "rd_failures ?rd = rd_failures rd" "rd_runs ?rd = rd_runs rd"
    by simp_all
  note s = seen [unfolded threads_seen_def]
  show ?thesis
    unfolding threads_seen_def upd
  proof (intro conjI)
    show "set threads \<subseteq> set (rd_threads rd @ [t])" using s by auto
    show "set (rd_threads rd @ [t]) \<subseteq> set (vw_threads v)" using s assms(2) by auto
    show "distinct (map thread_id_of (rd_threads rd @ [t]))" using s new by simp
    show "set (map thread_id_of (rd_threads rd @ [t])) \<subseteq> set (rd_known rd @ [tid])" using s tid by auto
    show "set (done @ [tid]) \<subseteq> set (rd_known rd @ [tid])" using s by auto
    show "\<forall>t \<in> set (rd_threads rd @ [t]). thread_id_of t \<in> thread_id_of ` set threads \<union> set (done @ [tid])"
      using s tid by auto
    show "rd_failures rd = [] \<longrightarrow> (\<forall>k \<in> set (rd_known rd @ [tid]). \<forall>s. is_thread k v s \<longrightarrow> s \<in> set (rd_threads rd @ [t]))"
      using all by (rule impI)
    show "calm \<longrightarrow> rd_failures rd = []" using s by blast
    show "rd_runs rd = []" using s by blast
  qed
qed

lemma read_thread_seen:
  assumes laws: "server_laws calm view c" and seen: "threads_seen calm v threads done rd" and ok: "view_ok v"
  shows "reads_as view v E (read_thread c rd tid) (threads_seen calm v threads (done @ [tid]))"
proof (cases "tid \<in> set (rd_known rd)")
  case True
  then show ?thesis using seen by (auto simp: read_thread_def threads_seen_def intro: reads_return)
next
  case False
  have get: "finds calm view (threads_get c tid) (is_thread tid)"
    using laws by (simp add: server_laws_def thread_laws_def)
  have "reads_as view v (\<lambda>e. if exception_not_found e then \<not> (\<exists>t. is_thread tid v t) else \<not> calm)
      (call_io (threads_get c tid)) (is_thread tid v)"
  proof (rule reads_keeps)
    show "keeps view (threads_get c tid)" using get by (simp add: finds_def)
    show "if exception_not_found (Client_failed e) then \<not> (\<exists>t. is_thread tid v t) else \<not> calm"
      if "view w = v" "fst (threads_get c tid w) = Inl e" for w e
      using get that unfolding finds_def by (metis (no_types, lifting) exception_not_found.simps(1) sum.simps(5))
    show "is_thread tid v x" if "view w = v" "fst (threads_get c tid w) = Inr x" for w x
      using get that unfolding finds_def by (metis (no_types, lifting) sum.simps(6))
  qed
  from reads_attempt [OF this] show ?thesis
    unfolding read_thread_def if_not_P [OF False]
  proof (rule reads_bind)
    fix r
    assume r: "case r of Inl e \<Rightarrow> (if exception_not_found e then \<not> (\<exists>t. is_thread tid v t) else \<not> calm) | Inr t \<Rightarrow> is_thread tid v t"
    show "reads_as view v E
        (let rd1 = case r of Inl e \<Rightarrow> read_failed ''thread_unavailable'' tid e rd | Inr t \<Rightarrow> rd\<lparr>rd_threads := rd_threads rd @ [t]\<rparr>
         in return_io (rd1\<lparr>rd_known := rd_known rd1 @ [tid]\<rparr>))
        (threads_seen calm v threads (done @ [tid]))"
    proof (cases r)
      case (Inl e)
      with r seen show ?thesis
        unfolding Let_def Inl sum.case by (intro reads_return failed_thread_seen) (auto split: if_splits)
    next
      case (Inr t)
      then have t: "t \<in> set (vw_threads v)" "thread_id_of t = tid" using r by (auto simp: is_thread_def)
      have new: "thread_id_of t \<notin> thread_id_of ` set (rd_threads rd)"
        using seen False t by (auto simp: threads_seen_def)
      have uniq: "s = t" if "is_thread tid v s" for s
        using that t view_thread_unique [OF ok] by (auto simp: is_thread_def)
      show ?thesis
        unfolding Let_def Inr sum.case
      proof (rule reads_return)
        have all: "\<forall>k \<in> set (rd_known rd @ [tid]). \<forall>s. is_thread k v s \<longrightarrow> s \<in> set (rd_threads rd @ [t])"
          if "rd_failures rd = []"
          using that seen uniq by (simp add: threads_seen_def ball_Un)
        show "threads_seen calm v threads (done @ [tid])
            (rd\<lparr>rd_threads := rd_threads rd @ [t],
               rd_known := rd_known (rd\<lparr>rd_threads := rd_threads rd @ [t]\<rparr>) @ [tid]\<rparr>)"
          by (rule added_thread_seen [OF seen t(1) _ new all]) (use t in simp)
      qed
    qed
  qed
qed

section \<open>Runs of the threads\<close>

definition runs_seen :: "bool \<Rightarrow> server_view \<Rightarrow> reading \<Rightarrow> obj list \<Rightarrow> reading \<Rightarrow> bool" where
  "runs_seen calm v rd0 done rd \<longleftrightarrow>
     rd_threads rd = rd_threads rd0 \<and> (rd_failures rd = [] \<longrightarrow> rd_failures rd0 = []) \<and>
     (rd_failures rd = [] \<longrightarrow>
        (\<forall>t \<in> set done. map_of (rd_runs rd) (thread_id_of t) = Some (vw_runs v (thread_id_of t)))) \<and>
     (\<forall>p \<in> set (rd_runs rd). fst p \<in> thread_id_of ` set (rd_threads rd0) \<and> set (snd p) \<subseteq> set (vw_runs v (fst p))) \<and> (calm \<longrightarrow> rd_failures rd = [])"

lemma dict_set_ball:
  "(\<forall>p \<in> set d. P p) \<Longrightarrow> P (k, x) \<Longrightarrow> \<forall>p \<in> set (AList.update k x d). P p"
  using set_dict_set_subset [of k x d] by auto

lemma read_runs_seen:
  assumes laws: "server_laws calm view (sv_client sv)" and seen: "runs_seen calm v rd0 done rd"
    and t: "t \<in> set (rd_threads rd0)" and tv: "t \<in> set (vw_threads v)" and ok: "view_ok v"
  shows "reads_as view v E (read_runs sv rd t) (runs_seen calm v rd0 (done @ [t]))"
proof -
  let ?tid = "thread_id_of t"
  have req: "required_text (sv_library sv) t ''thread_id'' = Inr ?tid"
    by (rule has_text_required [OF view_thread [OF ok tv]])
  have is_t: "is_thread ?tid v t" using tv by (simp add: is_thread_def)
  have "reads_as view v E (attempt_io (thread_runs (sv_client sv) ?tid))
      (\<lambda>r. case r of Inl e \<Rightarrow> \<not> exception_not_found e \<and> \<not> calm | Inr runs \<Rightarrow> runs = vw_runs v ?tid)"
    by (rule reads_attempt, rule reads_weaken [OF thread_runs_reads [OF laws]]) (use is_t in auto)
  then have "reads_as view v E
      (bind_io (attempt_io (thread_runs (sv_client sv) ?tid)) (\<lambda>r.
         return_io (case r of
             Inr runs \<Rightarrow> rd\<lparr>rd_runs := dict_set ?tid runs (rd_runs rd)\<rparr>
           | Inl e \<Rightarrow> read_failed ''runs_unavailable'' ?tid e (rd\<lparr>rd_runs := dict_set ?tid [] (rd_runs rd)\<rparr>))))
      (runs_seen calm v rd0 (done @ [t]))"
  proof (rule reads_bind)
    fix r
    assume r: "case r of Inl e \<Rightarrow> \<not> exception_not_found e \<and> \<not> calm | Inr runs \<Rightarrow> runs = vw_runs v ?tid"
    have all: "\<forall>p \<in> set (rd_runs rd). fst p \<in> thread_id_of ` set (rd_threads rd0) \<and> set (snd p) \<subseteq> set (vw_runs v (fst p))"
      using seen by (simp add: runs_seen_def)
    show "reads_as view v E (return_io (case r of
             Inr runs \<Rightarrow> rd\<lparr>rd_runs := dict_set ?tid runs (rd_runs rd)\<rparr>
           | Inl e \<Rightarrow> read_failed ''runs_unavailable'' ?tid e (rd\<lparr>rd_runs := dict_set ?tid [] (rd_runs rd)\<rparr>)))
        (runs_seen calm v rd0 (done @ [t]))"
    proof (rule reads_return, cases r)
      case (Inl e)
      have "\<forall>p \<in> set (dict_set ?tid [] (rd_runs rd)). fst p \<in> thread_id_of ` set (rd_threads rd0) \<and> set (snd p) \<subseteq> set (vw_runs v (fst p))"
        by (rule dict_set_ball [OF all]) (use t in simp)
      then show "runs_seen calm v rd0 (done @ [t]) (case r of
             Inr runs \<Rightarrow> rd\<lparr>rd_runs := dict_set ?tid runs (rd_runs rd)\<rparr>
           | Inl e \<Rightarrow> read_failed ''runs_unavailable'' ?tid e (rd\<lparr>rd_runs := dict_set ?tid [] (rd_runs rd)\<rparr>))"
        using Inl r seen by (simp add: runs_seen_def read_failed_def add_failure_def)
    next
      case (Inr runs)
      have "\<forall>p \<in> set (dict_set ?tid runs (rd_runs rd)). fst p \<in> thread_id_of ` set (rd_threads rd0) \<and> set (snd p) \<subseteq> set (vw_runs v (fst p))"
        by (rule dict_set_ball [OF all]) (use r Inr t in simp)
      then show "runs_seen calm v rd0 (done @ [t]) (case r of
             Inr runs \<Rightarrow> rd\<lparr>rd_runs := dict_set ?tid runs (rd_runs rd)\<rparr>
           | Inl e \<Rightarrow> read_failed ''runs_unavailable'' ?tid e (rd\<lparr>rd_runs := dict_set ?tid [] (rd_runs rd)\<rparr>))"
        using Inr r seen by (auto simp: runs_seen_def dict_get_set)
    qed
  qed
  then show ?thesis by (simp add: read_runs_def req lift_res_def bind_io_def reads_as_def)
qed

section \<open>Runs known from relations only\<close>

definition entries_seen :: "bool \<Rightarrow> string set \<Rightarrow> server_view \<Rightarrow> run_entry list \<Rightarrow> lifecycle_error list \<Rightarrow> run_entry list \<times> lifecycle_error list \<Rightarrow> bool" where
  "entries_seen calm ids v listed failures0 st \<longleftrightarrow>
     set listed \<subseteq> set (fst st) \<and>
     (\<forall>e \<in> set (fst st). \<forall>run. en_run e = Some run \<longrightarrow> (\<exists>tid \<in> ids. run \<in> set (vw_runs v tid))) \<and>
     (snd st = [] \<longrightarrow> failures0 = []) \<and> (calm \<longrightarrow> failures0 = [] \<longrightarrow> snd st = [])"

lemma entry_seen:
  assumes seen: "entries_seen calm ids v listed failures0 st" and "tid \<in> ids"
    and "\<And>run. en_run entry = Some run \<Longrightarrow> run \<in> set (vw_runs v tid)"
    and fails: "fs = [] \<Longrightarrow> snd st = []" "calm \<Longrightarrow> snd st = [] \<Longrightarrow> fs = []"
  shows "entries_seen calm ids v listed failures0 (fst st @ [entry], fs)"
proof -
  note s = seen [unfolded entries_seen_def]
  show ?thesis
    unfolding entries_seen_def fst_conv snd_conv
  proof (intro conjI)
    show "set listed \<subseteq> set (fst st @ [entry])" using s by auto
    show "\<forall>e \<in> set (fst st @ [entry]). \<forall>run. en_run e = Some run \<longrightarrow> (\<exists>tid \<in> ids. run \<in> set (vw_runs v tid))"
      using s assms(2, 3) by auto
    show "fs = [] \<longrightarrow> failures0 = []" using s fails by blast
    show "calm \<longrightarrow> failures0 = [] \<longrightarrow> fs = []" using s fails by blast
  qed
qed

lemma missing_entry_seen:
  assumes laws: "server_laws calm view c" and seen: "entries_seen calm ids v listed failures0 st" and tid: "rel_thread_id rel \<in> ids"
  shows "reads_as view v E (missing_entry c observed counts st rel) (entries_seen calm ids v listed failures0)"
proof (cases "rel_run_id rel \<in> set observed")
  case True
  then show ?thesis using seen by (simp add: missing_entry_def reads_return)
next
  case False
  let ?tid = "rel_thread_id rel" and ?rid = "rel_run_id rel"
  have get: "finds calm view (runs_get c ?tid ?rid) (is_run ?tid ?rid)"
    using laws by (simp add: server_laws_def thread_laws_def)
  have "reads_as view v (\<lambda>e. exception_not_found e \<or> \<not> calm) (call_io (runs_get c ?tid ?rid)) (is_run ?tid ?rid v)"
  proof (rule reads_keeps)
    show "keeps view (runs_get c ?tid ?rid)" using get by (simp add: finds_def)
    show "exception_not_found (Client_failed e) \<or> \<not> calm"
      if "view w = v" "fst (runs_get c ?tid ?rid w) = Inl e" for w e
      using get that unfolding finds_def by (metis (no_types, lifting) exception_not_found.simps(1) sum.simps(5))
    show "is_run ?tid ?rid v x" if "view w = v" "fst (runs_get c ?tid ?rid w) = Inr x" for w x
      using get that unfolding finds_def by (metis (no_types, lifting) sum.simps(6))
  qed
  from reads_attempt [OF this] show ?thesis
    unfolding missing_entry_def if_not_P [OF False]
  proof (rule reads_bind)
    let ?entry = "\<lambda>r. \<lparr>en_run_id = ?rid, en_run = (case r of Inl e \<Rightarrow> None | Inr run \<Rightarrow> Some run),
              en_relation = Some rel, en_request_count = request_count_of (fst counts) ?rid,
              en_request_count_error = snd counts,
              en_error = (case r of Inl e \<Rightarrow> Some (unavailable_for ''run_unavailable'' e) | Inr run \<Rightarrow> None)\<rparr>"
      and ?fails = "\<lambda>r. case r of Inl e \<Rightarrow> add_failure e (snd st) | Inr run \<Rightarrow> snd st"
    fix r
    assume r: "case r of Inl e \<Rightarrow> exception_not_found e \<or> \<not> calm | Inr run \<Rightarrow> is_run ?tid ?rid v run"
    show "reads_as view v E
        (let entry = \<lparr>en_run_id = ?rid, en_run = (case r of Inl e \<Rightarrow> None | Inr run \<Rightarrow> Some run),
              en_relation = Some rel, en_request_count = request_count_of (fst counts) ?rid,
              en_request_count_error = snd counts,
              en_error = (case r of Inl e \<Rightarrow> Some (unavailable_for ''run_unavailable'' e) | Inr run \<Rightarrow> None)\<rparr>
         in return_io (fst st @ [entry], (case r of Inl e \<Rightarrow> add_failure e (snd st) | Inr run \<Rightarrow> snd st)))
        (entries_seen calm ids v listed failures0)"
      unfolding Let_def
      by (rule reads_return, rule entry_seen [OF seen tid]) (use r in \<open>auto simp: is_run_def add_failure_empty split: sum.splits\<close>)
  qed
qed

section \<open>The whole observation\<close>

definition start_error_in :: "string \<Rightarrow> server_view \<Rightarrow> lifecycle_error + obj option" where
  "start_error_in lid v =
     bind_res (lifecycle_input_namespace lid) (\<lambda>ns. parsed_start_error (item_at ns start_error_key v))"

lemma start_error_reads:
  assumes laws: "server_laws calm view (sv_client sv)"
  shows "reads_as view v (\<lambda>e. \<not> calm \<or> start_error_in lid v = Inl e) (start_error_of sv lid)
    (\<lambda>x. start_error_in lid v = Inr x)"
proof (cases "lifecycle_input_namespace lid")
  case (Inl e)
  then show ?thesis by (simp add: start_error_of_def bind_io_def lift_res_def reads_as_def start_error_in_def)
next
  case (Inr ns)
  have ans: "reads_as view v (\<lambda>e. \<not> calm \<or> start_error_in lid v = Inl e)
      (call_io (store_get_item (sv_client sv) ns start_error_key)) (\<lambda>x. x = item_at ns start_error_key v)"
    by (rule reads_weaken [OF reads_answer [of calm]])
       (use laws in \<open>auto simp: server_laws_def store_laws_def\<close>)
  have "reads_as view v (\<lambda>e. \<not> calm \<or> start_error_in lid v = Inl e)
      (bind_io (call_io (store_get_item (sv_client sv) ns start_error_key)) (\<lambda>item. lift_res (parsed_start_error item)))
      (\<lambda>x. start_error_in lid v = Inr x)"
    by (rule reads_bind [OF ans], rule reads_lift) (simp add: start_error_in_def Inr split: sum.split)
  then show ?thesis
    by (simp add: start_error_of_def Inr lift_res_def bind_io_def reads_as_def)
qed

text \<open>The relations and the start error of the Lifecycle can be read as what they are.\<close>

definition readable :: "lifecycle_library \<Rightarrow> string \<Rightarrow> server_view \<Rightarrow> bool" where
  "readable lib lid v \<longleftrightarrow>
     (case relations_in lib lid v of Inl e \<Rightarrow> False | Inr rs \<Rightarrow> True) \<and>
     (case start_error_in lid v of Inl e \<Rightarrow> False | Inr x \<Rightarrow> True)"

definition observed :: "bool \<Rightarrow> lifecycle_library \<Rightarrow> string \<Rightarrow> server_view \<Rightarrow> obj list \<Rightarrow> lifecycle_observation \<Rightarrow> bool" where
  "observed calm lib lid v threads ob \<longleftrightarrow>
     relations_in lib lid v = Inr (ob_relations ob) \<and>
     set threads \<subseteq> set (ob_threads ob) \<and> set (ob_threads ob) \<subseteq> set (vw_threads v) \<and>
     distinct (map thread_id_of (ob_threads ob)) \<and>
     (ob_failures ob = [] \<longrightarrow>
        (\<forall>rel \<in> set (ob_relations ob). \<forall>t. is_thread (rel_thread_id rel) v t \<longrightarrow> t \<in> set (ob_threads ob)) \<and>
        (\<forall>t \<in> set (ob_threads ob). set (vw_runs v (thread_id_of t)) \<subseteq> set (observed_runs (ob_entries ob)))) \<and>
     (let ids = thread_id_of ` set threads \<union> rel_thread_id ` set (ob_relations ob) in
        thread_id_of ` set (ob_threads ob) \<subseteq> ids \<and>
        (\<forall>run \<in> set (observed_runs (ob_entries ob)). \<exists>tid \<in> ids. run \<in> set (vw_runs v tid))) \<and>
     (calm \<longrightarrow> ob_failures ob = [])"

lemma observed_runs_set: "run \<in> set (observed_runs es) \<longleftrightarrow> (\<exists>e \<in> set es. en_run e = Some run)"
  unfolding observed_runs_def by (force split: option.splits)

lemma threads_seen_start:
  assumes ok: "view_ok v" and sub: "set threads \<subseteq> set (vw_threads v)" and dist: "distinct (map thread_id_of threads)"
  shows "threads_seen calm v threads [] \<lparr>rd_threads = threads, rd_known = map (\<lambda>t. field_text lib t ''thread_id'') threads,
       rd_errors = [], rd_failures = [], rd_runs = []\<rparr>"
proof -
  have ids: "map (\<lambda>t. field_text lib t ''thread_id'') threads = map thread_id_of threads"
    using has_text_field [OF view_thread [OF ok]] sub by (intro map_cong) auto
  have all: "t \<in> set threads" if "s \<in> set threads" "is_thread (thread_id_of s) v t" for s t
    using that view_thread_unique [OF ok, of t s] sub by (auto simp: is_thread_def)
  show ?thesis
    unfolding threads_seen_def ids reading.simps
    by (intro conjI) (use sub dist all in \<open>auto\<close>)
qed

lemma observe_reads:
  assumes laws: "server_laws calm view (sv_client sv)" and ok: "view_ok v"
    and sub: "set threads \<subseteq> set (vw_threads v)" and dist: "distinct (map thread_id_of threads)"
  shows "reads_as view v (\<lambda>e. \<not> (calm \<and> readable (sv_library sv) (lr_lifecycle_id r) v))
    (observe_lifecycle sv r threads False)
    (observed calm (sv_library sv) (lr_lifecycle_id r) v threads)"
proof -
  let ?c = "sv_client sv" and ?lib = "sv_library sv" and ?lid = "lr_lifecycle_id r"
  let ?E = "\<lambda>e::lifecycle_error. \<not> (calm \<and> readable ?lib ?lid v)"
  have relations: "reads_as view v ?E (search_lifecycle_run_relations ?lib ?c ?lid None)
      (\<lambda>rs. relations_in ?lib ?lid v = Inr rs)"
    by (rule relations_reads [OF laws]) (auto simp: readable_def)
  have counts: "reads_as view v ?E (request_counts sv ?lid False) (\<lambda>_. True)"
    by (simp add: request_counts_def reads_return)
  have sessions: "reads_as view v ?E (call_io (local_sessions ?c ?lid)) (\<lambda>_. True)"
    by (rule reads_keeps) (use laws in \<open>auto simp: server_laws_def local_laws_def\<close>, metis sum.distinct(1))
  have start: "reads_as view v ?E (start_error_of sv ?lid) (\<lambda>_. True)"
    by (rule reads_weaken [OF start_error_reads [OF laws]]) (auto simp: readable_def)
  show ?thesis
    unfolding observe_lifecycle_def Let_def
  proof (rule reads_bind [OF relations], rule reads_bind [OF counts], rule reads_bind [OF sessions], rule reads_bind [OF start])
    fix relations counts sessions start_error
    assume rels: "relations_in ?lib ?lid v = Inr relations"
    let ?rd0 = "\<lparr>rd_threads = threads, rd_known = map (\<lambda>t. field_text ?lib t ''thread_id'') threads,
           rd_errors = [], rd_failures = [], rd_runs = []\<rparr>"
    let ?listed = "\<lambda>rd1. map (listed_entry ?lib (dict_of (map (\<lambda>r. (rel_run_id r, r)) relations)) counts) (concat (map snd (rd_runs rd1)))"
    have A: "reads_as view v ?E (fold_io (read_thread ?c) ?rd0 (unique_values (map rel_thread_id relations)))
        (threads_seen calm v threads (unique_values (map rel_thread_id relations)))"
      by (rule reads_fold_done [where I = "threads_seen calm v threads"])
         (auto intro: read_thread_seen [OF laws _ ok] threads_seen_start [OF ok sub dist])
    show "reads_as view v ?E
        (bind_io (fold_io (read_thread ?c) ?rd0 (unique_values (map rel_thread_id relations))) (\<lambda>rd.
         bind_io (fold_io (read_runs sv) rd (rd_threads rd)) (\<lambda>rd1.
         bind_io (fold_io (missing_entry ?c (map en_run_id (?listed rd1)) counts) (?listed rd1, rd_failures rd1) relations)
           (\<lambda>(entries, failures). return_io
        \<lparr>ob_lifecycle = r, ob_threads = rd_threads rd1,
         ob_groups = thread_groups ?lib (rd_threads rd1) entries (rd_errors rd1),
         ob_entries = entries, ob_sessions = sessions, ob_relations = relations,
         ob_failures = failures, ob_start_error = start_error\<rparr>))))
        (observed calm ?lib ?lid v threads)"
    proof (rule reads_bind [OF A])
      fix rd assume rd: "threads_seen calm v threads (unique_values (map rel_thread_id relations)) rd"
      note seen = rd [unfolded threads_seen_def]
      have sub_rd: "set (rd_threads rd) \<subseteq> set (vw_threads v)" using seen by blast
      have B: "reads_as view v ?E (fold_io (read_runs sv) rd (rd_threads rd)) (runs_seen calm v rd (rd_threads rd))"
      proof (rule reads_fold_done [where I = "runs_seen calm v rd"])
        show "runs_seen calm v rd [] rd" using seen by (auto simp: runs_seen_def)
        show "reads_as view v ?E (read_runs sv s t) (runs_seen calm v rd (ys @ [t]))"
          if "rd_threads rd = ys @ t # zs" "runs_seen calm v rd ys s" for s ys t zs
        proof (rule read_runs_seen [OF laws that(2) _ _ ok])
          show "t \<in> set (rd_threads rd)" using that(1) by simp
          then show "t \<in> set (vw_threads v)" using sub_rd by blast
        qed
      qed
      show "reads_as view v ?E
        (bind_io (fold_io (read_runs sv) rd (rd_threads rd)) (\<lambda>rd1.
         bind_io (fold_io (missing_entry ?c (map en_run_id (?listed rd1)) counts) (?listed rd1, rd_failures rd1) relations)
           (\<lambda>(entries, failures). return_io
        \<lparr>ob_lifecycle = r, ob_threads = rd_threads rd1,
         ob_groups = thread_groups ?lib (rd_threads rd1) entries (rd_errors rd1),
         ob_entries = entries, ob_sessions = sessions, ob_relations = relations,
         ob_failures = failures, ob_start_error = start_error\<rparr>)))
        (observed calm ?lib ?lid v threads)"
      proof (rule reads_bind [OF B])
        fix rd1 assume rd1: "runs_seen calm v rd (rd_threads rd) rd1"
        note runs = rd1 [unfolded runs_seen_def]
        let ?ids = "thread_id_of ` set threads \<union> rel_thread_id ` set relations"
        have ids: "thread_id_of ` set (rd_threads rd) \<subseteq> ?ids"
          using seen by (simp add: image_subset_iff)
        have C: "reads_as view v ?E
            (fold_io (missing_entry ?c (map en_run_id (?listed rd1)) counts) (?listed rd1, rd_failures rd1) relations)
            (entries_seen calm ?ids v (?listed rd1) (rd_failures rd1))"
        proof (rule reads_fold)
          show "entries_seen calm ?ids v (?listed rd1) (rd_failures rd1) (?listed rd1, rd_failures rd1)"
            using runs ids by (fastforce simp: entries_seen_def listed_entry_def Let_def)
        qed (rule missing_entry_seen [OF laws], simp_all)
        show "reads_as view v ?E
         (bind_io (fold_io (missing_entry ?c (map en_run_id (?listed rd1)) counts) (?listed rd1, rd_failures rd1) relations)
           (\<lambda>(entries, failures). return_io
        \<lparr>ob_lifecycle = r, ob_threads = rd_threads rd1,
         ob_groups = thread_groups ?lib (rd_threads rd1) entries (rd_errors rd1),
         ob_entries = entries, ob_sessions = sessions, ob_relations = relations,
         ob_failures = failures, ob_start_error = start_error\<rparr>))
        (observed calm ?lib ?lid v threads)"
        proof (rule reads_bind [OF C], simp only: split_beta, rule reads_return)
          fix st assume st: "entries_seen calm ?ids v (?listed rd1) (rd_failures rd1) st"
          note es = st [unfolded entries_seen_def]
          have listed: "run \<in> set (observed_runs (fst st))"
            if "p \<in> set (rd_runs rd1)" "run \<in> set (snd p)" for p run
          proof -
            let ?e = "listed_entry ?lib (dict_of (map (\<lambda>r. (rel_run_id r, r)) relations)) counts run"
            have "?e \<in> set (?listed rd1)" using that by force
            then have "?e \<in> set (fst st)" using es by blast
            then show ?thesis unfolding observed_runs_set by (rule bexI [rotated]) (simp add: listed_entry_def Let_def)
          qed
          show "observed calm ?lib ?lid v threads
            \<lparr>ob_lifecycle = r, ob_threads = rd_threads rd1,
             ob_groups = thread_groups ?lib (rd_threads rd1) (fst st) (rd_errors rd1),
             ob_entries = fst st, ob_sessions = sessions, ob_relations = relations,
             ob_failures = snd st, ob_start_error = start_error\<rparr>"
            unfolding observed_def lifecycle_observation.simps Let_def
          proof (intro conjI impI)
            show "relations_in ?lib ?lid v = Inr relations" by (rule rels)
            show "set threads \<subseteq> set (rd_threads rd1)" using seen runs by simp
            show "set (rd_threads rd1) \<subseteq> set (vw_threads v)" using seen runs by simp
            show "distinct (map thread_id_of (rd_threads rd1))" using seen runs by simp
            show "thread_id_of ` set (rd_threads rd1) \<subseteq> ?ids" using ids runs by simp
            show "\<forall>run \<in> set (observed_runs (fst st)). \<exists>tid \<in> ?ids. run \<in> set (vw_runs v tid)"
            proof
              fix run assume "run \<in> set (observed_runs (fst st))"
              then obtain e where "e \<in> set (fst st)" "en_run e = Some run" by (auto simp: observed_runs_set)
              then show "\<exists>tid \<in> ?ids. run \<in> set (vw_runs v tid)" using es by blast
            qed
            show "snd st = []" if calm using es runs that by blast
            assume none: "snd st = []"
            then have none1: "rd_failures rd1 = []" and none0: "rd_failures rd = []" using es runs by blast+
            show "\<forall>rel \<in> set relations. \<forall>t. is_thread (rel_thread_id rel) v t \<longrightarrow> t \<in> set (rd_threads rd1)"
            proof (intro ballI allI impI)
              fix rel t assume "rel \<in> set relations" and t: "is_thread (rel_thread_id rel) v t"
              then have "rel_thread_id rel \<in> set (unique_values (map rel_thread_id relations))" by simp
              then have "rel_thread_id rel \<in> set (rd_known rd)" using seen by blast
              then have "t \<in> set (rd_threads rd)" using seen none0 t by blast
              then show "t \<in> set (rd_threads rd1)" using runs by simp
            qed
            show "\<forall>t \<in> set (rd_threads rd1). set (vw_runs v (thread_id_of t)) \<subseteq> set (observed_runs (fst st))"
            proof (intro ballI subsetI)
              fix t run assume "t \<in> set (rd_threads rd1)" and run: "run \<in> set (vw_runs v (thread_id_of t))"
              then have "map_of (rd_runs rd1) (thread_id_of t) = Some (vw_runs v (thread_id_of t))"
                using runs none1 by simp
              from listed [OF map_of_SomeD [OF this]] run show "run \<in> set (observed_runs (fst st))" by simp
            qed
          qed
        qed
      qed
    qed
  qed
qed

end
