(* ===== verification/Lifecycle_Writing.thy ===== *)
theory Lifecycle_Writing
  imports Lifecycle_Reading
begin

text \<open>
  What the deletion of a Lifecycle does to the server: the rules for computations that write, and
  the effect of each of its loops, whether it ends well or is cut short by a call that fails.
\<close>

section \<open>Computations that write\<close>

text \<open>From a world with \<open>P\<close> the computation returns, and its result and last world satisfy \<open>Q\<close>.\<close>

definition ensures ::
  "('w \<Rightarrow> bool) \<Rightarrow> ('w, 'a) io \<Rightarrow> ('w \<Rightarrow> lifecycle_error \<Rightarrow> bool) \<Rightarrow> ('w \<Rightarrow> 'a \<Rightarrow> bool) \<Rightarrow> bool" where
  "ensures P m F Q \<longleftrightarrow>
     (\<forall>w. P w \<longrightarrow> (\<exists>r w1. m w = Some (r, w1) \<and> (case r of Inl e \<Rightarrow> F w1 e | Inr x \<Rightarrow> Q w1 x)))"

lemma ensuresD:
  assumes "ensures P m F Q" and "P w"
  obtains (error) e w1 where "m w = Some (Inl e, w1)" "F w1 e"
        | (returned) x w1 where "m w = Some (Inr x, w1)" "Q w1 x"
  using assms unfolding ensures_def by (metis (no_types, lifting) sum.case sum.exhaust)

lemma ensures_return: "(\<And>w. P w \<Longrightarrow> Q w x) \<Longrightarrow> ensures P (return_io x) F Q"
  by (simp add: ensures_def return_io_def)

lemma ensures_raise: "(\<And>w. P w \<Longrightarrow> F w e) \<Longrightarrow> ensures P (raise_io e) F Q"
  by (simp add: ensures_def raise_io_def)

lemma ensures_bind:
  assumes m: "ensures P m F R" and f: "\<And>x. ensures (\<lambda>w. R w x) (f x) F Q"
  shows "ensures P (bind_io m f) F Q"
  unfolding ensures_def
proof (intro allI impI)
  fix w assume w: "P w"
  from m w show "\<exists>r w1. bind_io m f w = Some (r, w1) \<and> (case r of Inl e \<Rightarrow> F w1 e | Inr x \<Rightarrow> Q w1 x)"
  proof (cases rule: ensuresD)
    case (error e w1)
    then show ?thesis by (simp add: bind_io_def)
  next
    case (returned x w1)
    then show ?thesis using f [of x] by (auto simp: bind_io_def ensures_def)
  qed
qed

lemma ensures_weaken:
  assumes m: "ensures P m F Q" and "\<And>w. P1 w \<Longrightarrow> P w" and "\<And>w x. Q w x \<Longrightarrow> Q1 w x" and "\<And>w e. F w e \<Longrightarrow> F1 w e"
  shows "ensures P1 m F1 Q1"
  unfolding ensures_def
proof (intro allI impI)
  fix w assume w: "P1 w"
  with assms(2) have "P w" .
  with m show "\<exists>r w1. m w = Some (r, w1) \<and> (case r of Inl e \<Rightarrow> F1 w1 e | Inr x \<Rightarrow> Q1 w1 x)"
    by (cases rule: ensuresD) (use assms in auto)
qed

lemma ensures_lift:
  "(\<And>w e. P w \<Longrightarrow> r = Inl e \<Longrightarrow> F w e) \<Longrightarrow> (\<And>w x. P w \<Longrightarrow> r = Inr x \<Longrightarrow> Q w x) \<Longrightarrow> ensures P (lift_res r) F Q"
  by (auto simp: ensures_def lift_res_def split: sum.splits)

lemma ensures_assume: "(\<And>w. P w \<Longrightarrow> ensures (\<lambda>w1. w1 = w) m F Q) \<Longrightarrow> ensures P m F Q"
  by (auto simp: ensures_def)

lemma ensures_each:
  assumes step: "\<And>ys x zs. xs = ys @ x # zs \<Longrightarrow> ensures (I ys) (f x) F (\<lambda>w _. I (ys @ [x]) w)"
  shows "ensures (I []) (each_io f xs) F (\<lambda>w _. I xs w)"
proof -
  have "ensures (I ys) (each_io f zs) F (\<lambda>w _. I xs w)" if "xs = ys @ zs" for ys zs
    using that
  proof (induction zs arbitrary: ys)
    case Nil
    then show ?case by (simp add: ensures_return)
  next
    case (Cons x zs)
    then show ?case
      by (auto intro!: ensures_bind [OF step [OF Cons.prems]] Cons.IH [of "ys @ [x]"])
  qed
  from this [of "[]" xs] show ?thesis by simp
qed

text \<open>A computation that only reads, in a computation that writes.\<close>

lemma ensures_reads:
  assumes "\<And>w. P w \<Longrightarrow> reads_as view (view w) E m (Q w)"
    and "\<And>w w1 x. P w \<Longrightarrow> view w1 = view w \<Longrightarrow> Q w x \<Longrightarrow> R w1 x"
    and "\<And>w w1 e. P w \<Longrightarrow> view w1 = view w \<Longrightarrow> E e \<Longrightarrow> F w1 e"
  shows "ensures P m F R"
  unfolding ensures_def
proof (intro allI impI)
  fix w assume w: "P w"
  from assms(1) [OF w] refl show "\<exists>r w1. m w = Some (r, w1) \<and> (case r of Inl e \<Rightarrow> F w1 e | Inr x \<Rightarrow> R w1 x)"
    by (cases rule: reads_asD) (use assms(2, 3) [OF w] in auto)
qed

lemma ensures_reads_at:
  assumes m: "reads_as view v E m Q" and at: "\<And>w. P w \<Longrightarrow> view w = v"
    and R: "\<And>w w1 x. P w \<Longrightarrow> view w1 = v \<Longrightarrow> Q x \<Longrightarrow> R w1 x"
    and F: "\<And>w w1 e. P w \<Longrightarrow> view w1 = v \<Longrightarrow> E e \<Longrightarrow> F w1 e"
  shows "ensures P m F R"
  unfolding ensures_def
proof (intro allI impI)
  fix w assume w: "P w"
  from m at [OF w] show "\<exists>r w1. m w = Some (r, w1) \<and> (case r of Inl e \<Rightarrow> F w1 e | Inr x \<Rightarrow> R w1 x)"
    by (cases rule: reads_asD) (use R [OF w] F [OF w] in auto)
qed

lemma ensures_keeps:
  assumes keeps: "keeps view c" and calm: "calm \<Longrightarrow> \<forall>w. \<exists>x. fst (c w) = Inr x"
    and F: "\<And>w e. P (view w) \<Longrightarrow> \<not> calm \<Longrightarrow> F w e"
  shows "ensures (\<lambda>w. P (view w)) (call_io c) F (\<lambda>w _. P (view w))"
  unfolding ensures_def
proof (intro allI impI)
  fix w assume w: "P (view w)"
  obtain r w1 where c: "c w = (r, w1)" by (cases "c w")
  have v: "view w1 = view w" using keeps c unfolding keeps_def by (metis snd_conv)
  show "\<exists>r w1. call_io c w = Some (r, w1) \<and> (case r of Inl e \<Rightarrow> F w1 e | Inr x \<Rightarrow> P (view w1))"
  proof (cases r)
    case (Inl e)
    then have "\<not> calm" using calm c by (metis fst_conv sum.distinct(1))
    then show ?thesis using c Inl w v F by (simp add: call_io_def)
  next
    case (Inr x)
    then show ?thesis using c w v by (simp add: call_io_def)
  qed
qed

lemma ensures_writes:
  assumes wr: "writes calm view c done_by present"
    and done_by: "\<And>w v1. P w \<Longrightarrow> done_by (view w) v1 \<Longrightarrow> Q v1"
    and fails: "\<And>w w1 e. P w \<Longrightarrow> view w1 = view w \<or> done_by (view w) (view w1) \<Longrightarrow> calm \<longrightarrow> \<not> present (view w) \<Longrightarrow> F w1 e"
  shows "ensures P (call_io c) F (\<lambda>w _. Q (view w))"
  unfolding ensures_def
proof (intro allI impI)
  fix w assume w: "P w"
  obtain r w1 where c: "c w = (r, w1)" by (cases "c w")
  have law: "case r of Inr _ \<Rightarrow> done_by (view w) (view w1)
      | Inl e \<Rightarrow> (view w1 = view w \<or> done_by (view w) (view w1)) \<and> (calm \<longrightarrow> \<not> present (view w))"
    using wr c unfolding writes_def by (metis fst_conv snd_conv)
  show "\<exists>r w1. call_io c w = Some (r, w1) \<and> (case r of Inl e \<Rightarrow> F w1 e | Inr x \<Rightarrow> Q (view w1))"
    using law c w by (cases r) (auto simp: call_io_def intro: done_by fails)
qed

section \<open>Deleting threads\<close>

text \<open>The threads with the given ids are gone; the others, and the store, are as before.\<close>

definition threads_gone :: "server_view \<Rightarrow> obj list \<Rightarrow> server_view \<Rightarrow> bool" where
  "threads_gone v0 ts v \<longleftrightarrow>
     vw_items v = vw_items v0 \<and>
     vw_threads v = filter (\<lambda>t. thread_id_of t \<notin> thread_id_of ` set ts) (vw_threads v0)"

lemma threads_gone_removed:
  "threads_gone v0 ts v \<Longrightarrow> threads_gone v0 (ts @ [t]) (thread_removed (thread_id_of t) v)"
  by (auto simp: threads_gone_def thread_removed_def intro: filter_cong)

definition threads_part_gone :: "server_view \<Rightarrow> obj list \<Rightarrow> server_view \<Rightarrow> bool" where
  "threads_part_gone v0 ts v \<longleftrightarrow> (\<exists>us vs. ts = us @ vs \<and> threads_gone v0 us v)"

lemma delete_threads_ensures:
  assumes laws: "server_laws calm view (sv_client sv)" and ok: "view_ok v0"
    and sub: "set ts \<subseteq> set (vw_threads v0)" and dist: "distinct (map thread_id_of ts)"
  shows "ensures (\<lambda>w. threads_gone v0 [] (view w)) (each_io (delete_thread sv) ts)
    (\<lambda>w e. threads_part_gone v0 ts (view w) \<and> \<not> calm) (\<lambda>w _. threads_gone v0 ts (view w))"
proof (rule ensures_each [where I = "\<lambda>ys w. threads_gone v0 ys (view w)"])
  fix ys t zs assume ts: "ts = ys @ t # zs"
  let ?tid = "thread_id_of t" and ?c = "sv_client sv"
  have t: "t \<in> set (vw_threads v0)" using ts sub by auto
  have req: "required_text (sv_library sv) t ''thread_id'' = Inr ?tid"
    by (rule has_text_required [OF view_thread [OF ok t]])
  have wr: "writes calm view (threads_delete ?c ?tid) (\<lambda>v v1. v1 = thread_removed ?tid v) (\<lambda>v. \<exists>s. is_thread ?tid v s)"
    using laws by (simp add: server_laws_def write_laws_def)
  have "ensures (\<lambda>w. threads_gone v0 ys (view w)) (call_io (threads_delete ?c ?tid))
     (\<lambda>w e. threads_part_gone v0 ts (view w) \<and> \<not> calm) (\<lambda>w _. threads_gone v0 (ys @ [t]) (view w))"
  proof (rule ensures_writes [OF wr])
    show "threads_gone v0 (ys @ [t]) v1" if "threads_gone v0 ys (view w)" "v1 = thread_removed ?tid (view w)" for w v1
      using threads_gone_removed that by blast
    fix w w1 e
    assume g: "threads_gone v0 ys (view w)" and w1: "view w1 = view w \<or> view w1 = thread_removed ?tid (view w)"
      and p: "calm \<longrightarrow> \<not> (\<exists>s. is_thread ?tid (view w) s)"
    have "t \<in> set (vw_threads (view w))" using g t ts dist by (auto simp: threads_gone_def)
    then have "is_thread ?tid (view w) t" by (simp add: is_thread_def)
    moreover have "threads_part_gone v0 ts (view w1)"
      using w1 g threads_gone_removed [OF g, of t] ts
      unfolding threads_part_gone_def by (metis append.assoc append_Cons append_Nil)
    ultimately show "threads_part_gone v0 ts (view w1) \<and> \<not> calm" using p by blast
  qed
  then show "ensures (\<lambda>w. threads_gone v0 ys (view w)) (delete_thread sv t)
     (\<lambda>w e. threads_part_gone v0 ts (view w) \<and> \<not> calm) (\<lambda>w _. threads_gone v0 (ys @ [t]) (view w))"
    by (simp add: delete_thread_def req lift_res_def bind_io_def ensures_def)
qed

section \<open>Deleting the store of a Lifecycle\<close>

text \<open>The items of the given namespaces are gone, all else is as before.\<close>

definition items_gone :: "server_view \<Rightarrow> string list set \<Rightarrow> server_view \<Rightarrow> bool" where
  "items_gone v0 N v \<longleftrightarrow>
     vw_threads v = vw_threads v0 \<and> (\<forall>ns. vw_items v ns = (if ns \<in> N then [] else vw_items v0 ns))"

definition items_part_gone :: "server_view \<Rightarrow> string list set \<Rightarrow> string list \<Rightarrow> server_view \<Rightarrow> bool" where
  "items_part_gone v0 N ns v \<longleftrightarrow>
     vw_threads v = vw_threads v0 \<and>
     (\<forall>x. x \<noteq> ns \<longrightarrow> vw_items v x = (if x \<in> N then [] else vw_items v0 x)) \<and>
     (\<exists>K. vw_items v ns = filter (\<lambda>i. item_key i \<notin> K) (vw_items v0 ns))"

lemma items_part_removed:
  assumes "items_part_gone v0 N ns v" and "item_removed ns k v v1"
  shows "items_part_gone v0 N ns v1"
proof -
  obtain K where "vw_items v ns = filter (\<lambda>i. item_key i \<notin> K) (vw_items v0 ns)"
    using assms(1) unfolding items_part_gone_def by blast
  then have "vw_items v1 ns = filter (\<lambda>i. item_key i \<notin> insert k K) (vw_items v0 ns)"
    using assms(2) by (simp add: item_removed_def conj_commute)
  then have "\<exists>K. vw_items v1 ns = filter (\<lambda>i. item_key i \<notin> K) (vw_items v0 ns)" ..
  moreover have "vw_threads v1 = vw_threads v0" "\<forall>x. x \<noteq> ns \<longrightarrow> vw_items v1 x = (if x \<in> N then [] else vw_items v0 x)"
    using assms unfolding items_part_gone_def item_removed_def by simp_all
  ultimately show ?thesis unfolding items_part_gone_def by blast
qed

definition keys_gone :: "server_view \<Rightarrow> string list set \<Rightarrow> string list \<Rightarrow> obj list \<Rightarrow> server_view \<Rightarrow> bool" where
  "keys_gone v0 N ns done v \<longleftrightarrow>
     vw_threads v = vw_threads v0 \<and>
     (\<forall>x. x \<noteq> ns \<longrightarrow> vw_items v x = (if x \<in> N then [] else vw_items v0 x)) \<and>
     vw_items v ns = filter (\<lambda>i. item_key i \<notin> item_key ` set done) (vw_items v0 ns)"

lemma keys_gone_part: "keys_gone v0 N ns done v \<Longrightarrow> items_part_gone v0 N ns v"
  unfolding keys_gone_def items_part_gone_def by blast

lemma keys_gone_removed:
  assumes "keys_gone v0 N ns done v" and "item_removed ns (item_key i) v v1"
  shows "keys_gone v0 N ns (done @ [i]) v1"
  using assms unfolding keys_gone_def item_removed_def by (simp add: conj_commute)

lemma item_at_present:
  assumes "view_ok v" and "i \<in> set (vw_items v ns)" shows "item_at ns (item_key i) v \<noteq> JNull"
proof -
  have "find (\<lambda>j. item_key j = item_key i) (vw_items v ns) \<noteq> None"
    using assms(2) by (auto simp: find_None_iff)
  then show ?thesis by (auto simp: item_at_def split: option.splits)
qed

lemma delete_namespace_ensures:
  assumes laws: "server_laws calm view (sv_client sv)" and fresh: "ns \<notin> N" and ok: "view_ok v0"
  shows "ensures (\<lambda>w. items_gone v0 N (view w)) (delete_namespace sv ns)
    (\<lambda>w e. items_part_gone v0 N ns (view w) \<and> \<not> calm) (\<lambda>w _. items_gone v0 (insert ns N) (view w))"
  unfolding delete_namespace_def
proof (rule ensures_bind [where R = "\<lambda>w items. items = vw_items v0 ns \<and> keys_gone v0 N ns [] (view w)"])
  let ?c = "sv_client sv"
  have start: "vw_items (view w) ns = vw_items v0 ns" "keys_gone v0 N ns [] (view w)"
    if "items_gone v0 N (view w)" for w
    using that fresh by (auto simp: items_gone_def keys_gone_def)
  show "ensures (\<lambda>w. items_gone v0 N (view w)) (search_all_items ?c ns)
     (\<lambda>w e. items_part_gone v0 N ns (view w) \<and> \<not> calm)
     (\<lambda>w items. items = vw_items v0 ns \<and> keys_gone v0 N ns [] (view w))"
  proof (rule ensures_reads [OF search_all_items_reads [OF laws]])
    show "x = vw_items v0 ns \<and> keys_gone v0 N ns [] (view w1)"
      if "items_gone v0 N (view w)" "view w1 = view w" "x = vw_items (view w) ns" for w w1 x
      using start [OF that(1)] that(2, 3) by simp
    show "items_part_gone v0 N ns (view w1) \<and> \<not> calm"
      if "items_gone v0 N (view w)" "view w1 = view w" "\<not> calm" for w w1
      using keys_gone_part [OF start(2) [OF that(1)]] that(2, 3) by simp
  qed
  show "ensures (\<lambda>w. items = vw_items v0 ns \<and> keys_gone v0 N ns [] (view w)) (each_io (delete_item_of sv ns) items)
     (\<lambda>w e. items_part_gone v0 N ns (view w) \<and> \<not> calm) (\<lambda>w _. items_gone v0 (insert ns N) (view w))" for items
  proof (rule ensures_assume)
    fix w assume w: "items = vw_items v0 ns \<and> keys_gone v0 N ns [] (view w)"
    have "ensures (\<lambda>w. keys_gone v0 N ns [] (view w)) (each_io (delete_item_of sv ns) items)
        (\<lambda>w e. items_part_gone v0 N ns (view w) \<and> \<not> calm) (\<lambda>w _. keys_gone v0 N ns items (view w))"
    proof (rule ensures_each [where I = "\<lambda>ys w. keys_gone v0 N ns ys (view w)"])
      fix ys i zs assume items: "items = ys @ i # zs"
      have i: "i \<in> set (vw_items v0 ns)" using items w by auto
      have dist: "distinct (map item_key (vw_items v0 ns))" using ok by (simp add: view_ok_def)
      have req: "required_text (sv_library sv) i ''key'' = Inr (item_key i)"
        by (rule has_text_required) (use ok i in \<open>simp add: view_ok_def\<close>)
      have wr: "writes calm view (store_delete_item ?c ns (item_key i)) (item_removed ns (item_key i)) (\<lambda>v. item_at ns (item_key i) v \<noteq> JNull)"
        using laws by (simp add: server_laws_def write_laws_def)
      have "ensures (\<lambda>w. keys_gone v0 N ns ys (view w)) (call_io (store_delete_item ?c ns (item_key i)))
         (\<lambda>w e. items_part_gone v0 N ns (view w) \<and> \<not> calm) (\<lambda>w _. keys_gone v0 N ns (ys @ [i]) (view w))"
      proof (rule ensures_writes [OF wr])
        show "keys_gone v0 N ns (ys @ [i]) v1" if "keys_gone v0 N ns ys (view w)" "item_removed ns (item_key i) (view w) v1" for w v1
          using keys_gone_removed that by blast
        fix w1 w2 e
        assume g: "keys_gone v0 N ns ys (view w1)"
          and w2: "view w2 = view w1 \<or> item_removed ns (item_key i) (view w1) (view w2)"
          and p: "calm \<longrightarrow> \<not> item_at ns (item_key i) (view w1) \<noteq> JNull"
        have "item_key i \<notin> item_key ` set ys" using dist items w by auto
        then have "i \<in> set (vw_items (view w1) ns)" using g i by (simp add: keys_gone_def)
        then have "item_at ns (item_key i) (view w1) \<noteq> JNull" by (rule item_at_present [OF lawful_view [OF laws]])
        then have "\<not> calm" using p by blast
        moreover have "items_part_gone v0 N ns (view w2)"
          using w2 keys_gone_part [OF g] items_part_removed by metis
        ultimately show "items_part_gone v0 N ns (view w2) \<and> \<not> calm" by blast
      qed
      then show "ensures (\<lambda>w. keys_gone v0 N ns ys (view w)) (delete_item_of sv ns i)
         (\<lambda>w e. items_part_gone v0 N ns (view w) \<and> \<not> calm) (\<lambda>w _. keys_gone v0 N ns (ys @ [i]) (view w))"
        by (simp add: delete_item_of_def req lift_res_def bind_io_def ensures_def)
    qed
    then show "ensures (\<lambda>w1. w1 = w) (each_io (delete_item_of sv ns) items)
        (\<lambda>w e. items_part_gone v0 N ns (view w) \<and> \<not> calm) (\<lambda>w _. items_gone v0 (insert ns N) (view w))"
    proof (rule ensures_weaken)
      show "keys_gone v0 N ns [] (view w1)" if "w1 = w" for w1 using w that by blast
      show "items_gone v0 (insert ns N) (view w1)" if "keys_gone v0 N ns items (view w1)" for w1
        using that w by (auto simp: keys_gone_def items_gone_def)
    qed
  qed
qed

lemma record_last_split:
  assumes "record_last own nss = ys @ x # zs" and "distinct nss"
  shows "(x \<noteq> own \<longrightarrow> own \<notin> set ys) \<and> (x = own \<longrightarrow> set ys = set nss - {own}) \<and> x \<notin> set ys"
proof -
  let ?A = "filter (\<lambda>y. y \<noteq> own) nss" and ?B = "filter (\<lambda>y. y = own) nss"
  have eq: "ys @ x # zs = ?A @ ?B" using assms(1) by (simp add: record_last_def)
  have dist: "distinct (ys @ x # zs)" unfolding eq using assms(2) by auto
  then have x: "x \<notin> set ys" by auto
  from eq obtain us where us: "ys = ?A @ us \<and> us @ x # zs = ?B \<or> ys @ us = ?A \<and> x # zs = us @ ?B"
    by (auto simp: append_eq_append_conv2)
  have B: "set ?B \<subseteq> {own}" by auto
  from us show ?thesis
  proof
    assume u: "ys = ?A @ us \<and> us @ x # zs = ?B"
    then have "set (us @ x # zs) \<subseteq> {own}" using B by metis
    then have "x = own" "set us \<subseteq> {own}" by auto
    moreover have "own \<notin> set us" using dist u calculation by auto
    ultimately have "us = []" by (metis set_empty subset_singletonD singletonI)
    then show ?thesis using u x \<open>x = own\<close> by auto
  next
    assume u: "ys @ us = ?A \<and> x # zs = us @ ?B"
    then have A: "set ys \<subseteq> set ?A" "set us \<subseteq> set ?A" by (metis Un_upper1 set_append, metis Un_upper2 set_append)
    then have "own \<notin> set ys" by auto
    moreover have "set ys = set nss - {own}" if "x = own"
    proof (cases us)
      case Nil
      then show ?thesis using u by auto
    next
      case (Cons y us1)
      then have "x \<in> set ?A" using u A(2) by auto
      then show ?thesis using that by simp
    qed
    ultimately show ?thesis using x by blast
  qed
qed

section \<open>The store of a Lifecycle as a whole\<close>

definition own_namespace :: "string \<Rightarrow> string list" where
  "own_namespace lid = [lifecycle_root, lid, ''metadata'']"

definition lifecycle_prefix :: "string \<Rightarrow> string list" where
  "lifecycle_prefix lid = [lifecycle_root, lid]"

lemma own_namespace_prefix: "prefix (lifecycle_prefix lid) (own_namespace lid)"
  by (simp add: lifecycle_prefix_def own_namespace_def)

lemma record_namespace_own: "lid \<noteq> [] \<Longrightarrow> lifecycle_record_namespace lid = Inr (own_namespace lid)"
  by (simp add: lifecycle_record_namespace_def lifecycle_namespace_def own_namespace_def)

text \<open>What is outside the prefix of the Lifecycle is as before; what is under it, gone.\<close>

definition store_others :: "string \<Rightarrow> server_view \<Rightarrow> server_view \<Rightarrow> bool" where
  "store_others lid v0 v \<longleftrightarrow> (\<forall>ns. \<not> prefix (lifecycle_prefix lid) ns \<longrightarrow> vw_items v ns = vw_items v0 ns)"

definition store_cleared :: "string \<Rightarrow> server_view \<Rightarrow> bool" where
  "store_cleared lid v \<longleftrightarrow> (\<forall>ns. prefix (lifecycle_prefix lid) ns \<longrightarrow> vw_items v ns = [])"

definition record_kept :: "string \<Rightarrow> server_view \<Rightarrow> server_view \<Rightarrow> bool" where
  "record_kept lid v0 v \<longleftrightarrow> vw_items v (own_namespace lid) = vw_items v0 (own_namespace lid)"

text \<open>The record's namespace holds nothing but the record.\<close>

definition single_record :: "string \<Rightarrow> server_view \<Rightarrow> bool" where
  "single_record lid v \<longleftrightarrow> length (vw_items v (own_namespace lid)) \<le> 1"

lemma filter_single: "length xs \<le> 1 \<Longrightarrow> filter P xs = xs \<or> filter P xs = []"
  by (cases xs) auto

lemma delete_store_prefix_ensures:
  assumes laws: "server_laws calm view (sv_client sv)" and lid: "lid \<noteq> []" and one: "single_record lid v0"
    and ok: "view_ok v0"
  shows "ensures (\<lambda>w. items_gone v0 {} (view w)) (delete_store_prefix sv lid)
    (\<lambda>w e. vw_threads (view w) = vw_threads v0 \<and> store_others lid v0 (view w) \<and>
       (record_kept lid v0 (view w) \<or> store_cleared lid (view w)) \<and> \<not> calm)
    (\<lambda>w _. vw_threads (view w) = vw_threads v0 \<and> store_others lid v0 (view w) \<and> store_cleared lid (view w))"
    (is "ensures _ _ ?F ?Q")
  unfolding delete_store_prefix_def
proof (rule ensures_bind [where R = "\<lambda>w nss. items_gone v0 {} (view w) \<and> nss = namespaces_under (lifecycle_prefix lid) (view w)"])
  have same: "vw_threads v = vw_threads v0 \<and> store_others lid v0 v \<and> record_kept lid v0 v" if "items_gone v0 {} v" for v
    using that by (simp add: items_gone_def store_others_def record_kept_def)
  show "ensures (\<lambda>w. items_gone v0 {} (view w)) (list_namespaces (sv_client sv) [lifecycle_root, lid]) ?F
     (\<lambda>w nss. items_gone v0 {} (view w) \<and> nss = namespaces_under (lifecycle_prefix lid) (view w))"
  proof (rule ensures_reads [OF list_namespaces_reads [OF laws]])
    show "items_gone v0 {} (view w1) \<and> nss = namespaces_under (lifecycle_prefix lid) (view w1)"
      if "items_gone v0 {} (view w)" "view w1 = view w" "nss = namespaces_under [lifecycle_root, lid] (view w)" for w w1 nss
      using that by (simp add: lifecycle_prefix_def)
    show "?F w1 e" if "items_gone v0 {} (view w)" "view w1 = view w" "\<not> calm" for w w1 e
      using same [OF that(1)] that(2, 3) by simp
  qed
  fix nss
  show "ensures (\<lambda>w. items_gone v0 {} (view w) \<and> nss = namespaces_under (lifecycle_prefix lid) (view w))
     (bind_io (lift_res (lifecycle_record_namespace lid)) (\<lambda>own. each_io (delete_namespace sv) (record_last own nss))) ?F ?Q"
  proof (rule ensures_assume)
    fix w assume w: "items_gone v0 {} (view w) \<and> nss = namespaces_under (lifecycle_prefix lid) (view w)"
    let ?own = "own_namespace lid"
    have wok: "view_ok (view w)" by (rule lawful_view [OF laws])
    have dist: "distinct nss" using w wok by (simp add: namespaces_under_def view_ok_def)
    have under: "prefix (lifecycle_prefix lid) ns" if "ns \<in> set nss" for ns
      using that w by (simp add: namespaces_under_def)
    have unlisted: "vw_items v0 ns = []" if "prefix (lifecycle_prefix lid) ns" "ns \<notin> set nss" for ns
    proof (rule ccontr)
      assume "vw_items v0 ns \<noteq> []"
      then have "vw_items (view w) ns \<noteq> []" using w by (simp add: items_gone_def)
      then have "ns \<in> set nss" using that(1) w wok by (simp add: view_ok_def namespaces_under_def)
      then show False using that(2) by blast
    qed
    have last_set: "set (record_last ?own nss) = set nss" by (auto simp: record_last_def)
    have "ensures (\<lambda>w1. items_gone v0 (set []) (view w1)) (each_io (delete_namespace sv) (record_last ?own nss)) ?F
        (\<lambda>w1 _. items_gone v0 (set (record_last ?own nss)) (view w1))"
    proof (rule ensures_each [where I = "\<lambda>ys w1. items_gone v0 (set ys) (view w1)"])
      fix ys ns zs assume split: "record_last ?own nss = ys @ ns # zs"
      note parts = record_last_split [OF split dist]
      have ys: "set ys \<subseteq> set nss" "ns \<in> set nss" using last_set split by auto
      show "ensures (\<lambda>w1. items_gone v0 (set ys) (view w1)) (delete_namespace sv ns) ?F
          (\<lambda>w1 _. items_gone v0 (set (ys @ [ns])) (view w1))"
      proof (rule ensures_weaken [OF delete_namespace_ensures [OF laws _ ok, of ns "set ys"]])
        show "ns \<notin> set ys" using parts by blast
        show "items_gone v0 (set (ys @ [ns])) (view w1)" if "items_gone v0 (insert ns (set ys)) (view w1)" for w1
          using that by simp
        fix w1 e assume part: "items_part_gone v0 (set ys) ns (view w1) \<and> \<not> calm"
        then have threads: "vw_threads (view w1) = vw_threads v0"
          and other: "x \<noteq> ns \<Longrightarrow> vw_items (view w1) x = (if x \<in> set ys then [] else vw_items v0 x)" for x
          unfolding items_part_gone_def by auto
        have "store_others lid v0 (view w1)"
          unfolding store_others_def
        proof (intro allI impI)
          fix x assume "\<not> prefix (lifecycle_prefix lid) x"
          then have "x \<notin> set nss" using under by blast
          then have "x \<noteq> ns" "x \<notin> set ys" using ys by blast+
          then show "vw_items (view w1) x = vw_items v0 x" using other by simp
        qed
        moreover have "record_kept lid v0 (view w1) \<or> store_cleared lid (view w1)"
        proof (cases "ns = ?own")
          case False
          then show ?thesis using other [of ?own] parts by (auto simp: record_kept_def)
        next
          case True
          obtain K where "vw_items (view w1) ?own = filter (\<lambda>i. item_key i \<notin> K) (vw_items v0 ?own)"
            using part True unfolding items_part_gone_def by blast
          then consider "record_kept lid v0 (view w1)" | "vw_items (view w1) ?own = []"
            using filter_single [OF one [unfolded single_record_def]] unfolding record_kept_def by metis
          then show ?thesis
          proof cases
            case 2
            have "vw_items (view w1) x = []" if "prefix (lifecycle_prefix lid) x" for x
              using other [of x] unlisted [OF that] parts 2 True by (cases "x = ?own") auto
            then show ?thesis by (simp add: store_cleared_def)
          qed simp
        qed
        ultimately show "?F w1 e" using threads part by blast
      qed simp
    qed
    then have "ensures (\<lambda>w1. w1 = w) (each_io (delete_namespace sv) (record_last ?own nss)) ?F ?Q"
    proof (rule ensures_weaken)
      show "items_gone v0 (set []) (view w1)" if "w1 = w" for w1 using w that by simp
      show "?Q w1 x" if "items_gone v0 (set (record_last ?own nss)) (view w1)" for w1 x
        using that under unlisted unfolding last_set items_gone_def store_others_def store_cleared_def by auto
    qed
    then show "ensures (\<lambda>w1. w1 = w)
        (bind_io (lift_res (lifecycle_record_namespace lid)) (\<lambda>own. each_io (delete_namespace sv) (record_last own nss))) ?F ?Q"
      by (simp add: record_namespace_own [OF lid] lift_res_def bind_io_def ensures_def)
  qed
qed

end
