(* ===== verification/Lifecycle_Properties.thy ===== *)
theory Lifecycle_Properties
  imports Lifecycle_Writing
begin

text \<open>
  What deleting a Lifecycle guarantees when the server keeps its laws: an active Run is spared, a
  deletion that fails can be repeated, one that nothing disturbs completes, and retention removes
  only what is older than the Lifecycles to keep.
\<close>

section \<open>What belongs to a Lifecycle\<close>

text \<open>The ids of its threads: those whose metadata name it, and those its Run relations name.\<close>

definition owned_id :: "lifecycle_library \<Rightarrow> string \<Rightarrow> server_view \<Rightarrow> string \<Rightarrow> bool" where
  "owned_id lib lid v tid \<longleftrightarrow>
     (\<exists>t \<in> set (vw_threads v). thread_of_lifecycle lid t \<and> thread_id_of t = tid) \<or>
     (\<exists>rs. relations_in lib lid v = Inr rs \<and> tid \<in> rel_thread_id ` set rs)"

definition lifecycle_deleted :: "lifecycle_library \<Rightarrow> string \<Rightarrow> server_view \<Rightarrow> server_view \<Rightarrow> bool" where
  "lifecycle_deleted lib lid v0 v \<longleftrightarrow>
     vw_threads v = filter (\<lambda>t. \<not> owned_id lib lid v0 (thread_id_of t)) (vw_threads v0) \<and> store_cleared lid v"

definition others_untouched :: "lifecycle_library \<Rightarrow> string \<Rightarrow> server_view \<Rightarrow> server_view \<Rightarrow> bool" where
  "others_untouched lib lid v0 v \<longleftrightarrow>
     (\<forall>t \<in> set (vw_threads v0). \<not> owned_id lib lid v0 (thread_id_of t) \<longrightarrow> t \<in> set (vw_threads v)) \<and>
     store_others lid v0 v"

definition inactive_run :: "obj \<Rightarrow> bool" where
  "inactive_run run \<longleftrightarrow> (case official_status run of Inl e \<Rightarrow> False | Inr s \<Rightarrow> \<not> is_active s)"

definition deletable :: "lifecycle_library \<Rightarrow> string \<Rightarrow> server_view \<Rightarrow> bool" where
  "deletable lib lid v \<longleftrightarrow>
     (\<exists>r. record_in lib lid v = Inr (Some r)) \<and> readable lib lid v \<and>
     (\<forall>tid. owned_id lib lid v tid \<longrightarrow> (\<forall>run \<in> set (vw_runs v tid). inactive_run run))"

lemma any_active_False: "any_active runs = Inr False \<longleftrightarrow> (\<forall>run \<in> set runs. inactive_run run)"
  by (induction runs) (auto simp: inactive_run_def bind_res_def split: sum.splits)

section \<open>One deletion\<close>

lemma delete_owned_ensures:
  fixes sv :: "'w lifecycle_service" and view :: "'w \<Rightarrow> server_view"
  assumes laws: "server_laws calm view (sv_client sv)" and lid: "lid \<noteq> []"
    and sub: "set ts \<subseteq> set (vw_threads v0)" and dist: "distinct (map thread_id_of ts)" and ok: "view_ok v0"
    and one: "single_record lid v0"
  shows "ensures (\<lambda>w. view w = v0) (delete_owned sv lid ts)
    (\<lambda>w e. (\<exists>us vs. ts = us @ vs \<and> vw_threads (view w) = filter (\<lambda>t. thread_id_of t \<notin> thread_id_of ` set us) (vw_threads v0) \<and>
              (record_kept lid v0 (view w) \<or> vs = [] \<and> store_cleared lid (view w))) \<and>
       store_others lid v0 (view w) \<and> \<not> calm)
    (\<lambda>w _. vw_threads (view w) = filter (\<lambda>t. thread_id_of t \<notin> thread_id_of ` set ts) (vw_threads v0) \<and>
       store_others lid v0 (view w) \<and> store_cleared lid (view w))"
    (is "ensures _ _ ?F ?Q")
proof -
  let ?c = "sv_client sv"
  have part: "?F w e" if p: "threads_part_gone v0 ts (view w) \<and> \<not> calm" for w and e :: lifecycle_error
  proof -
    obtain us vs where ts: "ts = us @ vs" and g: "threads_gone v0 us (view w)"
      using p unfolding threads_part_gone_def by blast
    from g have items: "vw_items (view w) = vw_items v0"
      and th: "vw_threads (view w) = filter (\<lambda>t. thread_id_of t \<notin> thread_id_of ` set us) (vw_threads v0)"
      unfolding threads_gone_def by (rule conjunct1, rule conjunct2)
    have "record_kept lid v0 (view w)" unfolding record_kept_def items ..
    moreover have "store_others lid v0 (view w)" unfolding store_others_def items by (intro allI impI refl)
    ultimately show ?thesis using p ts th by (intro conjI exI [of _ us] exI [of _ vs] disjI1) simp_all
  qed
  have gone: "?F w e" if "threads_gone v0 ts (view w)" "\<not> calm" for w and e :: lifecycle_error
    by (rule part) (use that in \<open>auto simp: threads_part_gone_def\<close>)
  have threads: "ensures (\<lambda>w. view w = v0) (each_io (delete_thread sv) ts) ?F (\<lambda>w _. threads_gone v0 ts (view w))"
    by (rule ensures_weaken [OF delete_threads_ensures [OF laws ok sub dist]])
       (use part in \<open>auto simp: threads_gone_def\<close>)
  have keep: "ensures (\<lambda>w. threads_gone v0 ts (view w)) (if b then call_io call else return_io ()) ?F
      (\<lambda>w _. threads_gone v0 ts (view w))"
    if "keeps view call" "calm \<Longrightarrow> \<forall>w. \<exists>x. fst (call w) = Inr x" for b and call :: "('w, unit) call"
    by (cases b) (auto intro!: ensures_keeps [OF that] ensures_return gone)
  have store: "ensures (\<lambda>w. threads_gone v0 ts (view w)) (delete_store_prefix sv lid) ?F ?Q"
  proof (rule ensures_assume)
    fix w assume w: "threads_gone v0 ts (view w)"
    let ?v = "view w"
    have items: "vw_items ?v = vw_items v0" using w by (simp add: threads_gone_def)
    have one1: "single_record lid ?v" using one items by (simp add: single_record_def)
    have same: "store_others lid ?v = store_others lid v0" "record_kept lid ?v = record_kept lid v0"
      using items by (simp_all add: store_others_def record_kept_def fun_eq_iff)
    show "ensures (\<lambda>w1. w1 = w) (delete_store_prefix sv lid) ?F ?Q"
    proof (rule ensures_weaken [OF delete_store_prefix_ensures [OF laws lid one1 lawful_view [OF laws]]])
      show "items_gone ?v {} (view w1)" if "w1 = w" for w1 using that by (simp add: items_gone_def)
      show "?Q w1 x" if "vw_threads (view w1) = vw_threads ?v \<and> store_others lid ?v (view w1) \<and> store_cleared lid (view w1)" for w1 x
        using that w by (simp add: same threads_gone_def)
      show "?F w1 e" if "vw_threads (view w1) = vw_threads ?v \<and> store_others lid ?v (view w1) \<and>
         (record_kept lid ?v (view w1) \<or> store_cleared lid (view w1)) \<and> \<not> calm" for w1 and e :: lifecycle_error
        using that w unfolding same threads_gone_def by (metis append_Nil2)
    qed
  qed
  have local: "keeps view (remove_local_state ?c lid)" "keeps view (discard_model_calls ?c lid)"
    "calm \<Longrightarrow> \<forall>w. \<exists>x. fst (remove_local_state ?c lid w) = Inr x"
    "calm \<Longrightarrow> \<forall>w. \<exists>x. fst (discard_model_calls ?c lid w) = Inr x"
    using laws by (auto simp: server_laws_def local_laws_def)
  show ?thesis
    unfolding delete_owned_def
    by (rule ensures_bind [OF threads], rule ensures_bind [OF keep [OF local(1) local(3)]],
        assumption, rule ensures_bind [OF keep [OF local(2) local(4)]], assumption, rule store)
qed

lemma observedD:
  assumes "observed calm lib lid v threads ob"
  shows "relations_in lib lid v = Inr (ob_relations ob)"
    and "set threads \<subseteq> set (ob_threads ob)"
    and "set (ob_threads ob) \<subseteq> set (vw_threads v)"
    and "distinct (map thread_id_of (ob_threads ob))"
    and "t \<in> set (ob_threads ob) \<Longrightarrow> thread_id_of t \<in> thread_id_of ` set threads \<union> rel_thread_id ` set (ob_relations ob)"
    and "run \<in> set (observed_runs (ob_entries ob)) \<Longrightarrow>
      \<exists>tid \<in> thread_id_of ` set threads \<union> rel_thread_id ` set (ob_relations ob). run \<in> set (vw_runs v tid)"
    and "calm \<Longrightarrow> ob_failures ob = []"
    and "ob_failures ob = [] \<Longrightarrow> t \<in> set (ob_threads ob) \<Longrightarrow>
      set (vw_runs v (thread_id_of t)) \<subseteq> set (observed_runs (ob_entries ob))"
    and "ob_failures ob = [] \<Longrightarrow> rel \<in> set (ob_relations ob) \<Longrightarrow> is_thread (rel_thread_id rel) v t \<Longrightarrow>
      t \<in> set (ob_threads ob)"
  using assms unfolding observed_def Let_def by (simp_all add: image_subset_iff)

lemma owned_id_observed:
  assumes "relations_in lib lid v = Inr rs"
    and "tid \<in> thread_id_of ` set (filter (thread_of_lifecycle lid) (vw_threads v)) \<union> rel_thread_id ` set rs"
  shows "owned_id lib lid v tid"
  using assms by (auto simp: owned_id_def)

text \<open>The threads of an observation without failures are those the Lifecycle owns.\<close>

lemma observed_threads:
  assumes ob: "observed calm lib lid v (filter (thread_of_lifecycle lid) (vw_threads v)) ob"
    and none: "ob_failures ob = []" and ok: "view_ok v"
  shows "set (ob_threads ob) = {t \<in> set (vw_threads v). owned_id lib lid v (thread_id_of t)}"
proof -
  note o = observedD [OF ob]
  have "t \<in> set (ob_threads ob)" if t: "t \<in> set (vw_threads v)" and own: "owned_id lib lid v (thread_id_of t)" for t
  proof (cases "\<exists>s \<in> set (vw_threads v). thread_of_lifecycle lid s \<and> thread_id_of s = thread_id_of t")
    case True
    then obtain s where s: "s \<in> set (vw_threads v)" "thread_of_lifecycle lid s" "thread_id_of s = thread_id_of t" by blast
    have "s = t" by (rule view_thread_unique [OF ok s(1) t s(3)])
    then show ?thesis using o(2) s by auto
  next
    case False
    then obtain rel where rel: "rel \<in> set (ob_relations ob)" "rel_thread_id rel = thread_id_of t"
      using own o(1) by (auto simp: owned_id_def)
    show ?thesis by (rule o(9) [OF none rel(1)]) (simp add: is_thread_def t rel(2))
  qed
  moreover have "owned_id lib lid v (thread_id_of t)" if "t \<in> set (ob_threads ob)" for t
    by (rule owned_id_observed [OF o(1) o(5) [OF that]])
  ultimately show ?thesis using o(3) by blast
qed

text \<open>
  The outcome of a deletion.  Until the Lifecycle has been found idle, nothing is written.
\<close>

definition idle_seen :: "lifecycle_library \<Rightarrow> string \<Rightarrow> server_view \<Rightarrow> bool" where
  "idle_seen lib lid v \<longleftrightarrow>
     (\<forall>t \<in> set (vw_threads v). owned_id lib lid v (thread_id_of t) \<longrightarrow>
        (\<forall>run \<in> set (vw_runs v (thread_id_of t)). inactive_run run))"

lemma delete_lifecycle_ensures:
  assumes laws: "server_laws calm view (sv_client sv)" and lid: "lid \<noteq> []" and ok: "view_ok v"
    and one: "single_record lid v"
  shows "ensures (\<lambda>w. view w = v) (delete_lifecycle sv lid)
    (\<lambda>w e. \<not> (calm \<and> deletable (sv_library sv) lid v) \<and>
       (view w = v \<or> idle_seen (sv_library sv) lid v \<and> others_untouched (sv_library sv) lid v (view w) \<and>
          (record_kept lid v (view w) \<or> lifecycle_deleted (sv_library sv) lid v (view w))))
    (\<lambda>w _. idle_seen (sv_library sv) lid v \<and> others_untouched (sv_library sv) lid v (view w) \<and>
       lifecycle_deleted (sv_library sv) lid v (view w))"
    (is "ensures ?P _ ?F ?Q")
  unfolding delete_lifecycle_def
proof (rule ensures_bind)
  let ?c = "sv_client sv" and ?lib = "sv_library sv"
  let ?own = "filter (thread_of_lifecycle lid) (vw_threads v)"
  show "ensures ?P (require_record sv lid) ?F (\<lambda>w r. view w = v \<and> record_in ?lib lid v = Inr (Some r))"
    by (rule ensures_reads_at [OF require_record_reads [OF laws]]) (auto simp: deletable_def)
  fix r
  show "ensures (\<lambda>w. view w = v \<and> record_in ?lib lid v = Inr (Some r))
     (bind_io (lifecycle_threads ?c (Some lid)) (\<lambda>threads.
      bind_io (observe_lifecycle sv r threads False) (\<lambda>ob.
        if ob_failures ob \<noteq> []
        then raise_io (Lifecycle_unavailable ''Cannot delete a Lifecycle while its official Thread/Run status is unavailable'')
        else bind_io (lift_res (any_active (observed_runs (ob_entries ob)))) (\<lambda>active.
          if active then raise_io (Lifecycle_active lid)
          else bind_io (delete_owned sv lid (ob_threads ob)) (\<lambda>_. return_io (length (ob_threads ob))))))) ?F ?Q"
  proof (rule ensures_bind)
    show "ensures (\<lambda>w. view w = v \<and> record_in ?lib lid v = Inr (Some r)) (lifecycle_threads ?c (Some lid)) ?F
        (\<lambda>w threads. view w = v \<and> record_in ?lib lid v = Inr (Some r) \<and> threads = ?own)"
      by (rule ensures_reads_at [OF own_threads_reads [OF laws]]) auto
    fix threads
    show "ensures (\<lambda>w. view w = v \<and> record_in ?lib lid v = Inr (Some r) \<and> threads = ?own)
       (bind_io (observe_lifecycle sv r threads False) (\<lambda>ob.
        if ob_failures ob \<noteq> []
        then raise_io (Lifecycle_unavailable ''Cannot delete a Lifecycle while its official Thread/Run status is unavailable'')
        else bind_io (lift_res (any_active (observed_runs (ob_entries ob)))) (\<lambda>active.
          if active then raise_io (Lifecycle_active lid)
          else bind_io (delete_owned sv lid (ob_threads ob)) (\<lambda>_. return_io (length (ob_threads ob)))))) ?F ?Q"
    proof (rule ensures_bind)
      show "ensures (\<lambda>w. view w = v \<and> record_in ?lib lid v = Inr (Some r) \<and> threads = ?own)
          (observe_lifecycle sv r threads False) ?F
          (\<lambda>w ob. view w = v \<and> record_in ?lib lid v = Inr (Some r) \<and> observed calm ?lib lid v ?own ob)"
      proof (rule ensures_assume)
        fix w assume w: "view w = v \<and> record_in ?lib lid v = Inr (Some r) \<and> threads = ?own"
        have "distinct (map thread_id_of ?own)"
          using ok unfolding view_ok_def by (auto intro: distinct_map_filter)
        moreover have id: "lr_lifecycle_id r = lid" using w record_in_id by blast
        ultimately have obs: "reads_as view v (\<lambda>e. \<not> (calm \<and> readable ?lib lid v)) (observe_lifecycle sv r threads False)
            (observed calm ?lib lid v ?own)"
          using observe_reads [OF laws ok, of ?own r] w by (simp add: id)
        show "ensures (\<lambda>w1. w1 = w) (observe_lifecycle sv r threads False) ?F
          (\<lambda>w ob. view w = v \<and> record_in ?lib lid v = Inr (Some r) \<and> observed calm ?lib lid v ?own ob)"
          by (rule ensures_reads_at [OF obs]) (use w in \<open>auto simp: deletable_def\<close>)
      qed
      fix ob
      show "ensures (\<lambda>w. view w = v \<and> record_in ?lib lid v = Inr (Some r) \<and> observed calm ?lib lid v ?own ob)
         (if ob_failures ob \<noteq> []
          then raise_io (Lifecycle_unavailable ''Cannot delete a Lifecycle while its official Thread/Run status is unavailable'')
          else bind_io (lift_res (any_active (observed_runs (ob_entries ob)))) (\<lambda>active.
            if active then raise_io (Lifecycle_active lid)
            else bind_io (delete_owned sv lid (ob_threads ob)) (\<lambda>_. return_io (length (ob_threads ob))))) ?F ?Q"
      proof (cases "ob_failures ob = []")
        case False
        then show ?thesis by (auto intro!: ensures_raise simp: observed_def)
      next
        case none: True
        show ?thesis
        proof (rule ensures_assume)
          fix w assume w: "view w = v \<and> record_in ?lib lid v = Inr (Some r) \<and> observed calm ?lib lid v ?own ob"
          note o = observedD [OF w [THEN conjunct2, THEN conjunct2]]
          have set: "set (ob_threads ob) = {t \<in> set (vw_threads v). owned_id ?lib lid v (thread_id_of t)}"
            by (rule observed_threads [OF _ none ok]) (use w in blast)
          have busy: "\<not> deletable ?lib lid v" if "any_active (observed_runs (ob_entries ob)) \<noteq> Inr False"
          proof
            assume d: "deletable ?lib lid v"
            have "inactive_run run" if run: "run \<in> set (observed_runs (ob_entries ob))" for run
            proof -
              from o(6) [OF run] obtain tid where
                tid: "tid \<in> thread_id_of ` set ?own \<union> rel_thread_id ` set (ob_relations ob)" "run \<in> set (vw_runs v tid)" ..
              have "owned_id ?lib lid v tid" by (rule owned_id_observed [OF o(1) tid(1)])
              then show ?thesis using d tid(2) by (simp add: deletable_def)
            qed
            then have "any_active (observed_runs (ob_entries ob)) = Inr False" by (simp add: any_active_False)
            with that show False by simp
          qed
          have idle: "idle_seen ?lib lid v" if "any_active (observed_runs (ob_entries ob)) = Inr False"
          proof -
            have all: "\<forall>run \<in> set (observed_runs (ob_entries ob)). inactive_run run"
              using that by (rule any_active_False [THEN iffD1])
            have sub: "set (vw_runs v (thread_id_of t)) \<subseteq> set (observed_runs (ob_entries ob))"
              if "t \<in> set (ob_threads ob)" for t
              by (rule o(8) [OF none that])
            show ?thesis
              unfolding idle_seen_def
            proof (intro ballI impI)
              fix t run assume "t \<in> set (vw_threads v)" "owned_id ?lib lid v (thread_id_of t)"
                and run: "run \<in> set (vw_runs v (thread_id_of t))"
              then have "t \<in> set (ob_threads ob)" unfolding set by simp
              from sub [OF this] run all show "inactive_run run" by (meson subsetD)
            qed
          qed
          have rest: "thread_id_of t \<in> thread_id_of ` set (ob_threads ob) \<longleftrightarrow> owned_id ?lib lid v (thread_id_of t)"
            if "t \<in> set (vw_threads v)" for t
            using that view_thread_unique [OF ok] by (auto simp: set)
          have eq: "filter (\<lambda>t. thread_id_of t \<notin> thread_id_of ` set (ob_threads ob)) (vw_threads v) =
              filter (\<lambda>t. \<not> owned_id ?lib lid v (thread_id_of t)) (vw_threads v)"
            by (rule filter_cong) (use rest in auto)
          have del: "ensures (\<lambda>w1. w1 = w) (delete_owned sv lid (ob_threads ob)) ?F (\<lambda>w1 _. ?Q w1 0)" if idl: "idle_seen ?lib lid v" and act: "any_active (observed_runs (ob_entries ob)) = Inr False"
          proof (rule ensures_weaken [OF delete_owned_ensures [OF laws lid _ _ ok one, of "ob_threads ob"]])
            show "set (ob_threads ob) \<subseteq> set (vw_threads v)" "distinct (map thread_id_of (ob_threads ob))" by (rule o(3), rule o(4))
            show "view w1 = v" if "w1 = w" for w1 using that w by simp
            show "?Q w1 0" if "vw_threads (view w1) = filter (\<lambda>t. thread_id_of t \<notin> thread_id_of ` set (ob_threads ob)) (vw_threads v) \<and>
               store_others lid v (view w1) \<and> store_cleared lid (view w1)" for w1
              using that idl unfolding eq others_untouched_def lifecycle_deleted_def by simp
            fix w1 and e :: lifecycle_error
            assume f: "(\<exists>us vs. ob_threads ob = us @ vs \<and>
                 vw_threads (view w1) = filter (\<lambda>t. thread_id_of t \<notin> thread_id_of ` set us) (vw_threads v) \<and>
                 (record_kept lid v (view w1) \<or> vs = [] \<and> store_cleared lid (view w1))) \<and>
               store_others lid v (view w1) \<and> \<not> calm"
            then obtain us vs where uv: "ob_threads ob = us @ vs"
                "vw_threads (view w1) = filter (\<lambda>t. thread_id_of t \<notin> thread_id_of ` set us) (vw_threads v)"
                "record_kept lid v (view w1) \<or> vs = [] \<and> store_cleared lid (view w1)" by blast
            have "t \<in> set (vw_threads (view w1))" if "t \<in> set (vw_threads v)" "\<not> owned_id ?lib lid v (thread_id_of t)" for t
              using that rest [OF that(1)] uv by auto
            then have "others_untouched ?lib lid v (view w1)" using f by (simp add: others_untouched_def)
            moreover have "record_kept lid v (view w1) \<or> lifecycle_deleted ?lib lid v (view w1)"
              using uv eq unfolding lifecycle_deleted_def by (metis append_Nil2)
            ultimately show "?F w1 e" using f idl by blast
          qed
          show "ensures (\<lambda>w1. w1 = w)
            (if ob_failures ob \<noteq> []
             then raise_io (Lifecycle_unavailable ''Cannot delete a Lifecycle while its official Thread/Run status is unavailable'')
             else bind_io (lift_res (any_active (observed_runs (ob_entries ob)))) (\<lambda>active.
               if active then raise_io (Lifecycle_active lid)
               else bind_io (delete_owned sv lid (ob_threads ob)) (\<lambda>_. return_io (length (ob_threads ob))))) ?F ?Q"
          proof (cases "any_active (observed_runs (ob_entries ob)) = Inr False")
            case True
            show ?thesis
              using none ensures_bind [OF del [OF idle [OF True] True] ensures_return]
              by (simp add: True lift_res_def bind_io_def ensures_def)
          next
            case False
            then show ?thesis
              using none busy w by (cases "any_active (observed_runs (ob_entries ob))")
                (auto simp: lift_res_def bind_io_def raise_io_def ensures_def)
          qed
        qed
      qed
    qed
  qed
qed

end
