(* ===== verification/Lifecycle_Listing.thy ===== *)
theory Lifecycle_Listing
  imports Lifecycle_Properties
begin

text \<open>
  What the listing of Lifecycles guarantees: it only reads, names each Lifecycle once, newest
  first; its pages partition it; and retention deletes nothing but what enough newer Lifecycles
  precede.
\<close>

section \<open>Sorting\<close>

lemma insert_with_mset: "mset (insert_with le x xs) = add_mset x (mset xs)"
  by (induction xs) auto

lemma sort_with_mset [simp]: "mset (sort_with le xs) = mset xs"
  by (induction xs) (auto simp: sort_with_def insert_with_mset)

lemma sort_with_set [simp]: "set (sort_with le xs) = set xs"
  by (metis set_mset_mset sort_with_mset)

lemma insert_with_set: "set (insert_with le x xs) = insert x (set xs)"
  by (metis insert_with_mset set_mset_add_mset_insert set_mset_mset)

lemma insert_with_sorted:
  assumes "sorted_wrt le xs" and total: "\<And>a b. le a b \<or> le b a" and trans: "\<And>a b c. le a b \<Longrightarrow> le b c \<Longrightarrow> le a c"
  shows "sorted_wrt le (insert_with le x xs)"
  using assms(1)
proof (induction xs)
  case (Cons y ys)
  show ?case
  proof (cases "le x y")
    case True
    then show ?thesis using Cons.prems trans by auto
  next
    case False
    then have "le y x" using total by blast
    then show ?thesis using False Cons by (auto simp: insert_with_set)
  qed
qed simp

lemma sort_with_sorted:
  assumes "\<And>a b. le a b \<or> le b a" and "\<And>a b c. le a b \<Longrightarrow> le b c \<Longrightarrow> le a c"
  shows "sorted_wrt le (sort_with le xs)"
  unfolding sort_with_def
proof (induction xs)
  case (Cons x xs)
  show ?case
    unfolding foldr.simps comp_def by (rule insert_with_sorted [OF Cons.IH]) (fact assms)+
qed simp

lemma pair_less_eq_total: "pair_less_eq p q \<or> pair_less_eq q p"
  unfolding pair_less_eq_def using str_less_eq_total by metis

lemma pair_less_eq_trans: "pair_less_eq p q \<Longrightarrow> pair_less_eq q r \<Longrightarrow> pair_less_eq p r"
  unfolding pair_less_eq_def
  by (cases "fst p = fst q"; cases "fst q = fst r"; cases "fst p = fst r")
     (auto intro: str_less_eq_trans dest: str_less_eq_antisym)

definition summary_key :: "summary \<Rightarrow> string \<times> string" where
  "summary_key s = (sm_created_at s, sm_lifecycle_id s)"

lemma newest_first_mset [simp]: "mset (newest_first ss) = mset ss"
  by (simp add: newest_first_def)

lemma newest_first_set [simp]: "set (newest_first ss) = set ss"
  by (metis newest_first_mset set_mset_mset)

lemma newest_first_sorted:
  "sorted_wrt (\<lambda>a b. pair_less_eq (summary_key b) (summary_key a)) (newest_first ss)"
  unfolding newest_first_def summary_key_def sorted_wrt_rev
  by (rule sort_with_sorted) (rule pair_less_eq_total, rule pair_less_eq_trans)

section \<open>The listing only reads\<close>

definition records_named :: "(string, lifecycle_record) dict \<Rightarrow> bool" where
  "records_named records \<longleftrightarrow> wf_dict records \<and> (\<forall>p \<in> set records. lr_lifecycle_id (snd p) = fst p)"

lemma records_reads:
  assumes laws: "server_laws calm view (sv_client sv)"
  shows "reads_as view v (\<lambda>e. True) (lifecycle_records sv)
    records_named"
  unfolding lifecycle_records_def
proof (rule reads_bind)
  show "reads_as view v (\<lambda>e. True) (list_namespaces (sv_client sv) [lifecycle_root]) (\<lambda>_. True)"
    by (rule reads_weaken [OF list_namespaces_reads [OF laws]]) auto
  fix nss
  show "reads_as view v (\<lambda>e. True)
     (bind_io (lift_res (map_res record_owner nss)) (\<lambda>owners.
        fold_io (\<lambda>records lid. bind_io (lifecycle_record_of sv lid)
          (\<lambda>found. return_io (case found of None \<Rightarrow> records | Some r \<Rightarrow> dict_set lid r records)))
          [] (unique_values (concat owners))))
     records_named"
  proof (rule reads_bind [where R = "\<lambda>_. True"])
    show "reads_as view v (\<lambda>e. True) (lift_res (map_res record_owner nss)) (\<lambda>_. True)"
      by (rule reads_lift) (simp split: sum.split)
    fix owners
    show "reads_as view v (\<lambda>e. True)
       (fold_io (\<lambda>records lid. bind_io (lifecycle_record_of sv lid)
          (\<lambda>found. return_io (case found of None \<Rightarrow> records | Some r \<Rightarrow> dict_set lid r records)))
          [] (unique_values (concat owners)))
       records_named"
    proof (rule reads_fold)
      fix records lid
      assume inv: "records_named records"
      show "reads_as view v (\<lambda>e. True)
         (bind_io (lifecycle_record_of sv lid)
            (\<lambda>found. return_io (case found of None \<Rightarrow> records | Some r \<Rightarrow> dict_set lid r records)))
         records_named"
      proof (rule reads_bind [OF reads_weaken [OF record_reads [OF laws, of v lid]]])
        fix found assume found: "record_in (sv_library sv) lid v = Inr found"
        show "reads_as view v (\<lambda>e. True)
          (return_io (case found of None \<Rightarrow> records | Some r \<Rightarrow> dict_set lid r records))
          records_named"
        proof (rule reads_return, cases found)
          case None
          then show "records_named (case found of None \<Rightarrow> records | Some r \<Rightarrow> dict_set lid r records)"
            using inv by simp
        next
          case (Some r)
          then have "lr_lifecycle_id r = lid" using found record_in_id by blast
          then have "\<forall>p \<in> set (dict_set lid r records). lr_lifecycle_id (snd p) = fst p"
            using inv by (intro dict_set_ball) (simp_all add: records_named_def)
          then show "records_named (case found of None \<Rightarrow> records | Some r \<Rightarrow> dict_set lid r records)"
            using Some inv by (simp add: records_named_def)
        qed
      qed auto
    qed (simp add: records_named_def)
  qed
qed

lemma summary_of_id: "summary_of lib ob = Inr s \<Longrightarrow> sm_lifecycle_id s = lr_lifecycle_id (ob_lifecycle ob)"
  by (auto simp: summary_of_def Let_def bind_res_eq_Inr)

lemma reads_lifecycle: 
  assumes m: "reads_as view v E m Q" and obs: "\<And>x w w1. m w = Some (Inr x, w1) \<Longrightarrow> R x"
  shows "reads_as view v E m (\<lambda>x. Q x \<and> R x)"
  unfolding reads_as_def
proof (intro allI impI)
  fix w assume w: "view w = v"
  from m w show "\<exists>r w1. m w = Some (r, w1) \<and> view w1 = v \<and> (case r of Inl e \<Rightarrow> E e | Inr x \<Rightarrow> Q x \<and> R x)"
    by (cases rule: reads_asD) (use obs in auto)
qed

lemma bind_io_Inr:
  "bind_io m f w = Some (Inr y, w2) \<longleftrightarrow> (\<exists>x w1. m w = Some (Inr x, w1) \<and> f x w1 = Some (Inr y, w2))"
  by (auto simp: bind_io_def split: option.splits prod.splits sum.splits)

lemma observe_lifecycle_of:
  "observe_lifecycle sv r threads inc w = Some (Inr ob, w1) \<Longrightarrow> ob_lifecycle ob = r"
  by (auto simp: observe_lifecycle_def Let_def bind_io_Inr return_io_def split: prod.splits)

lemma summarize_reads:
  assumes laws: "server_laws calm view (sv_client sv)" and ok: "view_ok v"
    and sub: "set threads \<subseteq> set (vw_threads v)" and dist: "distinct (map thread_id_of threads)"
    and id: "lr_lifecycle_id (snd kr) = fst kr"
  shows "reads_as view v (\<lambda>e. True) (summarize sv threads kr) (\<lambda>s. sm_lifecycle_id s = fst kr)"
proof -
  let ?ts = "filter (\<lambda>t. thread_lifecycle (sv_library sv) t = fst kr) threads"
  have "reads_as view v (\<lambda>e. True) (observe_lifecycle sv (snd kr) ?ts False) (\<lambda>ob. True \<and> ob_lifecycle ob = snd kr)"
    by (rule reads_lifecycle [OF reads_weaken [OF observe_reads [OF laws ok]]])
       (use sub dist in \<open>auto intro: distinct_map_filter observe_lifecycle_of\<close>)
  then show ?thesis
    unfolding summarize_def
    by (rule reads_bind, intro reads_lift) (auto split: sum.split dest: summary_of_id simp: id)
qed

lemma list_all_reads:
  assumes laws: "server_laws calm view (sv_client sv)" and ok: "view_ok v"
  shows "reads_as view v (\<lambda>e. True) (list_all_lifecycles sv query)
    (\<lambda>items. distinct (map sm_lifecycle_id items) \<and>
       sorted_wrt (\<lambda>a b. pair_less_eq (summary_key b) (summary_key a)) items)"
  unfolding list_all_lifecycles_def
proof (rule reads_bind [OF records_reads [OF laws]])
  fix records assume rec: "records_named records"
  let ?Q = "\<lambda>items. distinct (map sm_lifecycle_id items) \<and>
       sorted_wrt (\<lambda>a b. pair_less_eq (summary_key b) (summary_key a)) items"
  let ?named = "\<lambda>t. json_truthy (mapping_get (mapping_or_empty (mapping_get t ''metadata'')) ''lifecycle_id'')"
  have threads: "reads_as view v (\<lambda>e. True) (lifecycle_threads (sv_client sv) None)
      (\<lambda>ts. ts = filter ?named (vw_threads v))"
    by (rule reads_weaken [OF lifecycle_threads_reads [OF laws]]) (auto simp: listed_threads_def)
  show "reads_as view v (\<lambda>e. True)
      (bind_io (lifecycle_threads (sv_client sv) None) (\<lambda>threads.
       bind_io (map_io (summarize sv threads) records) (\<lambda>summaries.
       return_io (newest_first (filter (matches_query query) summaries))))) ?Q"
  proof (rule reads_bind [OF threads])
    fix threads assume ts: "threads = filter ?named (vw_threads v)"
    have sub: "set threads \<subseteq> set (vw_threads v)" unfolding ts by auto
    have dist: "distinct (map thread_id_of threads)"
      using ok unfolding ts view_ok_def by (auto intro: distinct_map_filter)
    have each: "reads_as view v (\<lambda>e. True) (map_io (summarize sv threads) records)
        (list_all2 (\<lambda>p s. sm_lifecycle_id s = fst p) records)"
    proof (rule reads_map)
      fix p assume "p \<in> set records"
      then have "lr_lifecycle_id (snd p) = fst p" using rec by (simp add: records_named_def)
      then show "reads_as view v (\<lambda>e. True) (summarize sv threads p) (\<lambda>s. sm_lifecycle_id s = fst p)"
        by (rule summarize_reads [OF laws ok sub dist])
    qed
    show "reads_as view v (\<lambda>e. True)
      (bind_io (map_io (summarize sv threads) records) (\<lambda>summaries.
       return_io (newest_first (filter (matches_query query) summaries)))) ?Q"
    proof (rule reads_bind [OF each], rule reads_return, rule conjI [OF _ newest_first_sorted])
      fix ss :: "summary list" assume "list_all2 (\<lambda>p s. sm_lifecycle_id s = fst p) records ss"
      then have "map sm_lifecycle_id ss = map fst records"
        by (induction rule: list_all2_induct) auto
      then have "distinct (map sm_lifecycle_id (filter (matches_query query) ss))"
        using rec by (intro distinct_map_filter) (simp add: wf_dict_def records_named_def)
      then show "distinct (map sm_lifecycle_id (newest_first (filter (matches_query query) ss)))"
        by (metis mset_eq_imp_distinct_iff mset_map newest_first_mset)
    qed
  qed
qed

section \<open>Pages\<close>

lemma list_slice_page:
  assumes "1 \<le> p" and "1 \<le> psize"
  shows "list_slice ((p - 1) * psize) ((p - 1) * psize + psize) xs =
    take (nat psize) (drop (nat (p - 1) * nat psize) xs)"
proof -
  have a: "nat ((p - 1) * psize) = nat (p - 1) * nat psize" using assms by (simp add: nat_mult_distrib)
  have b: "nat ((p - 1) * psize + psize) = nat (p - 1) * nat psize + nat psize"
    using assms a by (simp add: nat_add_distrib)
  have c: "0 \<le> (p - 1) * psize" "0 \<le> (p - 1) * psize + psize" using assms by simp_all
  have "list_slice ((p - 1) * psize) ((p - 1) * psize + psize) xs =
      drop (min (nat (p - 1) * nat psize) (length xs)) (take (min (nat (p - 1) * nat psize + nat psize) (length xs)) xs)"
    using c by (simp add: list_slice_def slice_bound_def a b)
  also have "\<dots> = drop (nat (p - 1) * nat psize) (take (nat (p - 1) * nat psize + nat psize) xs)"
    by (simp add: min_def)
  also have "\<dots> = take (nat psize) (drop (nat (p - 1) * nat psize) xs)"
    by (simp add: drop_take)
  finally show ?thesis .
qed

lemma pages_take:
  assumes "1 \<le> psize"
  shows "concat (map (\<lambda>p. lp_items (page_of p psize ss)) [1..int k]) = take (k * nat psize) ss"
proof (induction k)
  case (Suc k)
  have "[1..int (Suc k)] = [1..int k] @ [int k + 1]"
    using upto_rec2 [of 1 "int (Suc k)"] by simp
  moreover have "lp_items (page_of (int k + 1) psize ss) = take (nat psize) (drop (k * nat psize) ss)"
    using list_slice_page [of "int k + 1" psize ss] assms by (simp add: page_of_def Let_def)
  moreover have "take (Suc k * nat psize) ss = take (k * nat psize) ss @ take (nat psize) (drop (k * nat psize) ss)"
    using take_add [of "k * nat psize" "nat psize" ss] by (simp add: add.commute)
  ultimately show ?case using Suc by simp
qed simp

lemma ceiling_pages:
  assumes "1 \<le> (psize :: int)" and "0 \<le> n"
  shows "n \<le> max 1 ((n + psize - 1) div psize) * psize"
proof -
  let ?q = "(n + psize - 1) div psize"
  have "n + psize - 1 = ?q * psize + (n + psize - 1) mod psize" by (simp add: div_mult_mod_eq)
  moreover have "(n + psize - 1) mod psize < psize" using assms by simp
  ultimately have "n \<le> ?q * psize" by linarith
  also have "\<dots> \<le> max 1 ?q * psize" using assms by (intro mult_right_mono) auto
  finally show ?thesis .
qed

text \<open>
  C14: the pages of the Lifecycle listing partition it.  With a page size of at least one, the
  items of the pages from the first to the reported last, put one after the other, are exactly
  the listing; no page holds more than the page size, every page before the last is full, and a
  page past the last is empty.
\<close>

theorem list_pages_partition:
  assumes "1 \<le> psize"
  shows "concat (map (\<lambda>p. lp_items (page_of p psize ss)) [1..lp_total_pages (page_of 1 psize ss)]) = ss \<and>
    (\<forall>p \<ge> 1. int (length (lp_items (page_of p psize ss))) \<le> psize \<and>
       (p < lp_total_pages (page_of p psize ss) \<longrightarrow> int (length (lp_items (page_of p psize ss))) = psize) \<and>
       (p > lp_total_pages (page_of p psize ss) \<longrightarrow> lp_items (page_of p psize ss) = []))"
proof -
  let ?n = "int (length ss)"
  let ?last = "max 1 ((?n + psize - 1) div psize)"
  have total: "lp_total_pages (page_of p psize ss) = ?last" for p by (simp add: page_of_def Let_def)
  have len: "?n \<le> ?last * psize" by (rule ceiling_pages) (use assms in auto)
  have "int (length ss) \<le> int (nat ?last * nat psize)" using len assms by (simp add: max_def)
  then have all: "length ss \<le> nat ?last * nat psize" by (simp only: of_nat_le_iff)
  have cat: "concat (map (\<lambda>p. lp_items (page_of p psize ss)) [1..?last]) = ss"
  proof -
    have "int (nat ?last) = ?last" by simp
    then show ?thesis using pages_take [OF assms, of ss "nat ?last"] all by (simp only: take_all)
  qed
  have item: "lp_items (page_of p psize ss) = take (nat psize) (drop (nat (p - 1) * nat psize) ss)" if "1 \<le> p" for p
    using list_slice_page [OF that assms, of ss] by (simp add: page_of_def Let_def)
  have full: "int (length (lp_items (page_of p psize ss))) = psize" if "1 \<le> p" "p < ?last" for p
  proof -
    have "p < (?n + psize - 1) div psize" using that by auto
    then have "p + 1 \<le> (?n + psize - 1) div psize" by simp
    then have "(p + 1) * psize \<le> ?n + psize - 1"
    proof -
      have "(p + 1) * psize \<le> (?n + psize - 1) div psize * psize"
        using \<open>p + 1 \<le> (?n + psize - 1) div psize\<close> assms by (intro mult_right_mono) auto
      also have "\<dots> = ?n + psize - 1 - (?n + psize - 1) mod psize" by (simp add: minus_mod_eq_div_mult)
      also have "\<dots> \<le> ?n + psize - 1" using pos_mod_sign [of psize "?n + psize - 1"] assms by linarith
      finally show ?thesis .
    qed
    then have "p * psize < ?n" using assms by (simp add: distrib_right)
    then have "int (nat p * nat psize) < ?n" using that assms by simp
    then have "nat p * nat psize < length ss" by linarith
    moreover have "nat p = nat (p - 1) + 1" using that by simp
    ultimately have "nat psize \<le> length ss - nat (p - 1) * nat psize" by (simp add: algebra_simps)
    then show ?thesis using assms by (simp add: item [OF that(1)])
  qed
  have past: "lp_items (page_of p psize ss) = []" if "1 \<le> p" "?last < p" for p
  proof -
    have "?last \<le> p - 1" using that by linarith
    then have "nat ?last \<le> nat (p - 1)" by (rule nat_mono)
    then have "nat ?last * nat psize \<le> nat (p - 1) * nat psize" by (rule mult_le_mono1)
    then have "length ss \<le> nat (p - 1) * nat psize" using all by linarith
    then show ?thesis by (simp add: item [OF that(1)])
  qed
  have bound: "int (length (lp_items (page_of p psize ss))) \<le> psize" if "1 \<le> p" for p
    using assms by (simp add: item [OF that] min_def) linarith
  show ?thesis unfolding total using cat full past bound by blast
qed

definition demo_summary :: "string \<Rightarrow> summary" where
  "demo_summary lid =
     \<lparr>sm_lifecycle_id = lid, sm_request_id = [], sm_created_at = lid, sm_updated_at = lid, sm_status = ''success'',
      sm_subjects = [], sm_start_error = None, sm_run_count = 1, sm_active_run_count = 0, sm_error_run_count = 0\<rparr>"

theorem list_pages_partition_witness:
  "concat (map (\<lambda>p. lp_items (page_of p 2 (map demo_summary [''c'', ''b'', ''a''])))
     [1..lp_total_pages (page_of 1 2 (map demo_summary [''c'', ''b'', ''a'']))]) = map demo_summary [''c'', ''b'', ''a'']"
  by (rule list_pages_partition [THEN conjunct1]) simp

end
