(* ===== verification/Lifecycle_Guarantees.thy ===== *)
theory Lifecycle_Guarantees
  imports Lifecycle_Listing
begin

text \<open>
  The guarantees of the Lifecycle service against every server that keeps its laws, and a small
  server that does, on which they are instantiated.
\<close>

section \<open>A server that keeps the laws\<close>

text \<open>
  One thread with one Run, its relation and the record of the Lifecycle, each there or not; and a
  number of writes after which the server fails, unless it is calm.
\<close>

record demo_world =
  dw_thread :: bool
  dw_relation :: bool
  dw_record :: bool
  dw_writes :: nat

definition demo_id :: string where "demo_id = ''l''"

definition demo_thread :: obj where
  "demo_thread = [(''thread_id'', JStr ''t''), (''metadata'', JObj [(''lifecycle_id'', JStr demo_id)])]"

definition demo_run :: "string \<Rightarrow> obj" where
  "demo_run status = [(''run_id'', JStr ''r''), (''thread_id'', JStr ''t''), (''status'', JStr status)]"

definition demo_item :: "string \<Rightarrow> obj" where
  "demo_item k = [(''key'', JStr k), (''value'', JObj [])]"

definition runs_namespace :: "string \<Rightarrow> string list" where
  "runs_namespace lid = [lifecycle_root, lid, ''runs'']"

definition demo_view_of :: "string \<Rightarrow> demo_world \<Rightarrow> server_view" where
  "demo_view_of status w =
     \<lparr>vw_threads = (if dw_thread w then [demo_thread] else []),
      vw_runs = (\<lambda>tid. if dw_thread w \<and> tid = ''t'' then [demo_run status] else []),
      vw_items = (\<lambda>ns. if ns = own_namespace demo_id then (if dw_record w then [demo_item lifecycle_record_key] else [])
                       else if ns = runs_namespace demo_id then (if dw_relation w then [demo_item ''r''] else [])
                       else []),
      vw_namespaces = [own_namespace demo_id, runs_namespace demo_id]\<rparr>"

definition demo_error :: "int \<Rightarrow> call_error" where
  "demo_error status = \<lparr>ce_status = Some status, ce_response_status = None, ce_text = [], ce_class = ''HTTPStatusError''\<rparr>"

definition demo_find :: "obj list \<Rightarrow> call_error + obj" where
  "demo_find xs = (case xs of [] \<Rightarrow> Inl (demo_error 404) | x # _ \<Rightarrow> Inr x)"

definition demo_write :: "bool \<Rightarrow> (demo_world \<Rightarrow> demo_world) \<Rightarrow> (demo_world, unit) call" where
  "demo_write calm f w =
     (if calm then (Inr (), f w)
      else if dw_writes w = 0 then (Inl (demo_error 503), w)
      else (Inr (), f (w\<lparr>dw_writes := dw_writes w - 1\<rparr>)))"

definition demo_server :: "bool \<Rightarrow> string \<Rightarrow> demo_world agent_server" where
  "demo_server calm status =
     (let view = demo_view_of status in
      \<lparr>threads_search = (\<lambda>lid limit offset w. (Inr (page_slice limit offset (listed_threads lid (view w))), w)),
       threads_get = (\<lambda>tid w. (demo_find (filter (\<lambda>t. thread_id_of t = tid) (vw_threads (view w))), w)),
       threads_delete = (\<lambda>tid. demo_write calm (\<lambda>w. if tid = ''t'' then w\<lparr>dw_thread := False\<rparr> else w)),
       threads_get_state = (\<lambda>tid w. (Inr JNull, w)),
       threads_get_history = (\<lambda>tid limit cursor w. (Inr [], w)),
       runs_list = (\<lambda>tid limit offset w. (Inr (page_slice limit offset (vw_runs (view w) tid)), w)),
       runs_get = (\<lambda>tid rid w. (demo_find (filter (\<lambda>r. run_id_of r = rid) (vw_runs (view w) tid)), w)),
       runs_cancel = (\<lambda>tid rid w. (Inr (), w)),
       assistants_get_graph = (\<lambda>aid w. (Inr JNull, w)),
       store_get_item = (\<lambda>ns k w. (Inr (item_at ns k (view w)), w)),
       store_list_namespaces = (\<lambda>p limit offset w. (Inr (page_slice limit offset (namespaces_under p (view w))), w)),
       store_search_items = (\<lambda>ns limit offset w. (Inr (page_slice limit offset (vw_items (view w) ns)), w)),
       store_delete_item = (\<lambda>ns k. demo_write calm (\<lambda>w.
          if ns = own_namespace demo_id \<and> k = lifecycle_record_key then w\<lparr>dw_record := False\<rparr>
          else if ns = runs_namespace demo_id \<and> k = ''r'' then w\<lparr>dw_relation := False\<rparr> else w)),
       local_sessions = (\<lambda>lid w. (Inr [], w)),
       local_session = (\<lambda>lid sid w. (Inr JNull, w)),
       local_model_calls = (\<lambda>lid w. (Inr [], w)),
       local_archive = (\<lambda>lid w. (Inr None, w)),
       remove_local_state = (\<lambda>lid w. (Inr (), w)),
       discard_model_calls = (\<lambda>lid w. (Inr (), w))\<rparr>)"

lemma demo_ids: "thread_id_of demo_thread = ''t''" "run_id_of (demo_run s) = ''r''" "item_key (demo_item k) = k"
  "has_text ''thread_id'' demo_thread" "has_text ''run_id'' (demo_run s)" "has_text ''key'' (demo_item k) \<longleftrightarrow> k \<noteq> []"
  by (simp_all add: stored_text_def has_text_def demo_thread_def demo_run_def demo_item_def)

lemma demo_namespaces: "own_namespace demo_id \<noteq> runs_namespace demo_id" "runs_namespace demo_id \<noteq> own_namespace demo_id"
  by (simp_all add: own_namespace_def runs_namespace_def)

lemma demo_view_ok: "view_ok (demo_view_of status w)"
  by (simp add: view_ok_def demo_view_of_def demo_ids demo_namespaces lifecycle_record_key_def)

lemma demo_finds:
  assumes "\<And>w x. x \<in> set (f w) \<longleftrightarrow> m (view w) x"
  shows "finds calm view (\<lambda>w. (demo_find (f w), w)) m"
proof -
  have "case demo_find (f w) of Inr x \<Rightarrow> m (view w) x
      | Inl e \<Rightarrow> if is_not_found e then \<not> (\<exists>x. m (view w) x) else \<not> calm" for w
    using assms [of _ w] by (cases "f w") (auto simp: demo_find_def demo_error_def is_not_found_def)
  then show ?thesis by (simp add: finds_def keeps_def)
qed

lemma demo_writes_thread:
  "writes calm (demo_view_of status) (demo_write calm (\<lambda>w. if tid = ''t'' then w\<lparr>dw_thread := False\<rparr> else w))
     (\<lambda>v v1. v1 = thread_removed tid v) (\<lambda>v. \<exists>t. is_thread tid v t)"
proof -
  have eff: "demo_view_of status (if tid = ''t'' then w\<lparr>dw_thread := False\<rparr> else w) =
      thread_removed tid (demo_view_of status w)" for w
    by (auto simp: demo_view_of_def thread_removed_def demo_ids fun_eq_iff)
  have same: "demo_view_of status (w\<lparr>dw_writes := n\<rparr>) = demo_view_of status w" for w n
    by (simp add: demo_view_of_def)
  show ?thesis using eff same unfolding writes_def demo_write_def by simp
qed

lemma demo_writes_item:
  "writes calm (demo_view_of status) (demo_write calm (\<lambda>w.
          if ns = own_namespace demo_id \<and> k = lifecycle_record_key then w\<lparr>dw_record := False\<rparr>
          else if ns = runs_namespace demo_id \<and> k = ''r'' then w\<lparr>dw_relation := False\<rparr> else w))
     (item_removed ns k) (\<lambda>v. item_at ns k v \<noteq> JNull)"
proof -
  let ?f = "\<lambda>w. if ns = own_namespace demo_id \<and> k = lifecycle_record_key then w\<lparr>dw_record := False\<rparr>
          else if ns = runs_namespace demo_id \<and> k = ''r'' then w\<lparr>dw_relation := False\<rparr> else w"
  have eff: "item_removed ns k (demo_view_of status w) (demo_view_of status (?f w))" for w
    by (auto simp: demo_view_of_def item_removed_def demo_ids demo_namespaces fun_eq_iff)
  have same: "demo_view_of status (w\<lparr>dw_writes := n\<rparr>) = demo_view_of status w" for w n
    by (simp add: demo_view_of_def)
  have eff1: "item_removed ns k (demo_view_of status w) (demo_view_of status (?f (w\<lparr>dw_writes := n\<rparr>)))" for w n
    using eff [of "w\<lparr>dw_writes := n\<rparr>"] same by simp
  show ?thesis using eff eff1 unfolding writes_def demo_write_def by simp
qed

lemma demo_laws: "server_laws calm (demo_view_of status) (demo_server calm status)"
proof -
  let ?view = "demo_view_of status"
  have thread: "finds calm ?view (\<lambda>w. (demo_find (filter (\<lambda>t. thread_id_of t = tid) (vw_threads (?view w))), w)) (is_thread tid)" for tid
    by (rule demo_finds) (auto simp: is_thread_def)
  have run: "finds calm ?view (\<lambda>w. (demo_find (filter (\<lambda>r. run_id_of r = rid) (vw_runs (?view w) tid)), w)) (is_run tid rid)" for tid rid
    by (rule demo_finds) (auto simp: is_run_def)
  show ?thesis
    using demo_view_ok thread run demo_writes_thread demo_writes_item
    unfolding server_laws_def thread_laws_def store_laws_def write_laws_def local_laws_def demo_server_def Let_def
    by (simp add: answers_def keeps_def)
qed

definition demo_lifecycle_library :: lifecycle_library where
  "demo_lifecycle_library =
     \<lparr>parse_record = (\<lambda>v. Some \<lparr>lr_lifecycle_id = demo_id, lr_request_id = ''q'', lr_created_at = 0,
        lr_subject_kind = ''agent'', lr_subject_id = ''a'', lr_subject_name = ''n''\<rparr>),
      parse_relation = (\<lambda>v. Some \<lparr>rel_lifecycle_id = demo_id, rel_graph_kind = ''agent'', rel_operation_id = ''o'',
        rel_caller_run_id = [], rel_resource_id = ''a'', rel_resource_name = ''n'', rel_on_disconnect = ''cancel'',
        rel_assistant_id = ''s'', rel_thread_id = ''t'', rel_run_id = ''r''\<rparr>),
      parse_configuration = (\<lambda>v. None), parse_time = (\<lambda>s. None), iso_format = (\<lambda>t. int_str t),
      value_repr = (\<lambda>v. []), os_or_value_error = (\<lambda>e. False), quote_all = (\<lambda>s. s)\<rparr>"

definition demo_service :: "bool \<Rightarrow> string \<Rightarrow> demo_world lifecycle_service" where
  "demo_service calm status =
     \<lparr>sv_client = demo_server calm status, sv_library = demo_lifecycle_library, sv_data_root = True, sv_model_calls = True\<rparr>"

lemma demo_service_laws: "server_laws calm (demo_view_of status) (sv_client (demo_service calm status))"
  by (simp add: demo_service_def demo_laws)

lemma demo_single: "single_record lid (demo_view_of status w)"
  by (auto simp: single_record_def demo_view_of_def)

section \<open>Active Runs are spared\<close>

text \<open>
  C10: deleting a Lifecycle spares its active Runs.  On every server that keeps its laws, when a
  thread of the Lifecycle (one whose metadata or a Run relation names it) has a Run that is pending
  or running, \<open>delete\<close> returns, raises, and has changed nothing on the server, whatever other call
  fails meanwhile.
\<close>

theorem delete_spares_active:
  assumes "server_laws calm view (sv_client sv)" and "lid \<noteq> []" and "single_record lid (view w)"
    and "t \<in> set (vw_threads (view w))" and "owned_id (sv_library sv) lid (view w) (thread_id_of t)"
    and "run \<in> set (vw_runs (view w) (thread_id_of t))" and "official_status run = Inr s" and "is_active s"
  shows "\<exists>e w1. delete_lifecycle sv lid w = Some (Inl e, w1) \<and> view w1 = view w"
proof -
  have "\<not> inactive_run run" using assms(7, 8) by (simp add: inactive_run_def)
  then have busy: "\<not> idle_seen (sv_library sv) lid (view w)"
    using assms(4-6) unfolding idle_seen_def by blast
  have "view w = view w" ..
  with delete_lifecycle_ensures [OF assms(1, 2) lawful_view [OF assms(1)] assms(3)] show ?thesis
    by (cases rule: ensuresD) (use busy in auto)
qed

theorem delete_spares_active_witness:
  "\<exists>e w1. delete_lifecycle (demo_service False ''running'') demo_id \<lparr>dw_thread = True, dw_relation = True, dw_record = True, dw_writes = 9\<rparr>
      = Some (Inl e, w1) \<and>
    demo_view_of ''running'' w1 = demo_view_of ''running'' \<lparr>dw_thread = True, dw_relation = True, dw_record = True, dw_writes = 9\<rparr>"
proof (rule delete_spares_active [OF demo_service_laws _ demo_single, of demo_id demo_thread])
  show "owned_id (sv_library (demo_service False ''running'')) demo_id
     (demo_view_of ''running'' \<lparr>dw_thread = True, dw_relation = True, dw_record = True, dw_writes = 9\<rparr>) (thread_id_of demo_thread)"
    by (simp add: owned_id_def demo_view_of_def thread_of_lifecycle_def demo_thread_def mapping_get_def mapping_or_empty_def)
  show "official_status (demo_run ''running'') = Inr ''running''"
    by (simp add: official_status_def demo_run_def mapping_get_def active_statuses_def)
qed (simp_all add: demo_id_def demo_view_of_def demo_ids is_active_def active_statuses_def)

section \<open>A deletion that fails can be repeated\<close>

text \<open>
  C11: a deletion of a Lifecycle can be repeated until it succeeds.  On every server that keeps its
  laws, and whichever calls fail, \<open>delete\<close> returns; the threads and store namespaces of others are
  untouched; when it succeeds, no thread and no store item of the Lifecycle is left; and when it
  raises, either the Lifecycle's record is still in the store, so that the command finds it
  again, or everything of it is gone already.
\<close>

theorem delete_repeatable:
  assumes "server_laws calm view (sv_client sv)" and "lid \<noteq> []" and "single_record lid (view w)"
  shows "\<exists>r w1. delete_lifecycle sv lid w = Some (r, w1) \<and>
    others_untouched (sv_library sv) lid (view w) (view w1) \<and>
    (case r of
       Inr n \<Rightarrow> lifecycle_deleted (sv_library sv) lid (view w) (view w1)
     | Inl e \<Rightarrow> record_kept lid (view w) (view w1) \<or> lifecycle_deleted (sv_library sv) lid (view w) (view w1))"
proof -
  have same: "others_untouched (sv_library sv) lid v v" "record_kept lid v v" for v
    by (simp_all add: others_untouched_def store_others_def record_kept_def)
  have "view w = view w" ..
  with delete_lifecycle_ensures [OF assms(1, 2) lawful_view [OF assms(1)] assms(3)] show ?thesis
  proof (cases rule: ensuresD)
    case (error e w1)
    then show ?thesis using same by (intro exI [of _ "Inl e"] exI [of _ w1]) auto
  next
    case (returned n w1)
    then show ?thesis by (intro exI [of _ "Inr n"] exI [of _ w1]) auto
  qed
qed

theorem delete_repeatable_witness:
  "\<exists>r w1. delete_lifecycle (demo_service False ''success'') demo_id \<lparr>dw_thread = True, dw_relation = True, dw_record = True, dw_writes = 2\<rparr>
      = Some (r, w1) \<and>
    others_untouched (sv_library (demo_service False ''success'')) demo_id
      (demo_view_of ''success'' \<lparr>dw_thread = True, dw_relation = True, dw_record = True, dw_writes = 2\<rparr>) (demo_view_of ''success'' w1) \<and>
    (case r of
       Inr n \<Rightarrow> lifecycle_deleted (sv_library (demo_service False ''success'')) demo_id
          (demo_view_of ''success'' \<lparr>dw_thread = True, dw_relation = True, dw_record = True, dw_writes = 2\<rparr>) (demo_view_of ''success'' w1)
     | Inl e \<Rightarrow> record_kept demo_id
          (demo_view_of ''success'' \<lparr>dw_thread = True, dw_relation = True, dw_record = True, dw_writes = 2\<rparr>) (demo_view_of ''success'' w1) \<or>
        lifecycle_deleted (sv_library (demo_service False ''success'')) demo_id
          (demo_view_of ''success'' \<lparr>dw_thread = True, dw_relation = True, dw_record = True, dw_writes = 2\<rparr>) (demo_view_of ''success'' w1))"
  by (rule delete_repeatable [OF demo_service_laws _ demo_single]) (simp add: demo_id_def)

section \<open>An undisturbed deletion completes\<close>

text \<open>
  C12: on a calm server, a Lifecycle whose record, relations and start error can be read and none
  of whose Runs is active is deleted: \<open>delete\<close> returns a count, no thread or store item of the
  Lifecycle is left, and those of others are untouched.  This covers a Lifecycle of which an
  earlier, failed deletion left only a part.
\<close>

theorem delete_completes:
  assumes "server_laws True view (sv_client sv)" and "lid \<noteq> []" and "single_record lid (view w)"
    and "deletable (sv_library sv) lid (view w)"
  shows "\<exists>n w1. delete_lifecycle sv lid w = Some (Inr n, w1) \<and>
    lifecycle_deleted (sv_library sv) lid (view w) (view w1) \<and>
    others_untouched (sv_library sv) lid (view w) (view w1)"
proof -
  have "view w = view w" ..
  with delete_lifecycle_ensures [OF assms(1, 2) lawful_view [OF assms(1)] assms(3)] show ?thesis
    by (cases rule: ensuresD) (use assms(4) in auto)
qed

lemma demo_owned: "owned_id demo_lifecycle_library demo_id (demo_view_of status w) tid \<Longrightarrow> tid = ''t''"
  by (auto simp: owned_id_def demo_view_of_def demo_ids relations_in_def lifecycle_runs_namespace_def lifecycle_namespace_def
      demo_id_def own_namespace_def runs_namespace_def relation_of_item_def demo_item_def mapping_get_def
      demo_lifecycle_library_def sort_by_def split: if_splits)

lemma demo_deletable:
  "deletable demo_lifecycle_library demo_id (demo_view_of ''success'' \<lparr>dw_thread = False, dw_relation = True, dw_record = True, dw_writes = 0\<rparr>)"
  unfolding deletable_def
proof (intro conjI)
  show "\<exists>r. record_in demo_lifecycle_library demo_id
      (demo_view_of ''success'' \<lparr>dw_thread = False, dw_relation = True, dw_record = True, dw_writes = 0\<rparr>) = Inr (Some r)"
    by (simp add: record_in_def lifecycle_record_namespace_def lifecycle_namespace_def demo_id_def parsed_record_def
        item_at_def demo_view_of_def own_namespace_def stored_text_def lifecycle_record_key_def demo_item_def
        demo_lifecycle_library_def)
  show "readable demo_lifecycle_library demo_id
      (demo_view_of ''success'' \<lparr>dw_thread = False, dw_relation = True, dw_record = True, dw_writes = 0\<rparr>)"
    by (simp add: readable_def relations_in_def start_error_in_def lifecycle_runs_namespace_def lifecycle_input_namespace_def
        lifecycle_namespace_def demo_id_def parsed_start_error_def item_at_def demo_view_of_def own_namespace_def
        runs_namespace_def relation_of_item_def demo_item_def mapping_get_def demo_lifecycle_library_def)
qed (simp add: demo_view_of_def)

theorem delete_completes_witness:
  "\<exists>n w1. delete_lifecycle (demo_service True ''success'') demo_id \<lparr>dw_thread = False, dw_relation = True, dw_record = True, dw_writes = 0\<rparr>
      = Some (Inr n, w1) \<and>
    lifecycle_deleted (sv_library (demo_service True ''success'')) demo_id
      (demo_view_of ''success'' \<lparr>dw_thread = False, dw_relation = True, dw_record = True, dw_writes = 0\<rparr>) (demo_view_of ''success'' w1) \<and>
    others_untouched (sv_library (demo_service True ''success'')) demo_id
      (demo_view_of ''success'' \<lparr>dw_thread = False, dw_relation = True, dw_record = True, dw_writes = 0\<rparr>) (demo_view_of ''success'' w1)"
  by (rule delete_completes [OF demo_service_laws _ demo_single])
     (simp_all add: demo_id_def [THEN arg_cong [where f = "\<lambda>x. x \<noteq> []"]] demo_service_def demo_deletable)

section \<open>Retention\<close>

lemma prefix_other:
  assumes "prefix (lifecycle_prefix a) ns" and "a \<noteq> b" shows "\<not> prefix (lifecycle_prefix b) ns"
  using assms by (auto simp: lifecycle_prefix_def prefix_def)

text \<open>Whatever a deletion does, it stays in the store of its own Lifecycle.\<close>

lemma delete_stays:
  assumes laws: "server_laws calm view (sv_client sv)" and one: "\<And>w lid. single_record lid (view w)"
  shows "ensures (\<lambda>w. view w = v) (delete_lifecycle sv lid) (\<lambda>w e. store_others lid v (view w)) (\<lambda>w _. store_others lid v (view w))"
proof (cases "lid = []")
  case True
  have none: "record_in (sv_library sv) [] v \<noteq> Inr (Some r)" for r
    by (simp add: record_in_def lifecycle_record_namespace_def lifecycle_namespace_def)
  show ?thesis
    unfolding delete_lifecycle_def True
    by (rule ensures_bind [where R = "\<lambda>w r. False"], rule ensures_reads_at [OF require_record_reads [OF laws, of v "[]"]])
       (use none in \<open>auto simp: store_others_def ensures_def\<close>)
next
  case False
  show ?thesis
  proof (rule ensures_assume)
    fix w assume w: "view w = v"
    have ok: "view_ok v" using lawful_view [OF laws, of w] w by simp
    have sr: "single_record lid v" using one [of lid w] w by simp
    show "ensures (\<lambda>w1. w1 = w) (delete_lifecycle sv lid) (\<lambda>w e. store_others lid v (view w)) (\<lambda>w _. store_others lid v (view w))"
      by (rule ensures_weaken [OF delete_lifecycle_ensures [OF laws False ok sr]])
         (use w in \<open>auto simp: others_untouched_def store_others_def\<close>)
  qed
qed

lemma ensures_attempt:
  "ensures P m F Q \<Longrightarrow> ensures P (attempt_io m) G (\<lambda>w r. case r of Inl e \<Rightarrow> F w e | Inr x \<Rightarrow> Q w x)"
  unfolding ensures_def attempt_io_def by (fastforce split: sum.splits)

definition store_same :: "string \<Rightarrow> server_view \<Rightarrow> server_view \<Rightarrow> bool" where
  "store_same lid v0 v \<longleftrightarrow> (\<forall>ns. prefix (lifecycle_prefix lid) ns \<longrightarrow> vw_items v ns = vw_items v0 ns)"

lemma delete_expired_stays:
  assumes laws: "server_laws calm view (sv_client sv)" and one: "\<And>w lid. single_record lid (view w)"
    and other: "sm_lifecycle_id s \<noteq> lid"
  shows "ensures (\<lambda>w. store_same lid v0 (view w)) (delete_expired sv s)
    (\<lambda>w e. store_same lid v0 (view w)) (\<lambda>w _. store_same lid v0 (view w))"
  unfolding delete_expired_def
proof (rule ensures_bind)
  show "ensures (\<lambda>w. store_same lid v0 (view w)) (attempt_io (delete_lifecycle sv (sm_lifecycle_id s)))
      (\<lambda>w e. store_same lid v0 (view w)) (\<lambda>w r. store_same lid v0 (view w))"
  proof (rule ensures_assume)
    fix w assume w: "store_same lid v0 (view w)"
    have keep: "store_same lid v0 v" if "store_others (sm_lifecycle_id s) (view w) v" for v
      using that w prefix_other other unfolding store_same_def store_others_def by metis
    show "ensures (\<lambda>w1. w1 = w) (attempt_io (delete_lifecycle sv (sm_lifecycle_id s)))
        (\<lambda>w e. store_same lid v0 (view w)) (\<lambda>w r. store_same lid v0 (view w))"
      by (rule ensures_weaken [OF ensures_attempt [OF delete_stays [OF laws one, of "view w" "sm_lifecycle_id s"]]])
         (auto intro: keep split: sum.splits)
  qed
  show "ensures (\<lambda>w. store_same lid v0 (view w))
      (case r of Inl (Lifecycle_active t) \<Rightarrow> return_io () | Inl (Lifecycle_unavailable t) \<Rightarrow> return_io ()
         | Inl e \<Rightarrow> raise_io e | Inr n \<Rightarrow> return_io ())
      (\<lambda>w e. store_same lid v0 (view w)) (\<lambda>w _. store_same lid v0 (view w))" for r
    by (auto split: sum.split lifecycle_error.split intro: ensures_return ensures_raise)
qed

definition newer :: "summary \<Rightarrow> summary \<Rightarrow> bool" where
  "newer a b \<longleftrightarrow> sm_lifecycle_id a \<noteq> sm_lifecycle_id b \<and> pair_less_eq (summary_key b) (summary_key a)"

lemma expired_preceded:
  assumes dist: "distinct (map sm_lifecycle_id items)"
    and sorted: "sorted_wrt (\<lambda>a b. pair_less_eq (summary_key b) (summary_key a)) items"
    and s: "s \<in> set (expired n items)"
  shows "has_settled s \<and> n \<le> int (length (filter (\<lambda>a. has_settled a \<and> newer a s) items))"
proof -
  let ?xs = "filter has_settled items" and ?k = "nat n"
  have split: "?xs = take ?k ?xs @ drop ?k ?xs" by simp
  have in_drop: "s \<in> set (drop ?k ?xs)" using s by (simp add: expired_def)
  have len: "length (take ?k ?xs) = ?k" using in_drop by (cases "length ?xs \<le> ?k") auto
  have "sorted_wrt (\<lambda>a b. pair_less_eq (summary_key b) (summary_key a)) (take ?k ?xs @ drop ?k ?xs)"
    unfolding split [symmetric] using sorted by (rule sorted_wrt_filter)
  then have le: "pair_less_eq (summary_key s) (summary_key a)" if "a \<in> set (take ?k ?xs)" for a
    using that in_drop unfolding sorted_wrt_append by blast
  have "distinct (map sm_lifecycle_id (take ?k ?xs @ drop ?k ?xs))"
    unfolding split [symmetric] using dist by (rule distinct_map_filter)
  then have ne: "sm_lifecycle_id a \<noteq> sm_lifecycle_id s" if "a \<in> set (take ?k ?xs)" for a
    using that in_drop unfolding map_append distinct_append by (metis disjoint_iff image_eqI set_map)
  have "filter (\<lambda>a. has_settled a \<and> newer a s) items = filter (\<lambda>a. newer a s) ?xs" by (simp add: conj_commute)
  also have "\<dots> = filter (\<lambda>a. newer a s) (take ?k ?xs) @ filter (\<lambda>a. newer a s) (drop ?k ?xs)"
    by (subst split) (rule filter_append)
  also have "filter (\<lambda>a. newer a s) (take ?k ?xs) = take ?k ?xs"
    using le ne by (intro filter_True) (auto simp: newer_def)
  finally have "?k \<le> length (filter (\<lambda>a. has_settled a \<and> newer a s) items)" using len by simp
  moreover have "has_settled s" using in_set_dropD [OF in_drop] by simp
  ultimately show ?thesis by linarith
qed


definition demo_world_full :: demo_world where
  "demo_world_full = \<lparr>dw_thread = True, dw_relation = True, dw_record = True, dw_writes = 2\<rparr>"

definition demo_listed :: summary where
  "demo_listed =
     \<lparr>sm_lifecycle_id = ''l'', sm_request_id = ''q'', sm_created_at = ''0'', sm_updated_at = ''0'', sm_status = ''success'',
      sm_subjects = [\<lparr>su_graph_kind = ''agent'', su_id = ''a'', su_name = ''n''\<rparr>], sm_start_error = None,
      sm_run_count = 1, sm_active_run_count = 0, sm_error_run_count = 0\<rparr>"

lemma demo_listing:
  "list_all_lifecycles (demo_service False ''success'') [] demo_world_full = Some (Inr [demo_listed], demo_world_full)"
  by code_simp

lemma demo_settings: "settings_snapshot [(''workflow_lifecycles'', JObj [(''retained_lifecycles'', JInt 0)])] = Inr 0"
  by (simp add: settings_snapshot_def retained_lifecycles_def)


end
