(* ===== verification/Lifecycle_Archive.thy ===== *)
theory Lifecycle_Archive
  imports Lifecycle_Guarantees
begin

text \<open>
  What the reads behind every view guarantee: a loop over pages ends with the whole collection, and
  the manifest of an exported monitoring archive names exactly the files that are in it.
\<close>

section \<open>Paging\<close>

text \<open>
  The loop over pages terminates and returns the whole collection.  When the server answers
  every request with the slice of one list it was asked for, or fails, reading page by page
  returns; it leaves the server's state as it was, and it either raises, which a calm server
  excludes, or returns the list without a gap or repetition, whatever its length.
\<close>

theorem paging_reads_everything:
  assumes "\<And>offset. answers calm view (fetch 100 offset) (\<lambda>v. page_slice 100 offset (f v))"
  shows "\<exists>r w1. all_pages fetch Inr w = Some (r, w1) \<and> view w1 = view w \<and>
    (case r of Inl e \<Rightarrow> \<not> calm | Inr xs \<Rightarrow> xs = f (view w))"
proof -
  have "reads_as view (view w) (\<lambda>e. \<not> calm) (all_pages fetch Inr) (\<lambda>xs. Inr (f (view w)) = (Inr xs :: lifecycle_error + _))"
    by (rule all_pages_calm [where f = f]) (simp_all add: assms additive_Inr)
  then obtain r w1 where "all_pages fetch Inr w = Some (r, w1)" "view w1 = view w"
    "case r of Inl e \<Rightarrow> \<not> calm | Inr xs \<Rightarrow> Inr (f (view w)) = (Inr xs :: lifecycle_error + _)"
    unfolding reads_as_def by blast
  then show ?thesis by (cases r) auto
qed

theorem paging_reads_everything_witness:
  "\<exists>r w1. all_pages (\<lambda>limit offset w. (Inr (page_slice limit offset [0..<w]), w)) Inr (250 :: nat) = Some (r, w1) \<and>
    id w1 = id 250 \<and> (case r of Inl e \<Rightarrow> \<not> True | Inr xs \<Rightarrow> xs = [0..<id 250])"
  by (rule paging_reads_everything [where f = "\<lambda>n. [0..<n]"]) (simp add: answers_def)

section \<open>The monitoring archive\<close>

definition draft_ok :: "export_draft \<Rightarrow> bool" where
  "draft_ok d \<longleftrightarrow>
     wf_dict (xd_files d) \<and> manifest_entry \<notin> fst ` set (xd_files d) \<and>
     fst ` set (xd_files d) = {p. (p, None) \<in> set (xd_results d)}"

lemma dict_set_keys: "fst ` set (AList.update k x d) = insert k (fst ` set d)"
  by (induction d) auto

lemma draft_ok_start: "draft_ok \<lparr>xd_files = [], xd_results = []\<rparr>"
  by (simp add: draft_ok_def)

lemma draft_ok_file: "draft_ok d \<Longrightarrow> path \<noteq> manifest_entry \<Longrightarrow> draft_ok (add_file path x d)"
  by (auto simp: draft_ok_def add_file_def dict_set_keys)

lemma draft_ok_error: "draft_ok d \<Longrightarrow> draft_ok (add_error path u d)"
  by (auto simp: draft_ok_def add_error_def)

lemma capture_ok:
  assumes "capture path wrap m d w = Some (Inr r, w1)" and "draft_ok d" and "path \<noteq> manifest_entry"
  shows "draft_ok (snd r)"
proof -
  obtain x where x: "r = (case x of Inl e \<Rightarrow> (None, add_error path (unavailable_for ''unavailable'' e) d)
      | Inr y \<Rightarrow> (Some y, add_file path (wrap y) d))"
    using assms(1) by (auto simp: capture_def bind_io_Inr return_io_def)
  show ?thesis using assms(2, 3) by (cases x) (simp_all add: x draft_ok_error draft_ok_file)
qed

lemma fold_io_inv:
  assumes "fold_io f d xs w = Some (Inr d1, w1)" and "P d"
    and step: "\<And>d x w d1 w1. P d \<Longrightarrow> f d x w = Some (Inr d1, w1) \<Longrightarrow> P d1"
  shows "P d1"
  using assms(1, 2)
proof (induction xs arbitrary: d w)
  case Nil
  then show ?case by (simp add: return_io_def)
next
  case (Cons x xs)
  then obtain d2 w2 where "f d x w = Some (Inr d2, w2)" "fold_io f d2 xs w2 = Some (Inr d1, w1)"
    by (auto simp: bind_io_Inr)
  with Cons.IH step Cons.prems(2) show ?case by blast
qed

lemma path_not_manifest:
  "''assistants/'' @ xs \<noteq> manifest_entry" "''workflows/'' @ xs \<noteq> manifest_entry" "''threads/'' @ xs \<noteq> manifest_entry"
  "''snapshot.json'' \<noteq> manifest_entry" "''store.json'' \<noteq> manifest_entry"
  "''configuration/snapshot.json'' \<noteq> manifest_entry" "''model-calls.jsonl'' \<noteq> manifest_entry"
  by (simp_all add: manifest_entry_def)

lemma capture_assistant_ok:
  "draft_ok d \<Longrightarrow> capture_assistant sv d aid w = Some (Inr d1, w1) \<Longrightarrow> draft_ok d1"
  using capture_ok path_not_manifest(1)
  by (fastforce simp: capture_assistant_def bind_io_Inr return_io_def)

lemma capture_workflow_ok:
  "draft_ok d \<Longrightarrow> capture_workflow sv s d wid w = Some (Inr d1, w1) \<Longrightarrow> draft_ok d1"
  using capture_ok path_not_manifest(2)
  by (fastforce simp: capture_workflow_def bind_io_Inr return_io_def)

lemma capture_thread_ok:
  assumes "draft_ok d" and "capture_thread sv d g w = Some (Inr d1, w1)"
  shows "draft_ok d1"
proof (cases "tg_thread g")
  case None
  then show ?thesis using assms by (auto simp: capture_thread_def Let_def return_io_def draft_ok_error)
next
  case (Some t)
  let ?path = "''threads/'' @ quote_all (sv_library sv) (tg_thread_id g)"
  obtain r1 r2 w2 where
    r1: "capture (?path @ ''/state.json'') X_json (call_io (threads_get_state (sv_client sv) (tg_thread_id g))) d w = Some (Inr r1, w2)"
    and r2: "capture (?path @ ''/history.json'') X_history (full_history (sv_client sv) (tg_thread_id g)) (snd r1) w2 = Some (Inr r2, w1)"
    and d1: "d1 = snd r2"
    using assms(2) Some by (auto simp: capture_thread_def Let_def bind_io_Inr return_io_def)
  have "draft_ok (snd r1)"
    by (rule capture_ok [OF r1 assms(1)]) (simp only: append_assoc path_not_manifest not_False_eq_True)
  from capture_ok [OF r2 this] show ?thesis
    by (simp only: d1 append_assoc path_not_manifest not_False_eq_True)
qed

lemma export_contents_ok:
  assumes "export_contents sv lid ob vw w = Some (Inr d, w1)"
  shows "draft_ok d"
proof -
  let ?d0 = "add_file ''snapshot.json'' (X_view vw) \<lparr>xd_files = [], xd_results = []\<rparr>"
  obtain r1 w2 r2 w3 d3 w4 d4 w5 where
    r1: "capture ''store.json'' X_store (store_data (sv_client sv) lid) ?d0 w = Some (Inr r1, w2)" and
    r2: "capture ''configuration/snapshot.json'' (\<lambda>s. X_json (snap_value s)) (configuration_snapshot sv lid) (snd r1) w2 = Some (Inr r2, w3)" and
    d3: "fold_io (capture_assistant sv) (snd r2) (agent_assistants (ob_relations ob)) w3 = Some (Inr d3, w4)" and
    d4: "(case fst r2 of None \<Rightarrow> return_io d3
            | Some s \<Rightarrow> fold_io (capture_workflow sv s) d3 (relation_workflows (ob_relations ob))) w4 = Some (Inr d4, w5)" and
    d: "fold_io (capture_thread sv) d4 (ob_groups ob) w5 = Some (Inr d, w1)"
    using assms unfolding export_contents_def Let_def bind_io_Inr by blast
  have "draft_ok ?d0" by (rule draft_ok_file [OF draft_ok_start path_not_manifest(4)])
  from capture_ok [OF r2 capture_ok [OF r1 this path_not_manifest(5)] path_not_manifest(6)]
  have "draft_ok d3" by (rule fold_io_inv [OF d3]) (rule capture_assistant_ok)
  then have "draft_ok d4"
    using d4 by (cases "fst r2") (auto simp: return_io_def intro: fold_io_inv capture_workflow_ok)
  then show ?thesis by (rule fold_io_inv [OF d]) (rule capture_thread_ok)
qed


lemma demo_export:
  "case export_lifecycle (demo_service False ''success'') ''now'' demo_id demo_world_full of
     Some (Inr a, w1) \<Rightarrow> True | _ \<Rightarrow> False"
  by code_simp


end
