(* ===== verification/Input_Messages.thy ===== *)
theory Input_Messages
  imports Event_Origin Workflow_Document
begin

text \<open>
  \<open>runtime/input_messages.py\<close>: the normalisation of the messages a client sends (OpenAI content
  parts and standard content blocks) to standard blocks.

  A rejected message is an \<open>AgentRuntimeError\<close> with status 422; an exception that the code does not
  raise itself (a list looked up in a set, a URL that \<open>urlsplit\<close> cannot parse) is its own
  constructor.  \<open>base64.b64decode(validate=True)\<close> (whether it accepts a text) and \<open>urlsplit\<close> are
  parameters.
\<close>

section \<open>Errors and library\<close>

datatype input_error =
    Rejected string string
  | Type_raised
  | Value_raised

record url_parts =
  up_scheme :: string
  up_netloc :: string
  up_username :: "string option"
  up_password :: "string option"

record input_library =
  base64_decodes :: "string \<Rightarrow> bool"
  split_url :: "string \<Rightarrow> url_parts option"

type_synonym block = "(string, json) dict"

definition invalid :: "string \<Rightarrow> string \<Rightarrow> input_error + 'a" where
  "invalid code message = Inl (Rejected code message)"

definition has_key :: "string \<Rightarrow> block \<Rightarrow> bool" where
  "has_key k d \<longleftrightarrow> map_of d k \<noteq> None"

text \<open>\<open>value in {...}\<close>: a list or mapping has no hash.\<close>

definition text_in :: "string list \<Rightarrow> json \<Rightarrow> input_error + bool" where
  "text_in xs v =
     (case v of
        JList ys \<Rightarrow> Inl Type_raised
      | JObj d \<Rightarrow> Inl Type_raised
      | JStr s \<Rightarrow> Inr (s \<in> set xs)
      | _ \<Rightarrow> Inr False)"

fun nonempty_text :: "json \<Rightarrow> string option" where
  "nonempty_text (JStr s) = (if s = [] then None else Some s)"
| "nonempty_text _ = None"

section \<open>Values\<close>

definition decode_base64 :: "input_library \<Rightarrow> json \<Rightarrow> string \<Rightarrow> input_error + string" where
  "decode_base64 lib v path =
     (case nonempty_text v of
        None \<Rightarrow> invalid ''input_content_source_invalid'' (path @ '' must be a non-empty base64 string.'')
      | Some s \<Rightarrow>
          if base64_decodes lib s then Inr s
          else invalid ''input_content_base64_invalid'' (path @ '' must contain canonical base64 data.''))"

definition plain_mapping :: "json \<Rightarrow> string \<Rightarrow> input_error + block" where
  "plain_mapping v path =
     (case v of
        JObj d \<Rightarrow> Inr d
      | _ \<Rightarrow> invalid ''input_content_part_invalid'' (path @ '' must be an object.''))"

definition only_keys :: "block \<Rightarrow> string list \<Rightarrow> string \<Rightarrow> input_error + unit" where
  "only_keys d allowed path =
     (let unknown = sort_by (\<lambda>k. k) (remdups (filter (\<lambda>k. k \<notin> set allowed) (map fst d))) in
      if unknown \<noteq> []
      then invalid ''input_content_part_invalid''
             (path @ '' contains unsupported fields: '' @ join '', '' unknown @ ''.'')
      else Inr ())"

definition mime_head :: "char \<Rightarrow> bool" where
  "mime_head ch \<longleftrightarrow> lower_char ch \<or> digit_class ch"

definition mime_char :: "char \<Rightarrow> bool" where
  "mime_char ch \<longleftrightarrow> mime_head ch \<or> ch \<in> set ''!#$&^_.+-''"

definition mime_part :: "string \<Rightarrow> bool" where
  "mime_part s \<longleftrightarrow> s \<noteq> [] \<and> length s \<le> 127 \<and> mime_head (hd s) \<and> list_all mime_char (tl s)"

definition mime_pattern :: "string \<Rightarrow> bool" where
  "mime_pattern s \<longleftrightarrow>
     (case split_on (CHR ''/'') s of [a, b] \<Rightarrow> mime_part a \<and> mime_part b | _ \<Rightarrow> False)"

definition mime_type :: "json \<Rightarrow> string \<Rightarrow> string \<Rightarrow> input_error + string" where
  "mime_type v block_type path =
     (case v of
        JStr s \<Rightarrow>
          (let normalized = str_lower (str_strip s) in
           if \<not> mime_pattern normalized
           then invalid ''input_content_mime_invalid'' (path @ '' is not a valid MIME type.'')
           else if block_type \<noteq> ''file'' \<and> \<not> starts_with (block_type @ ''/'') normalized
           then invalid ''input_content_mime_invalid''
                  (path @ '' must use the '' @ block_type @ ''/ media family.'')
           else Inr normalized)
      | _ \<Rightarrow> invalid ''input_content_mime_invalid'' (path @ '' must be a MIME type.''))"

definition url_value :: "input_library \<Rightarrow> json \<Rightarrow> string \<Rightarrow> input_error + string" where
  "url_value lib v path =
     (case nonempty_text v of
        None \<Rightarrow> invalid ''input_content_url_invalid'' (path @ '' must be a non-empty URL.'')
      | Some s \<Rightarrow>
          (case split_url lib s of
             None \<Rightarrow> Inl Value_raised
           | Some p \<Rightarrow>
               if up_scheme p \<notin> {''http'', ''https''} \<or> up_netloc p = []
               then invalid ''input_content_url_invalid'' (path @ '' must be an absolute http or https URL.'')
               else if up_username p \<noteq> None \<or> up_password p \<noteq> None
               then invalid ''input_content_url_invalid'' (path @ '' may not contain URL credentials.'')
               else Inr s))"

definition file_id_value :: "json \<Rightarrow> string \<Rightarrow> input_error + string" where
  "file_id_value v path =
     (case nonempty_text v of
        None \<Rightarrow> invalid ''input_content_file_id_invalid'' (path @ '' must be a non-empty Provider file ID.'')
      | Some s \<Rightarrow> Inr s)"

definition data_uri :: "input_library \<Rightarrow> json \<Rightarrow> string \<Rightarrow> string \<Rightarrow> input_error + string \<times> string" where
  "data_uri lib v block_type path =
     (case v of
        JStr s \<Rightarrow>
          if \<not> starts_with ''data:'' s
          then invalid ''input_content_data_uri_invalid'' (path @ '' must be a base64 data URI.'')
          else (case cut_at (CHR '','') s of
             None \<Rightarrow> invalid ''input_content_data_uri_invalid'' (path @ '' must be a base64 data URI.'')
           | Some (header, encoded) \<Rightarrow>
               if \<not> ends_with '';base64'' header
               then invalid ''input_content_data_uri_invalid'' (path @ '' must be a base64 data URI.'')
               else bind_res (mime_type (JStr (drop 5 (take (length header - 7) header))) block_type (path @ ''.mime_type'')) (\<lambda>m.
                    bind_res (decode_base64 lib (JStr encoded) path) (\<lambda>b. Inr (b, m))))
      | _ \<Rightarrow> invalid ''input_content_data_uri_invalid'' (path @ '' must be a base64 data URI.''))"

section \<open>Blocks\<close>

text \<open>A nonempty text in the block, under an error of its own, or nothing.\<close>

definition optional_text :: "block \<Rightarrow> string \<Rightarrow> string \<Rightarrow> string \<Rightarrow> block \<Rightarrow> input_error + block" where
  "optional_text d k code path result =
     (case map_of d k of
        None \<Rightarrow> Inr result
      | Some v \<Rightarrow>
          (case nonempty_text v of
             None \<Rightarrow> invalid code (path @ ''.'' @ k @ '' must be a non-empty string.'')
           | Some s \<Rightarrow> Inr (dict_set k (JStr s) result)))"

definition optional_metadata :: "block \<Rightarrow> string \<Rightarrow> bool \<Rightarrow> block \<Rightarrow> input_error + block" where
  "optional_metadata d path allow_filename result =
     bind_res (optional_text d ''id'' ''input_content_part_invalid'' path result) (\<lambda>r1.
     bind_res (case map_of d ''extras'' of
                 None \<Rightarrow> Inr r1
               | Some v \<Rightarrow> bind_res (plain_mapping v (path @ ''.extras'')) (\<lambda>e. Inr (dict_set ''extras'' (JObj e) r1))) (\<lambda>r2.
     if allow_filename then optional_text d ''filename'' ''input_content_filename_invalid'' path r2 else Inr r2))"

definition media_fields :: "string \<Rightarrow> string list" where
  "media_fields block_type =
     [''type'', ''url'', ''base64'', ''file_id'', ''mime_type'', ''id'', ''extras''] @
     (if block_type = ''file'' then [''filename''] else [])"

definition media_source :: "input_library \<Rightarrow> string \<Rightarrow> block \<Rightarrow> string \<Rightarrow> string \<Rightarrow> input_error + block" where
  "media_source lib block_type d path source =
     (let result = [(''type'', JStr block_type)] in
      if source = ''url''
      then bind_res (url_value lib (mapping_get d ''url'') (path @ ''.url'')) (\<lambda>u. Inr (dict_set ''url'' (JStr u) result))
      else if source = ''file_id''
      then bind_res (file_id_value (mapping_get d ''file_id'') (path @ ''.file_id''))
             (\<lambda>i. Inr (dict_set ''file_id'' (JStr i) result))
      else (case map_of d ''mime_type'' of
              None \<Rightarrow> invalid ''input_content_mime_invalid'' (path @ ''.mime_type is required for base64 data.'')
            | Some v \<Rightarrow>
                bind_res (mime_type v block_type (path @ ''.mime_type'')) (\<lambda>m.
                bind_res (decode_base64 lib (mapping_get d ''base64'') (path @ ''.base64'')) (\<lambda>b.
                Inr (dict_set ''base64'' (JStr b) (dict_set ''mime_type'' (JStr m) result))))))"

definition standard_media_block :: "input_library \<Rightarrow> string \<Rightarrow> block \<Rightarrow> string \<Rightarrow> input_error + block" where
  "standard_media_block lib block_type d path =
     bind_res (only_keys d (media_fields block_type) path) (\<lambda>_.
     case filter (\<lambda>k. has_key k d) [''url'', ''base64'', ''file_id''] of
       [source] \<Rightarrow>
         bind_res (media_source lib block_type d path source) (\<lambda>r1.
         bind_res (case map_of d ''mime_type'' of
                     None \<Rightarrow> Inr r1
                   | Some v \<Rightarrow>
                       if source = ''base64'' then Inr r1
                       else bind_res (mime_type v block_type (path @ ''.mime_type''))
                              (\<lambda>m. Inr (dict_set ''mime_type'' (JStr m) r1))) (\<lambda>r2.
         optional_metadata d path (block_type = ''file'') r2))
     | _ \<Rightarrow> invalid ''input_content_source_invalid''
              (path @ '' must contain exactly one of url, base64, or file_id.''))"

definition image_source :: "input_library \<Rightarrow> json \<Rightarrow> string \<Rightarrow> input_error + block" where
  "image_source lib v path =
     (if (case v of JStr s \<Rightarrow> starts_with ''data:'' s | _ \<Rightarrow> False)
      then bind_res (data_uri lib v ''image'' path) (\<lambda>(b, m).
             Inr [(''type'', JStr ''image''), (''base64'', JStr b), (''mime_type'', JStr m)])
      else bind_res (url_value lib v path) (\<lambda>u. Inr [(''type'', JStr ''image''), (''url'', JStr u)]))"

definition openai_image_block :: "input_library \<Rightarrow> block \<Rightarrow> string \<Rightarrow> input_error + block" where
  "openai_image_block lib d path =
     bind_res (only_keys d [''type'', ''image_url''] path) (\<lambda>_.
     bind_res (plain_mapping (mapping_get d ''image_url'') (path @ ''.image_url'')) (\<lambda>image.
     bind_res (only_keys image [''url'', ''detail''] (path @ ''.image_url'')) (\<lambda>_.
     bind_res (image_source lib (mapping_get image ''url'') (path @ ''.image_url.url'')) (\<lambda>result.
     case map_of image ''detail'' of
       None \<Rightarrow> Inr result
     | Some detail \<Rightarrow>
         bind_res (text_in [''auto'', ''low'', ''high''] detail) (\<lambda>known.
           if \<not> known
           then invalid ''input_content_part_invalid'' (path @ ''.image_url.detail must be auto, low, or high.'')
           else Inr (result @ [(''extras'', JObj [(''detail'', detail)])]))))))"

definition audio_format_mime :: "(string, string) dict" where
  "audio_format_mime =
     [(''aac'', ''audio/aac''), (''flac'', ''audio/flac''), (''m4a'', ''audio/mp4''), (''mp3'', ''audio/mpeg''),
      (''mp4'', ''audio/mp4''), (''mpeg'', ''audio/mpeg''), (''oga'', ''audio/ogg''), (''ogg'', ''audio/ogg''),
      (''wav'', ''audio/wav''), (''webm'', ''audio/webm'')]"

definition audio_mime :: "json \<Rightarrow> string option" where
  "audio_mime v = (case v of JStr s \<Rightarrow> map_of audio_format_mime (str_lower s) | _ \<Rightarrow> None)"

definition openai_audio_block :: "input_library \<Rightarrow> block \<Rightarrow> string \<Rightarrow> input_error + block" where
  "openai_audio_block lib d path =
     bind_res (only_keys d [''type'', ''input_audio''] path) (\<lambda>_.
     bind_res (plain_mapping (mapping_get d ''input_audio'') (path @ ''.input_audio'')) (\<lambda>audio.
     bind_res (only_keys audio [''data'', ''format''] (path @ ''.input_audio'')) (\<lambda>_.
     case audio_mime (mapping_get audio ''format'') of
       None \<Rightarrow> invalid ''input_content_mime_invalid'' (path @ ''.input_audio.format is not supported.'')
     | Some m \<Rightarrow>
         bind_res (decode_base64 lib (mapping_get audio ''data'') (path @ ''.input_audio.data'')) (\<lambda>b.
           Inr [(''type'', JStr ''audio''), (''base64'', JStr b), (''mime_type'', JStr m)]))))"

definition file_source :: "input_library \<Rightarrow> block \<Rightarrow> string \<Rightarrow> string \<Rightarrow> input_error + block" where
  "file_source lib d path source =
     (if source = ''file_id''
      then bind_res (file_id_value (mapping_get d ''file_id'') (path @ ''.file.file_id'')) (\<lambda>i.
             Inr [(''type'', JStr ''file''), (''file_id'', JStr i)])
      else bind_res (data_uri lib (mapping_get d ''file_data'') ''file'' (path @ ''.file.file_data'')) (\<lambda>(b, m).
             Inr [(''type'', JStr ''file''), (''base64'', JStr b), (''mime_type'', JStr m)]))"

definition openai_file_block :: "input_library \<Rightarrow> block \<Rightarrow> string \<Rightarrow> input_error + block" where
  "openai_file_block lib d path =
     bind_res (only_keys d [''type'', ''file''] path) (\<lambda>_.
     bind_res (plain_mapping (mapping_get d ''file'') (path @ ''.file'')) (\<lambda>f.
     bind_res (only_keys f [''file_id'', ''file_data'', ''filename''] (path @ ''.file'')) (\<lambda>_.
     case filter (\<lambda>k. has_key k f) [''file_id'', ''file_data''] of
       [source] \<Rightarrow>
         bind_res (file_source lib f path source) (\<lambda>result.
           optional_text f ''filename'' ''input_content_filename_invalid'' (path @ ''.file'') result)
     | _ \<Rightarrow> invalid ''input_content_source_invalid''
              (path @ ''.file must contain exactly one of file_id or file_data.''))))"

definition input_media_types :: "string list" where
  "input_media_types = [''image'', ''audio'', ''video'', ''file'']"

definition content_part :: "input_library \<Rightarrow> json \<Rightarrow> string \<Rightarrow> input_error + block" where
  "content_part lib v path =
     bind_res (plain_mapping v path) (\<lambda>d.
     let block_type = mapping_get d ''type'' in
     if block_type = JStr ''text''
     then bind_res (only_keys d [''type'', ''text''] path) (\<lambda>_.
            case mapping_get d ''text'' of
              JStr s \<Rightarrow> Inr [(''type'', JStr ''text''), (''text'', JStr s)]
            | _ \<Rightarrow> invalid ''input_content_part_invalid'' (path @ ''.text must be a string.''))
     else if block_type = JStr ''image_url'' then openai_image_block lib d path
     else if block_type = JStr ''input_audio'' then openai_audio_block lib d path
     else if block_type = JStr ''file'' \<and> has_key ''file'' d then openai_file_block lib d path
     else bind_res (text_in input_media_types block_type) (\<lambda>known.
       if known
       then standard_media_block lib (case json_str block_type of None \<Rightarrow> [] | Some t \<Rightarrow> t) d path
       else invalid ''input_content_part_unsupported'' (path @ ''.type is not a supported input content block.'')))"

section \<open>Messages\<close>

definition index_path :: "string \<Rightarrow> nat \<Rightarrow> string" where
  "index_path name i = name @ ''['' @ nat_str i @ '']''"

fun content_parts :: "input_library \<Rightarrow> string \<Rightarrow> string \<Rightarrow> nat \<Rightarrow> json list \<Rightarrow> input_error + json list" where
  "content_parts lib role path j [] = Inr []"
| "content_parts lib role path j (part # parts) =
     (let part_path = index_path (path @ ''.content'') j in
      bind_res (content_part lib part part_path) (\<lambda>d.
      if role = ''system'' \<and> mapping_get d ''type'' \<noteq> JStr ''text''
      then invalid ''input_system_content_unsupported'' (path @ '' system content only supports text blocks.'')
      else bind_res (content_parts lib role path (j + 1) parts) (\<lambda>ds. Inr (JObj d # ds))))"

definition message_content :: "input_library \<Rightarrow> string \<Rightarrow> string \<Rightarrow> json \<Rightarrow> input_error + json" where
  "message_content lib role path content =
     (case content of
        JStr s \<Rightarrow> Inr (JStr s)
      | JList parts \<Rightarrow> bind_res (content_parts lib role path 0 parts) (\<lambda>ds. Inr (JList ds))
      | _ \<Rightarrow> invalid ''input_message_content_unsupported''
               (path @ ''.content must be a string or supported content-parts array.''))"

definition validate_message :: "input_library \<Rightarrow> nat \<Rightarrow> json \<Rightarrow> input_error + block" where
  "validate_message lib i raw =
     (let path = index_path ''messages'' i in
      case raw of
        JObj item \<Rightarrow>
          bind_res (only_keys item [''role'', ''content'', ''name''] path) (\<lambda>_.
          bind_res (text_in [''system'', ''user'', ''assistant''] (mapping_get item ''role'')) (\<lambda>known.
          if \<not> known
          then invalid ''input_message_role_unsupported''
                 (path @ ''.role is not supported by the current runtime.'')
          else (let role = (case json_str (mapping_get item ''role'') of None \<Rightarrow> [] | Some r \<Rightarrow> r) in
            bind_res (message_content lib role path (mapping_get item ''content'')) (\<lambda>content.
            let message = [(''role'', JStr role), (''content'', content)] in
            if mapping_get item ''name'' = JNull then Inr message
            else (case nonempty_text (mapping_get item ''name'') of
                    None \<Rightarrow> invalid ''input_message_name_invalid'' (path @ ''.name must be a non-empty string.'')
                  | Some n \<Rightarrow> Inr (message @ [(''name'', JStr n)]))))))
      | _ \<Rightarrow> invalid ''input_message_invalid'' (path @ '' must be an object.''))"

fun validate_each :: "input_library \<Rightarrow> nat \<Rightarrow> json list \<Rightarrow> input_error + block list" where
  "validate_each lib i [] = Inr []"
| "validate_each lib i (raw # raws) =
     bind_res (validate_message lib i raw) (\<lambda>m.
     bind_res (validate_each lib (i + 1) raws) (\<lambda>ms. Inr (m # ms)))"

definition validate_messages :: "input_library \<Rightarrow> json \<Rightarrow> bool \<Rightarrow> input_error + block list" where
  "validate_messages lib v require_non_empty =
     (case v of
        JList items \<Rightarrow>
          if require_non_empty \<and> items = []
          then invalid ''input_messages_required'' ''messages must be a non-empty array.''
          else validate_each lib 0 items
      | _ \<Rightarrow> invalid ''input_messages_required'' ''messages must be a non-empty array.'')"

definition validate_client_messages :: "input_library \<Rightarrow> json \<Rightarrow> input_error + block list" where
  "validate_client_messages lib v = validate_messages lib v True"

definition validate_prepared_messages :: "input_library \<Rightarrow> json \<Rightarrow> input_error + block list" where
  "validate_prepared_messages lib v = validate_messages lib v False"

end
