(* ===== verification/Input_Properties.thy ===== *)
theory Input_Properties
  imports Input_Messages
begin

text \<open>
  What \<open>runtime/input_messages.py\<close> returns is accepted again: normalising normalised messages gives
  messages with the same fields and values.
\<close>

section \<open>Values that are accepted again\<close>

lemma mime_char_plain:
  assumes "mime_char c \<or> c = CHR ''/''"
  shows "lower_ascii c = c" and "\<not> space_char c"
proof -
  have extra: "list_all (\<lambda>c. \<not> upper_char c \<and> \<not> space_char c) ''!#$&^_.+-/''"
    by code_simp
  have "\<not> upper_char c \<and> \<not> space_char c"
  proof (cases "mime_head c")
    case True
    then show ?thesis
      unfolding mime_head_def lower_char_def digit_class_def upper_char_def space_char_def by linarith
  next
    case False
    then have "c \<in> set ''!#$&^_.+-/''"
      using assms by (auto simp: mime_char_def)
    then show ?thesis
      using extra unfolding list_all_iff by blast
  qed
  then show "lower_ascii c = c" and "\<not> space_char c"
    by (simp_all add: lower_ascii_def)
qed

lemma mime_part_chars: "mime_part s \<Longrightarrow> c \<in> set s \<Longrightarrow> mime_char c"
  by (cases s) (auto simp: mime_part_def mime_char_def list_all_iff)

lemma mime_pattern_chars:
  assumes "mime_pattern s" "c \<in> set s"
  shows "mime_char c \<or> c = CHR ''/''"
proof -
  obtain a b where ab: "split_on (CHR ''/'') s = [a, b]" "mime_part a" "mime_part b"
    using assms(1) unfolding mime_pattern_def by (simp split: list.splits)
  then have "c \<in> set a \<or> c = CHR ''/'' \<or> c \<in> set b"
    using assms(2) by (auto simp: split_on_pair)
  then show ?thesis
    using mime_part_chars ab(2,3) by blast
qed

lemma mime_pattern_plain:
  assumes "mime_pattern s"
  shows "str_lower (str_strip s) = s"
proof -
  have plain: "\<forall>c \<in> set s. lower_ascii c = c \<and> \<not> space_char c"
    using mime_char_plain [OF mime_pattern_chars [OF assms]] by simp
  then have "dropWhile space_char s = s" "dropWhile space_char (rev s) = rev s"
    by (auto simp: dropWhile_eq_self_iff hd_rev)
  then have "str_strip s = s"
    by (simp add: str_strip_def)
  then show ?thesis
    using plain by (simp add: str_lower_def map_idI)
qed

definition url_ok :: "input_library \<Rightarrow> json \<Rightarrow> bool" where
  "url_ok lib v \<longleftrightarrow> (\<exists>u. v = JStr u \<and> (\<forall>p. url_value lib v p = Inr u))"

definition text_ok :: "json \<Rightarrow> bool" where
  "text_ok v \<longleftrightarrow> (\<exists>s. v = JStr s \<and> s \<noteq> [])"

definition data_ok :: "input_library \<Rightarrow> json \<Rightarrow> bool" where
  "data_ok lib v \<longleftrightarrow> (\<exists>s. v = JStr s \<and> s \<noteq> [] \<and> base64_decodes lib s)"

definition mime_ok :: "string \<Rightarrow> json \<Rightarrow> bool" where
  "mime_ok t v \<longleftrightarrow> (\<exists>m. v = JStr m \<and> (\<forall>p. mime_type v t p = Inr m))"

lemma nonempty_text_Some [simp]: "nonempty_text v = Some s \<longleftrightarrow> v = JStr s \<and> s \<noteq> []"
  by (cases v) auto

lemma nonempty_text_ok: "text_ok v \<Longrightarrow> \<exists>s. v = JStr s \<and> nonempty_text v = Some s"
  by (auto simp: text_ok_def)

lemma url_value_ok: "url_value lib v p = Inr u \<Longrightarrow> url_ok lib (JStr u)"
  by (auto simp: url_ok_def url_value_def invalid_def split: option.splits if_splits)

lemma file_id_ok: "file_id_value v p = Inr u \<Longrightarrow> text_ok (JStr u)"
  by (auto simp: file_id_value_def text_ok_def invalid_def split: option.splits)

lemma decode_ok: "decode_base64 lib v p = Inr b \<Longrightarrow> data_ok lib (JStr b)"
  by (auto simp: decode_base64_def data_ok_def invalid_def split: option.splits if_splits)

lemma mime_okI: "mime_pattern m \<Longrightarrow> t = ''file'' \<or> starts_with (t @ ''/'') m \<Longrightarrow> mime_ok t (JStr m)"
  using mime_pattern_plain [of m] by (auto simp: mime_ok_def mime_type_def Let_def)

lemma mime_type_ok:
  assumes "mime_type v t p = Inr m"
  shows "mime_ok t (JStr m)"
proof -
  obtain s where v: "v = JStr s"
    using assms by (cases v) (auto simp: mime_type_def invalid_def)
  have m: "mime_pattern m" "t = ''file'' \<or> starts_with (t @ ''/'') m"
    using assms unfolding v mime_type_def by (auto simp: invalid_def Let_def split: if_splits)
  then show ?thesis
    by (rule mime_okI)
qed

lemma data_uri_ok: "data_uri lib v t p = Inr (b, m) \<Longrightarrow> data_ok lib (JStr b) \<and> mime_ok t (JStr m)"
  unfolding data_uri_def invalid_def
  by (cases v) (auto simp: bind_res_eq_Inr dest: decode_ok mime_type_ok split: option.splits if_splits)

lemma audio_mime_ok: "audio_mime v = Some m \<Longrightarrow> mime_ok ''audio'' (JStr m)"
proof -
  have "list_all (\<lambda>(k, m). mime_pattern m \<and> starts_with ''audio/'' m) audio_format_mime"
    by code_simp
  moreover assume "audio_mime v = Some m"
  then obtain k where "(k, m) \<in> set audio_format_mime"
    by (auto simp: audio_mime_def dest: map_of_SomeD split: json.splits)
  ultimately have "mime_pattern m" "starts_with ''audio/'' m"
    unfolding list_all_iff by blast+
  then show ?thesis
    by (simp add: mime_okI)
qed

section \<open>Media blocks\<close>

definition field_ok :: "input_library \<Rightarrow> string \<Rightarrow> string \<Rightarrow> json \<Rightarrow> bool" where
  "field_ok lib t k v \<longleftrightarrow>
     k = ''url'' \<and> url_ok lib v \<or> k = ''base64'' \<and> data_ok lib v \<or> k = ''file_id'' \<and> text_ok v \<or>
     k = ''mime_type'' \<and> mime_ok t v \<or> k = ''id'' \<and> text_ok v \<or> k = ''extras'' \<and> (\<exists>e. v = JObj e) \<or>
     k = ''filename'' \<and> t = ''file'' \<and> text_ok v"

definition fields_ok :: "input_library \<Rightarrow> string \<Rightarrow> block \<Rightarrow> bool" where
  "fields_ok lib t d \<longleftrightarrow>
     wf_dict d \<and> map_of d ''type'' = Some (JStr t) \<and>
     (\<forall>k v. map_of d k = Some v \<longrightarrow> k = ''type'' \<or> field_ok lib t k v)"

definition source_keys :: "block \<Rightarrow> string list" where
  "source_keys d = filter (\<lambda>k. has_key k d) [''url'', ''base64'', ''file_id'']"

lemma source_keys_cong:
  "(\<And>k. k \<in> {''url'', ''base64'', ''file_id''} \<Longrightarrow> has_key k r = has_key k r') \<Longrightarrow> source_keys r = source_keys r'"
  unfolding source_keys_def by (rule filter_cong) simp_all

lemma only_source_Inr:
  "(case xs of [s] \<Rightarrow> f s | _ \<Rightarrow> invalid c m) = Inr r \<longleftrightarrow> (\<exists>s. xs = [s] \<and> f s = Inr r)"
  by (auto simp: invalid_def split: list.splits)

definition media_ok :: "input_library \<Rightarrow> string \<Rightarrow> block \<Rightarrow> bool" where
  "media_ok lib t d \<longleftrightarrow>
     t \<in> set input_media_types \<and> fields_ok lib t d \<and> length (source_keys d) = 1 \<and>
     (has_key ''base64'' d \<longrightarrow> has_key ''mime_type'' d)"

lemma field_ok_not_type: "field_ok lib t k v \<Longrightarrow> k \<noteq> ''type''"
  by (auto simp: field_ok_def)

lemma fields_ok_start: "fields_ok lib t [(''type'', JStr t)]"
  by (auto simp: fields_ok_def wf_dict_def)

lemma fields_ok_set:
  "fields_ok lib t d \<Longrightarrow> field_ok lib t k v \<Longrightarrow> fields_ok lib t (dict_set k v d)"
  using field_ok_not_type [of lib t k v] by (auto simp: fields_ok_def dict_get_set)

text \<open>A stage adds at most one checked field.\<close>

definition adds :: "input_library \<Rightarrow> string \<Rightarrow> string \<Rightarrow> block \<Rightarrow> block \<Rightarrow> bool" where
  "adds lib t k r r' \<longleftrightarrow> r' = r \<or> (\<exists>v. field_ok lib t k v \<and> r' = dict_set k v r)"

lemma adds_ok: "adds lib t k r r' \<Longrightarrow> fields_ok lib t r \<Longrightarrow> fields_ok lib t r'"
  by (auto simp: adds_def intro: fields_ok_set)

lemma adds_other: "adds lib t k r r' \<Longrightarrow> k' \<noteq> k \<Longrightarrow> map_of r' k' = map_of r k'"
  by (auto simp: adds_def dict_get_set)

lemma adds_keeps: "adds lib t k r r' \<Longrightarrow> has_key k' r \<Longrightarrow> has_key k' r'"
  by (auto simp: adds_def dict_get_set has_key_def)

lemma optional_text_adds:
  assumes "optional_text d k code p r = Inr r'" "k = ''id'' \<or> k = ''filename'' \<and> t = ''file''"
  shows "adds lib t k r r'"
proof (cases "map_of d k")
  case None
  then show ?thesis
    using assms(1) by (simp add: optional_text_def adds_def)
next
  case (Some v)
  then obtain s where "v = JStr s" "s \<noteq> []" "r' = dict_set k (JStr s) r"
    using assms(1) by (cases "nonempty_text v") (simp_all add: optional_text_def invalid_def)
  moreover have "field_ok lib t k (JStr s)" if "s \<noteq> []" for s
    using that assms(2) by (elim disjE conjE) (simp_all add: field_ok_def text_ok_def)
  ultimately show ?thesis
    unfolding adds_def by blast
qed

lemma optional_metadata_ok:
  assumes "optional_metadata d p (t = ''file'') r = Inr r'"
  obtains r1 r2 where "adds lib t ''id'' r r1" "adds lib t ''extras'' r1 r2" "adds lib t ''filename'' r2 r'"
proof -
  obtain r1 r2 where 1: "optional_text d ''id'' ''input_content_part_invalid'' p r = Inr r1"
    and 2: "(case map_of d ''extras'' of
                 None \<Rightarrow> Inr r1
               | Some v \<Rightarrow> bind_res (plain_mapping v (p @ ''.extras'')) (\<lambda>e. Inr (dict_set ''extras'' (JObj e) r1))) = Inr r2"
    and 3: "(if t = ''file'' then optional_text d ''filename'' ''input_content_filename_invalid'' p r2 else Inr r2) = Inr r'"
    using assms by (auto simp: optional_metadata_def bind_res_eq_Inr)
  have "adds lib t ''extras'' r1 r2"
    using 2 by (auto simp: adds_def field_ok_def bind_res_eq_Inr split: option.splits)
  moreover have "adds lib t ''filename'' r2 r'"
    using 3 optional_text_adds [of d "''filename''"] by (auto simp: adds_def split: if_splits)
  ultimately show ?thesis
    using optional_text_adds [OF 1] that by auto
qed

lemma optional_metadata_media:
  assumes r: "fields_ok lib t r" and ok: "optional_metadata d p (t = ''file'') r = Inr r'"
  shows "fields_ok lib t r' \<and> source_keys r' = source_keys r \<and> has_key ''mime_type'' r' = has_key ''mime_type'' r \<and>
    has_key ''base64'' r' = has_key ''base64'' r"
proof -
  obtain r1 r2 where a: "adds lib t ''id'' r r1" "adds lib t ''extras'' r1 r2" "adds lib t ''filename'' r2 r'"
    using optional_metadata_ok [OF ok] .
  have same: "map_of r' k = map_of r k" if "k \<in> {''url'', ''base64'', ''file_id'', ''mime_type''}" for k
  proof -
    have "k \<noteq> ''id''" "k \<noteq> ''extras''" "k \<noteq> ''filename''"
      using that by auto
    then show ?thesis
      using a adds_other by metis
  qed
  then have "has_key k r' = has_key k r" if "k \<in> {''url'', ''base64'', ''file_id'', ''mime_type''}" for k
    using that by (auto simp: has_key_def)
  then show ?thesis
    using a r by (auto simp: source_keys_def dest!: adds_ok)
qed

lemma media_ok_start:
  assumes t: "t \<in> set input_media_types" and r: "fields_ok lib t r" and ok: "optional_metadata d p (t = ''file'') r = Inr r'"
    and one: "length (source_keys r) = 1" and mime: "has_key ''base64'' r \<longrightarrow> has_key ''mime_type'' r"
  shows "media_ok lib t r'"
  using optional_metadata_media [OF r ok] t one mime by (simp add: media_ok_def)

lemma media_source_ok:
  assumes "media_source lib t d p s = Inr r" "s \<in> {''url'', ''base64'', ''file_id''}"
  shows "fields_ok lib t r \<and> source_keys r = [s] \<and> has_key ''mime_type'' r = (s = ''base64'')"
proof -
  consider (url) u where "s = ''url''" "url_ok lib (JStr u)" "r = dict_set s (JStr u) [(''type'', JStr t)]"
    | (ident) u where "s = ''file_id''" "text_ok (JStr u)" "r = dict_set s (JStr u) [(''type'', JStr t)]"
    | (data) m b where "s = ''base64''" "mime_ok t (JStr m)" "data_ok lib (JStr b)"
        "r = dict_set s (JStr b) (dict_set ''mime_type'' (JStr m) [(''type'', JStr t)])"
    using assms unfolding media_source_def Let_def
    by (auto simp: bind_res_eq_Inr invalid_def split: option.splits)
      (metis url_value_ok file_id_ok decode_ok mime_type_ok)+
  then show ?thesis
  proof cases
    case url
    then show ?thesis
      using fields_ok_set [OF fields_ok_start, of lib t s "JStr u"]
      by (simp add: field_ok_def source_keys_def has_key_def)
  next
    case ident
    then show ?thesis
      using fields_ok_set [OF fields_ok_start, of lib t s "JStr u"]
      by (simp add: field_ok_def source_keys_def has_key_def)
  next
    case data
    have "field_ok lib t ''mime_type'' (JStr m)" "field_ok lib t s (JStr b)"
      using data by (simp_all add: field_ok_def)
    then have "fields_ok lib t r"
      using data(4) by (simp only: fields_ok_set fields_ok_start)
    then show ?thesis
      using data by (simp add: source_keys_def has_key_def)
  qed
qed

lemma standard_media_ok:
  assumes t: "t \<in> set input_media_types" and ok: "standard_media_block lib t d p = Inr r"
  shows "media_ok lib t r"
proof -
  obtain s r1 r2 where s: "filter (\<lambda>k. has_key k d) [''url'', ''base64'', ''file_id''] = [s]"
    and 1: "media_source lib t d p s = Inr r1"
    and 2: "(case map_of d ''mime_type'' of
              None \<Rightarrow> Inr r1
            | Some v \<Rightarrow>
                if s = ''base64'' then Inr r1
                else bind_res (mime_type v t (p @ ''.mime_type''))
                       (\<lambda>m. Inr (dict_set ''mime_type'' (JStr m) r1))) = Inr r2"
    and 3: "optional_metadata d p (t = ''file'') r2 = Inr r"
    using ok unfolding standard_media_block_def
    by (auto simp only: bind_res_eq_Inr only_source_Inr)
  have src: "s \<in> {''url'', ''base64'', ''file_id''}"
  proof -
    have "s \<in> set (filter (\<lambda>k. has_key k d) [''url'', ''base64'', ''file_id''])"
      unfolding s by simp
    then show ?thesis
      by (simp only: set_filter mem_Collect_eq list.set)
  qed
  have m: "fields_ok lib t r1" "source_keys r1 = [s]" "has_key ''mime_type'' r1 = (s = ''base64'')"
    using media_source_ok [OF 1 src] by auto
  have "adds lib t ''mime_type'' r1 r2"
  proof (cases "map_of d ''mime_type'' = None \<or> s = ''base64''")
    case True
    then show ?thesis
      using 2 by (auto simp: adds_def split: option.splits)
  next
    case False
    then obtain v where "map_of d ''mime_type'' = Some v" "s \<noteq> ''base64''"
      by (cases "map_of d ''mime_type''") simp_all
    then obtain m where "mime_type v t (p @ ''.mime_type'') = Inr m" "r2 = dict_set ''mime_type'' (JStr m) r1"
      using 2 by (simp add: bind_res_eq_Inr) blast
    then show ?thesis
      using mime_type_ok [of v t "p @ ''.mime_type''" m] by (auto simp: adds_def field_ok_def)
  qed
  note r2 = adds_ok [OF this m(1)] adds_other [OF this] adds_keeps [OF this]
  have same: "map_of r2 k = map_of r1 k" if "k \<in> {''url'', ''base64'', ''file_id''}" for k
    using that by (elim insertE) (simp_all add: r2(2))
  have keys: "source_keys r2 = [s]"
    using source_keys_cong [of r2 r1] same m(2) by (simp add: has_key_def)
  have "has_key ''base64'' r2 \<longrightarrow> has_key ''mime_type'' r2"
  proof
    assume "has_key ''base64'' r2"
    then have "''base64'' \<in> set (source_keys r2)"
      by (simp add: source_keys_def)
    then show "has_key ''mime_type'' r2"
      using keys m(3) r2(3) by simp
  qed
  then show ?thesis
    using media_ok_start [OF t r2(1) 3] keys by simp
qed

lemma media_ok_set:
  assumes "media_ok lib t r" "field_ok lib t k v" "k = ''extras'' \<or> k = ''filename''"
  shows "media_ok lib t (dict_set k v r)"
proof -
  have "k \<noteq> ''url''" "k \<noteq> ''base64''" "k \<noteq> ''file_id''" "k \<noteq> ''mime_type''"
    using assms(3) by auto
  then have same: "has_key k' (dict_set k v r) = has_key k' r"
    if "k' \<in> {''url'', ''base64'', ''file_id'', ''mime_type''}" for k'
    using that by (auto simp: has_key_def dict_get_set)
  have "source_keys (dict_set k v r) = source_keys r"
    by (rule source_keys_cong, rule same) auto
  then show ?thesis
    using assms(1,2) same by (simp add: media_ok_def fields_ok_set)
qed

lemma url_block_ok:
  assumes "t \<in> set input_media_types" "url_ok lib (JStr u)"
  shows "media_ok lib t [(''type'', JStr t), (''url'', JStr u)]"
  using fields_ok_set [OF fields_ok_start, of lib t "''url''" "JStr u"] assms
  by (simp add: media_ok_def source_keys_def has_key_def field_ok_def)

lemma id_block_ok:
  assumes "t \<in> set input_media_types" "text_ok (JStr u)"
  shows "media_ok lib t [(''type'', JStr t), (''file_id'', JStr u)]"
  using fields_ok_set [OF fields_ok_start, of lib t "''file_id''" "JStr u"] assms
  by (simp add: media_ok_def source_keys_def has_key_def field_ok_def)

lemma data_block_ok:
  assumes "t \<in> set input_media_types" "data_ok lib (JStr b)" "mime_ok t (JStr m)"
  shows "media_ok lib t [(''type'', JStr t), (''base64'', JStr b), (''mime_type'', JStr m)]"
proof -
  have "field_ok lib t ''base64'' (JStr b)" "field_ok lib t ''mime_type'' (JStr m)"
    using assms by (simp_all add: field_ok_def)
  then have "fields_ok lib t (dict_set ''mime_type'' (JStr m) (dict_set ''base64'' (JStr b) [(''type'', JStr t)]))"
    by (simp only: fields_ok_set fields_ok_start)
  then show ?thesis
    using assms(1) by (simp add: media_ok_def source_keys_def has_key_def)
qed

lemma image_ok:
  assumes "openai_image_block lib d p = Inr r"
  shows "media_ok lib ''image'' r"
proof -
  obtain image s where s: "image_source lib (mapping_get image ''url'') (p @ ''.image_url.url'') = Inr s"
    and r: "r = s \<or> (\<exists>v. r = s @ [(''extras'', JObj v)])"
    using assms unfolding openai_image_block_def
    by (auto simp: bind_res_eq_Inr invalid_def split: option.splits if_splits)
  have t: "''image'' \<in> set input_media_types"
    by (simp add: input_media_types_def)
  have shape: "media_ok lib ''image'' s \<and> (\<forall>v. s @ [(''extras'', v)] = dict_set ''extras'' v s)"
    using s unfolding image_source_def
    by (auto simp: bind_res_eq_Inr intro: url_block_ok data_block_ok t url_value_ok dest: data_uri_ok
        split: if_splits)
  have "field_ok lib ''image'' ''extras'' (JObj v)" for v
    by (simp add: field_ok_def)
  then show ?thesis
    using r shape media_ok_set by auto
qed

lemma audio_ok:
  assumes "openai_audio_block lib d p = Inr r"
  shows "media_ok lib ''audio'' r"
proof -
  obtain a m b where "audio_mime (mapping_get a ''format'') = Some m"
    "decode_base64 lib (mapping_get a ''data'') (p @ ''.input_audio.data'') = Inr b"
    "r = [(''type'', JStr ''audio''), (''base64'', JStr b), (''mime_type'', JStr m)]"
    using assms unfolding openai_audio_block_def
    by (auto simp: bind_res_eq_Inr invalid_def split: option.splits)
  then show ?thesis
    using audio_mime_ok decode_ok data_block_ok [of "''audio''" lib b m] by (simp add: input_media_types_def)
qed

lemma file_ok:
  assumes "openai_file_block lib d p = Inr r"
  shows "media_ok lib ''file'' r"
proof -
  obtain f s src where s: "file_source lib f p src = Inr s"
    and r: "optional_text f ''filename'' ''input_content_filename_invalid'' (p @ ''.file'') s = Inr r"
    using assms unfolding openai_file_block_def
    by (auto simp only: bind_res_eq_Inr only_source_Inr)
  have t: "''file'' \<in> set input_media_types"
    by (simp add: input_media_types_def)
  have "media_ok lib ''file'' s"
    using s unfolding file_source_def
    by (auto simp: bind_res_eq_Inr intro: id_block_ok data_block_ok t file_id_ok dest: data_uri_ok split: if_splits)
  then show ?thesis
    using optional_text_adds [OF r, of "''file''"] by (auto simp: adds_def intro: media_ok_set)
qed

section \<open>A normal block again\<close>

definition copy_key :: "string \<Rightarrow> block \<Rightarrow> block \<Rightarrow> block" where
  "copy_key k d r = (case map_of d k of None \<Rightarrow> r | Some v \<Rightarrow> dict_set k v r)"

lemma copy_key_get: "map_of (copy_key k d r) k' = (if k' = k \<and> map_of d k \<noteq> None then map_of d k else map_of r k')"
  by (auto simp: copy_key_def dict_get_set split: option.splits)

lemma copy_key_None: "map_of d k' = None \<Longrightarrow> map_of (copy_key k d r) k' = map_of r k'"
  by (auto simp: copy_key_get)

lemma copy_key_Some:
  "map_of d k' = Some v \<Longrightarrow> map_of (copy_key k d r) k' = (if k' = k then Some v else map_of r k')"
  by (auto simp: copy_key_get)

lemma copy_key_wf [simp]: "wf_dict r \<Longrightarrow> wf_dict (copy_key k d r)"
  by (simp add: copy_key_def split: option.splits)

lemma field_okD:
  assumes "fields_ok lib t d" "map_of d k = Some v" "k \<noteq> ''type''"
  shows "field_ok lib t k v"
  using assms unfolding fields_ok_def by blast

lemma optional_text_again:
  assumes "\<And>v. map_of d k = Some v \<Longrightarrow> text_ok v"
  shows "optional_text d k c p r = Inr (copy_key k d r)"
  using assms by (auto simp: optional_text_def copy_key_def text_ok_def split: option.splits)

lemma optional_metadata_again:
  assumes d: "fields_ok lib t d"
  shows "optional_metadata d p (t = ''file'') r =
    Inr (copy_key ''filename'' d (copy_key ''extras'' d (copy_key ''id'' d r)))"
proof -
  have i: "text_ok v" if "map_of d ''id'' = Some v" for v
    using field_okD [OF d that] by (simp add: field_ok_def)
  have e: "\<exists>x. v = JObj x" if "map_of d ''extras'' = Some v" for v
    using field_okD [OF d that] by (simp add: field_ok_def)
  have f: "t = ''file'' \<and> text_ok v" if "map_of d ''filename'' = Some v" for v
    using field_okD [OF d that] by (simp add: field_ok_def)
  have extras: "(case map_of d ''extras'' of
             None \<Rightarrow> Inr r'
           | Some v \<Rightarrow> bind_res (plain_mapping v (p @ ''.extras'')) (\<lambda>x. Inr (dict_set ''extras'' (JObj x) r'))) =
         Inr (copy_key ''extras'' d r')" for r'
    using e by (auto simp: copy_key_def plain_mapping_def split: option.splits)
  have name: "(if t = ''file'' then optional_text d ''filename'' ''input_content_filename_invalid'' p r' else Inr r') =
         Inr (copy_key ''filename'' d r')" for r'
  proof (cases "map_of d ''filename''")
    case None
    then show ?thesis
      by (simp add: optional_text_def copy_key_def)
  next
    case (Some v)
    then show ?thesis
      using f optional_text_again [of d "''filename''"] by simp
  qed
  show ?thesis
    unfolding optional_metadata_def extras name by (simp add: optional_text_again [OF i])
qed

lemma fields_known:
  assumes "fields_ok lib t d"
  shows "only_keys d (media_fields t) p = Inr ()"
proof -
  have "k \<in> set (media_fields t)" if "k \<in> set (map fst d)" for k
  proof -
    have "map_of d k \<noteq> None"
      using that by (simp add: map_of_eq_None_iff)
    then obtain v where v: "map_of d k = Some v"
      by blast
    show ?thesis
    proof (cases "k = ''type''")
      case False
      then have "field_ok lib t k v"
        using field_okD [OF assms v] by simp
      then show ?thesis
        unfolding field_ok_def media_fields_def by (elim disjE) simp_all
    qed (simp add: media_fields_def)
  qed
  then have "filter (\<lambda>k. k \<notin> set (media_fields t)) (map fst d) = []"
    unfolding filter_empty_conv by blast
  then show ?thesis
    unfolding only_keys_def by (simp add: sort_by_def)
qed

lemma source_cases:
  assumes "length (source_keys d) = 1"
  obtains s where "source_keys d = [s]" "s = ''url'' \<or> s = ''base64'' \<or> s = ''file_id''" "has_key s d"
    "\<And>k. k = ''url'' \<or> k = ''base64'' \<or> k = ''file_id'' \<Longrightarrow> k \<noteq> s \<Longrightarrow> map_of d k = None"
proof -
  obtain s where s: "source_keys d = [s]"
    using assms by (cases "source_keys d") auto
  have iff: "k \<in> set (source_keys d) \<longleftrightarrow> (k = ''url'' \<or> k = ''base64'' \<or> k = ''file_id'') \<and> has_key k d" for k
    by (simp only: source_keys_def set_filter mem_Collect_eq list.set insert_iff empty_iff simp_thms)
  have "map_of d k = None" if "k = ''url'' \<or> k = ''base64'' \<or> k = ''file_id''" "k \<noteq> s" for k
    using iff [of k] that by (simp add: s has_key_def)
  then show ?thesis
    using that [of s] s iff [of s] by simp
qed

lemma media_source_again:
  assumes d: "fields_ok lib t d" and s: "s = ''url'' \<or> s = ''base64'' \<or> s = ''file_id''" "has_key s d"
    and mime: "s = ''base64'' \<longrightarrow> has_key ''mime_type'' d"
  shows "media_source lib t d p s =
    Inr (copy_key s d (if s = ''base64'' then copy_key ''mime_type'' d [(''type'', JStr t)] else [(''type'', JStr t)]))"
proof -
  obtain v where v: "map_of d s = Some v"
    using s(2) by (auto simp: has_key_def)
  then have ok: "field_ok lib t s v" and get: "mapping_get d s = v"
    using s(1) field_okD [OF d v] by (auto simp: mapping_get_def)
  have start: "copy_key s d r = dict_set s v r" for r
    using v by (simp add: copy_key_def)
  consider "s = ''url''" | "s = ''file_id''" | "s = ''base64''"
    using s(1) by blast
  then show ?thesis
  proof cases
    case 1
    then show ?thesis
      using ok get start by (auto simp: field_ok_def url_ok_def media_source_def)
  next
    case 2
    then show ?thesis
      using ok get start by (auto simp: field_ok_def text_ok_def media_source_def file_id_value_def)
  next
    case 3
    then obtain w where w: "map_of d ''mime_type'' = Some w"
      using mime by (auto simp: has_key_def)
    then have "mime_ok t w"
      using field_okD [OF d w] by (simp add: field_ok_def)
    then show ?thesis
      using 3 w ok get start
      by (auto simp: field_ok_def data_ok_def mime_ok_def media_source_def decode_base64_def copy_key_def)
  qed
qed

lemma standard_media_again:
  assumes "media_ok lib t d"
  obtains r where "standard_media_block lib t d p = Inr r" "wf_dict r" "map_of r = map_of d"
proof -
  have d: "fields_ok lib t d" and one: "length (source_keys d) = 1"
    and mime: "has_key ''base64'' d \<longrightarrow> has_key ''mime_type'' d"
    using assms by (simp_all add: media_ok_def)
  obtain s where s: "source_keys d = [s]" "s = ''url'' \<or> s = ''base64'' \<or> s = ''file_id''" "has_key s d"
    and other: "\<And>k. k = ''url'' \<or> k = ''base64'' \<or> k = ''file_id'' \<Longrightarrow> k \<noteq> s \<Longrightarrow> map_of d k = None"
    by (rule source_cases [OF one]) blast
  define r1 where "r1 = copy_key s d (if s = ''base64'' then copy_key ''mime_type'' d [(''type'', JStr t)] else [(''type'', JStr t)])"
  define r2 where "r2 = (if s = ''base64'' then r1 else copy_key ''mime_type'' d r1)"
  define r where "r = copy_key ''filename'' d (copy_key ''extras'' d (copy_key ''id'' d r2))"
  have m: "mime_ok t v" if "map_of d ''mime_type'' = Some v" for v
    using field_okD [OF d that] by (simp add: field_ok_def)
  have 1: "media_source lib t d p s = Inr r1"
    unfolding r1_def using s mime by (intro media_source_again [OF d]) auto
  have 2: "(case map_of d ''mime_type'' of
               None \<Rightarrow> Inr r1
             | Some v \<Rightarrow>
                 if s = ''base64'' then Inr r1
                 else bind_res (mime_type v t (p @ ''.mime_type'')) (\<lambda>m. Inr (dict_set ''mime_type'' (JStr m) r1))) = Inr r2"
    using m by (auto simp: r2_def copy_key_def mime_ok_def split: option.splits)
  have src: "filter (\<lambda>k. has_key k d) [''url'', ''base64'', ''file_id''] = [s]"
    using s(1) unfolding source_keys_def .
  have run: "standard_media_block lib t d p = Inr r"
    unfolding standard_media_block_def fields_known [OF d] src bind_res_simps list.case 1 2
      optional_metadata_again [OF d] r_def ..
  have "wf_dict r"
    by (simp add: r_def r2_def r1_def wf_dict_def [of "[_]"])
  moreover have "map_of r k = map_of d k" for k
  proof (cases "map_of d k")
    case None
    then have "k \<noteq> ''type''"
      using d by (auto simp: fields_ok_def)
    then show ?thesis
      using None by (simp add: r_def r2_def r1_def copy_key_None)
  next
    case (Some v)
    show ?thesis
    proof (cases "k = ''type''")
      case True
      then show ?thesis
        using d s(2) Some by (simp add: r_def r2_def r1_def copy_key_Some fields_ok_def)
    next
      case False
      have "(k = ''url'' \<or> k = ''base64'' \<or> k = ''file_id'') \<or>
          k = ''mime_type'' \<or> k = ''id'' \<or> k = ''extras'' \<or> k = ''filename''"
        using field_okD [OF d Some False] unfolding field_ok_def by (elim disjE conjE) simp_all
      moreover have "k = s" if "k = ''url'' \<or> k = ''base64'' \<or> k = ''file_id''"
      proof (rule ccontr)
        assume "k \<noteq> s"
        then have "map_of d k = None"
          by (rule other [OF that])
        then show False
          unfolding Some by (rule option.distinct(2) [THEN notE])
      qed
      ultimately consider "k = s" | "k = ''mime_type''" | "k = ''id'' \<or> k = ''extras'' \<or> k = ''filename''"
        by argo
      then have "map_of r k = Some v"
      proof cases
        case 1
        have "map_of r1 k = Some v"
          unfolding r1_def 1 [symmetric] by (subst copy_key_Some [OF Some]) (simp only: simp_thms if_True)
        then show ?thesis
          by (simp add: r_def r2_def copy_key_Some [OF Some])
      next
        case 2
        then have "map_of r2 k = Some v"
          by (simp add: r2_def r1_def copy_key_Some [OF Some [unfolded 2]])
        then show ?thesis
          by (simp add: r_def copy_key_Some [OF Some])
      next
        case 3
        then show ?thesis
          by (auto simp: r_def copy_key_Some [OF Some])
      qed
      then show ?thesis
        using Some by simp
    qed
  qed
  ultimately show ?thesis
    using run that by blast
qed

section \<open>Parts and messages\<close>

text \<open>What a client part becomes: a text block, or a media block with one source, each field of its kind.\<close>

definition absolute_url :: "input_library \<Rightarrow> string \<Rightarrow> bool" where
  "absolute_url lib u \<longleftrightarrow>
     (case split_url lib u of
        None \<Rightarrow> False
      | Some p \<Rightarrow> up_scheme p \<in> {''http'', ''https''} \<and> up_netloc p \<noteq> [] \<and>
                  up_username p = None \<and> up_password p = None)"

definition media_field :: "input_library \<Rightarrow> string \<Rightarrow> string \<Rightarrow> json \<Rightarrow> bool" where
  "media_field lib t k v =
     (case v of
        JStr s \<Rightarrow>
          (if k = ''type'' then s = t
           else if k = ''url'' then absolute_url lib s
           else if k = ''base64'' then base64_decodes lib s
           else if k = ''mime_type'' then mime_pattern s \<and> (t = ''file'' \<or> starts_with (t @ ''/'') s)
           else k = ''file_id'' \<or> k = ''id'' \<or> k = ''filename'' \<and> t = ''file'')
      | JObj d \<Rightarrow> k = ''extras''
      | _ \<Rightarrow> False)"

definition media_part :: "input_library \<Rightarrow> block \<Rightarrow> bool" where
  "media_part lib d \<longleftrightarrow>
     (case mapping_get d ''type'' of
        JStr t \<Rightarrow>
          t \<in> set input_media_types \<and> list_all (\<lambda>(k, v). media_field lib t k v) d \<and>
          length (filter (\<lambda>k. has_key k d) [''url'', ''base64'', ''file_id'']) = 1 \<and>
          (has_key ''base64'' d \<longrightarrow> has_key ''mime_type'' d)
      | _ \<Rightarrow> False)"

definition text_part :: "block \<Rightarrow> bool" where
  "text_part d \<longleftrightarrow>
     (case mapping_get d ''text'' of
        JStr s \<Rightarrow> d = [(''type'', JStr ''text''), (''text'', JStr s)]
      | _ \<Rightarrow> False)"

lemma text_part_iff: "text_part d \<longleftrightarrow> (\<exists>s. d = [(''type'', JStr ''text''), (''text'', JStr s)])"
  by (auto simp: text_part_def mapping_get_def split: json.splits)

lemma url_ok_absolute: "url_ok lib (JStr u) \<Longrightarrow> absolute_url lib u"
proof -
  assume "url_ok lib (JStr u)"
  then have "url_value lib (JStr u) [] = Inr u"
    by (auto simp: url_ok_def)
  then show ?thesis
    by (cases u; cases "split_url lib u") (auto simp: url_value_def absolute_url_def invalid_def split: if_splits)
qed

lemma mime_ok_family: "mime_ok t (JStr m) \<Longrightarrow> mime_pattern m \<and> (t = ''file'' \<or> starts_with (t @ ''/'') m)"
  by (auto simp: mime_ok_def mime_type_def Let_def invalid_def split: if_splits)

lemma mime_ok_text: "mime_ok t v \<Longrightarrow> \<exists>m. v = JStr m \<and> mime_pattern m \<and> (t = ''file'' \<or> starts_with (t @ ''/'') m)"
  using mime_ok_family [of t] by (auto simp: mime_ok_def)

lemma field_ok_media:
  assumes "field_ok lib t k v"
  shows "media_field lib t k v"
  using assms unfolding field_ok_def
  by (elim disjE conjE exE)
    (auto simp: media_field_def url_ok_absolute data_ok_def text_ok_def url_ok_def
      dest: mime_ok_text)

lemma media_ok_part:
  assumes "media_ok lib t d"
  shows "media_part lib d"
proof -
  have d: "fields_ok lib t d"
    using assms by (simp add: media_ok_def)
  have t: "map_of d ''type'' = Some (JStr t)" "wf_dict d"
    using d by (auto simp: fields_ok_def)
  have "media_field lib t k v" if "(k, v) \<in> set d" for k v
  proof -
    have v: "map_of d k = Some v"
      using that t(2) by (simp add: wf_dict_def)
    show ?thesis
    proof (cases "k = ''type''")
      case True
      then have "v = JStr t"
        using v t(1) by simp
      then show ?thesis
        using True by (simp add: media_field_def)
    next
      case False
      then show ?thesis
        using field_okD [OF d v] field_ok_media by blast
    qed
  qed
  then have "list_all (\<lambda>(k, v). media_field lib t k v) d"
    by (auto simp: list_all_iff)
  then show ?thesis
    using assms t(1) unfolding media_ok_def media_part_def source_keys_def mapping_get_def by simp
qed

lemma content_part_ok:
  assumes "content_part lib v p = Inr r"
  shows "text_part r \<or> (\<exists>t. media_ok lib t r)"
proof -
  obtain d where d: "v = JObj d"
    using assms by (cases v) (simp_all add: content_part_def plain_mapping_def invalid_def)
  let ?t = "mapping_get d ''type''"
  consider (plain) "?t = JStr ''text''" | (img) "?t = JStr ''image_url''" | (aud) "?t = JStr ''input_audio''"
    | (fil) "?t = JStr ''file''" "has_key ''file'' d"
    | (other) "?t \<noteq> JStr ''text''" "?t \<noteq> JStr ''image_url''" "?t \<noteq> JStr ''input_audio''"
        "\<not> (?t = JStr ''file'' \<and> has_key ''file'' d)"
    by blast
  then show ?thesis
  proof cases
    case plain
    then show ?thesis
      using assms unfolding d
      by (auto simp: content_part_def plain_mapping_def bind_res_eq_Inr invalid_def text_part_iff split: json.splits)
  next
    case img
    then have "openai_image_block lib d p = Inr r"
      using assms by (simp add: d content_part_def plain_mapping_def)
    then show ?thesis
      using image_ok by blast
  next
    case aud
    then have "openai_audio_block lib d p = Inr r"
      using assms by (simp add: d content_part_def plain_mapping_def)
    then show ?thesis
      using audio_ok by blast
  next
    case fil
    then have "openai_file_block lib d p = Inr r"
      using assms by (simp add: d content_part_def plain_mapping_def)
    then show ?thesis
      using file_ok by blast
  next
    case other
    then have run: "bind_res (text_in input_media_types ?t) (\<lambda>known.
       if known then standard_media_block lib (case json_str ?t of None \<Rightarrow> [] | Some t \<Rightarrow> t) d p
       else invalid ''input_content_part_unsupported'' (p @ ''.type is not a supported input content block.'')) = Inr r"
      using assms unfolding d content_part_def plain_mapping_def Let_def json.case bind_res_simps by (simp only: if_False)
    then obtain t where "?t = JStr t" "t \<in> set input_media_types"
      by (cases ?t) (auto simp: text_in_def invalid_def split: if_splits)
    moreover from this have "standard_media_block lib t d p = Inr r"
      using run by (simp add: text_in_def)
    ultimately show ?thesis
      using standard_media_ok by blast
  qed
qed

lemma media_part_again:
  assumes "media_ok lib t d"
  obtains r where "content_part lib (JObj d) p = Inr r" "wf_dict r" "map_of r = map_of d"
proof -
  obtain r where r: "standard_media_block lib t d p = Inr r" "wf_dict r" "map_of r = map_of d"
    using standard_media_again [OF assms] .
  have d: "fields_ok lib t d" and t: "t \<in> set input_media_types"
    using assms by (simp_all add: media_ok_def)
  then have get: "mapping_get d ''type'' = JStr t"
    by (simp add: fields_ok_def mapping_get_def)
  have "\<not> has_key ''file'' d"
  proof
    assume "has_key ''file'' d"
    then obtain v where "map_of d ''file'' = Some v"
      by (auto simp: has_key_def)
    then have "field_ok lib t ''file'' v"
      using field_okD [OF d] by simp
    then show False
      by (simp add: field_ok_def)
  qed
  moreover have "t \<noteq> ''text''" "t \<noteq> ''image_url''" "t \<noteq> ''input_audio''"
    using t by (auto simp: input_media_types_def)
  ultimately have "content_part lib (JObj d) p = standard_media_block lib t d p"
    using t by (simp add: content_part_def plain_mapping_def get text_in_def Let_def)
  then show ?thesis
    using r that by simp
qed

lemma text_part_again: "text_part d \<Longrightarrow> content_part lib (JObj d) p = Inr d"
  by (auto simp: text_part_iff content_part_def plain_mapping_def only_keys_def sort_by_def mapping_get_def)

lemma content_part_again:
  assumes "content_part lib v p = Inr r"
  obtains r' where "content_part lib (JObj r) p' = Inr r'" "mapping_get r' ''type'' = mapping_get r ''type''" "set r' = set r"
proof (cases "text_part r")
  case True
  then show ?thesis
    using text_part_again that by blast
next
  case False
  then obtain t where t: "media_ok lib t r"
    using content_part_ok [OF assms] by blast
  obtain r' where r': "content_part lib (JObj r) p' = Inr r'" "wf_dict r'" "map_of r' = map_of r"
    using media_part_again [OF t] .
  moreover have "wf_dict r"
    using t by (simp add: media_ok_def fields_ok_def)
  ultimately have "set r' = set r"
    unfolding wf_dict_def by (metis map_of_inject_set)
  then show ?thesis
    using r' that by (simp add: mapping_get_def)
qed

text \<open>The blocks of a message, in order; equality of dictionaries does not depend on their order.\<close>

fun normal_parts :: "input_library \<Rightarrow> string \<Rightarrow> json list \<Rightarrow> bool" where
  "normal_parts lib role [] = True"
| "normal_parts lib role (JObj d # ds) = ((text_part d \<or> role \<noteq> ''system'' \<and> media_part lib d) \<and> normal_parts lib role ds)"
| "normal_parts lib role (_ # ds) = False"

fun same_parts :: "json list \<Rightarrow> json list \<Rightarrow> bool" where
  "same_parts [] [] = True"
| "same_parts (JObj d # ds) (JObj e # es) = (set d = set e \<and> same_parts ds es)"
| "same_parts _ _ = False"

fun same_content :: "json \<Rightarrow> json \<Rightarrow> bool" where
  "same_content (JStr s) (JStr t) = (s = t)"
| "same_content (JList ds) (JList es) = same_parts ds es"
| "same_content _ _ = False"

lemma content_parts_normal:
  assumes "content_parts lib role p j vs = Inr ds"
  shows "normal_parts lib role ds"
  using assms
proof (induction vs arbitrary: j ds)
  case (Cons v vs)
  then obtain d es where d: "content_part lib v (index_path (p @ ''.content'') j) = Inr d"
    and t: "\<not> (role = ''system'' \<and> mapping_get d ''type'' \<noteq> JStr ''text'')"
    and es: "content_parts lib role p (j + 1) vs = Inr es" "ds = JObj d # es"
    by (auto simp: Let_def bind_res_eq_Inr invalid_def split: if_splits)
  have "role \<noteq> ''system''" if "media_ok lib t d" for t
  proof
    assume "role = ''system''"
    then have "mapping_get d ''type'' = JStr ''text''"
      using t by blast
    then show False
      using that by (auto simp: media_ok_def fields_ok_def mapping_get_def input_media_types_def)
  qed
  then show ?case
    using content_part_ok [OF d] media_ok_part Cons.IH [OF es(1)] es(2) by auto
qed simp

lemma content_parts_again:
  assumes "content_parts lib role p j vs = Inr ds"
  shows "\<exists>es. content_parts lib role p' j' ds = Inr es \<and> same_parts ds es"
  using assms
proof (induction vs arbitrary: j j' ds)
  case (Cons v vs)
  then obtain d es where d: "content_part lib v (index_path (p @ ''.content'') j) = Inr d"
    and t: "\<not> (role = ''system'' \<and> mapping_get d ''type'' \<noteq> JStr ''text'')"
    and es: "content_parts lib role p (j + 1) vs = Inr es" "ds = JObj d # es"
    by (auto simp: Let_def bind_res_eq_Inr invalid_def split: if_splits)
  obtain fs where fs: "content_parts lib role p' (j' + 1) es = Inr fs" "same_parts es fs"
    using Cons.IH [OF es(1)] by blast
  obtain d' where d': "content_part lib (JObj d) (index_path (p' @ ''.content'') j') = Inr d'"
      "mapping_get d' ''type'' = mapping_get d ''type''" "set d' = set d"
    using content_part_again [OF d] .
  have "content_parts lib role p' j' ds = Inr (JObj d' # fs)"
    unfolding es(2) content_parts.simps Let_def d'(1,2) bind_res_simps if_not_P [OF t] fs(1) ..
  then show ?case
    using d'(3) fs(2) es(2) by simp
qed simp

definition normal_message :: "input_library \<Rightarrow> block \<Rightarrow> bool" where
  "normal_message lib m \<longleftrightarrow>
     (case (mapping_get m ''role'', mapping_get m ''content'') of
        (JStr role, content) \<Rightarrow>
          role \<in> set [''system'', ''user'', ''assistant''] \<and> mapping_get m ''name'' \<noteq> JStr [] \<and>
          (case content of JStr s \<Rightarrow> True | JList ds \<Rightarrow> normal_parts lib role ds | _ \<Rightarrow> False)
      | _ \<Rightarrow> False)"

definition same_message :: "block \<Rightarrow> block \<Rightarrow> bool" where
  "same_message a b \<longleftrightarrow>
     map fst a = map fst b \<and> mapping_get a ''role'' = mapping_get b ''role'' \<and>
     mapping_get a ''name'' = mapping_get b ''name'' \<and>
     same_content (mapping_get a ''content'') (mapping_get b ''content'')"

text \<open>The two shapes of a validated message: without and with a name.\<close>

definition message_of :: "string \<Rightarrow> json \<Rightarrow> string option \<Rightarrow> block" where
  "message_of role content name =
     [(''role'', JStr role), (''content'', content)] @ (case name of None \<Rightarrow> [] | Some n \<Rightarrow> [(''name'', JStr n)])"

lemma message_of_get [simp]:
  "mapping_get (message_of role content name) ''role'' = JStr role"
  "mapping_get (message_of role content name) ''content'' = content"
  "mapping_get (message_of role content name) ''name'' = (case name of None \<Rightarrow> JNull | Some n \<Rightarrow> JStr n)"
  by (simp_all add: message_of_def mapping_get_def split: option.splits)

lemma message_of_keys: "only_keys (message_of role content name) [''role'', ''content'', ''name''] p = Inr ()"
  by (simp add: message_of_def only_keys_def sort_by_def split: option.splits)

definition known_roles :: "string list" where
  "known_roles = [''system'', ''user'', ''assistant'']"

lemma validate_messageD:
  assumes "validate_message lib i raw = Inr m"
  obtains role content name c where "m = message_of role content name" "role \<in> set known_roles" "name \<noteq> Some []"
    "message_content lib role (index_path ''messages'' i) c = Inr content"
proof -
  obtain item where raw: "raw = JObj item"
    using assms by (cases raw) (simp_all add: validate_message_def invalid_def Let_def)
  let ?p = "index_path ''messages'' i"
  obtain known where k: "text_in [''system'', ''user'', ''assistant''] (mapping_get item ''role'') = Inr known" "known"
    using assms unfolding raw validate_message_def Let_def
    by (auto simp: bind_res_eq_Inr invalid_def split: if_splits)
  then obtain role where role: "mapping_get item ''role'' = JStr role" "role \<in> set known_roles"
    by (cases "mapping_get item ''role''") (simp_all add: text_in_def known_roles_def)
  have in_roles: "text_in [''system'', ''user'', ''assistant''] (JStr role) = Inr True"
    using k unfolding role(1) by simp
  obtain content where c: "message_content lib role ?p (mapping_get item ''content'') = Inr content"
    and rest: "(if mapping_get item ''name'' = JNull then Inr [(''role'', JStr role), (''content'', content)]
         else case nonempty_text (mapping_get item ''name'') of
             None \<Rightarrow> invalid ''input_message_name_invalid'' (?p @ ''.name must be a non-empty string.'')
           | Some n \<Rightarrow> Inr ([(''role'', JStr role), (''content'', content)] @ [(''name'', JStr n)])) = Inr m"
    using assms unfolding raw validate_message_def Let_def json.case role(1) in_roles json_str.simps option.case
      bind_res_simps
    by (auto simp only: bind_res_eq_Inr simp_thms if_False)
  have "\<exists>name. m = message_of role content name \<and> name \<noteq> Some []"
  proof (cases "mapping_get item ''name'' = JNull")
    case True
    then show ?thesis
      using rest by (intro exI [of _ None]) (simp add: message_of_def)
  next
    case False
    then obtain n where "nonempty_text (mapping_get item ''name'') = Some n"
      "m = [(''role'', JStr role), (''content'', content)] @ [(''name'', JStr n)]"
      using rest by (auto simp: invalid_def split: option.splits)
    then show ?thesis
      by (intro exI [of _ "Some n"]) (simp add: message_of_def)
  qed
  then show ?thesis
    using that role(2) c by blast
qed

lemma message_content_normal:
  assumes "message_content lib role p c = Inr content"
  shows "case content of JStr s \<Rightarrow> True | JList ds \<Rightarrow> normal_parts lib role ds | _ \<Rightarrow> False"
  using assms by (cases c) (auto simp: message_content_def invalid_def bind_res_eq_Inr content_parts_normal)

lemma message_content_again:
  assumes "message_content lib role p c = Inr content"
  shows "\<exists>content'. message_content lib role p' content = Inr content' \<and> same_content content content'"
  using assms content_parts_again [of lib role p 0 _ _ p' 0]
  by (cases c) (fastforce simp: message_content_def invalid_def bind_res_eq_Inr)+

lemma validate_message_again:
  assumes "validate_message lib i raw = Inr m"
  shows "normal_message lib m \<and> (\<exists>m'. validate_message lib j (JObj m) = Inr m' \<and> same_message m m')"
proof -
  obtain role content name c where m: "m = message_of role content name" "role \<in> set known_roles" "name \<noteq> Some []"
    and c: "message_content lib role (index_path ''messages'' i) c = Inr content"
    using validate_messageD [OF assms] .
  obtain content' where c': "message_content lib role (index_path ''messages'' j) content = Inr content'"
      "same_content content content'"
    using message_content_again [OF c] by blast
  have known: "text_in [''system'', ''user'', ''assistant''] (JStr role) = Inr True"
    using m(2) by (simp add: text_in_def known_roles_def)
  have "validate_message lib j (JObj m) = Inr (message_of role content' name)"
    unfolding validate_message_def Let_def json.case m(1) message_of_keys message_of_get known bind_res_simps
      json_str.simps option.case c'(1)
    using m(3) by (cases name) (simp_all add: message_of_def)
  moreover have "same_message m (message_of role content' name)"
    using c'(2) unfolding same_message_def m(1) message_of_get by (simp add: message_of_def split: option.splits)
  moreover have "normal_message lib m"
    using message_content_normal [OF c] m(2,3)
    unfolding normal_message_def m(1) message_of_get by (cases name) (simp_all add: known_roles_def)
  ultimately show ?thesis
    by blast
qed

lemma validate_each_again:
  assumes "validate_each lib i raws = Inr ms"
  shows "list_all (normal_message lib) ms \<and>
    (\<exists>ms'. validate_each lib j (map JObj ms) = Inr ms' \<and> list_all2 same_message ms ms')"
  using assms
proof (induction raws arbitrary: i j ms)
  case (Cons raw raws)
  then obtain m ns where m: "validate_message lib i raw = Inr m" and ns: "validate_each lib (i + 1) raws = Inr ns"
    and ms: "ms = m # ns"
    by (auto simp: bind_res_eq_Inr)
  obtain m' where m': "normal_message lib m" "validate_message lib j (JObj m) = Inr m'" "same_message m m'"
    using validate_message_again [OF m] by blast
  obtain ns' where "list_all (normal_message lib) ns" "validate_each lib (j + 1) (map JObj ns) = Inr ns'"
      "list_all2 same_message ns ns'"
    using Cons.IH [OF ns, of "j + 1"] by blast
  then show ?case
    using m' by (simp add: ms)
qed simp

section \<open>Validated messages\<close>

text \<open>A library: base64 texts of whole groups of the alphabet, URLs without user information.\<close>

definition demo_input :: input_library where
  "demo_input =
     \<lparr>base64_decodes = (\<lambda>s. length s mod 4 = 0 \<and> list_all alnum_char s),
      split_url = (\<lambda>s.
        if starts_with ''https://'' s then Some \<lparr>up_scheme = ''https'', up_netloc = drop 8 s, up_username = None, up_password = None\<rparr>
        else if starts_with ''['' s then None
        else Some \<lparr>up_scheme = [], up_netloc = [], up_username = None, up_password = None\<rparr>)\<rparr>"

definition demo_image_part :: json where
  "demo_image_part =
     JObj [(''type'', JStr ''image_url''),
           (''image_url'', JObj [(''url'', JStr ''data:Image/PNG;base64,AAAA''), (''detail'', JStr ''low'')])]"

definition demo_messages :: "json list" where
  "demo_messages =
     [JObj [(''role'', JStr ''system''), (''content'', JStr ''be brief'')],
      JObj [(''name'', JStr ''ann''), (''role'', JStr ''user''),
            (''content'', JList [JObj [(''type'', JStr ''text''), (''text'', JStr ''look'')], demo_image_part])]]"

definition demo_validated :: "block list" where
  "demo_validated =
     [[(''role'', JStr ''system''), (''content'', JStr ''be brief'')],
      [(''role'', JStr ''user''),
       (''content'', JList
          [JObj [(''type'', JStr ''text''), (''text'', JStr ''look'')],
           JObj [(''type'', JStr ''image''), (''base64'', JStr ''AAAA''), (''mime_type'', JStr ''image/png''),
                 (''extras'', JObj [(''detail'', JStr ''low'')])]]),
       (''name'', JStr ''ann'')]]"

lemma demo_messages_validate: "validate_client_messages demo_input (JList demo_messages) = Inr demo_validated"
  by code_simp

text \<open>
  C16: the messages that \<open>validate_client_messages\<close> (or \<open>validate_prepared_messages\<close>) returns are in
  the standard form - a known role, a nonempty name if any, text or standard blocks, each media block
  with one source whose URL is absolute, whose MIME type is normalised and in the family of the block,
  and no media in a system message - and a second validation accepts them and changes nothing but the
  order of the fields.
\<close>

theorem validated_messages_stable:
  assumes "validate_messages lib v nonempty = Inr ms"
  shows "list_all (normal_message lib) ms \<and>
    (\<exists>ms'. validate_messages lib (JList (map JObj ms)) nonempty = Inr ms' \<and> list_all2 same_message ms ms')"
proof -
  obtain items where v: "v = JList items" "\<not> (nonempty \<and> items = [])" "validate_each lib 0 items = Inr ms"
    using assms by (cases v) (auto simp: validate_messages_def invalid_def split: if_splits)
  have "ms = [] \<longleftrightarrow> items = []"
    using v(3) by (cases items) (auto simp: bind_res_eq_Inr)
  then have "validate_messages lib (JList (map JObj ms)) nonempty = validate_each lib 0 (map JObj ms)"
    using v(2) by (auto simp: validate_messages_def)
  then show ?thesis
    using validate_each_again [OF v(3)] by simp
qed

theorem validated_messages_stable_witness:
  "list_all (normal_message demo_input) demo_validated \<and>
   (\<exists>ms'. validate_messages demo_input (JList (map JObj demo_validated)) True = Inr ms' \<and>
      list_all2 same_message demo_validated ms')"
  by (rule validated_messages_stable [OF demo_messages_validate [unfolded validate_client_messages_def]])

text \<open>
  A role that is a list or a mapping is looked up in a set: the request raises \<open>TypeError\<close>, not the
  422 of an unsupported role.
\<close>

theorem unhashable_role_raises:
  "validate_client_messages lib (JList (JObj [(''role'', JList roles), (''content'', content)] # raws)) = Inl Type_raised"
  by (simp add: validate_client_messages_def validate_messages_def validate_message_def only_keys_def sort_by_def
      mapping_get_def text_in_def Let_def)

text \<open>A part whose type is a list raises too, before any field is checked.\<close>

theorem unhashable_type_raises:
  "content_part lib (JObj [(''type'', JList types)]) path = Inl Type_raised"
  by (simp add: content_part_def plain_mapping_def mapping_get_def text_in_def)

end
